(* ===== verification/Prelude.thy ===== *)
theory Prelude
  imports Main "HOL-Library.Word"
begin

text \<open>
  Shared vocabulary of the development: bytes and the platform's \<open>size_t\<close> arithmetic, the
  named collections that the component theories feed, and the generic list facts that more
  than one component uses. The platform is the one the library is built for: 64-bit
  \<open>size_t\<close>, 8-bit \<open>char\<close>.
\<close>

section \<open>Shared types and collections\<close>

type_synonym byte = "8 word"

named_theorems buf_defs "definitions of the buffer operations, for evaluation"
named_theorems codec_defs "definitions of the serializers and deserializers, for evaluation"

text \<open>
  The result of code that may index outside an object. Such an access is undefined behaviour in
  the source; the model makes it a value of its own, so that its absence is something to prove.
\<close>

datatype 'a access = Defined 'a | OutOfBounds

lemma map_access_eq_Defined [simp]: "map_access f a = Defined y \<longleftrightarrow> (\<exists>x. a = Defined x \<and> f x = y)"
  by (cases a) auto

text \<open>The values of \<open>std::errc\<close> that the components store in a \<open>std::error_code\<close>.\<close>

datatype errc =
    no_buffer_space
  | invalid_argument
  | resource_unavailable_try_again
  | operation_in_progress
  | connection_reset
  | errno_value nat

section \<open>Arithmetic of \<open>size_t\<close>\<close>

text \<open>\<open>std::numeric_limits<size_t>::max()\<close>, and \<open>+\<close> and \<open>-\<close> on \<open>size_t\<close>, which wrap around.\<close>

definition SIZE_MAX :: nat where
  "SIZE_MAX = 2 ^ 64 - 1"

definition uadd64 :: "nat \<Rightarrow> nat \<Rightarrow> nat" where
  "uadd64 a b = (a + b) mod 2 ^ 64"

definition usub64 :: "nat \<Rightarrow> nat \<Rightarrow> nat" where
  "usub64 a b = nat ((int a - int b) mod 2 ^ 64)"

lemma usub64_le: "b \<le> a \<Longrightarrow> a - b < 2 ^ 64 \<Longrightarrow> usub64 a b = a - b"
  by (simp add: usub64_def nat_mod_distrib nat_diff_distrib)

lemma usub64_self [simp]: "usub64 a a = 0"
  by (simp add: usub64_def)

lemma usub64_0 [simp]: "a < 2 ^ 64 \<Longrightarrow> usub64 a 0 = a"
  by (simp add: usub64_le)

lemma usub64_wrap:
  assumes "a < b" and "b - a < 2 ^ 64"
  shows "usub64 a b = 2 ^ 64 - (b - a)"
proof -
  define d where "d = b - a"
  have d: "0 < d" "d < 2 ^ 64" "int a - int b = - int d" using assms by (auto simp: d_def)
  have "- int d mod 2 ^ 64 = (- int d + 2 ^ 64) mod 2 ^ 64"
    by (simp only: mod_add_self2)
  also have "\<dots> = - int d + 2 ^ 64"
    by (rule mod_pos_pos_trivial) (use d in auto)
  finally have "(int a - int b) mod 2 ^ 64 = int (2 ^ 64 - d)"
    using d by (simp add: of_nat_diff)
  then show ?thesis by (simp only: usub64_def d_def nat_int)
qed

lemma usub64_bound: "usub64 a b < 2 ^ 64"
  by (simp add: usub64_def nat_less_iff)

lemma uadd64_small: "a + b < 2 ^ 64 \<Longrightarrow> uadd64 a b = a + b"
  by (simp add: uadd64_def)

section \<open>Lists\<close>

lemma take_drop_nth: "i < length xs \<Longrightarrow> drop i xs = xs ! i # drop (Suc i) xs"
  by (simp add: Cons_nth_drop_Suc)

lemma append_eq_prefix_cases:
  assumes "p @ q = xs @ ys"
  shows "(\<exists>zs. p = xs @ zs \<and> zs @ q = ys) \<or> (\<exists>zs. xs = p @ zs \<and> q = zs @ ys)"
  using assms by (auto simp: append_eq_append_conv2)

lemma sum_list_map_length: "sum_list (map length xss) = length (concat xss)"
  by (simp add: length_concat)

lemma length_concat_split: "length (concat xs) = length (concat (take i xs)) + length (concat (drop i xs))"
  by (metis append_take_drop_id concat_append length_append)

lemma list_all2_nthI:
  "length xs = length ys \<Longrightarrow> (\<And>i. i < length xs \<Longrightarrow> P (xs ! i) (ys ! i)) \<Longrightarrow> list_all2 P xs ys"
  by (simp add: list_all2_conv_all_nth)

lemma append_split:
  "a @ q = p @ r \<Longrightarrow> length p \<le> length a \<Longrightarrow> \<exists>rest. a = p @ rest \<and> rest @ q = r"
  by (metis append_eq_append_conv_if append_eq_conv_conj append_take_drop_id append.assoc same_append_eq)

end
