(* ===== verification/Serial_Types.thy ===== *)
theory Serial_Types
  imports Prelude
begin

text \<open>
  The types that the templates of \<open>serialization.h\<close> dispatch on, as a datatype, and their
  values. \<open>if constexpr\<close> and partial specialisation become recursion over \<open>ty\<close>. A value of a
  container is the list of its elements in iteration order (for sets and maps: in insertion
  order, keys distinct); an integer, an enum or a floating-point number is the natural number
  of its bits; a time point or a duration is its tick count together with, in the type, the
  length \<open>k\<close> of a tick in nanoseconds; a smart pointer is the value it owns, if any.
  \<open>TStruct ts\<close> is a class whose specialisations pass its fields to the variadic
  \<open>serialize\<close>/\<open>deserialize\<close>.
\<close>

section \<open>Error codes, types, values\<close>

datatype SerializationEC =
    NONE | BUFFER_SIZE_LESSER | UNMATCHED_TYPE | BUFFER_OVERFLOW
  | FILE_WRITING_ERROR | UNEXPECTED_EOF | FILE_READING_ERROR

datatype container = Sequence | ForwardList | UniqueKeys | Associative

datatype ty =
    TInt nat
  | TFloat nat
  | TTime nat
  | TDur nat
  | TPtr ty
  | TWeak ty
  | TEmpty
  | TPair ty ty
  | TArr nat ty
  | TOpt ty
  | TRange container ty
  | TRef ty
  | TVar "ty list"
  | TStruct "ty list"

datatype val =
    VInt (vint: nat)
  | VTick (vtick: int)
  | VPtr (vptr: "val option")
  | VEmpty
  | VPair (vfst: val) (vsnd: val)
  | VArr (varr: "val list")
  | VOpt (vopt: "val option")
  | VRange (velems: "val list")
  | VRef (vref: val)
  | VVar (vindex: nat) (vitem: val)
  | VStruct (vfields: "val list")

text \<open>\<open>int64_t\<close>: its range, and the bits of a value.\<close>

definition fits_int64 :: "int \<Rightarrow> bool" where
  "fits_int64 i \<longleftrightarrow> - (2 ^ 63) \<le> i \<and> i < 2 ^ 63"

definition int64_bits :: "int \<Rightarrow> nat" where
  "int64_bits i = nat (i mod 2 ^ 64)"

definition int64_of_bits :: "nat \<Rightarrow> int" where
  "int64_of_bits v = (if v < 2 ^ 63 then int v else int v - 2 ^ 64)"

lemma int64_bits_bound: "int64_bits i < 256 ^ 8"
  by (simp add: int64_bits_def nat_less_iff)

lemma int64_of_bits_inverse: "fits_int64 i \<Longrightarrow> int64_of_bits (int64_bits i) = i"
proof (cases "0 \<le> i")
  case True
  assume "fits_int64 i"
  with True show ?thesis by (simp add: int64_bits_def int64_of_bits_def fits_int64_def nat_less_iff)
next
  case False
  assume f: "fits_int64 i"
  with False have "i mod 2 ^ 64 = i + 2 ^ 64"
    using mod_add_self2 [of i "2 ^ 64"] mod_pos_pos_trivial [of "i + 2 ^ 64" "2 ^ 64"]
    by (simp add: fits_int64_def)
  with False f show ?thesis
    by (simp add: int64_bits_def int64_of_bits_def fits_int64_def nat_less_iff)
qed

section \<open>Well-formed types and typed values\<close>

text \<open>
  Types whose object is one byte long: the array specialisations copy such elements with
  \<open>memcpy\<close>. The byte of an empty class is padding, so an array of empty elements is left out of
  the well-formed types.
\<close>

fun one_byte :: "ty \<Rightarrow> bool" where
  "one_byte (TInt n) \<longleftrightarrow> n = 1"
| "one_byte TEmpty \<longleftrightarrow> True"
| "one_byte (TArr n t) \<longleftrightarrow> n = 1 \<and> one_byte t"
| "one_byte _ \<longleftrightarrow> False"

fun padding_only :: "ty \<Rightarrow> bool" where
  "padding_only TEmpty \<longleftrightarrow> True"
| "padding_only (TArr n t) \<longleftrightarrow> padding_only t"
| "padding_only _ \<longleftrightarrow> False"

definition is_pair_ty :: "ty \<Rightarrow> bool" where
  "is_pair_ty t \<longleftrightarrow> (case t of TPair a b \<Rightarrow> True | _ \<Rightarrow> False)"

primrec wf_ty :: "ty \<Rightarrow> bool" where
  "wf_ty (TInt n) \<longleftrightarrow> n \<in> {1, 2, 4, 8}"
| "wf_ty (TFloat n) \<longleftrightarrow> n \<in> {4, 8}"
| "wf_ty (TTime k) \<longleftrightarrow> 0 < k"
| "wf_ty (TDur k) \<longleftrightarrow> 0 < k"
| "wf_ty (TPtr t) \<longleftrightarrow> wf_ty t"
| "wf_ty (TWeak t) \<longleftrightarrow> wf_ty t"
| "wf_ty TEmpty \<longleftrightarrow> True"
| "wf_ty (TPair a b) \<longleftrightarrow> wf_ty a \<and> wf_ty b"
| "wf_ty (TArr n t) \<longleftrightarrow> 0 < n \<and> n < 2 ^ 64 \<and> wf_ty t \<and> \<not> padding_only t"
| "wf_ty (TOpt t) \<longleftrightarrow> wf_ty t"
| "wf_ty (TRange c t) \<longleftrightarrow> wf_ty t \<and> (c = Associative \<longrightarrow> is_pair_ty t)"
| "wf_ty (TRef t) \<longleftrightarrow> wf_ty t"
| "wf_ty (TVar ts) \<longleftrightarrow> ts \<noteq> [] \<and> length ts < 2 ^ 64 \<and> list_all (\<lambda>b. b) (map wf_ty ts)"
| "wf_ty (TStruct ts) \<longleftrightarrow> ts \<noteq> [] \<and> list_all (\<lambda>b. b) (map wf_ty ts)"

text \<open>No \<open>Deserialize\<close> exists for weak pointers and reference wrappers.\<close>

primrec deserializable :: "ty \<Rightarrow> bool" where
  "deserializable (TInt n) \<longleftrightarrow> True"
| "deserializable (TFloat n) \<longleftrightarrow> True"
| "deserializable (TTime k) \<longleftrightarrow> True"
| "deserializable (TDur k) \<longleftrightarrow> True"
| "deserializable (TPtr t) \<longleftrightarrow> deserializable t"
| "deserializable (TWeak t) \<longleftrightarrow> False"
| "deserializable TEmpty \<longleftrightarrow> True"
| "deserializable (TPair a b) \<longleftrightarrow> deserializable a \<and> deserializable b"
| "deserializable (TArr n t) \<longleftrightarrow> deserializable t"
| "deserializable (TOpt t) \<longleftrightarrow> deserializable t"
| "deserializable (TRange c t) \<longleftrightarrow> deserializable t"
| "deserializable (TRef t) \<longleftrightarrow> False"
| "deserializable (TVar ts) \<longleftrightarrow> list_all (\<lambda>b. b) (map deserializable ts)"
| "deserializable (TStruct ts) \<longleftrightarrow> list_all (\<lambda>b. b) (map deserializable ts)"

definition keys_distinct :: "container \<Rightarrow> val list \<Rightarrow> bool" where
  "keys_distinct c vs \<longleftrightarrow> (case c of
      Sequence \<Rightarrow> True | ForwardList \<Rightarrow> True
    | UniqueKeys \<Rightarrow> distinct vs | Associative \<Rightarrow> distinct (map vfst vs))"

definition is_tick :: "nat \<Rightarrow> val \<Rightarrow> bool" where
  "is_tick k v \<longleftrightarrow> (case v of VTick c \<Rightarrow> fits_int64 c \<and> fits_int64 (c * int k) | _ \<Rightarrow> False)"

primrec has_ty :: "ty \<Rightarrow> val \<Rightarrow> bool" where
  "has_ty (TInt n) = (\<lambda>v. case v of VInt x \<Rightarrow> x < 256 ^ n | _ \<Rightarrow> False)"
| "has_ty (TFloat n) = (\<lambda>v. case v of VInt x \<Rightarrow> x < 256 ^ n | _ \<Rightarrow> False)"
| "has_ty (TTime k) = is_tick k"
| "has_ty (TDur k) = is_tick k"
| "has_ty (TPtr t) = (\<lambda>v. case v of VPtr p \<Rightarrow> pred_option (has_ty t) p | _ \<Rightarrow> False)"
| "has_ty (TWeak t) = (\<lambda>v. case v of VPtr p \<Rightarrow> pred_option (has_ty t) p | _ \<Rightarrow> False)"
| "has_ty TEmpty = (\<lambda>v. v = VEmpty)"
| "has_ty (TPair a b) = (\<lambda>v. case v of VPair x y \<Rightarrow> has_ty a x \<and> has_ty b y | _ \<Rightarrow> False)"
| "has_ty (TArr n t) = (\<lambda>v. case v of VArr xs \<Rightarrow> length xs = n \<and> list_all (has_ty t) xs | _ \<Rightarrow> False)"
| "has_ty (TOpt t) = (\<lambda>v. case v of VOpt p \<Rightarrow> pred_option (has_ty t) p | _ \<Rightarrow> False)"
| "has_ty (TRange c t) = (\<lambda>v. case v of VRange xs \<Rightarrow>
      length xs < 2 ^ 64 \<and> list_all (has_ty t) xs \<and> keys_distinct c xs | _ \<Rightarrow> False)"
| "has_ty (TRef t) = (\<lambda>v. case v of VRef x \<Rightarrow> has_ty t x | _ \<Rightarrow> False)"
| "has_ty (TVar ts) = (\<lambda>v. case v of VVar i x \<Rightarrow>
      i < length ts \<and> (map has_ty ts ! i) x | _ \<Rightarrow> False)"
| "has_ty (TStruct ts) = (\<lambda>v. case v of VStruct xs \<Rightarrow>
      list_all2 (\<lambda>p x. p x) (map has_ty ts) xs | _ \<Rightarrow> False)"

text \<open>The value-initialised object of a type: \<open>T item{}\<close>, \<open>std::make_unique<T>()\<close>, \<open>emplace()\<close>.\<close>

primrec default_val :: "ty \<Rightarrow> val" where
  "default_val (TInt n) = VInt 0"
| "default_val (TFloat n) = VInt 0"
| "default_val (TTime k) = VTick 0"
| "default_val (TDur k) = VTick 0"
| "default_val (TPtr t) = VPtr None"
| "default_val (TWeak t) = VPtr None"
| "default_val TEmpty = VEmpty"
| "default_val (TPair a b) = VPair (default_val a) (default_val b)"
| "default_val (TArr n t) = VArr (replicate n (default_val t))"
| "default_val (TOpt t) = VOpt None"
| "default_val (TRange c t) = VRange []"
| "default_val (TRef t) = VRef (default_val t)"
| "default_val (TVar ts) = VVar 0 (hd (map default_val ts))"
| "default_val (TStruct ts) = VStruct (map default_val ts)"

lemma has_ty_cases:
  "has_ty (TInt n) v \<longleftrightarrow> (\<exists>x. v = VInt x \<and> x < 256 ^ n)"
  "has_ty (TFloat n) v \<longleftrightarrow> (\<exists>x. v = VInt x \<and> x < 256 ^ n)"
  "has_ty (TTime k) v \<longleftrightarrow> (\<exists>c. v = VTick c \<and> fits_int64 c \<and> fits_int64 (c * int k))"
  "has_ty (TDur k) v \<longleftrightarrow> (\<exists>c. v = VTick c \<and> fits_int64 c \<and> fits_int64 (c * int k))"
  "has_ty (TPtr t) v \<longleftrightarrow> (\<exists>p. v = VPtr p \<and> pred_option (has_ty t) p)"
  "has_ty (TWeak t) v \<longleftrightarrow> (\<exists>p. v = VPtr p \<and> pred_option (has_ty t) p)"
  "has_ty TEmpty v \<longleftrightarrow> v = VEmpty"
  "has_ty (TPair a b) v \<longleftrightarrow> (\<exists>x y. v = VPair x y \<and> has_ty a x \<and> has_ty b y)"
  "has_ty (TArr m t) v \<longleftrightarrow> (\<exists>xs. v = VArr xs \<and> length xs = m \<and> list_all (has_ty t) xs)"
  "has_ty (TOpt t) v \<longleftrightarrow> (\<exists>p. v = VOpt p \<and> pred_option (has_ty t) p)"
  "has_ty (TRange c t) v \<longleftrightarrow> (\<exists>xs. v = VRange xs \<and> length xs < 2 ^ 64
      \<and> list_all (has_ty t) xs \<and> keys_distinct c xs)"
  "has_ty (TRef t) v \<longleftrightarrow> (\<exists>x. v = VRef x \<and> has_ty t x)"
  "has_ty (TVar ts) v \<longleftrightarrow> (\<exists>i x. v = VVar i x \<and> i < length ts \<and> has_ty (ts ! i) x)"
  "has_ty (TStruct ts) v \<longleftrightarrow> (\<exists>xs. v = VStruct xs \<and> list_all2 has_ty ts xs)"
  by (auto simp: is_tick_def list_all2_map1 split: val.splits)

lemma has_ty_default: "wf_ty t \<Longrightarrow> has_ty t (default_val t)"
proof (induction t)
  case (TVar ts)
  then show ?case by (cases ts) auto
next
  case (TStruct ts)
  then show ?case by (auto simp: list_all2_map1 list_all2_map2 list_all_iff intro!: list.rel_refl_strong)
qed (auto simp: is_tick_def fits_int64_def keys_distinct_def list_all_iff split: container.splits)

section \<open>Serial sizes\<close>

text \<open>
  \<open>min_serial_size<ARGS...>()\<close> adds the minima with \<open>size_t\<close> arithmetic;
  \<open>max_serial_size<ARGS...>()\<close> adds the maxima and stops at \<open>SIZE_MAX\<close>.
\<close>

fun min_serial_size :: "nat list \<Rightarrow> nat" where
  "min_serial_size [] = 0"
| "min_serial_size [v] = v"
| "min_serial_size (v # vs) = uadd64 v (min_serial_size vs)"

fun add_sz :: "nat \<Rightarrow> nat list \<Rightarrow> nat" where
  "add_sz result [] = result"
| "add_sz result (v # vs) =
     (if v < SIZE_MAX - result then add_sz (result + v) vs else SIZE_MAX)"

fun max_serial_size :: "nat list \<Rightarrow> nat" where
  "max_serial_size [] = 0"
| "max_serial_size [v] = v"
| "max_serial_size vs = add_sz 0 vs"

definition array_limit :: "nat \<Rightarrow> nat \<Rightarrow> nat" where
  "array_limit sz elem = (if elem \<noteq> 0 \<and> elem > SIZE_MAX div sz then SIZE_MAX else elem * sz)"

definition optional_max :: "nat \<Rightarrow> nat" where
  "optional_max m = (if m = SIZE_MAX then m else m + 1)"

primrec Min_serial_size :: "ty \<Rightarrow> nat" where
  "Min_serial_size (TInt n) = n"
| "Min_serial_size (TFloat n) = n"
| "Min_serial_size (TTime k) = 8"
| "Min_serial_size (TDur k) = 8"
| "Min_serial_size (TPtr t) = 1"
| "Min_serial_size (TWeak t) = 1"
| "Min_serial_size TEmpty = 0"
| "Min_serial_size (TPair a b) = uadd64 (Min_serial_size a) (Min_serial_size b)"
| "Min_serial_size (TArr n t) = array_limit n (Min_serial_size t)"
| "Min_serial_size (TOpt t) = 1"
| "Min_serial_size (TRange c t) = 8"
| "Min_serial_size (TRef t) = Min_serial_size t"
| "Min_serial_size (TVar ts) = uadd64 (fold min (map Min_serial_size ts) SIZE_MAX) 8"
| "Min_serial_size (TStruct ts) = min_serial_size (map Min_serial_size ts)"

primrec Max_serial_size :: "ty \<Rightarrow> nat" where
  "Max_serial_size (TInt n) = n"
| "Max_serial_size (TFloat n) = n"
| "Max_serial_size (TTime k) = 8"
| "Max_serial_size (TDur k) = 8"
| "Max_serial_size (TPtr t) = optional_max (Max_serial_size t)"
| "Max_serial_size (TWeak t) = optional_max (Max_serial_size t)"
| "Max_serial_size TEmpty = 0"
| "Max_serial_size (TPair a b) = uadd64 (Max_serial_size a) (Max_serial_size b)"
| "Max_serial_size (TArr n t) = array_limit n (Max_serial_size t)"
| "Max_serial_size (TOpt t) = optional_max (Max_serial_size t)"
| "Max_serial_size (TRange c t) = SIZE_MAX"
| "Max_serial_size (TRef t) = Max_serial_size t"
| "Max_serial_size (TVar ts) =
     (let size_max = fold max (map Max_serial_size ts) 0
      in if SIZE_MAX - 8 < size_max then SIZE_MAX else size_max + 8)"
| "Max_serial_size (TStruct ts) = max_serial_size (map Max_serial_size ts)"

definition array_size :: "nat \<Rightarrow> ty \<Rightarrow> nat list \<Rightarrow> nat" where
  "array_size n t sizes =
     (if Min_serial_size t = Max_serial_size t then n * Min_serial_size t else sum_list sizes)"

primrec Serial_size :: "ty \<Rightarrow> val \<Rightarrow> nat" where
  "Serial_size (TInt n) = (\<lambda>v. n)"
| "Serial_size (TFloat n) = (\<lambda>v. n)"
| "Serial_size (TTime k) = (\<lambda>v. 8)"
| "Serial_size (TDur k) = (\<lambda>v. 8)"
| "Serial_size (TPtr t) = (\<lambda>v. 1 + (case vptr v of Some x \<Rightarrow> Serial_size t x | None \<Rightarrow> 0))"
| "Serial_size (TWeak t) = (\<lambda>v. 1 + (case vptr v of Some x \<Rightarrow> 1 + Serial_size t x | None \<Rightarrow> 0))"
| "Serial_size TEmpty = (\<lambda>v. 0)"
| "Serial_size (TPair a b) = (\<lambda>v. Serial_size a (vfst v) + Serial_size b (vsnd v))"
| "Serial_size (TArr n t) = (\<lambda>v. array_size n t (map (Serial_size t) (varr v)))"
| "Serial_size (TOpt t) = (\<lambda>v. 1 + (case vopt v of Some x \<Rightarrow> Serial_size t x | None \<Rightarrow> 0))"
| "Serial_size (TRange c t) = (\<lambda>v. 8 + sum_list (map (Serial_size t) (velems v)))"
| "Serial_size (TRef t) = (\<lambda>v. Serial_size t (vref v))"
| "Serial_size (TVar ts) = (\<lambda>v. (map Serial_size ts ! vindex v) (vitem v) + 8)"
| "Serial_size (TStruct ts) = (\<lambda>v. sum_list (map2 (\<lambda>f x. f x) (map Serial_size ts) (vfields v)))"

end
