(* ===== verification/Byte_Order.thy ===== *)
theory Byte_Order
  imports Prelude
begin

text \<open>
  Byte order (\<open>include/OsterLib/byte_order.h\<close>) and the object representation of the
  unsigned integers that \<open>serialization.h\<close> copies with \<open>memcpy\<close>. The host's byte order
  is a parameter: every definition that depends on it takes the host as an argument.
  An integer of \<open>n\<close> bytes is the natural number of its bits; a floating-point value is
  represented by its bit pattern, which is what \<open>to_integer\<close>/\<open>to_float\<close>
  (\<open>std::bit_cast\<close> in \<open>float_conv.h\<close>) exchange.
\<close>

section \<open>Hosts and object representations\<close>

datatype host = LittleHost | BigHost

primrec le_bytes :: "nat \<Rightarrow> nat \<Rightarrow> byte list" where
  "le_bytes 0 v = []"
| "le_bytes (Suc n) v = word_of_nat v # le_bytes n (v div 256)"

primrec of_le_bytes :: "byte list \<Rightarrow> nat" where
  "of_le_bytes [] = 0"
| "of_le_bytes (b # bs) = unat b + 256 * of_le_bytes bs"

definition mem_bytes :: "host \<Rightarrow> nat \<Rightarrow> nat \<Rightarrow> byte list" where
  "mem_bytes h n v = (case h of LittleHost \<Rightarrow> le_bytes n v | BigHost \<Rightarrow> rev (le_bytes n v))"

definition of_mem_bytes :: "host \<Rightarrow> byte list \<Rightarrow> nat" where
  "of_mem_bytes h bs = (case h of LittleHost \<Rightarrow> of_le_bytes bs | BigHost \<Rightarrow> of_le_bytes (rev bs))"

text \<open>\<open>is_little_endian\<close>: the first byte in memory of the 16-bit constant \<open>0x0102\<close>.\<close>

definition is_little_endian :: "host \<Rightarrow> bool" where
  "is_little_endian h \<longleftrightarrow> mem_bytes h 2 0x0102 ! 0 = 0x02"

text \<open>\<open>std::byteswap\<close> on an integer of \<open>n\<close> bytes.\<close>

definition byteswap :: "nat \<Rightarrow> nat \<Rightarrow> nat" where
  "byteswap n v = of_le_bytes (rev (le_bytes n v))"

section \<open>Round trips\<close>

lemma length_le_bytes [simp]: "length (le_bytes n v) = n"
  by (induction n arbitrary: v) auto

lemma length_mem_bytes [simp]: "length (mem_bytes h n v) = n"
  by (simp add: mem_bytes_def split: host.split)

lemma of_le_bytes_le_bytes: "of_le_bytes (le_bytes n v) = v mod 256 ^ n"
proof (induction n arbitrary: v)
  case 0
  show ?case by simp
next
  case (Suc n)
  have "of_le_bytes (le_bytes (Suc n) v) = v mod 256 + 256 * (v div 256 mod 256 ^ n)"
    by (simp add: Suc unat_of_nat)
  also have "\<dots> = v mod 256 ^ Suc n"
    by (simp add: mod_mult2_eq)
  finally show ?case .
qed

lemma of_le_bytes_id [simp]: "v < 256 ^ n \<Longrightarrow> of_le_bytes (le_bytes n v) = v"
  by (simp add: of_le_bytes_le_bytes)

lemma unat_byte_bound: "unat (b :: byte) < 256"
  by (rule order_less_le_trans [OF unsigned_less]) simp

lemma byte_256: "(256 :: byte) = 0"
  by (simp add: word_unat_eq_iff)

lemma of_le_bytes_bound: "of_le_bytes bs < 256 ^ length bs"
proof (induction bs)
  case Nil
  show ?case by simp
next
  case (Cons b bs)
  have "unat b < 256" by (rule unat_byte_bound)
  with Cons show ?case by simp
qed

lemma le_bytes_of_le_bytes [simp]: "le_bytes (length bs) (of_le_bytes bs) = bs"
proof (induction bs)
  case Nil
  show ?case by simp
next
  case (Cons b bs)
  have b: "unat b < 256" by (rule unat_byte_bound)
  have "(word_of_nat (unat b + 256 * of_le_bytes bs) :: byte) = b"
    by (simp add: byte_256)
  moreover have "(unat b + 256 * of_le_bytes bs) div 256 = of_le_bytes bs"
    using b by simp
  ultimately show ?case using Cons by simp
qed

lemma of_mem_bytes_id [simp]: "v < 256 ^ n \<Longrightarrow> of_mem_bytes h (mem_bytes h n v) = v"
  by (simp add: of_mem_bytes_def mem_bytes_def split: host.split)

lemma of_mem_bytes_bound: "length bs = n \<Longrightarrow> of_mem_bytes h bs < 256 ^ n"
  using of_le_bytes_bound [of bs] of_le_bytes_bound [of "rev bs"]
  by (simp add: of_mem_bytes_def split: host.split)

lemma mem_bytes_of_mem_bytes: "length bs = n \<Longrightarrow> mem_bytes h n (of_mem_bytes h bs) = bs"
  using le_bytes_of_le_bytes [of bs] le_bytes_of_le_bytes [of "rev bs"]
  by (auto simp: of_mem_bytes_def mem_bytes_def split: host.split)

lemma le_bytes_2: "le_bytes 2 v = [word_of_nat v, word_of_nat (v div 256)]"
  by (simp only: numeral_2_eq_2 le_bytes.simps)

lemma le_bytes_4: "le_bytes 4 v = [word_of_nat v, word_of_nat (v div 256),
    word_of_nat (v div 256 div 256), word_of_nat (v div 256 div 256 div 256)]"
proof -
  have "(4 :: nat) = Suc (Suc (Suc (Suc 0)))" by simp
  then show ?thesis by (simp only: le_bytes.simps)
qed

lemma le_bytes_8: "le_bytes 8 v = [word_of_nat v, word_of_nat (v div 256),
    word_of_nat (v div 256 div 256), word_of_nat (v div 256 div 256 div 256),
    word_of_nat (v div 256 div 256 div 256 div 256),
    word_of_nat (v div 256 div 256 div 256 div 256 div 256),
    word_of_nat (v div 256 div 256 div 256 div 256 div 256 div 256),
    word_of_nat (v div 256 div 256 div 256 div 256 div 256 div 256 div 256)]"
proof -
  have "(8 :: nat) = Suc (Suc (Suc (Suc (Suc (Suc (Suc (Suc 0)))))))" by simp
  then show ?thesis by (simp only: le_bytes.simps)
qed

lemma is_little_endian_iff [simp]: "is_little_endian h \<longleftrightarrow> h = LittleHost"
  by (cases h) (simp_all add: is_little_endian_def mem_bytes_def le_bytes_2)

lemma byteswap_bound: "byteswap n v < 256 ^ n"
  using of_le_bytes_bound [of "rev (le_bytes n v)"] by (simp add: byteswap_def)

lemma byteswap_byteswap: "v < 256 ^ n \<Longrightarrow> byteswap n (byteswap n v) = v"
  using le_bytes_of_le_bytes [of "rev (le_bytes n v)"] by (simp add: byteswap_def)

lemma mem_bytes_byteswap: "mem_bytes h n (byteswap n v) = rev (mem_bytes h n v)"
  using le_bytes_of_le_bytes [of "rev (le_bytes n v)"]
  by (simp add: byteswap_def mem_bytes_def split: host.split)

lemma le_bytes_byteswap: "le_bytes n (byteswap n v) = rev (le_bytes n v)"
  using mem_bytes_byteswap [of LittleHost] by (simp add: mem_bytes_def)

lemma byteswap_mem:
  "length bs = n \<Longrightarrow> byteswap n (of_mem_bytes h bs) = of_mem_bytes h (rev bs)"
  using le_bytes_of_le_bytes [of bs] le_bytes_of_le_bytes [of "rev bs"]
  by (auto simp: byteswap_def of_mem_bytes_def split: host.split)

end
