(* ===== verification/Serializer.thy ===== *)
theory Serializer
  imports Serial_Types Byte_Order
begin

text \<open>
  The \<open>Serialize\<close> functors of \<open>include/OsterLib/serialization.h\<close>: one definition per partial
  specialisation, over the serializers of the component types, and \<open>Serialize\<close> itself, the
  dispatch. Each appends to the output vector and returns an error code. \<open>encode\<close> is the
  specification, the flat encoding of a value; \<open>Serialize_encode\<close> shows that the code writes
  exactly it and never fails.
\<close>

type_synonym writer = "byte list \<Rightarrow> SerializationEC \<times> byte list"
type_synonym serializer = "val \<Rightarrow> writer"

section \<open>The functors\<close>

text \<open>An integral value of \<open>n\<close> bytes.\<close>

definition Serialize_integral :: "bool \<Rightarrow> host \<Rightarrow> nat \<Rightarrow> nat \<Rightarrow> writer" where
  "Serialize_integral network h n raw buf =
     (if n = 1 then (NONE, buf @ [word_of_nat raw])
      else let raw_val = (if network then if is_little_endian h then byteswap n raw else raw
                          else raw)
           in (NONE, buf @ mem_bytes h n raw_val))"

text \<open>\<open>serialize(val, buf, args...)\<close>: the writers one after the other, up to the first error.\<close>

fun serialize_all :: "writer list \<Rightarrow> writer" where
  "serialize_all [] buf = (NONE, buf)"
| "serialize_all (w # ws) buf =
     (case w buf of (err, buf') \<Rightarrow> if err = NONE then serialize_all ws buf' else (err, buf'))"

definition Serialize_ticks :: "bool \<Rightarrow> host \<Rightarrow> nat \<Rightarrow> serializer" where
  "Serialize_ticks network h k v =
     Serialize_integral network h 8 (int64_bits (vtick v * int k))"

definition Serialize_smart_ptr :: "bool \<Rightarrow> host \<Rightarrow> serializer \<Rightarrow> serializer" where
  "Serialize_smart_ptr network h ser v buf =
     (case vptr v of
        Some x \<Rightarrow> (case Serialize_integral network h 1 1 buf of
                     (err, buf') \<Rightarrow> if err = NONE then ser x buf' else (err, buf'))
      | None \<Rightarrow> Serialize_integral network h 1 0 buf)"

definition Serialize_weak_ptr :: "bool \<Rightarrow> host \<Rightarrow> serializer \<Rightarrow> serializer" where
  "Serialize_weak_ptr network h ser v =
     (case vptr v of
        Some x \<Rightarrow> Serialize_smart_ptr network h ser (VPtr (Some x))
      | None \<Rightarrow> Serialize_integral network h 1 0)"

definition Serialize_pair :: "serializer \<Rightarrow> serializer \<Rightarrow> serializer" where
  "Serialize_pair ser1 ser2 v buf =
     (case ser1 (vfst v) buf of
        (err, buf') \<Rightarrow> if err = NONE then ser2 (vsnd v) buf' else (err, buf'))"

text \<open>The object representation of a one-byte element.\<close>

fun object_byte :: "val \<Rightarrow> byte" where
  "object_byte (VInt x) = word_of_nat x"
| "object_byte (VArr (v # vs)) = object_byte v"
| "object_byte v = 0"

definition Serialize_array :: "ty \<Rightarrow> serializer \<Rightarrow> serializer" where
  "Serialize_array t ser v buf =
     (if one_byte t then (NONE, buf @ map object_byte (varr v))
      else serialize_all (map ser (varr v)) buf)"

definition Serialize_optional :: "bool \<Rightarrow> host \<Rightarrow> serializer \<Rightarrow> serializer" where
  "Serialize_optional network h ser v buf =
     (case Serialize_integral network h 1 (if vopt v \<noteq> None then 1 else 0) buf of
        (err, buf') \<Rightarrow>
          if err \<noteq> NONE then (err, buf')
          else case vopt v of None \<Rightarrow> (NONE, buf') | Some x \<Rightarrow> ser x buf')"

text \<open>
  A range: its size, then its elements. The code looks at the error code of the elements only.
\<close>

definition Serialize_range :: "bool \<Rightarrow> host \<Rightarrow> serializer \<Rightarrow> serializer" where
  "Serialize_range network h ser v buf =
     (case Serialize_integral network h 8 (length (velems v)) buf of
        (err, buf') \<Rightarrow> serialize_all (map ser (velems v)) buf')"

definition Serialize_variant :: "bool \<Rightarrow> host \<Rightarrow> serializer list \<Rightarrow> serializer" where
  "Serialize_variant network h sers v buf =
     (case Serialize_integral network h 8 (vindex v) buf of
        (err, buf') \<Rightarrow> if err = NONE then (sers ! vindex v) (vitem v) buf' else (err, buf'))"

definition Serialize_struct :: "serializer list \<Rightarrow> serializer" where
  "Serialize_struct sers v = serialize_all (map2 (\<lambda>ser x. ser x) sers (vfields v))"

primrec Serialize :: "bool \<Rightarrow> host \<Rightarrow> ty \<Rightarrow> serializer" where
  "Serialize network h (TInt n) = (\<lambda>v. Serialize_integral network h n (vint v))"
| "Serialize network h (TFloat n) = (\<lambda>v. Serialize_integral network h n (vint v))"
| "Serialize network h (TTime k) = Serialize_ticks network h k"
| "Serialize network h (TDur k) = Serialize_ticks network h k"
| "Serialize network h (TPtr t) = Serialize_smart_ptr network h (Serialize network h t)"
| "Serialize network h (TWeak t) = Serialize_weak_ptr network h (Serialize network h t)"
| "Serialize network h TEmpty = (\<lambda>v buf. (NONE, buf))"
| "Serialize network h (TPair a b) = Serialize_pair (Serialize network h a) (Serialize network h b)"
| "Serialize network h (TArr n t) = Serialize_array t (Serialize network h t)"
| "Serialize network h (TOpt t) = Serialize_optional network h (Serialize network h t)"
| "Serialize network h (TRange c t) = Serialize_range network h (Serialize network h t)"
| "Serialize network h (TRef t) = (\<lambda>v. Serialize network h t (vref v))"
| "Serialize network h (TVar ts) = Serialize_variant network h (map (Serialize network h) ts)"
| "Serialize network h (TStruct ts) = Serialize_struct (map (Serialize network h) ts)"

definition serialize_native :: "host \<Rightarrow> ty \<Rightarrow> serializer" where
  "serialize_native h t = Serialize False h t"

definition serialize_network :: "host \<Rightarrow> ty \<Rightarrow> serializer" where
  "serialize_network h t = Serialize True h t"

section \<open>The specification: the encoding of a value\<close>

definition put_uint :: "bool \<Rightarrow> host \<Rightarrow> nat \<Rightarrow> nat \<Rightarrow> byte list" where
  "put_uint network h n x = (if network then rev (le_bytes n x) else mem_bytes h n x)"

primrec encode :: "bool \<Rightarrow> host \<Rightarrow> ty \<Rightarrow> val \<Rightarrow> byte list" where
  "encode network h (TInt n) = (\<lambda>v. put_uint network h n (vint v))"
| "encode network h (TFloat n) = (\<lambda>v. put_uint network h n (vint v))"
| "encode network h (TTime k) = (\<lambda>v. put_uint network h 8 (int64_bits (vtick v * int k)))"
| "encode network h (TDur k) = (\<lambda>v. put_uint network h 8 (int64_bits (vtick v * int k)))"
| "encode network h (TPtr t) = (\<lambda>v. case vptr v of None \<Rightarrow> [0] | Some x \<Rightarrow> 1 # encode network h t x)"
| "encode network h (TWeak t) = (\<lambda>v. case vptr v of None \<Rightarrow> [0] | Some x \<Rightarrow> 1 # encode network h t x)"
| "encode network h TEmpty = (\<lambda>v. [])"
| "encode network h (TPair a b) = (\<lambda>v. encode network h a (vfst v) @ encode network h b (vsnd v))"
| "encode network h (TArr n t) = (\<lambda>v. concat (map (encode network h t) (varr v)))"
| "encode network h (TOpt t) = (\<lambda>v. case vopt v of None \<Rightarrow> [0] | Some x \<Rightarrow> 1 # encode network h t x)"
| "encode network h (TRange c t) = (\<lambda>v. put_uint network h 8 (length (velems v))
      @ concat (map (encode network h t) (velems v)))"
| "encode network h (TRef t) = (\<lambda>v. encode network h t (vref v))"
| "encode network h (TVar ts) = (\<lambda>v. put_uint network h 8 (vindex v)
      @ (map (encode network h) ts ! vindex v) (vitem v))"
| "encode network h (TStruct ts) = (\<lambda>v.
      concat (map2 (\<lambda>f x. f x) (map (encode network h) ts) (vfields v)))"

lemma length_put_uint [simp]: "length (put_uint network h n x) = n"
  by (simp add: put_uint_def)

lemma put_uint_1 [simp]: "put_uint network h (Suc 0) x = [word_of_nat x]"
  by (simp add: put_uint_def mem_bytes_def split: host.split)

lemma Serialize_integral_put: "Serialize_integral network h n x buf = (NONE, buf @ put_uint network h n x)"
  by (cases h) (auto simp: Serialize_integral_def put_uint_def Let_def le_bytes_byteswap mem_bytes_def)

lemma serialize_all_encode:
  assumes "list_all2 (\<lambda>w e. \<forall>buf. w buf = (NONE, buf @ e)) ws es"
  shows "serialize_all ws buf = (NONE, buf @ concat es)"
  using assms by (induction ws es arbitrary: buf rule: list_all2_induct) auto

lemma object_byte_encode:
  "has_ty t v \<Longrightarrow> one_byte t \<Longrightarrow> \<not> padding_only t \<Longrightarrow> [object_byte v] = encode network h t v"
proof (induction t arbitrary: v)
  case (TArr n t)
  then obtain x where v: "v = VArr [x]" and x: "has_ty t x"
    by (auto simp: length_Suc_conv split: val.splits)
  from TArr x have "[object_byte x] = encode network h t x" by simp
  with v show ?case by simp
qed (auto split: val.splits)

lemma array_bytes_encode:
  assumes "list_all (has_ty t) xs" and "one_byte t" and "\<not> padding_only t"
  shows "map object_byte xs = concat (map (encode network h t) xs)"
  using assms(1) by (induction xs) (auto simp: object_byte_encode [OF _ assms(2,3), symmetric])

text \<open>The code writes the specified encoding, behind what the buffer held, and reports no error.\<close>

lemma Serialize_encode:
  "wf_ty t \<Longrightarrow> has_ty t v \<Longrightarrow> Serialize network h t v buf = (NONE, buf @ encode network h t v)"
proof (induction t arbitrary: v buf)
  case (TArr n t)
  then obtain xs where v: "v = VArr xs" and xs: "list_all (has_ty t) xs"
    by (auto simp: has_ty_cases simp del: has_ty.simps)
  have "list_all2 (\<lambda>w e. \<forall>buf. w buf = (NONE, buf @ e))
          (map (Serialize network h t) xs) (map (encode network h t) xs)"
    using xs TArr by (auto simp: list_all2_map1 list_all2_map2 list_all_iff intro!: list.rel_refl_strong)
  with v xs TArr.prems show ?case
    by (simp add: Serialize_array_def array_bytes_encode serialize_all_encode)
next
  case (TRange c t)
  then obtain xs where v: "v = VRange xs" and xs: "list_all (has_ty t) xs"
    by (auto simp: has_ty_cases simp del: has_ty.simps)
  have "list_all2 (\<lambda>w e. \<forall>buf. w buf = (NONE, buf @ e))
          (map (Serialize network h t) xs) (map (encode network h t) xs)"
    using xs TRange by (auto simp: list_all2_map1 list_all2_map2 list_all_iff intro!: list.rel_refl_strong)
  with v show ?case
    by (simp add: Serialize_range_def Serialize_integral_put serialize_all_encode)
next
  case (TVar ts)
  then show ?case
    by (auto simp: has_ty_cases Serialize_variant_def Serialize_integral_put list_all_iff
        simp del: has_ty.simps)
next
  case (TStruct ts)
  then obtain xs where v: "v = VStruct xs" and xs: "list_all2 has_ty ts xs"
    by (auto simp: has_ty_cases simp del: has_ty.simps)
  then have "list_all2 (\<lambda>w e. \<forall>buf. w buf = (NONE, buf @ e))
          (map2 (\<lambda>ser x. ser x) (map (Serialize network h) ts) xs)
          (map2 (\<lambda>f x. f x) (map (encode network h) ts) xs)"
    using TStruct by (auto simp: list_all2_conv_all_nth list_all_iff)
  with v show ?case by (simp add: Serialize_struct_def serialize_all_encode)
qed (auto simp: has_ty_cases Serialize_integral_put Serialize_ticks_def Serialize_smart_ptr_def
       Serialize_weak_ptr_def Serialize_pair_def Serialize_optional_def
     split: option.splits simp del: has_ty.simps)

section \<open>Serial sizes and the length of the encoding\<close>

text \<open>
  The types whose sizes the code computes without a wrap-around: in every \<open>std::pair\<close> the sum of
  the maximal sizes fits \<open>size_t\<close>. Weak pointers are left out (see \<open>weak_size_off_by_one\<close>).
\<close>

primrec size_ok :: "ty \<Rightarrow> bool" where
  "size_ok (TInt n) \<longleftrightarrow> True"
| "size_ok (TFloat n) \<longleftrightarrow> True"
| "size_ok (TTime k) \<longleftrightarrow> True"
| "size_ok (TDur k) \<longleftrightarrow> True"
| "size_ok (TPtr t) \<longleftrightarrow> size_ok t"
| "size_ok (TWeak t) \<longleftrightarrow> False"
| "size_ok TEmpty \<longleftrightarrow> True"
| "size_ok (TPair a b) \<longleftrightarrow> size_ok a \<and> size_ok b \<and> Max_serial_size a + Max_serial_size b \<le> SIZE_MAX"
| "size_ok (TArr n t) \<longleftrightarrow> size_ok t"
| "size_ok (TOpt t) \<longleftrightarrow> size_ok t"
| "size_ok (TRange c t) \<longleftrightarrow> size_ok t"
| "size_ok (TRef t) \<longleftrightarrow> size_ok t"
| "size_ok (TVar ts) \<longleftrightarrow> list_all (\<lambda>b. b) (map size_ok ts)"
| "size_ok (TStruct ts) \<longleftrightarrow> list_all (\<lambda>b. b) (map size_ok ts)"

lemma uadd64_le: "uadd64 a b \<le> a + b"
  by (simp add: uadd64_def)

lemma min_serial_size_le: "min_serial_size vs \<le> sum_list vs"
  by (induction vs rule: min_serial_size.induct)
    (auto intro: order_trans [OF uadd64_le])

lemma add_sz_ge: "r + sum_list xs \<le> SIZE_MAX \<Longrightarrow> list_all2 (\<le>) xs vs \<Longrightarrow> r \<le> q \<Longrightarrow>
   r + sum_list xs \<le> add_sz q vs"
proof (induction vs arbitrary: r q xs)
  case Nil
  then show ?case by simp
next
  case (Cons v vs)
  then obtain x xs' where xs: "xs = x # xs'" "x \<le> v" "list_all2 (\<le>) xs' vs"
    by (auto simp: list_all2_Cons2)
  show ?case
  proof (cases "v < SIZE_MAX - q")
    case True
    have "(r + x) + sum_list xs' \<le> add_sz (q + v) vs"
      using Cons.IH [of "r + x" xs' "q + v"] Cons.prems xs by simp
    with True xs show ?thesis by (simp add: add.assoc)
  next
    case False
    with Cons.prems show ?thesis by simp
  qed
qed

lemma max_serial_size_ge:
  assumes "sum_list xs \<le> SIZE_MAX" and "list_all2 (\<le>) xs vs"
  shows "sum_list xs \<le> max_serial_size vs"
  using assms add_sz_ge [of 0 xs vs 0]
  by (cases vs rule: max_serial_size.cases) (auto simp: list_all2_Cons2)

lemma fold_min_le: "x \<in> set xs \<Longrightarrow> fold min xs a \<le> (x :: nat)"
  using Min.set_eq_fold [of a xs] by (metis List.finite_set Min_le finite_insert insertCI list.simps(15))

lemma fold_max_ge: "x \<in> set xs \<Longrightarrow> (x :: nat) \<le> fold max xs a"
  using Max.set_eq_fold [of a xs] by (metis List.finite_set Max_ge finite_insert insertCI list.simps(15))

lemma array_limit_le: "0 < n \<Longrightarrow> array_limit n e \<le> n * e"
proof (cases "SIZE_MAX div n < e")
  case True
  assume "0 < n"
  with True have "SIZE_MAX < e * n" by (simp add: div_less_iff_less_mult)
  with True show ?thesis by (simp add: array_limit_def mult.commute)
next
  case False
  then show ?thesis by (simp add: array_limit_def mult.commute)
qed

lemma array_limit_ge: "x \<le> n * e \<Longrightarrow> x \<le> SIZE_MAX \<Longrightarrow> x \<le> array_limit n e"
  by (auto simp: array_limit_def mult.commute)

text \<open>
  The contract of the size functors for one type: the serial size of a value is the length of
  its encoding, and lies between the static bounds.
\<close>

definition sizes_agree :: "bool \<Rightarrow> host \<Rightarrow> ty \<Rightarrow> val \<Rightarrow> bool" where
  "sizes_agree network h t v \<longleftrightarrow>
     Serial_size t v = length (encode network h t v)
     \<and> Min_serial_size t \<le> Serial_size t v \<and> Serial_size t v \<le> Max_serial_size t"

lemma sizes_agree_bounds:
  "sizes_agree network h t v \<Longrightarrow> Min_serial_size t \<le> Serial_size t v \<and> Serial_size t v \<le> Max_serial_size t"
  by (simp add: sizes_agree_def)

lemma sum_list_bounds:
  assumes "\<And>x. x \<in> set xs \<Longrightarrow> lo \<le> f x \<and> f x \<le> (hi :: nat)"
  shows "length xs * lo \<le> sum_list (map f xs) \<and> sum_list (map f xs) \<le> length xs * hi"
  using assms by (induction xs) (auto intro: add_mono)

lemma sum_sizes_agree:
  assumes "\<And>x. x \<in> set xs \<Longrightarrow> sizes_agree network h t x"
  shows "sum_list (map (Serial_size t) xs) = length (concat (map (encode network h t) xs))"
proof -
  have eq: "map (Serial_size t) xs = map (length \<circ> encode network h t) xs"
    using assms by (simp add: sizes_agree_def)
  show ?thesis by (simp only: eq length_concat map_map)
qed

lemma array_sizes_agree:
  assumes xs: "\<And>x. x \<in> set xs \<Longrightarrow> sizes_agree network h t x"
    and len: "length xs = n" "0 < n"
    and fit: "length (concat (map (encode network h t) xs)) \<le> SIZE_MAX"
  shows "sizes_agree network h (TArr n t) (VArr xs)"
proof -
  let ?S = "sum_list (map (Serial_size t) xs)"
  have b: "n * Min_serial_size t \<le> ?S \<and> ?S \<le> n * Max_serial_size t"
    using sum_list_bounds [of xs "Min_serial_size t" "Serial_size t", OF sizes_agree_bounds [OF xs]] len
    by simp
  have S: "?S = length (concat (map (encode network h t) xs))"
    by (rule sum_sizes_agree [OF xs])
  have "array_size n t (map (Serial_size t) xs) = ?S"
    using b by (auto simp: array_size_def)
  with b S fit len show ?thesis
    by (auto simp: sizes_agree_def intro: array_limit_ge order_trans [OF array_limit_le])
qed

lemma struct_sizes_agree:
  assumes "list_all2 (sizes_agree network h) ts xs"
    and fit: "length (encode network h (TStruct ts) (VStruct xs)) \<le> SIZE_MAX"
  shows "sizes_agree network h (TStruct ts) (VStruct xs)"
proof -
  let ?ss = "map2 Serial_size ts xs"
  have lo: "list_all2 (\<le>) (map Min_serial_size ts) ?ss"
    and hi: "list_all2 (\<le>) ?ss (map Max_serial_size ts)"
    using assms(1) by (auto simp: list_all2_conv_all_nth sizes_agree_def)
  have S: "sum_list ?ss = length (concat (map2 (encode network h) ts xs))"
    using assms(1) by (induction ts xs rule: list_all2_induct) (auto simp: sizes_agree_def)
  have "sum_list (map Min_serial_size ts) \<le> sum_list ?ss"
    using lo by (induction rule: list_all2_induct) auto
  moreover have "map2 (\<lambda>f. f) (map Serial_size ts) xs = ?ss"
    and "map2 (\<lambda>f. f) (map (encode network h) ts) xs = map2 (encode network h) ts xs"
    by (simp_all add: map_zip_map comp_def split_def)
  moreover have "sum_list ?ss \<le> max_serial_size (map Max_serial_size ts)"
    using max_serial_size_ge [OF _ hi] S fit calculation(3) by simp
  ultimately show ?thesis
    using S min_serial_size_le [of "map Min_serial_size ts"] by (simp add: sizes_agree_def)
qed

lemma length_concat_member: "x \<in> set xs \<Longrightarrow> length x \<le> length (concat xs)"
  by (induction xs) auto

lemma Serial_size_agrees:
  "wf_ty t \<Longrightarrow> size_ok t \<Longrightarrow> has_ty t v \<Longrightarrow> length (encode network h t v) \<le> SIZE_MAX \<Longrightarrow>
   sizes_agree network h t v"
proof (induction t arbitrary: v)
  case (TPair a b)
  then obtain x y where v: "v = VPair x y" and "has_ty a x" "has_ty b y"
    by (auto simp: has_ty_cases simp del: has_ty.simps)
  with TPair have "sizes_agree network h a x" "sizes_agree network h b y" by simp_all
  with v TPair.prems show ?case
    by (auto simp: sizes_agree_def SIZE_MAX_def uadd64_small intro: order_trans [OF uadd64_le])
next
  case (TArr n t)
  then obtain xs where v: "v = VArr xs" and len: "length xs = n" and xs: "list_all (has_ty t) xs"
    by (auto simp: has_ty_cases simp del: has_ty.simps)
  have "sizes_agree network h t x" if "x \<in> set xs" for x
  proof -
    have "length (encode network h t x) \<le> SIZE_MAX"
      using TArr.prems(4) v that length_concat_member [of "encode network h t x" "map (encode network h t) xs"]
      by simp
    with TArr that xs show ?thesis by (simp add: list_all_iff)
  qed
  with v len TArr.prems show ?case by (auto intro: array_sizes_agree)
next
  case (TRange c t)
  then obtain xs where v: "v = VRange xs" and xs: "list_all (has_ty t) xs"
    by (auto simp: has_ty_cases simp del: has_ty.simps)
  have "sizes_agree network h t x" if "x \<in> set xs" for x
  proof -
    have "length (encode network h t x) \<le> SIZE_MAX"
      using TRange.prems(4) v that length_concat_member [of "encode network h t x" "map (encode network h t) xs"]
      by simp
    with TRange that xs show ?thesis by (simp add: list_all_iff)
  qed
  then have "sum_list (map (Serial_size t) xs) = length (concat (map (encode network h t) xs))"
    by (rule sum_sizes_agree)
  with v TRange.prems(4) show ?case by (simp add: sizes_agree_def)
next
  case (TVar ts)
  then obtain i x where v: "v = VVar i x" and i: "i < length ts" and x: "has_ty (ts ! i) x"
    by (auto simp: has_ty_cases simp del: has_ty.simps)
  have "sizes_agree network h (ts ! i) x"
    using TVar.IH [of "ts ! i" x] TVar.prems v i x by (auto simp: list_all_iff)
  moreover have "fold min (map Min_serial_size ts) SIZE_MAX \<le> Min_serial_size (ts ! i)"
    and "Max_serial_size (ts ! i) \<le> fold max (map Max_serial_size ts) 0"
    using i by (auto intro: fold_min_le fold_max_ge)
  ultimately show ?case
    using v i TVar.prems(4)
    by (auto simp: sizes_agree_def Let_def intro: order_trans [OF uadd64_le])
next
  case (TStruct ts)
  then obtain xs where v: "v = VStruct xs" and xs: "list_all2 has_ty ts xs"
    by (auto simp: has_ty_cases simp del: has_ty.simps)
  let ?es = "map2 (\<lambda>f x. f x) (map (encode network h) ts) xs"
  have "sizes_agree network h (ts ! i) (xs ! i)" if "i < length ts" for i
  proof -
    have "encode network h (ts ! i) (xs ! i) \<in> set ?es"
      using that xs by (auto simp: set_conv_nth list_all2_lengthD intro!: exI [of _ i])
    then have "length (encode network h (ts ! i) (xs ! i)) \<le> SIZE_MAX"
      using length_concat_member TStruct.prems(4) v by fastforce
    then show ?thesis
      using TStruct.IH [of "ts ! i" "xs ! i"] TStruct.prems that xs
      by (auto simp: list_all_iff list_all2_conv_all_nth)
  qed
  with v xs TStruct.prems(4) show ?case
    by (auto intro!: struct_sizes_agree list_all2_nthI simp: list_all2_lengthD)
qed (fastforce simp: has_ty_cases sizes_agree_def optional_max_def SIZE_MAX_def
     split: option.splits simp del: has_ty.simps)+

end
