(* ===== verification/Multi_Buffer.thy ===== *)
theory Multi_Buffer
  imports Byte_Order
begin

text \<open>
  \<open>MultiBufferView\<close> (\<open>include/OsterLib/serialization/multi_buffer.h\<close>): a cursor over a deque
  of byte spans, with a stack of checkpoints. The abstraction \<open>pending\<close> is the sequence of
  bytes that are still to be read; the lemmas show that the cursor moves through it as through
  one flat buffer, whatever the segmentation. The locale \<open>byte_source\<close> is what the readers of
  \<open>serialization.h\<close> rely on.
\<close>

section \<open>State and operations\<close>

record mbview =
  buffers :: "byte list list"
  span_idx :: nat
  offset :: nat
  checkpoints :: "(nat \<times> nat) list"

definition MultiBufferView :: "byte list list \<Rightarrow> mbview" where
  "MultiBufferView bufs = \<lparr>buffers = bufs, span_idx = 0, offset = 0, checkpoints = []\<rparr>"

definition available :: "mbview \<Rightarrow> nat" where
  "available m = sum_list (map length (drop (span_idx m) (buffers m))) - offset m"

text \<open>
  One round of the copying loop: move \<open>to_copy\<close> bytes forward in the current span and step to
  the next span when the current one is used up.
\<close>

definition step_in_span :: "nat \<Rightarrow> mbview \<Rightarrow> mbview" where
  "step_in_span to_copy m =
     (let m' = m\<lparr>offset := offset m + to_copy\<rparr>
      in if offset m' = length (buffers m ! span_idx m)
         then m'\<lparr>span_idx := Suc (span_idx m), offset := 0\<rparr> else m')"

definition avail_in_cur :: "mbview \<Rightarrow> nat" where
  "avail_in_cur m = length (buffers m ! span_idx m) - offset m"

definition in_span :: "mbview \<Rightarrow> bool" where
  "in_span m \<longleftrightarrow> span_idx m < length (buffers m)
     \<and> offset m \<le> length (buffers m ! span_idx m)"

lemma step_measure:
  assumes "in_span m" and "0 < r"
  shows "r - min r (avail_in_cur m)
           + (length (buffers (step_in_span (min r (avail_in_cur m)) m))
              - span_idx (step_in_span (min r (avail_in_cur m)) m))
         < r + (length (buffers m) - span_idx m)"
  using assms by (auto simp: step_in_span_def avail_in_cur_def in_span_def Let_def)

function read_loop :: "nat \<Rightarrow> byte list \<Rightarrow> mbview \<Rightarrow> (byte list \<times> mbview) access" where
  "read_loop remaining dest m =
     (if remaining = 0 then Defined (dest, m)
      else if in_span m
      then let to_copy = min remaining (avail_in_cur m)
           in read_loop (remaining - to_copy)
                (dest @ take to_copy (drop (offset m) (buffers m ! span_idx m)))
                (step_in_span to_copy m)
      else OutOfBounds)"
  by pat_completeness auto
termination
  by (relation "measure (\<lambda>(r, d, m). r + (length (buffers m) - span_idx m))")
    (use step_measure in auto)

definition read :: "nat \<Rightarrow> mbview \<Rightarrow> (byte list option \<times> mbview) access" where
  "read n m =
     (if available m < n then Defined (None, m)
      else case read_loop n [] m of
             Defined (dest, m') \<Rightarrow> Defined (Some dest, m')
           | OutOfBounds \<Rightarrow> OutOfBounds)"

function advance_loop :: "nat \<Rightarrow> mbview \<Rightarrow> mbview access" where
  "advance_loop remaining m =
     (if remaining = 0 then Defined m
      else if in_span m
      then let to_skip = min remaining (avail_in_cur m)
           in advance_loop (remaining - to_skip) (step_in_span to_skip m)
      else OutOfBounds)"
  by pat_completeness auto
termination
  by (relation "measure (\<lambda>(r, m). r + (length (buffers m) - span_idx m))")
    (use step_measure in auto)

definition advance :: "nat \<Rightarrow> mbview \<Rightarrow> (bool \<times> mbview) access" where
  "advance n m =
     (if available m < n then Defined (False, m)
      else case advance_loop n m of
             Defined m' \<Rightarrow> Defined (True, m')
           | OutOfBounds \<Rightarrow> OutOfBounds)"

declare read_loop.simps [simp del] advance_loop.simps [simp del]

definition checkpoint :: "mbview \<Rightarrow> mbview" where
  "checkpoint m = m\<lparr>checkpoints := checkpoints m @ [(span_idx m, offset m)]\<rparr>"

definition rollback :: "mbview \<Rightarrow> bool \<times> mbview" where
  "rollback m =
     (if checkpoints m = [] then (False, m)
      else let (saved_idx, saved_offset) = last (checkpoints m)
           in (True, m\<lparr>span_idx := saved_idx, offset := saved_offset,
                        checkpoints := butlast (checkpoints m)\<rparr>))"

definition commit :: "mbview \<Rightarrow> bool \<times> mbview" where
  "commit m =
     (if checkpoints m = [] then (False, m)
      else (True, m\<lparr>checkpoints := butlast (checkpoints m)\<rparr>))"

definition push :: "byte list \<Rightarrow> mbview \<Rightarrow> mbview" where
  "push buffer m = (if buffer \<noteq> [] then m\<lparr>buffers := buffers m @ [buffer]\<rparr> else m)"

definition position :: "mbview \<Rightarrow> nat" where
  "position m = sum_list (map length (take (span_idx m) (buffers m))) + offset m"

fun flush_loop :: "nat \<Rightarrow> byte list list \<Rightarrow> nat \<Rightarrow> (byte list list \<times> nat) access" where
  "flush_loop 0 bufs decrease_offset = Defined (bufs, decrease_offset)"
| "flush_loop (Suc i) (b # bufs) decrease_offset = flush_loop i bufs (decrease_offset + length b)"
| "flush_loop (Suc i) [] decrease_offset = OutOfBounds"

definition flush_deserialized :: "mbview \<Rightarrow> (nat \<times> mbview) access" where
  "flush_deserialized m =
     (case flush_loop (span_idx m) (buffers m) 0 of
        OutOfBounds \<Rightarrow> OutOfBounds
      | Defined (bufs, dec) \<Rightarrow>
          Defined (dec + offset m,
            m\<lparr>buffers := (case bufs of [] \<Rightarrow> [] | b # bs \<Rightarrow> drop (offset m) b # bs),
              span_idx := 0, offset := 0\<rparr>))"

text \<open>
  \<open>__deserialize_trivial__\<close> on an integral or enum type of \<open>n\<close> bytes: copy the object
  representation out of the buffers, then swap the bytes when the requested order is not the
  order of the data. A floating-point value goes through the integer of its size.
\<close>

definition fix_order :: "bool \<Rightarrow> host \<Rightarrow> nat \<Rightarrow> nat \<Rightarrow> nat" where
  "fix_order network h n v =
     (if n > 1
      then if network then (if is_little_endian h then byteswap n v else v)
           else (if \<not> is_little_endian h then byteswap n v else v)
      else v)"

definition deserialize_trivial ::
    "bool \<Rightarrow> host \<Rightarrow> nat \<Rightarrow> mbview \<Rightarrow> (nat option \<times> mbview) access" where
  "deserialize_trivial network h n m =
     (case read n m of
        OutOfBounds \<Rightarrow> OutOfBounds
      | Defined (None, m') \<Rightarrow> Defined (None, m')
      | Defined (Some bs, m') \<Rightarrow> Defined (Some (fix_order network h n (of_mem_bytes h bs)), m'))"

definition read_trivial ::
    "bool \<Rightarrow> host \<Rightarrow> nat \<Rightarrow> mbview \<Rightarrow> (nat option \<times> mbview) access" where
  "read_trivial network h n m =
     (case deserialize_trivial network h n (checkpoint m) of
        OutOfBounds \<Rightarrow> OutOfBounds
      | Defined (Some v, m') \<Rightarrow> Defined (Some v, snd (commit m'))
      | Defined (None, m') \<Rightarrow> Defined (None, snd (rollback m')))"

section \<open>Invariant and abstraction\<close>

definition mb_inv :: "mbview \<Rightarrow> bool" where
  "mb_inv m \<longleftrightarrow> (if span_idx m < length (buffers m)
                  then offset m \<le> length (buffers m ! span_idx m)
                  else span_idx m = length (buffers m) \<and> offset m = 0)"

definition pending :: "mbview \<Rightarrow> byte list" where
  "pending m = drop (offset m) (concat (drop (span_idx m) (buffers m)))"

lemma mb_inv_MultiBufferView: "mb_inv (MultiBufferView bufs)"
  by (simp add: mb_inv_def MultiBufferView_def)

lemma pending_MultiBufferView: "pending (MultiBufferView bufs) = concat bufs"
  by (simp add: pending_def MultiBufferView_def)

lemma available_pending: "available m = length (pending m)"
  by (simp add: available_def pending_def sum_list_map_length)

lemma pending_cur:
  assumes "in_span m"
  shows "pending m = drop (offset m) (buffers m ! span_idx m)
                       @ concat (drop (Suc (span_idx m)) (buffers m))"
  using assms by (simp add: pending_def in_span_def take_drop_nth)

lemma mb_inv_in_span: "mb_inv m \<Longrightarrow> pending m \<noteq> [] \<Longrightarrow> in_span m"
  by (auto simp: mb_inv_def in_span_def pending_def split: if_splits)

lemma step_in_span_inv:
  assumes "in_span m" and "k \<le> avail_in_cur m"
  shows "mb_inv (step_in_span k m)"
proof (cases "offset m + k = length (buffers m ! span_idx m)")
  case True
  then show ?thesis using assms by (auto simp: step_in_span_def mb_inv_def in_span_def Let_def)
next
  case False
  then show ?thesis using assms
    by (auto simp: step_in_span_def mb_inv_def in_span_def avail_in_cur_def Let_def)
qed

lemma step_in_span_pending:
  assumes "in_span m" and "k \<le> avail_in_cur m"
  shows "pending (step_in_span k m) = drop k (pending m)"
proof -
  from assms have p: "pending m = drop (offset m) (buffers m ! span_idx m)
                       @ concat (drop (Suc (span_idx m)) (buffers m))"
    by (simp add: pending_cur)
  show ?thesis
  proof (cases "offset m + k = length (buffers m ! span_idx m)")
    case True
    then show ?thesis using p by (simp add: step_in_span_def Let_def) (simp add: pending_def)
  next
    case False
    with assms have "in_span (step_in_span k m)"
      by (auto simp: step_in_span_def in_span_def avail_in_cur_def Let_def)
    then show ?thesis using p False assms
      by (simp add: pending_cur step_in_span_def Let_def avail_in_cur_def add.commute)
  qed
qed

lemma step_in_span_checkpoints [simp]: "checkpoints (step_in_span k m) = checkpoints m"
  by (simp add: step_in_span_def Let_def)

lemma step_in_span_buffers [simp]: "buffers (step_in_span k m) = buffers m"
  by (simp add: step_in_span_def Let_def)

lemma take_pending_cur:
  assumes "in_span m" and "k \<le> avail_in_cur m"
  shows "take k (drop (offset m) (buffers m ! span_idx m)) = take k (pending m)"
  using assms by (simp add: pending_cur avail_in_cur_def)

lemma read_loop_ok:
  assumes "mb_inv m" and "n \<le> length (pending m)"
  shows "\<exists>m'. read_loop n dest m = Defined (dest @ take n (pending m), m')
            \<and> mb_inv m' \<and> pending m' = drop n (pending m)
            \<and> checkpoints m' = checkpoints m \<and> buffers m' = buffers m"
  using assms
proof (induction n dest m rule: read_loop.induct)
  case (1 n dest m)
  show ?case
  proof (cases "n = 0")
    case True
    then show ?thesis using "1.prems" by (simp add: read_loop.simps)
  next
    case False
    with "1.prems" have sp: "in_span m" by (auto intro: mb_inv_in_span)
    let ?k = "min n (avail_in_cur m)"
    let ?m = "step_in_span ?k m"
    let ?d = "dest @ take ?k (drop (offset m) (buffers m ! span_idx m))"
    have "mb_inv ?m" and pm: "pending ?m = drop ?k (pending m)"
      using sp by (simp_all add: step_in_span_inv step_in_span_pending)
    moreover have "n - ?k \<le> length (pending ?m)" using pm "1.prems" by simp
    ultimately obtain m' where m': "read_loop (n - ?k) ?d ?m
          = Defined (?d @ take (n - ?k) (pending ?m), m')"
        "mb_inv m'" "pending m' = drop (n - ?k) (pending ?m)"
        "checkpoints m' = checkpoints ?m" "buffers m' = buffers ?m"
      using "1.IH" [OF False sp refl] by blast
    have "?d @ take (n - ?k) (pending ?m) = dest @ take n (pending m)"
      using take_pending_cur [OF sp, of ?k] pm
      by (simp add: take_add [symmetric])
    moreover have "drop (n - ?k) (pending ?m) = drop n (pending m)"
      using pm by simp
    ultimately show ?thesis
      using False sp m' by (simp add: read_loop.simps [of n dest m] Let_def)
  qed
qed

lemma read_enough:
  assumes "mb_inv m" and "n \<le> length (pending m)"
  shows "\<exists>m'. read n m = Defined (Some (take n (pending m)), m')
            \<and> mb_inv m' \<and> pending m' = drop n (pending m)
            \<and> checkpoints m' = checkpoints m \<and> buffers m' = buffers m"
  using read_loop_ok [OF assms, of "[]"] assms
  by (auto simp: read_def available_pending)

lemma read_short: "length (pending m) < n \<Longrightarrow> read n m = Defined (None, m)"
  by (simp add: read_def available_pending)

lemma advance_loop_read_loop:
  "advance_loop n m = (case read_loop n dest m of
     Defined (bs, m') \<Rightarrow> Defined m' | OutOfBounds \<Rightarrow> OutOfBounds)"
proof (induction n m arbitrary: dest rule: advance_loop.induct)
  case (1 n m)
  show ?case
  proof (cases "n = 0 \<or> \<not> in_span m")
    case True
    then show ?thesis
      by (auto simp: advance_loop.simps [of n m] read_loop.simps [of n dest m])
  next
    case False
    then have n: "n \<noteq> 0" and sp: "in_span m" by auto
    show ?thesis
      using "1.IH" [OF n sp refl] n sp
      by (simp add: advance_loop.simps [of n m] read_loop.simps [of n dest m] Let_def)
  qed
qed

section \<open>The interface of a byte source\<close>

locale byte_source =
  fixes inv :: "'s \<Rightarrow> bool"
    and bytes :: "'s \<Rightarrow> byte list"
    and rd :: "nat \<Rightarrow> 's \<Rightarrow> (byte list option \<times> 's) access"
  assumes rd_enough: "inv s \<Longrightarrow> n \<le> length (bytes s) \<Longrightarrow>
      \<exists>s'. rd n s = Defined (Some (take n (bytes s)), s') \<and> inv s' \<and> bytes s' = drop n (bytes s)"
    and rd_short: "inv s \<Longrightarrow> length (bytes s) < n \<Longrightarrow> rd n s = Defined (None, s)"
begin

lemma rd_defined: "inv s \<Longrightarrow> rd n s \<noteq> OutOfBounds"
  using rd_enough [of s n] rd_short [of s n] by (cases "n \<le> length (bytes s)") auto

lemma rd_prefix:
  assumes "inv s" and "bytes s = bs @ rest"
  shows "\<exists>s'. rd (length bs) s = Defined (Some bs, s') \<and> inv s' \<and> bytes s' = rest"
  using rd_enough [of s "length bs"] assms by auto

lemma rd_split:
  assumes "inv s" and "rd (i + j) s = Defined (Some bs, s')"
  shows "\<exists>s1 s2. rd i s = Defined (Some (take i bs), s1) \<and> rd j s1 = Defined (Some (drop i bs), s2)
            \<and> bytes s2 = bytes s'"
proof -
  have len: "i + j \<le> length (bytes s)"
    using assms rd_short [of s "i + j"] by (cases "i + j \<le> length (bytes s)") auto
  then have bs: "bs = take (i + j) (bytes s)" and s': "bytes s' = drop (i + j) (bytes s)"
    using rd_enough [OF assms(1) len] assms(2) by auto
  obtain s1 where s1: "rd i s = Defined (Some (take i (bytes s)), s1)" "inv s1"
      "bytes s1 = drop i (bytes s)"
    using rd_enough [OF assms(1), of i] len by auto
  have jl: "j \<le> length (bytes s1)" using len s1(3) by simp
  obtain s2 where s2: "rd j s1 = Defined (Some (take j (bytes s1)), s2)" "bytes s2 = drop j (bytes s1)"
    using rd_enough [OF s1(2) jl] by blast
  show ?thesis using bs s1 s2 s' len by (auto simp: take_drop add.commute min_def)
qed

end

interpretation mbv: byte_source mb_inv pending read
proof
  show "\<exists>s'. read n s = Defined (Some (take n (pending s)), s') \<and> mb_inv s' \<and> pending s' = drop n (pending s)"
    if "mb_inv s" "n \<le> length (pending s)" for s n
    using read_enough [OF that] by blast
  show "read n s = Defined (None, s)" if "mb_inv s" "length (pending s) < n" for s n
    using that by (simp add: read_short)
qed

section \<open>Trivial reads, checkpoints, flushing\<close>

lemma checkpoint_simps [simp]:
  "mb_inv (checkpoint m) = mb_inv m" "pending (checkpoint m) = pending m"
  by (simp_all add: checkpoint_def mb_inv_def pending_def)

lemma commit_checkpoint:
  assumes "checkpoints m' = checkpoints (checkpoint m)"
  shows "commit m' = (True, m'\<lparr>checkpoints := checkpoints m\<rparr>)"
  using assms by (simp add: commit_def checkpoint_def)

lemma rollback_checkpoint: "rollback (checkpoint m) = (True, m)"
  by (simp add: rollback_def checkpoint_def)

text \<open>
  Nested use of the checkpoint stack: after any moves that leave the stack as it was at the
  checkpoint, a rollback restores the cursor.
\<close>

lemma rollback_restores:
  assumes "checkpoints m' = checkpoints (checkpoint m)" and "buffers m' = buffers m"
  shows "rollback m' = (True, m)"
  using assms by (simp add: rollback_def checkpoint_def)

lemma read_trivial_enough:
  assumes "mb_inv m" and "n \<le> length (pending m)"
  shows "\<exists>m'. read_trivial net h n m
              = Defined (Some (fix_order net h n (of_mem_bytes h (take n (pending m)))), m')
            \<and> mb_inv m' \<and> pending m' = drop n (pending m)
            \<and> checkpoints m' = checkpoints m \<and> buffers m' = buffers m"
proof -
  obtain m' where m': "read n (checkpoint m) = Defined (Some (take n (pending m)), m')"
      "mb_inv m'" "pending m' = drop n (pending m)"
      "checkpoints m' = checkpoints (checkpoint m)" "buffers m' = buffers (checkpoint m)"
    using read_enough [of "checkpoint m" n] assms by auto
  have "mb_inv (m'\<lparr>checkpoints := cs\<rparr>) = mb_inv m'"
    "pending (m'\<lparr>checkpoints := cs\<rparr>) = pending m'" for cs
    by (simp_all add: mb_inv_def pending_def)
  with m' show ?thesis
    by (simp add: read_trivial_def deserialize_trivial_def commit_checkpoint checkpoint_def)
qed

lemma read_trivial_short:
  assumes "length (pending m) < n"
  shows "read_trivial net h n m = Defined (None, m)"
  using assms read_short [of "checkpoint m" n]
  by (simp add: read_trivial_def deserialize_trivial_def rollback_checkpoint)

lemma mb_inv_le: "mb_inv m \<Longrightarrow> span_idx m \<le> length (buffers m)"
  by (auto simp: mb_inv_def split: if_splits)

lemma offset_le_rest: "mb_inv m \<Longrightarrow> offset m \<le> length (concat (drop (span_idx m) (buffers m)))"
  by (cases "span_idx m < length (buffers m)") (auto simp: mb_inv_def take_drop_nth)

lemma push_inv: "mb_inv m \<Longrightarrow> mb_inv (push buf m)"
  by (auto simp: push_def mb_inv_def nth_append split: if_splits)

lemma push_pending:
  assumes "mb_inv m"
  shows "pending (push buf m) = pending m @ buf"
  using offset_le_rest [OF assms] mb_inv_le [OF assms] by (simp add: push_def pending_def)

lemma flush_loop_ok:
  "i \<le> length bufs \<Longrightarrow>
   flush_loop i bufs d = Defined (drop i bufs, d + sum_list (map length (take i bufs)))"
  by (induction i bufs d rule: flush_loop.induct) auto

lemma flush_ok:
  assumes "mb_inv m"
  shows "\<exists>m'. flush_deserialized m = Defined (position m, m')
            \<and> mb_inv m' \<and> pending m' = pending m \<and> position m' = 0
            \<and> concat (buffers m') = pending m \<and> checkpoints m' = checkpoints m"
proof -
  have f: "flush_loop (span_idx m) (buffers m) 0 = Defined (drop (span_idx m) (buffers m),
      sum_list (map length (take (span_idx m) (buffers m))))"
    using flush_loop_ok [OF mb_inv_le [OF assms], of 0] by simp
  show ?thesis
  proof (cases "drop (span_idx m) (buffers m)")
    case Nil
    with assms f show ?thesis
      by (auto simp: flush_deserialized_def position_def mb_inv_def pending_def split: if_splits)
  next
    case (Cons b bs)
    then have lt: "span_idx m < length (buffers m)" and b: "b = buffers m ! span_idx m"
      by (auto simp: not_le dest: arg_cong [where f = length])
        (metis Cons nth_via_drop)
    with assms have "offset m \<le> length b" by (simp add: mb_inv_def)
    with Cons f show ?thesis
      by (simp add: flush_deserialized_def position_def mb_inv_def pending_def)
  qed
qed

lemma position_pending: "mb_inv m \<Longrightarrow> position m + length (pending m) = length (concat (buffers m))"
  using offset_le_rest [of m] length_concat_split [of "buffers m" "span_idx m"]
  by (simp add: position_def pending_def sum_list_map_length)

lemma fix_order_bound: "v < 256 ^ n \<Longrightarrow> fix_order net h n v < 256 ^ n"
  by (simp add: fix_order_def byteswap_bound)

lemmas view_eval [buf_defs] =
  MultiBufferView_def push_def read_trivial_def deserialize_trivial_def read_def available_def
  read_loop.simps in_span_def avail_in_cur_def step_in_span_def checkpoint_def commit_def rollback_def
  flush_deserialized_def fix_order_def of_mem_bytes_def mem_bytes_def byteswap_def
  le_bytes_2 le_bytes_4 le_bytes_8 Let_def

end
