(* ===== verification/Stream_Serializer.thy ===== *)
theory Stream_Serializer
  imports Serializer Multi_Buffer
begin

text \<open>
  \<open>StreamSerializer\<close> and the \<open>Deserialize\<close> functors of \<open>include/OsterLib/serialization.h\<close>.
  The stream keeps the cursor of a \<open>MultiBufferView\<close>, the positions \<open>begin\<close>, \<open>end\<close> and
  \<open>iterator\<close>, the nesting level, and per level the values that an interrupted call has
  registered. A deserializer mutates the object it is given: it takes the old value and
  returns an outcome, the new value (also on failure) and the new stream. \<open>Abnormal\<close> is a
  call that does not return: an exception leaving a \<open>noexcept\<close> function
  (\<open>std::terminate\<close>), or an access outside the buffers.
\<close>

section \<open>The stream\<close>

record stream =
  view :: mbview
  registered :: "nat \<Rightarrow> nat list option"
  begin_p :: nat
  end_p :: nat
  iterator :: nat
  level :: nat

datatype outcome = Code SerializationEC | Abnormal

type_synonym deserializer = "val \<Rightarrow> stream \<Rightarrow> outcome \<times> val \<times> stream"

definition StreamSerializer :: stream where
  "StreamSerializer = \<lparr>view = MultiBufferView [], registered = (\<lambda>_. None),
     begin_p = 0, end_p = 0, iterator = 0, level = 0\<rparr>"

definition reset_iterator :: "stream \<Rightarrow> stream" where
  "reset_iterator st = st\<lparr>iterator := begin_p st\<rparr>"

definition push_view :: "byte list \<Rightarrow> stream \<Rightarrow> stream" where
  "push_view buffer st =
     (if length buffer \<noteq> 0 then reset_iterator (st\<lparr>view := push buffer (view st)\<rparr>) else st)"

definition stream_position :: "stream \<Rightarrow> nat" where
  "stream_position st = position (view st)"

definition flush :: "stream \<Rightarrow> (nat \<times> stream) access" where
  "flush st = (case flush_deserialized (view st) of
     Defined (sz, m) \<Rightarrow> Defined (sz, st\<lparr>view := m\<rparr>) | OutOfBounds \<Rightarrow> OutOfBounds)"

definition reset_all :: "stream \<Rightarrow> stream" where
  "reset_all st = st\<lparr>view := MultiBufferView [], registered := (\<lambda>_. None),
     begin_p := 0, end_p := 0\<rparr>"

text \<open>A numeric value of \<open>n\<close> bytes has already been read when \<open>end - iterator >= n\<close>.\<close>

definition trivial_deserialized :: "nat \<Rightarrow> stream \<Rightarrow> bool" where
  "trivial_deserialized n st \<longleftrightarrow> usub64 (end_p st) (iterator st) \<ge> n"

definition try_advance :: "nat \<Rightarrow> stream \<Rightarrow> stream option" where
  "try_advance n st =
     (if trivial_deserialized n st then Some (st\<lparr>iterator := iterator st + n\<rparr>) else None)"

definition register_value :: "nat \<Rightarrow> stream \<Rightarrow> stream" where
  "register_value v st = st\<lparr>registered := (registered st)
     (level st := Some ((case registered st (level st) of None \<Rightarrow> [] | Some vs \<Rightarrow> vs) @ [v]))\<rparr>"

text \<open>\<open>unordered_map::at\<close> and \<open>vector::at\<close> throw when the entry does not exist.\<close>

definition get_value_at :: "nat \<Rightarrow> stream \<Rightarrow> nat option" where
  "get_value_at i st = (case registered st (level st) of
     None \<Rightarrow> None | Some vs \<Rightarrow> if i < length vs then Some (vs ! i) else None)"

definition update_value_at :: "nat \<Rightarrow> nat \<Rightarrow> stream \<Rightarrow> stream option" where
  "update_value_at v i st = (case registered st (level st) of
     None \<Rightarrow> None
   | Some vs \<Rightarrow> if i < length vs
       then Some (st\<lparr>registered := (registered st)(level st := Some (vs[i := v]))\<rparr>) else None)"

definition registered_size :: "stream \<Rightarrow> nat" where
  "registered_size st = (case registered st (level st) of None \<Rightarrow> 0 | Some vs \<Rightarrow> length vs)"

text \<open>\<open>deserialize<NETWORK_ORDER>(T&)\<close> for a numeric \<open>T\<close> of \<open>n\<close> bytes.\<close>

definition deserialize_numeric :: "bool \<Rightarrow> host \<Rightarrow> nat \<Rightarrow> deserializer" where
  "deserialize_numeric network h n old st =
     (case read_trivial network h n (view st) of
        OutOfBounds \<Rightarrow> (Abnormal, old, st)
      | Defined (Some x, m) \<Rightarrow>
          (Code NONE, VInt x, st\<lparr>view := m, end_p := end_p st + n, iterator := iterator st + n\<rparr>)
      | Defined (None, m) \<Rightarrow> (Code BUFFER_SIZE_LESSER, old, st\<lparr>view := m\<rparr>))"

text \<open>
  \<open>deserialize<NETWORK_ORDER>(T&)\<close> for any other \<open>T\<close>: one level deeper, the functor, and the
  bookkeeping. At level 1 the consumed bytes are dropped and everything registered is
  forgotten (\<open>flush_registered\<close> then works on an empty map and changes nothing).
\<close>

definition finish_success :: "stream \<Rightarrow> stream option" where
  "finish_success st =
     (if level st = 1
      then case flush_deserialized (view st) of
             OutOfBounds \<Rightarrow> None
           | Defined (sz, m) \<Rightarrow>
               Some (st\<lparr>view := m, begin_p := end_p st, iterator := end_p st,
                        registered := (\<lambda>_. None)\<rparr>)
      else Some (st\<lparr>registered := (registered st)(level st := None)\<rparr>))"

definition deserialize_object :: "deserializer \<Rightarrow> deserializer" where
  "deserialize_object D old st =
     (case D old (st\<lparr>level := level st + 1\<rparr>) of
        (Abnormal, v, st1) \<Rightarrow> (Abnormal, v, st1)
      | (Code c, v, st1) \<Rightarrow>
          if c = NONE
          then case finish_success st1 of
                 None \<Rightarrow> (Abnormal, v, st1)
               | Some st2 \<Rightarrow> (Code c, v, st2\<lparr>level := level st2 - 1\<rparr>)
          else let st2 = reset_iterator st1 in (Code c, v, st2\<lparr>level := level st2 - 1\<rparr>))"

text \<open>\<open>deserialize<NETWORK_ORDER>(args...)\<close>: the fields in order, up to the first error.\<close>

fun deserialize_fields ::
    "deserializer list \<Rightarrow> val list \<Rightarrow> stream \<Rightarrow> outcome \<times> val list \<times> stream" where
  "deserialize_fields (D # Ds) (v # vs) st =
     (case D v st of
        (out, v', st') \<Rightarrow>
          if out = Code NONE
          then case deserialize_fields Ds vs st' of (out', vs', st'') \<Rightarrow> (out', v' # vs', st'')
          else (out, v' # vs, st'))"
| "deserialize_fields Ds vs st = (Code NONE, vs, st)"

section \<open>The functors\<close>

definition tick_quot :: "nat \<Rightarrow> int \<Rightarrow> int" where
  "tick_quot k ns = (if 0 \<le> ns then ns div int k else - ((- ns) div int k))"

definition Deserialize_ticks :: "bool \<Rightarrow> host \<Rightarrow> nat \<Rightarrow> deserializer" where
  "Deserialize_ticks network h k old st =
     (case deserialize_numeric network h 8 (VInt 0) st of
        (out, x, st') \<Rightarrow>
          if out = Code NONE then (out, VTick (tick_quot k (int64_of_bits (vint x))), st')
          else (out, old, st'))"

definition Deserialize_smart_ptr ::
    "bool \<Rightarrow> host \<Rightarrow> val \<Rightarrow> deserializer \<Rightarrow> deserializer" where
  "Deserialize_smart_ptr network h dflt D old st =
     (case try_advance 1 st of
        Some st' \<Rightarrow>
          (case vptr old of
             Some x \<Rightarrow> (case D x st' of (out, x', st'') \<Rightarrow> (out, VPtr (Some x'), st''))
           | None \<Rightarrow> (Code NONE, old, st'))
      | None \<Rightarrow>
          (case deserialize_numeric network h 1 (VInt 0) st of
             (out, has_value, st') \<Rightarrow>
               if out \<noteq> Code NONE then (out, old, st')
               else if vint has_value \<noteq> 0
               then case D dflt st' of (out', x, st'') \<Rightarrow> (out', VPtr (Some x), st'')
               else (Code NONE, VPtr None, st')))"

definition Deserialize_pair :: "deserializer \<Rightarrow> deserializer \<Rightarrow> deserializer" where
  "Deserialize_pair D1 D2 old st =
     (case deserialize_fields [D1, D2] [vfst old, vsnd old] st of
        (out, vs, st') \<Rightarrow> (out, VPair (vs ! 0) (vs ! 1), st'))"

definition Deserialize_struct :: "deserializer list \<Rightarrow> deserializer" where
  "Deserialize_struct Ds old st =
     (case deserialize_fields Ds (vfields old) st of (out, vs, st') \<Rightarrow> (out, VStruct vs, st'))"

text \<open>The loop of the array functors, over the indices \<open>SZ-remain, ..., remain-1\<close>.\<close>

primrec array_loop ::
    "deserializer \<Rightarrow> nat \<Rightarrow> nat list \<Rightarrow> val list \<Rightarrow> stream \<Rightarrow> outcome \<times> val list \<times> stream" where
  "array_loop D remain [] vs st = (Code NONE, vs, st)"
| "array_loop D remain (i # is) vs st =
     (case D (vs ! i) st of
        (out, x, st') \<Rightarrow>
          if out = Abnormal then (out, vs[i := x], st')
          else case update_value_at (usub64 remain 1) 0 st' of
                 None \<Rightarrow> (Abnormal, vs[i := x], st')
               | Some st'' \<Rightarrow>
                   if out \<noteq> Code NONE then (out, vs[i := x], st'')
                   else array_loop D remain is (vs[i := x]) st'')"

definition Deserialize_array :: "nat \<Rightarrow> deserializer \<Rightarrow> deserializer" where
  "Deserialize_array SZ D old st =
     (let (remain, st') =
        (if registered_size st > 0
         then ((case get_value_at 0 st of Some r \<Rightarrow> r | None \<Rightarrow> SZ), st)
         else (SZ, register_value SZ st))
      in case array_loop D remain [usub64 SZ remain..<remain] (varr old) st' of
           (out, vs, st'') \<Rightarrow> (out, VArr vs, st''))"

definition Deserialize_optional ::
    "bool \<Rightarrow> host \<Rightarrow> val \<Rightarrow> deserializer \<Rightarrow> deserializer" where
  "Deserialize_optional network h dflt D old st =
     (case try_advance 1 st of
        Some st' \<Rightarrow>
          (case vopt old of
             Some x \<Rightarrow> (case D x st' of (out, x', st'') \<Rightarrow> (out, VOpt (Some x'), st''))
           | None \<Rightarrow> (Code NONE, old, st'))
      | None \<Rightarrow>
          (case deserialize_numeric network h 1 (VInt 0) st of
             (out, has_value, st') \<Rightarrow>
               if out \<noteq> Code NONE then (out, old, st')
               else if vint has_value = 0 then (Code NONE, old, st')
               else case D dflt st' of (out', x, st'') \<Rightarrow> (out', VOpt (Some x), st'')))"

text \<open>
  Insertion at the end (sequences), at the front (\<open>forward_list\<close>), or of a key that is not
  there yet (sets, maps).
\<close>

definition insert_item :: "container \<Rightarrow> val list \<Rightarrow> val \<Rightarrow> val list" where
  "insert_item c items x = (case c of
      Sequence \<Rightarrow> items @ [x]
    | ForwardList \<Rightarrow> x # items
    | UniqueKeys \<Rightarrow> if x \<in> set items then items else items @ [x]
    | Associative \<Rightarrow> if vfst x \<in> set (map vfst items) then items else items @ [x])"

text \<open>The element loop, \<open>n\<close> rounds; \<open>sz\<close> is read before the loop and not changed by it.\<close>

fun range_loop ::
    "container \<Rightarrow> val \<Rightarrow> deserializer \<Rightarrow> nat \<Rightarrow> nat \<Rightarrow> val list \<Rightarrow> stream
       \<Rightarrow> outcome \<times> val list \<times> stream" where
  "range_loop c dflt D n sz items st =
     (if n = 0 then (Code NONE, items, st)
      else case D dflt st of
        (out, x, st') \<Rightarrow>
          if out \<noteq> Code NONE then (out, items, st')
          else if c = ForwardList
          then case update_value_at (sz + 1) 1 st' of
                 None \<Rightarrow> (Abnormal, insert_item c items x, st')
               | Some st'' \<Rightarrow> range_loop c dflt D (n - 1) sz (insert_item c items x) st''
          else range_loop c dflt D (n - 1) sz (insert_item c items x) st')"

declare range_loop.simps [simp del]

definition range_size_before :: "container \<Rightarrow> val list \<Rightarrow> stream \<Rightarrow> (nat \<times> stream) option" where
  "range_size_before c items st =
     (if c = ForwardList
      then if registered_size st = 1 then Some (0, register_value (length items) st)
           else map_option (\<lambda>sz. (sz, st)) (get_value_at 1 st)
      else Some (length items, st))"

definition range_elements ::
    "container \<Rightarrow> val \<Rightarrow> deserializer \<Rightarrow> nat \<Rightarrow> val list \<Rightarrow> stream
       \<Rightarrow> outcome \<times> val \<times> stream" where
  "range_elements c dflt D range_sz items st =
     (case range_size_before c items st of
        None \<Rightarrow> (Abnormal, VRange items, st)
      | Some (sz, st') \<Rightarrow>
          (case range_loop c dflt D (usub64 range_sz sz) sz items st' of
             (out, items', st'') \<Rightarrow>
               (out, VRange (if out = Code NONE \<and> c = ForwardList then rev items' else items'), st'')))"

definition Deserialize_range ::
    "bool \<Rightarrow> host \<Rightarrow> container \<Rightarrow> val \<Rightarrow> deserializer \<Rightarrow> deserializer" where
  "Deserialize_range network h c dflt D old st =
     (case try_advance 8 st of
        Some st' \<Rightarrow>
          (case get_value_at 0 st' of
             None \<Rightarrow> (Abnormal, old, st')
           | Some range_sz \<Rightarrow> range_elements c dflt D range_sz (velems old) st')
      | None \<Rightarrow>
          (case deserialize_numeric network h 8 (VInt 0) st of
             (out, range_sz, st') \<Rightarrow>
               if out \<noteq> Code NONE then (out, VRange [], st')
               else range_elements c dflt D (vint range_sz) [] (register_value (vint range_sz) st')))"

text \<open>\<open>VariantFactory::emplace\<close>: the default value of the alternative, if the index names one.\<close>

definition emplace :: "val list \<Rightarrow> nat \<Rightarrow> val option" where
  "emplace dflts index =
     (if index \<ge> length dflts then None else Some (VVar index (dflts ! index)))"

definition visit :: "deserializer list \<Rightarrow> val \<Rightarrow> stream \<Rightarrow> outcome \<times> val \<times> stream" where
  "visit Ds v st = (case (Ds ! vindex v) (vitem v) st of (out, x, st') \<Rightarrow> (out, VVar (vindex v) x, st'))"

definition Deserialize_variant ::
    "bool \<Rightarrow> host \<Rightarrow> val list \<Rightarrow> deserializer list \<Rightarrow> deserializer" where
  "Deserialize_variant network h dflts Ds old st =
     (case try_advance 8 st of
        Some st' \<Rightarrow> visit Ds old st'
      | None \<Rightarrow>
          (case deserialize_numeric network h 8 (VInt SIZE_MAX) st of
             (out, index, st') \<Rightarrow>
               if out \<noteq> Code NONE then (out, old, st')
               else case emplace dflts (vint index) of
                      None \<Rightarrow> (Code UNMATCHED_TYPE, old, st')
                    | Some v \<Rightarrow> visit Ds v st'))"

text \<open>\<open>buf.deserialize<NETWORK_ORDER>(value)\<close> for a value of each type.\<close>

primrec (nonexhaustive) stream_deserialize :: "bool \<Rightarrow> host \<Rightarrow> ty \<Rightarrow> deserializer" where
  "stream_deserialize network h (TInt n) = deserialize_numeric network h n"
| "stream_deserialize network h (TFloat n) = deserialize_numeric network h n"
| "stream_deserialize network h (TTime k) = deserialize_object (Deserialize_ticks network h k)"
| "stream_deserialize network h (TDur k) = deserialize_object (Deserialize_ticks network h k)"
| "stream_deserialize network h (TPtr t) = deserialize_object
     (Deserialize_smart_ptr network h (default_val t) (stream_deserialize network h t))"
| "stream_deserialize network h TEmpty = deserialize_object (\<lambda>v st. (Code NONE, v, st))"
| "stream_deserialize network h (TPair a b) = deserialize_object
     (Deserialize_pair (stream_deserialize network h a) (stream_deserialize network h b))"
| "stream_deserialize network h (TArr n t) = deserialize_object
     (Deserialize_array n (stream_deserialize network h t))"
| "stream_deserialize network h (TOpt t) = deserialize_object
     (Deserialize_optional network h (default_val t) (stream_deserialize network h t))"
| "stream_deserialize network h (TRange c t) = deserialize_object
     (Deserialize_range network h c (default_val t) (stream_deserialize network h t))"
| "stream_deserialize network h (TVar ts) = deserialize_object
     (Deserialize_variant network h (map default_val ts) (map (stream_deserialize network h) ts))"
| "stream_deserialize network h (TStruct ts) = deserialize_object
     (Deserialize_struct (map (stream_deserialize network h) ts))"

definition deserialize_native :: "host \<Rightarrow> ty \<Rightarrow> deserializer" where
  "deserialize_native h t = stream_deserialize False h t"

definition deserialize_network :: "host \<Rightarrow> ty \<Rightarrow> deserializer" where
  "deserialize_network h t = stream_deserialize True h t"

lemmas stream_eval [codec_defs] =
  deserialize_network_def deserialize_native_def deserialize_object_def deserialize_numeric_def
  finish_success_def StreamSerializer_def push_view_def reset_iterator_def
  try_advance_def trivial_deserialized_def usub64_def get_value_at_def update_value_at_def
  register_value_def registered_size_def Deserialize_ticks_def tick_quot_def
  Deserialize_smart_ptr_def Deserialize_pair_def Deserialize_struct_def Deserialize_array_def
  Deserialize_optional_def insert_item_def range_loop.simps range_size_before_def
  range_elements_def Deserialize_range_def emplace_def visit_def Deserialize_variant_def

lemmas serialize_eval [codec_defs] =
  serialize_network_def serialize_native_def Serialize_integral_def Serialize_ticks_def
  Serialize_smart_ptr_def Serialize_weak_ptr_def Serialize_pair_def Serialize_array_def
  Serialize_optional_def Serialize_range_def Serialize_variant_def Serialize_struct_def

end
