(* ===== verification/Codec.thy ===== *)
theory Codec
  imports Stream_Serializer
begin

text \<open>
  The contract between an encoder and a stream deserializer, as the locale \<open>codec\<close>, and the
  same contract for the functors that \<open>StreamSerializer::deserialize\<close> calls one level deeper
  (\<open>functor_codec\<close>). Three laws: the encoding of a value, followed by anything, is read back
  exactly; a proper prefix of an encoding is reported as too short; and on arbitrary bytes the
  call returns with one of three codes, and with a well-typed value when it reports success.
  The container functors are shown to turn codecs for their elements into codecs.
\<close>

section \<open>States in which no interrupted call is pending\<close>

abbreviation avail :: "stream \<Rightarrow> byte list" where
  "avail st \<equiv> pending (view st)"

definition ready :: "stream \<Rightarrow> bool" where
  "ready st \<longleftrightarrow> mb_inv (view st) \<and> iterator st = end_p st \<and> (\<forall>l > level st. registered st l = None)"

definition entered :: "stream \<Rightarrow> bool" where
  "entered st \<longleftrightarrow> ready st \<and> 0 < level st \<and> registered st (level st) = None"

definition kept :: "stream \<Rightarrow> stream \<Rightarrow> bool" where
  "kept st st' \<longleftrightarrow> level st' = level st
     \<and> (0 < level st \<longrightarrow> (\<forall>l \<le> level st. registered st' l = registered st l))"

definition kept_below :: "stream \<Rightarrow> stream \<Rightarrow> bool" where
  "kept_below st st' \<longleftrightarrow> level st' = level st \<and> (\<forall>l < level st. registered st' l = registered st l)"

definition decode_codes :: "SerializationEC set" where
  "decode_codes = {NONE, BUFFER_SIZE_LESSER, UNMATCHED_TYPE}"

definition proper_prefix :: "'a list \<Rightarrow> 'a list \<Rightarrow> bool" where
  "proper_prefix p xs \<longleftrightarrow> (\<exists>q. q \<noteq> [] \<and> xs = p @ q)"

lemma kept_refl: "kept st st"
  by (simp add: kept_def)

lemma kept_trans: "kept a b \<Longrightarrow> kept b c \<Longrightarrow> kept a c"
  by (auto simp: kept_def)

lemma kept_kept_below: "entered st \<Longrightarrow> kept st st' \<Longrightarrow> kept_below st st'"
  by (auto simp: kept_def kept_below_def entered_def)

lemma try_advance_ready [simp]: "ready st \<Longrightarrow> 0 < n \<Longrightarrow> try_advance n st = None"
  by (simp add: try_advance_def trivial_deserialized_def ready_def)

lemma proper_prefix_append:
  "proper_prefix p (xs @ ys) \<longleftrightarrow> proper_prefix p xs \<or> (\<exists>q. p = xs @ q \<and> proper_prefix q ys)"
  (is "?L \<longleftrightarrow> ?R")
proof
  assume ?L
  then obtain q where q: "q \<noteq> []" "xs @ ys = p @ q" by (auto simp: proper_prefix_def)
  then consider zs where "p = xs @ zs" "zs @ q = ys" | zs where "xs = p @ zs" "q = zs @ ys"
    using append_eq_prefix_cases [of p q xs ys] by auto
  then show ?R
    using q by cases (auto simp: proper_prefix_def append_eq_append_conv2)
next
  assume ?R
  then show ?L
    unfolding proper_prefix_def by (elim disjE exE conjE) (metis append.assoc append_is_Nil_conv)+
qed

lemma proper_prefix_Nil [simp]: "\<not> proper_prefix p []"
  by (simp add: proper_prefix_def)

lemma proper_prefix_length: "proper_prefix p xs \<Longrightarrow> length p < length xs"
  by (auto simp: proper_prefix_def)

section \<open>Numeric reads\<close>

lemma numeric_enough:
  assumes "ready st" and "n \<le> length (avail st)"
  shows "\<exists>st'. deserialize_numeric net h n old st
              = (Code NONE, VInt (fix_order net h n (of_mem_bytes h (take n (avail st)))), st')
            \<and> ready st' \<and> avail st' = drop n (avail st)
            \<and> level st' = level st \<and> registered st' = registered st \<and> begin_p st' = begin_p st"
proof -
  obtain m where "read_trivial net h n (view st)
        = Defined (Some (fix_order net h n (of_mem_bytes h (take n (avail st)))), m)"
      "mb_inv m" "pending m = drop n (avail st)"
    using read_trivial_enough [of "view st" n net h] assms by (auto simp: ready_def)
  with assms show ?thesis by (auto simp: deserialize_numeric_def ready_def)
qed

lemma numeric_short:
  assumes "length (avail st) < n"
  shows "deserialize_numeric net h n old st = (Code BUFFER_SIZE_LESSER, old, st)"
  using read_trivial_short [OF assms] by (simp add: deserialize_numeric_def)

text \<open>The byte orders that agree between the two directions.\<close>

definition good_order :: "bool \<Rightarrow> host \<Rightarrow> bool" where
  "good_order network h \<longleftrightarrow> network \<or> h = LittleHost"

lemma fix_order_put_uint:
  assumes "good_order net h" and "x < 256 ^ n"
  shows "fix_order net h n (of_mem_bytes h (put_uint net h n x)) = x"
proof (cases "net \<and> h = LittleHost")
  case True
  then have "fix_order net h n (of_mem_bytes h (put_uint net h n x))
      = (if n > 1 then byteswap n (byteswap n x) else byteswap n x)"
    by (simp add: fix_order_def put_uint_def of_mem_bytes_def byteswap_def)
  moreover have "byteswap n x = x" if "n \<le> 1"
    using that assms(2) by (cases n) (auto simp: byteswap_def unat_of_nat)
  ultimately show ?thesis using assms(2) by (simp add: byteswap_byteswap)
next
  case False
  with assms show ?thesis
    by (auto simp: good_order_def fix_order_def put_uint_def of_mem_bytes_def mem_bytes_def split: host.splits)
qed

lemma numeric_decode:
  assumes "ready st" and "good_order net h" and "x < 256 ^ n"
    and "avail st = put_uint net h n x @ rest"
  shows "\<exists>st'. deserialize_numeric net h n old st = (Code NONE, VInt x, st')
            \<and> ready st' \<and> avail st' = rest \<and> level st' = level st \<and> registered st' = registered st"
  using numeric_enough [OF assms(1), of n net h old] assms by (auto simp: fix_order_put_uint)

lemma numeric_result:
  assumes "ready st"
  shows "(\<exists>x st'. deserialize_numeric net h n old st = (Code NONE, VInt x, st') \<and> x < 256 ^ n
             \<and> ready st' \<and> (\<exists>p. avail st = p @ avail st') \<and> level st' = level st \<and> registered st' = registered st)
       \<or> deserialize_numeric net h n old st = (Code BUFFER_SIZE_LESSER, old, st)"
proof (cases "n \<le> length (avail st)")
  case True
  then have "of_mem_bytes h (take n (avail st)) < 256 ^ n"
    by (simp add: of_mem_bytes_bound)
  then have "fix_order net h n (of_mem_bytes h (take n (avail st))) < 256 ^ n"
    by (rule fix_order_bound)
  with numeric_enough [OF assms True, of net h old] show ?thesis
    by (metis append_take_drop_id)
next
  case False
  then show ?thesis by (simp add: numeric_short)
qed

section \<open>The two contracts\<close>

locale functor_codec =
  fixes enc :: "val \<Rightarrow> byte list"
    and F :: deserializer
    and wt :: "val \<Rightarrow> bool"
    and cln :: "val \<Rightarrow> bool"
  assumes F_decode: "wt v \<Longrightarrow> cln old \<Longrightarrow> entered st \<Longrightarrow> avail st = enc v @ rest \<Longrightarrow>
      \<exists>st'. F old st = (Code NONE, v, st') \<and> ready st' \<and> avail st' = rest \<and> kept_below st st'"
    and F_short: "wt v \<Longrightarrow> cln old \<Longrightarrow> entered st \<Longrightarrow> proper_prefix (avail st) (enc v) \<Longrightarrow>
      \<exists>v' st'. F old st = (Code BUFFER_SIZE_LESSER, v', st')"
    and F_total: "cln old \<Longrightarrow> entered st \<Longrightarrow>
      \<exists>c v st'. F old st = (Code c, v, st') \<and> c \<in> decode_codes \<and> kept_below st st'
        \<and> (c = NONE \<longrightarrow> wt v \<and> ready st' \<and> (\<exists>p. avail st = p @ avail st'))"

locale codec =
  fixes enc :: "val \<Rightarrow> byte list"
    and D :: deserializer
    and wt :: "val \<Rightarrow> bool"
    and cln :: "val \<Rightarrow> bool"
  assumes decode: "wt v \<Longrightarrow> cln old \<Longrightarrow> ready st \<Longrightarrow> avail st = enc v @ rest \<Longrightarrow>
      \<exists>st'. D old st = (Code NONE, v, st') \<and> ready st' \<and> avail st' = rest \<and> kept st st'"
    and short: "wt v \<Longrightarrow> cln old \<Longrightarrow> ready st \<Longrightarrow> proper_prefix (avail st) (enc v) \<Longrightarrow>
      \<exists>v' st'. D old st = (Code BUFFER_SIZE_LESSER, v', st')"
    and total: "cln old \<Longrightarrow> ready st \<Longrightarrow>
      \<exists>c v st'. D old st = (Code c, v, st') \<and> c \<in> decode_codes \<and> kept st st'
        \<and> (c = NONE \<longrightarrow> wt v \<and> ready st' \<and> (\<exists>p. avail st = p @ avail st'))"

lemma entered_enter: "ready st \<Longrightarrow> entered (st\<lparr>level := Suc (level st)\<rparr>)"
  by (simp add: entered_def ready_def)

lemma finish_success_ok:
  assumes "ready st" and "0 < level st"
  shows "\<exists>st'. finish_success st = Some st' \<and> ready (st'\<lparr>level := level st' - 1\<rparr>)
            \<and> avail st' = avail st \<and> level st' = level st
            \<and> (1 < level st \<longrightarrow> (\<forall>l < level st. registered st' l = registered st l))"
proof (cases "level st = 1")
  case True
  obtain sz m where "flush_deserialized (view st) = Defined (sz, m)" "mb_inv m" "pending m = avail st"
    using flush_ok [of "view st"] assms(1) by (auto simp: ready_def)
  with True show ?thesis by (simp add: finish_success_def ready_def)
next
  case False
  with assms show ?thesis by (auto simp: finish_success_def ready_def)
qed

context functor_codec
begin

text \<open>One level deeper, a functor that keeps its contract is a codec.\<close>

lemma object_codec: "codec enc (deserialize_object F) wt cln"
proof
  fix v old st rest
  assume "wt v" "cln old" and r: "ready st" and "avail st = enc v @ rest"
  then obtain st1 where st1: "F old (st\<lparr>level := Suc (level st)\<rparr>) = (Code NONE, v, st1)" "ready st1"
      "avail st1 = rest" "kept_below (st\<lparr>level := Suc (level st)\<rparr>) st1"
    using F_decode [of v old "st\<lparr>level := Suc (level st)\<rparr>" rest] entered_enter by auto
  then obtain st2 where "finish_success st1 = Some st2" "ready (st2\<lparr>level := level st2 - 1\<rparr>)"
      "avail st2 = rest" "level st2 = Suc (level st)"
      "0 < level st \<Longrightarrow> \<forall>l < Suc (level st). registered st2 l = registered st1 l"
    using finish_success_ok [of st1] by (auto simp: kept_below_def)
  with st1 show "\<exists>st'. deserialize_object F old st = (Code NONE, v, st') \<and> ready st'
      \<and> avail st' = rest \<and> kept st st'"
    by (auto simp: deserialize_object_def kept_def kept_below_def)
next
  fix v old st
  assume "wt v" "cln old" "ready st" "proper_prefix (avail st) (enc v)"
  then show "\<exists>v' st'. deserialize_object F old st = (Code BUFFER_SIZE_LESSER, v', st')"
    using F_short [of v old "st\<lparr>level := Suc (level st)\<rparr>"] entered_enter
    by (auto simp: deserialize_object_def Let_def)
next
  fix old st
  assume "cln old" and r: "ready st"
  then obtain c v st1 where F: "F old (st\<lparr>level := Suc (level st)\<rparr>) = (Code c, v, st1)"
      "c \<in> decode_codes" "kept_below (st\<lparr>level := Suc (level st)\<rparr>) st1"
    and ok: "c = NONE \<Longrightarrow> wt v \<and> ready st1 \<and> (\<exists>p. avail st = p @ avail st1)"
    using F_total [of old "st\<lparr>level := Suc (level st)\<rparr>"] entered_enter by auto
  show "\<exists>c v st'. deserialize_object F old st = (Code c, v, st') \<and> c \<in> decode_codes \<and> kept st st'
        \<and> (c = NONE \<longrightarrow> wt v \<and> ready st' \<and> (\<exists>p. avail st = p @ avail st'))"
  proof (cases "c = NONE")
    case True
    then obtain st2 where "finish_success st1 = Some st2" "ready (st2\<lparr>level := level st2 - 1\<rparr>)"
      "avail st2 = avail st1" "level st2 = Suc (level st)"
      "0 < level st \<Longrightarrow> \<forall>l < Suc (level st). registered st2 l = registered st1 l"
      using finish_success_ok [of st1] ok F(3) by (auto simp: kept_below_def)
    with True F ok show ?thesis
      by (auto simp: deserialize_object_def kept_def kept_below_def)
  next
    case False
    with F show ?thesis by (auto simp: deserialize_object_def Let_def reset_iterator_def kept_def kept_below_def)
  qed
qed

end

text \<open>Conversely, a codec may stand where a functor is called.\<close>

sublocale codec \<subseteq> called: functor_codec enc D wt cln
proof
  show "\<exists>st'. D old st = (Code NONE, v, st') \<and> ready st' \<and> avail st' = rest \<and> kept_below st st'"
    if "wt v" "cln old" "entered st" "avail st = enc v @ rest" for v old st rest
    using decode [of v old st rest] kept_kept_below [OF that(3)] that by (auto simp: entered_def)
  show "\<exists>v' st'. D old st = (Code BUFFER_SIZE_LESSER, v', st')"
    if "wt v" "cln old" "entered st" "proper_prefix (avail st) (enc v)" for v old st
    using short [of v old st] that by (auto simp: entered_def)
  show "\<exists>c v st'. D old st = (Code c, v, st') \<and> c \<in> decode_codes \<and> kept_below st st'
        \<and> (c = NONE \<longrightarrow> wt v \<and> ready st' \<and> (\<exists>p. avail st = p @ avail st'))"
    if "cln old" "entered st" for old st
    using total [of old st] that kept_kept_below [OF that(2)] by (fastforce simp: entered_def)
qed

end
