(* ===== verification/Codec_Functors.thy ===== *)
theory Codec_Functors
  imports Codec
begin

text \<open>
  Every \<open>Deserialize\<close> functor keeps the contract of the theory \<open>Codec\<close>, given codecs for the
  types it is built from.
\<close>

section \<open>Leaves: numbers, ticks, empty classes\<close>

lemma numeric_codec:
  assumes "good_order net h"
  shows "codec (\<lambda>v. put_uint net h n (vint v)) (deserialize_numeric net h n)
           (\<lambda>v. \<exists>x. v = VInt x \<and> x < 256 ^ n) (\<lambda>_. True)"
proof
  fix v old st rest
  assume "\<exists>x. v = VInt x \<and> x < 256 ^ n" and r: "ready st" "avail st = put_uint net h n (vint v) @ rest"
  then obtain x where x: "v = VInt x" "x < 256 ^ n" by blast
  from numeric_decode [OF r(1) assms x(2), of rest old] x r(2)
  show "\<exists>st'. deserialize_numeric net h n old st = (Code NONE, v, st') \<and> ready st' \<and> avail st' = rest \<and> kept st st'"
    by (auto simp: kept_def)
next
  fix v old st
  assume "proper_prefix (avail st) (put_uint net h n (vint v))"
  then show "\<exists>v' st'. deserialize_numeric net h n old st = (Code BUFFER_SIZE_LESSER, v', st')"
    using proper_prefix_length numeric_short by fastforce
next
  fix old st
  assume "ready st"
  then show "\<exists>c v st'. deserialize_numeric net h n old st = (Code c, v, st') \<and> c \<in> decode_codes
      \<and> kept st st' \<and> (c = NONE \<longrightarrow> (\<exists>x. v = VInt x \<and> x < 256 ^ n) \<and> ready st'
          \<and> (\<exists>p. avail st = p @ avail st'))"
    using numeric_result [of st net h n old] by (auto simp: decode_codes_def kept_def)
qed

lemma kept_below_via:
  "entered st \<Longrightarrow> level st' = level st \<Longrightarrow> registered st' = registered st \<Longrightarrow> kept st' st'' \<Longrightarrow>
   kept_below st st''"
  by (auto simp: kept_def kept_below_def entered_def)

lemma kept_below_same:
  "level st' = level st \<Longrightarrow> registered st' = registered st \<Longrightarrow> kept_below st st'"
  by (simp add: kept_below_def)

lemma entered_ready: "entered st \<Longrightarrow> ready st"
  by (simp add: entered_def)

lemma tick_quot_mult: "0 < k \<Longrightarrow> tick_quot k (c * int k) = c"
  by (auto simp: tick_quot_def zero_le_mult_iff minus_mult_left simp del: mult_minus_left)

lemma int64_of_bits_fits: "v < 256 ^ 8 \<Longrightarrow> fits_int64 (int64_of_bits v)"
  by (auto simp: int64_of_bits_def fits_int64_def)

lemma abs_tick_quot: "0 < k \<Longrightarrow> \<bar>tick_quot k ns * int k\<bar> \<le> \<bar>ns\<bar> \<and> \<bar>tick_quot k ns\<bar> \<le> \<bar>ns\<bar>"
proof -
  assume k: "0 < k"
  have q: "0 \<le> a div int k \<and> a div int k * int k \<le> a \<and> a div int k \<le> a" if "0 \<le> a" for a
    using that k zdiv_mono2 [of a 1 "int k"]
    by (auto simp: pos_imp_zdiv_nonneg_iff minus_mod_eq_div_mult [symmetric])
  show ?thesis using q [of ns] q [of "- ns"] k
    by (auto simp: tick_quot_def abs_mult)
qed

lemma tick_quot_fits:
  assumes "0 < k" and "fits_int64 ns"
  shows "fits_int64 (tick_quot k ns) \<and> fits_int64 (tick_quot k ns * int k)"
proof (cases "0 \<le> ns")
  case True
  with abs_tick_quot [OF assms(1), of ns] assms show ?thesis
    by (auto simp: fits_int64_def abs_le_iff)
next
  case False
  then have "tick_quot k ns \<le> 0 \<and> tick_quot k ns * int k \<le> 0"
    using assms(1) by (auto simp: tick_quot_def pos_imp_zdiv_nonneg_iff mult_le_0_iff)
  with abs_tick_quot [OF assms(1), of ns] assms False show ?thesis
    by (auto simp: fits_int64_def abs_le_iff)
qed

lemma ticks_functor:
  assumes "good_order net h" and "0 < k"
  shows "functor_codec (\<lambda>v. put_uint net h 8 (int64_bits (vtick v * int k)))
           (Deserialize_ticks net h k) (is_tick k) (\<lambda>_. True)"
proof
  fix v old st rest
  assume v: "is_tick k v" and e: "entered st"
    and av: "avail st = put_uint net h 8 (int64_bits (vtick v * int k)) @ rest"
  from v obtain c where c: "v = VTick c" "fits_int64 (c * int k)"
    by (auto simp: is_tick_def split: val.splits)
  with numeric_decode [OF entered_ready [OF e] assms(1) int64_bits_bound av, of "VInt 0"]
  show "\<exists>st'. Deserialize_ticks net h k old st = (Code NONE, v, st') \<and> ready st' \<and> avail st' = rest
      \<and> kept_below st st'"
    using assms(2) by (auto simp: Deserialize_ticks_def int64_of_bits_inverse tick_quot_mult kept_below_same)
next
  fix v old st
  assume "proper_prefix (avail st) (put_uint net h 8 (int64_bits (vtick v * int k)))"
  from proper_prefix_length [OF this]
  show "\<exists>v' st'. Deserialize_ticks net h k old st = (Code BUFFER_SIZE_LESSER, v', st')"
    by (simp add: Deserialize_ticks_def numeric_short)
next
  fix old st
  assume "entered st"
  from numeric_result [OF entered_ready [OF this], of net h 8 "VInt 0"]
  show "\<exists>c v st'. Deserialize_ticks net h k old st = (Code c, v, st') \<and> c \<in> decode_codes
      \<and> kept_below st st' \<and> (c = NONE \<longrightarrow> is_tick k v \<and> ready st'
          \<and> (\<exists>p. avail st = p @ avail st'))"
    using assms(2)
    by (auto simp: Deserialize_ticks_def decode_codes_def is_tick_def tick_quot_fits
        int64_of_bits_fits kept_below_same)
qed

lemma empty_functor:
  "functor_codec (\<lambda>v. []) (\<lambda>v st. (Code NONE, v, st)) (\<lambda>v. v = VEmpty) (\<lambda>v. v = VEmpty)"
  by standard (auto simp: entered_ready kept_below_def decode_codes_def)

section \<open>Optionals and smart pointers\<close>

text \<open>
  On a stream with nothing read ahead both functors read a flag and, if it is set, a fresh value.
\<close>

definition flagged ::
    "bool \<Rightarrow> host \<Rightarrow> val \<Rightarrow> deserializer \<Rightarrow> (val option \<Rightarrow> val) \<Rightarrow> deserializer" where
  "flagged network h dflt D C old st =
     (case deserialize_numeric network h 1 (VInt 0) st of
        (out, flag, st') \<Rightarrow>
          if out \<noteq> Code NONE then (out, old, st')
          else if vint flag \<noteq> 0
          then case D dflt st' of (out', x, st'') \<Rightarrow> (out', C (Some x), st'')
          else (Code NONE, C None, st'))"

lemma functor_codec_cong:
  assumes "functor_codec enc G wt cln'" and "\<And>old. cln old \<Longrightarrow> cln' old"
    and "\<And>old st. cln old \<Longrightarrow> entered st \<Longrightarrow> F old st = G old st"
  shows "functor_codec enc F wt cln"
  using assms unfolding functor_codec_def by simp

context codec
begin

text \<open>A flag byte, then the value if the flag is set.\<close>

lemma flag_decode:
  assumes "good_order net h" and "entered st" and "avail st = b # bs" and "b = 0 \<or> b = 1"
  shows "\<exists>st'. deserialize_numeric net h 1 (VInt 0) st = (Code NONE, VInt (if b = 0 then 0 else 1), st')
            \<and> ready st' \<and> avail st' = bs \<and> level st' = level st \<and> registered st' = registered st"
proof -
  have "avail st = put_uint net h 1 (if b = 0 then 0 else 1) @ bs"
    using assms(3,4) by auto
  from numeric_decode [OF entered_ready [OF assms(2)] assms(1) _ this] show ?thesis by simp
qed

lemma flagged_functor:
  assumes go: "good_order net h" and cd: "cln dflt" and sel: "\<And>p. sel (C p) = p"
  shows "functor_codec (\<lambda>v. case sel v of None \<Rightarrow> [0] | Some x \<Rightarrow> 1 # enc x)
           (flagged net h dflt D C) (\<lambda>v. \<exists>p. v = C p \<and> pred_option wt p) (\<lambda>v. True)"
proof
  fix v old st rest
  assume v: "\<exists>p. v = C p \<and> pred_option wt p" and e: "entered st"
    and av: "avail st = (case sel v of None \<Rightarrow> [0] | Some x \<Rightarrow> 1 # enc x) @ rest"
  from v obtain p where p: "v = C p" "pred_option wt p" by blast
  show "\<exists>st'. flagged net h dflt D C old st = (Code NONE, v, st') \<and> ready st'
      \<and> avail st' = rest \<and> kept_below st st'"
  proof (cases p)
    case None
    with flag_decode [OF go e, of 0 rest] av p show ?thesis
      by (auto simp: flagged_def sel kept_below_same)
  next
    case (Some x)
    then obtain st1 where st1: "deserialize_numeric net h 1 (VInt 0) st = (Code NONE, VInt 1, st1)"
        "ready st1" "avail st1 = enc x @ rest" "level st1 = level st" "registered st1 = registered st"
      using flag_decode [OF go e, of 1 "enc x @ rest"] av p by (auto simp: sel)
    then obtain st2 where "D dflt st1 = (Code NONE, x, st2)" "ready st2" "avail st2 = rest" "kept st1 st2"
      using decode [of x dflt st1 rest] Some p cd by auto
    with st1 Some p e show ?thesis by (auto simp: flagged_def intro: kept_below_via)
  qed
next
  fix v old st
  assume v: "\<exists>p. v = C p \<and> pred_option wt p" and e: "entered st"
    and pp: "proper_prefix (avail st) (case sel v of None \<Rightarrow> [0] | Some x \<Rightarrow> 1 # enc x)"
  show "\<exists>v' st'. flagged net h dflt D C old st = (Code BUFFER_SIZE_LESSER, v', st')"
  proof (cases "avail st")
    case Nil
    then show ?thesis by (simp add: flagged_def numeric_short)
  next
    case (Cons b bs)
    with pp v obtain x where x: "wt x" "b = 1" "proper_prefix bs (enc x)"
      by (auto simp: proper_prefix_def Cons_eq_append_conv sel split: option.splits)
    then obtain st1 where "deserialize_numeric net h 1 (VInt 0) st = (Code NONE, VInt 1, st1)"
        "ready st1" "avail st1 = bs"
      using flag_decode [OF go e Cons] by auto
    with x short [of x dflt st1] cd show ?thesis by (auto simp: flagged_def)
  qed
next
  fix old st
  assume e: "entered st"
  from numeric_result [OF entered_ready [OF e], of net h 1 "VInt 0"]
  consider x st1 where "deserialize_numeric net h 1 (VInt 0) st = (Code NONE, VInt x, st1)"
        "ready st1" "\<exists>p. avail st = p @ avail st1" "level st1 = level st" "registered st1 = registered st"
    | "deserialize_numeric net h 1 (VInt 0) st = (Code BUFFER_SIZE_LESSER, VInt 0, st)"
    by blast
  then show "\<exists>c v st'. flagged net h dflt D C old st = (Code c, v, st') \<and> c \<in> decode_codes
      \<and> kept_below st st' \<and> (c = NONE \<longrightarrow> (\<exists>p. v = C p \<and> pred_option wt p) \<and> ready st'
          \<and> (\<exists>p. avail st = p @ avail st'))"
  proof cases
    case 1
    obtain c y st2 where D: "D dflt st1 = (Code c, y, st2)" "c \<in> decode_codes" "kept st1 st2"
      and ok: "c = NONE \<Longrightarrow> wt y \<and> ready st2 \<and> (\<exists>p. avail st1 = p @ avail st2)"
      using total [OF cd 1(2)] by blast
    show ?thesis
    proof (cases "x = 0")
      case True
      with 1 show ?thesis
        by (auto simp: flagged_def decode_codes_def kept_below_same intro!: exI [of _ None])
    next
      case False
      have "(\<exists>p. C (Some y) = C p \<and> pred_option wt p) \<and> ready st2
          \<and> (\<exists>p. avail st = p @ avail st2)" if "c = NONE"
        using ok [OF that] 1 by (auto intro: exI [of _ "Some y"])
      moreover have "kept_below st st2" using 1 D e by (auto intro: kept_below_via)
      ultimately show ?thesis using False 1 D by (simp add: flagged_def)
    qed
  next
    case 2
    then show ?thesis by (auto simp: flagged_def decode_codes_def kept_below_def)
  qed
qed

lemma optional_functor:
  assumes "good_order net h" and "cln dflt"
  shows "functor_codec (\<lambda>v. case vopt v of None \<Rightarrow> [0] | Some x \<Rightarrow> 1 # enc x)
           (Deserialize_optional net h dflt D) (\<lambda>v. \<exists>p. v = VOpt p \<and> pred_option wt p) (\<lambda>v. v = VOpt None)"
  by (rule functor_codec_cong [OF flagged_functor [OF assms, of vopt VOpt]])
    (auto simp: Deserialize_optional_def flagged_def entered_ready split: prod.split)

lemma smart_ptr_functor:
  assumes "good_order net h" and "cln dflt"
  shows "functor_codec (\<lambda>v. case vptr v of None \<Rightarrow> [0] | Some x \<Rightarrow> 1 # enc x)
           (Deserialize_smart_ptr net h dflt D) (\<lambda>v. \<exists>p. v = VPtr p \<and> pred_option wt p) (\<lambda>v. True)"
  by (rule functor_codec_cong [OF flagged_functor [OF assms, of vptr VPtr]])
    (auto simp: Deserialize_smart_ptr_def flagged_def entered_ready split: prod.split)

end

end
