(* ===== verification/Codec_Containers.thy ===== *)
theory Codec_Containers
  imports Codec_Functors
begin

text \<open>
  Ranges, arrays, classes with fields and variants: the loops of their \<open>Deserialize\<close> functors
  read back what the corresponding encodings hold.
\<close>

section \<open>Ranges\<close>

lemma keys_distinct_insert: "keys_distinct c items \<Longrightarrow> keys_distinct c (insert_item c items x)"
  by (auto simp: keys_distinct_def insert_item_def split: container.splits)

lemma keys_distinct_Nil [simp]: "keys_distinct c []"
  by (simp add: keys_distinct_def split: container.split)

lemma insert_item_fresh:
  assumes "keys_distinct c (items @ x # xs)"
  shows "insert_item c items x = (if c = ForwardList then x # items else items @ [x])"
  using assms by (auto simp: keys_distinct_def insert_item_def split: container.splits)

lemma length_insert_item: "length (insert_item c items x) \<le> Suc (length items)"
  by (auto simp: insert_item_def split: container.splits)

lemma list_all_insert_item: "list_all P items \<Longrightarrow> P x \<Longrightarrow> list_all P (insert_item c items x)"
  by (auto simp: insert_item_def split: container.splits)

text \<open>What the loop needs of the registered values: the counter slot of a \<open>forward_list\<close>.\<close>

definition slots :: "container \<Rightarrow> stream \<Rightarrow> bool" where
  "slots c st \<longleftrightarrow> ready st \<and> 0 < level st
     \<and> (c = ForwardList \<longrightarrow> (\<exists>a b. registered st (level st) = Some [a, b]))"

definition step_slot :: "container \<Rightarrow> nat \<Rightarrow> stream \<Rightarrow> stream option" where
  "step_slot c sz st = (if c = ForwardList then update_value_at (sz + 1) 1 st else Some st)"

lemma step_slot_ok:
  assumes "slots c st" and "ready st'" and "kept st st'"
  shows "\<exists>st''. step_slot c sz st' = Some st'' \<and> slots c st'' \<and> avail st'' = avail st' \<and> kept_below st st''"
  using assms
  by (auto simp: step_slot_def slots_def update_value_at_def kept_def kept_below_def ready_def)

lemma range_loop_step:
  assumes "D dflt st = (Code NONE, x, st')" and "step_slot c sz st' = Some st''"
  shows "range_loop c dflt D (Suc n) sz items st = range_loop c dflt D n sz (insert_item c items x) st''"
  using assms by (subst range_loop.simps) (auto simp: step_slot_def split: if_splits)

lemma kept_below_trans: "kept_below a b \<Longrightarrow> kept_below b c \<Longrightarrow> kept_below a c"
  by (simp add: kept_below_def)

context codec
begin

lemma range_loop_decode:
  assumes "list_all wt xs" and cd: "cln dflt" and "slots c st"
    and "avail st = concat (map enc xs) @ rest" and "keys_distinct c (items @ xs)"
  shows "\<exists>st'. range_loop c dflt D (length xs) sz items st
              = (Code NONE, (if c = ForwardList then rev xs @ items else items @ xs), st')
            \<and> ready st' \<and> avail st' = rest \<and> kept_below st st'"
  using assms(1,3-)
proof (induction xs arbitrary: items st)
  case Nil
  then show ?case by (auto simp: range_loop.simps slots_def kept_below_def)
next
  case (Cons x xs)
  then obtain st1 where st1: "D dflt st = (Code NONE, x, st1)" "ready st1"
      "avail st1 = concat (map enc xs) @ rest" "kept st st1"
    using decode [of x dflt st "concat (map enc xs) @ rest"] cd by (auto simp: slots_def)
  then obtain st2 where st2: "step_slot c sz st1 = Some st2" "slots c st2" "avail st2 = avail st1"
      "kept_below st st2"
    using step_slot_ok [OF Cons.prems(2)] by blast
  have ii: "insert_item c items x = (if c = ForwardList then x # items else items @ [x])"
    using Cons.prems(4) by (rule insert_item_fresh)
  have kd: "keys_distinct c (insert_item c items x @ xs)"
    using Cons.prems(4) ii by (cases c) (auto simp: keys_distinct_def)
  obtain st3 where "range_loop c dflt D (length xs) sz (insert_item c items x) st2
        = (Code NONE, (if c = ForwardList then rev xs @ insert_item c items x
                       else insert_item c items x @ xs), st3)"
      "ready st3" "avail st3 = rest" "kept_below st2 st3"
    using Cons.IH [OF _ st2(2) _ kd] Cons.prems(1) st1(3) st2(3) by auto
  with st1 st2 ii show ?case
    by (auto simp: range_loop_step [where D = D and dflt = dflt and st = st] intro: kept_below_trans)
qed

lemma range_loop_short:
  assumes "list_all wt xs" and cd: "cln dflt" and "slots c st"
    and "proper_prefix (avail st) (concat (map enc xs))"
  shows "\<exists>items' st'. range_loop c dflt D (length xs) sz items st
              = (Code BUFFER_SIZE_LESSER, items', st')"
  using assms(1,3-)
proof (induction xs arbitrary: items st)
  case Nil
  then show ?case by simp
next
  case (Cons x xs)
  from Cons.prems(3) consider "proper_prefix (avail st) (enc x)"
    | q where "avail st = enc x @ q" "proper_prefix q (concat (map enc xs))"
    by (auto simp: proper_prefix_append)
  then show ?case
  proof cases
    case 1
    then show ?thesis
      using short [of x dflt st] Cons.prems cd
      by (auto simp: range_loop.simps [of _ _ _ "Suc _"] slots_def)
  next
    case 2
    then obtain st1 where st1: "D dflt st = (Code NONE, x, st1)" "ready st1" "avail st1 = q" "kept st st1"
      using decode [of x dflt st q] cd Cons.prems by (auto simp: slots_def)
    then obtain st2 where st2: "step_slot c sz st1 = Some st2" "slots c st2" "avail st2 = avail st1"
      using step_slot_ok [OF Cons.prems(2)] by blast
    with Cons.IH [of st2 "insert_item c items x"] Cons.prems(1) 2 st1 show ?thesis
      by (auto simp: range_loop_step [where D = D and dflt = dflt and st = st])
  qed
qed

lemma range_loop_total:
  assumes cd: "cln dflt" and "slots c st" and "list_all wt items" and "keys_distinct c items"
  shows "\<exists>cc items' st'. range_loop c dflt D n sz items st = (Code cc, items', st') \<and> cc \<in> decode_codes
      \<and> kept_below st st' \<and> (cc = NONE \<longrightarrow> list_all wt items' \<and> keys_distinct c items'
          \<and> length items' \<le> length items + n \<and> ready st' \<and> (\<exists>p. avail st = p @ avail st'))"
  using assms(2-)
proof (induction n arbitrary: items st)
  case 0
  then show ?case by (auto simp: range_loop.simps decode_codes_def slots_def kept_below_def)
next
  case (Suc n)
  obtain cc x st1 where D: "D dflt st = (Code cc, x, st1)" "cc \<in> decode_codes" "kept st st1"
    and ok: "cc = NONE \<Longrightarrow> wt x \<and> ready st1 \<and> (\<exists>p. avail st = p @ avail st1)"
    using total [OF cd, of st] Suc.prems(1) by (auto simp: slots_def)
  show ?case
  proof (cases "cc = NONE")
    case False
    with D Suc.prems(1) show ?thesis
      by (auto simp: range_loop.simps [of _ _ _ "Suc n"] slots_def kept_def kept_below_def)
  next
    case True
    with ok obtain st2 where st2: "step_slot c sz st1 = Some st2" "slots c st2" "avail st2 = avail st1"
        "kept_below st st2"
      using step_slot_ok [OF Suc.prems(1)] D(3) by blast
    let ?it = "insert_item c items x"
    have "list_all wt ?it" "keys_distinct c ?it"
      using Suc.prems True ok by (auto intro: list_all_insert_item keys_distinct_insert)
    from Suc.IH [OF st2(2) this] obtain c3 it3 st3 where
        r: "range_loop c dflt D n sz ?it st2 = (Code c3, it3, st3)" "c3 \<in> decode_codes"
          "kept_below st2 st3"
        and ok3: "c3 = NONE \<Longrightarrow> list_all wt it3 \<and> keys_distinct c it3 \<and> length it3 \<le> length ?it + n
          \<and> ready st3 \<and> (\<exists>p. avail st2 = p @ avail st3)"
      by blast
    have "list_all wt it3 \<and> keys_distinct c it3 \<and> length it3 \<le> length items + Suc n
        \<and> ready st3 \<and> (\<exists>p. avail st = p @ avail st3)" if "c3 = NONE"
      using ok3 [OF that] ok [OF True] st2 length_insert_item [of c items x] by auto
    moreover have "kept_below st st3" using st2 r by (blast intro: kept_below_trans)
    ultimately show ?thesis
      using r st2 D True by (simp add: range_loop_step [where D = D and dflt = dflt and st = st])
  qed
qed

text \<open>The state in which the element loop starts.\<close>

lemma range_start:
  assumes "entered st" and "ready st1" "level st1 = level st" "registered st1 = registered st"
  shows "\<exists>st2. range_size_before c [] (register_value r st1) = Some (0, st2)
            \<and> slots c st2 \<and> avail st2 = avail st1 \<and> kept_below st st2"
  using assms
  by (auto simp: range_size_before_def register_value_def registered_size_def slots_def entered_def
      ready_def kept_below_def)

lemma range_functor:
  assumes go: "good_order net h" and cd: "cln dflt"
  shows "functor_codec (\<lambda>v. put_uint net h 8 (length (velems v)) @ concat (map enc (velems v)))
           (Deserialize_range net h c dflt D)
           (\<lambda>v. \<exists>xs. v = VRange xs \<and> length xs < 2 ^ 64 \<and> list_all wt xs \<and> keys_distinct c xs) (\<lambda>v. True)"
proof
  fix v old st rest
  assume v: "\<exists>xs. v = VRange xs \<and> length xs < 2 ^ 64 \<and> list_all wt xs \<and> keys_distinct c xs"
    and e: "entered st"
    and av: "avail st = (put_uint net h 8 (length (velems v)) @ concat (map enc (velems v))) @ rest"
  from v obtain xs where xs: "v = VRange xs" "length xs < 2 ^ 64" "list_all wt xs" "keys_distinct c xs"
    by blast
  obtain st1 where st1: "deserialize_numeric net h 8 (VInt 0) st = (Code NONE, VInt (length xs), st1)"
      "ready st1" "avail st1 = concat (map enc xs) @ rest" "level st1 = level st" "registered st1 = registered st"
    using numeric_decode [OF entered_ready [OF e] go, of "length xs" 8] av xs by auto
  obtain st2 where st2: "range_size_before c [] (register_value (length xs) st1) = Some (0, st2)"
      "slots c st2" "avail st2 = avail st1" "kept_below st st2"
    using range_start [OF e st1(2,4,5)] by blast
  obtain st3 where "range_loop c dflt D (length xs) 0 [] st2
        = (Code NONE, (if c = ForwardList then rev xs else xs), st3)"
      "ready st3" "avail st3 = rest" "kept_below st2 st3"
    using range_loop_decode [OF xs(3) cd st2(2), of rest "[]" 0] st1(3) st2(3) xs(4) by auto
  with xs st1 st2 e show "\<exists>st'. Deserialize_range net h c dflt D old st = (Code NONE, v, st') \<and> ready st'
      \<and> avail st' = rest \<and> kept_below st st'"
    by (auto simp: Deserialize_range_def range_elements_def entered_ready intro: kept_below_trans)
next
  fix v old st
  assume v: "\<exists>xs. v = VRange xs \<and> length xs < 2 ^ 64 \<and> list_all wt xs \<and> keys_distinct c xs"
    and e: "entered st"
    and pp: "proper_prefix (avail st) (put_uint net h 8 (length (velems v)) @ concat (map enc (velems v)))"
  from v obtain xs where xs: "v = VRange xs" "length xs < 2 ^ 64" "list_all wt xs"
    by blast
  from pp xs consider "proper_prefix (avail st) (put_uint net h 8 (length xs))"
    | q where "avail st = put_uint net h 8 (length xs) @ q" "proper_prefix q (concat (map enc xs))"
    by (auto simp: proper_prefix_append)
  then show "\<exists>v' st'. Deserialize_range net h c dflt D old st = (Code BUFFER_SIZE_LESSER, v', st')"
  proof cases
    case 1
    from proper_prefix_length [OF this] e show ?thesis
      by (simp add: Deserialize_range_def entered_ready numeric_short)
  next
    case 2
    then obtain st1 where st1: "deserialize_numeric net h 8 (VInt 0) st = (Code NONE, VInt (length xs), st1)"
        "ready st1" "avail st1 = q" "level st1 = level st" "registered st1 = registered st"
      using numeric_decode [OF entered_ready [OF e] go, of "length xs" 8] xs by auto
    obtain st2 where st2: "range_size_before c [] (register_value (length xs) st1) = Some (0, st2)"
        "slots c st2" "avail st2 = avail st1"
      using range_start [OF e st1(2,4,5)] by blast
    from range_loop_short [OF xs(3) cd st2(2), of 0 "[]"] 2 xs st1 st2 e show ?thesis
      by (auto simp: Deserialize_range_def range_elements_def entered_ready)
  qed
next
  fix old st
  assume e: "entered st"
  from numeric_result [OF entered_ready [OF e], of net h 8 "VInt 0"]
  consider r st1 where "deserialize_numeric net h 8 (VInt 0) st = (Code NONE, VInt r, st1)" "r < 256 ^ 8"
        "ready st1" "\<exists>p. avail st = p @ avail st1" "level st1 = level st" "registered st1 = registered st"
    | "deserialize_numeric net h 8 (VInt 0) st = (Code BUFFER_SIZE_LESSER, VInt 0, st)"
    by blast
  then show "\<exists>cc v st'. Deserialize_range net h c dflt D old st = (Code cc, v, st') \<and> cc \<in> decode_codes
      \<and> kept_below st st' \<and> (cc = NONE \<longrightarrow> (\<exists>xs. v = VRange xs \<and> length xs < 2 ^ 64 \<and> list_all wt xs
          \<and> keys_distinct c xs) \<and> ready st' \<and> (\<exists>p. avail st = p @ avail st'))"
  proof cases
    case 1
    obtain st2 where st2: "range_size_before c [] (register_value r st1) = Some (0, st2)"
        "slots c st2" "avail st2 = avail st1" "kept_below st st2"
      using range_start [OF e 1(3,5,6)] by blast
    have r: "r < 2 ^ 64" using 1(2) by simp
    obtain cc it st3 where l: "range_loop c dflt D r 0 [] st2 = (Code cc, it, st3)" "cc \<in> decode_codes"
          "kept_below st2 st3"
        and ok: "cc = NONE \<Longrightarrow> list_all wt it \<and> keys_distinct c it \<and> length it \<le> r \<and> ready st3
          \<and> (\<exists>p. avail st2 = p @ avail st3)"
      using range_loop_total [OF cd st2(2), of "[]" r 0] by auto
    let ?it = "if cc = NONE \<and> c = ForwardList then rev it else it"
    have "(\<exists>xs. VRange ?it = VRange xs \<and> length xs < 2 ^ 64 \<and> list_all wt xs \<and> keys_distinct c xs)
        \<and> ready st3 \<and> (\<exists>p. avail st = p @ avail st3)" if "cc = NONE"
      using ok [OF that] r 1(4) st2 that by (auto simp: keys_distinct_def)
    moreover have "kept_below st st3" using st2 l by (blast intro: kept_below_trans)
    ultimately show ?thesis
      using 1 r e st2 l by (simp add: Deserialize_range_def range_elements_def entered_ready)
  next
    case 2
    with e show ?thesis by (auto simp: Deserialize_range_def entered_ready decode_codes_def kept_below_def)
  qed
qed

text \<open>Arrays: the loop over all indices, and the registered counter.\<close>

definition counted :: "stream \<Rightarrow> bool" where
  "counted st \<longleftrightarrow> ready st \<and> 0 < level st \<and> (\<exists>a as. registered st (level st) = Some (a # as))"

lemma counted_update:
  assumes "counted st" and "ready st'" and "kept st st'"
  shows "\<exists>st''. update_value_at r 0 st' = Some st'' \<and> counted st'' \<and> avail st'' = avail st' \<and> kept_below st st''"
  using assms by (auto simp: counted_def update_value_at_def kept_def kept_below_def ready_def)

lemma counted_fail:
  assumes "counted st" and "kept st st'"
  shows "\<exists>st''. update_value_at r 0 st' = Some st'' \<and> kept_below st st''"
  using assms by (auto simp: counted_def update_value_at_def kept_def kept_below_def)

lemma array_loop_step:
  assumes "D old st = (Code NONE, x, st1)" and "update_value_at (usub64 r 1) 0 st1 = Some st2"
  shows "array_loop D r [length pre..<length pre + Suc n] (pre @ old # olds) st
       = array_loop D r [length (pre @ [x])..<length (pre @ [x]) + n] ((pre @ [x]) @ olds) st2"
proof -
  have "[length pre..<length pre + Suc n] = length pre # [length (pre @ [x])..<length (pre @ [x]) + n]"
    by (simp add: upt_conv_Cons del: upt_Suc)
  with assms show ?thesis by simp
qed

lemma array_loop_stop:
  assumes "D old st = (Code c, x, st1)" and "c \<noteq> NONE" and "update_value_at (usub64 r 1) 0 st1 = Some st2"
  shows "array_loop D r [length pre..<length pre + Suc n] (pre @ old # olds) st
       = (Code c, pre @ x # olds, st2)"
proof -
  have "[length pre..<length pre + Suc n] = length pre # [Suc (length pre)..<Suc (length pre) + n]"
    by (simp add: upt_conv_Cons del: upt_Suc)
  with assms show ?thesis by simp
qed

lemma array_loop_decode:
  assumes "list_all wt xs" and "list_all cln olds" and "length olds = length xs" and "counted st"
    and "avail st = concat (map enc xs) @ rest"
  shows "\<exists>st'. array_loop D r [length pre..<length pre + length xs] (pre @ olds) st
              = (Code NONE, pre @ xs, st') \<and> ready st' \<and> avail st' = rest \<and> kept_below st st'"
  using assms
proof (induction xs arbitrary: pre olds st)
  case Nil
  then show ?case by (auto simp: counted_def kept_below_def)
next
  case (Cons x xs)
  then obtain old olds' where olds: "olds = old # olds'" by (cases olds) auto
  obtain st1 where st1: "D old st = (Code NONE, x, st1)" "ready st1"
      "avail st1 = concat (map enc xs) @ rest" "kept st st1"
    using decode [of x old st "concat (map enc xs) @ rest"] Cons.prems olds by (auto simp: counted_def)
  then obtain st2 where st2: "update_value_at (usub64 r 1) 0 st1 = Some st2" "counted st2"
      "avail st2 = avail st1" "kept_below st st2"
    using counted_update [OF Cons.prems(4)] by blast
  obtain st3 where "array_loop D r [length (pre @ [x])..<length (pre @ [x]) + length xs] ((pre @ [x]) @ olds') st2
        = (Code NONE, (pre @ [x]) @ xs, st3)" "ready st3" "avail st3 = rest" "kept_below st2 st3"
    using Cons.IH [of olds' st2 "pre @ [x]"] Cons.prems olds st1 st2 by auto
  then show ?case
    using array_loop_step [OF st1(1) st2(1), of pre "length xs" olds'] olds st2(4)
    by (simp del: upt_Suc) (blast intro: kept_below_trans)
qed

lemma array_loop_short:
  assumes "list_all wt xs" and "list_all cln olds" and "length olds = length xs" and "counted st"
    and "proper_prefix (avail st) (concat (map enc xs))"
  shows "\<exists>vs st'. array_loop D r [length pre..<length pre + length xs] (pre @ olds) st
              = (Code BUFFER_SIZE_LESSER, vs, st')"
  using assms
proof (induction xs arbitrary: pre olds st)
  case Nil
  then show ?case by simp
next
  case (Cons x xs)
  then obtain old olds' where olds: "olds = old # olds'" by (cases olds) auto
  from Cons.prems(5) consider "proper_prefix (avail st) (enc x)"
    | q where "avail st = enc x @ q" "proper_prefix q (concat (map enc xs))"
    by (auto simp: proper_prefix_append)
  then show ?case
  proof cases
    case 1
    then obtain v' st1 where D: "D old st = (Code BUFFER_SIZE_LESSER, v', st1)"
      using short [of x old st] Cons.prems olds by (auto simp: counted_def)
    moreover have "kept st st1"
      using total [of old st] Cons.prems olds D by (auto simp: counted_def)
    ultimately obtain st2 where "update_value_at (usub64 r 1) 0 st1 = Some st2"
      using counted_fail [OF Cons.prems(4)] by blast
    from array_loop_stop [OF D _ this, of pre "length xs" olds'] olds show ?thesis
      by (simp del: upt_Suc)
  next
    case 2
    then obtain st1 where st1: "D old st = (Code NONE, x, st1)" "ready st1" "avail st1 = q" "kept st st1"
      using decode [of x old st q] Cons.prems olds by (auto simp: counted_def)
    then obtain st2 where st2: "update_value_at (usub64 r 1) 0 st1 = Some st2" "counted st2"
        "avail st2 = avail st1"
      using counted_update [OF Cons.prems(4)] by blast
    have "\<exists>vs st'. array_loop D r [length (pre @ [x])..<length (pre @ [x]) + length xs]
        ((pre @ [x]) @ olds') st2 = (Code BUFFER_SIZE_LESSER, vs, st')"
      using Cons.IH [of olds' st2 "pre @ [x]"] Cons.prems olds 2 st1 st2 by auto
    then show ?thesis
      using array_loop_step [OF st1(1) st2(1), of pre "length xs" olds'] olds by (simp del: upt_Suc)
  qed
qed

lemma array_loop_total:
  assumes "list_all wt pre" and "list_all cln olds" and "counted st"
  shows "\<exists>c vs st'. array_loop D r [length pre..<length pre + length olds] (pre @ olds) st = (Code c, vs, st')
      \<and> c \<in> decode_codes \<and> kept_below st st' \<and> (c = NONE \<longrightarrow> list_all wt vs
          \<and> length vs = length pre + length olds \<and> ready st' \<and> (\<exists>p. avail st = p @ avail st'))"
  using assms
proof (induction olds arbitrary: pre st)
  case Nil
  then show ?case by (auto simp: counted_def kept_below_def decode_codes_def)
next
  case (Cons old olds)
  obtain c x st1 where D: "D old st = (Code c, x, st1)" "c \<in> decode_codes" "kept st st1"
    and ok: "c = NONE \<Longrightarrow> wt x \<and> ready st1 \<and> (\<exists>p. avail st = p @ avail st1)"
    using total [of old st] Cons.prems by (auto simp: counted_def)
  show ?case
  proof (cases "c = NONE")
    case False
    obtain st2 where "update_value_at (usub64 r 1) 0 st1 = Some st2" "kept_below st st2"
      using counted_fail [OF Cons.prems(3) D(3)] by blast
    with array_loop_stop [OF D(1) False this(1), of pre "length olds" olds] D False show ?thesis
      by (simp del: upt_Suc)
  next
    case True
    then obtain st2 where st2: "update_value_at (usub64 r 1) 0 st1 = Some st2" "counted st2"
        "avail st2 = avail st1" "kept_below st st2"
      using counted_update [OF Cons.prems(3) _ D(3)] ok by blast
    obtain c3 vs st3 where l: "array_loop D r [length (pre @ [x])..<length (pre @ [x]) + length olds]
          ((pre @ [x]) @ olds) st2 = (Code c3, vs, st3)" "c3 \<in> decode_codes" "kept_below st2 st3"
        and ok3: "c3 = NONE \<Longrightarrow> list_all wt vs \<and> length vs = length (pre @ [x]) + length olds \<and> ready st3
          \<and> (\<exists>p. avail st2 = p @ avail st3)"
      using Cons.IH [of "pre @ [x]" st2] Cons.prems st2 ok True by auto
    have "kept_below st st3" using st2 l by (blast intro: kept_below_trans)
    moreover have "list_all wt vs \<and> length vs = Suc (length pre + length olds) \<and> ready st3
        \<and> (\<exists>p. avail st = p @ avail st3)" if "c3 = NONE"
      using ok3 [OF that] ok [OF True] st2 by auto
    ultimately show ?thesis
      using array_loop_step [of old st x st1 r st2 pre "length olds" olds] D True st2 l
      by (simp del: upt_Suc)
  qed
qed

lemma array_start:
  assumes "entered st"
  shows "Deserialize_array n D old st = (case array_loop D n [0..<n] (varr old) (register_value n st) of
           (out, vs, st'') \<Rightarrow> (out, VArr vs, st''))"
    and "counted (register_value n st)" "avail (register_value n st) = avail st"
    and "kept_below (register_value n st) st' \<Longrightarrow> kept_below st st'"
  using assms by (auto simp: Deserialize_array_def registered_size_def register_value_def counted_def
      entered_def ready_def kept_below_def)

lemma array_functor:
  "functor_codec (\<lambda>v. concat (map enc (varr v))) (Deserialize_array n D)
     (\<lambda>v. \<exists>xs. v = VArr xs \<and> length xs = n \<and> list_all wt xs)
     (\<lambda>v. \<exists>xs. v = VArr xs \<and> length xs = n \<and> list_all cln xs)"
proof
  fix v old st rest
  assume "\<exists>xs. v = VArr xs \<and> length xs = n \<and> list_all wt xs"
    and "\<exists>xs. old = VArr xs \<and> length xs = n \<and> list_all cln xs"
    and e: "entered st" and "avail st = concat (map enc (varr v)) @ rest"
  then show "\<exists>st'. Deserialize_array n D old st = (Code NONE, v, st') \<and> ready st' \<and> avail st' = rest
      \<and> kept_below st st'"
    using array_loop_decode [of "varr v" "varr old" "register_value n st" rest n "[]"]
      array_start [OF e] by fastforce
next
  fix v old st
  assume "\<exists>xs. v = VArr xs \<and> length xs = n \<and> list_all wt xs"
    and "\<exists>xs. old = VArr xs \<and> length xs = n \<and> list_all cln xs"
    and e: "entered st" and "proper_prefix (avail st) (concat (map enc (varr v)))"
  then show "\<exists>v' st'. Deserialize_array n D old st = (Code BUFFER_SIZE_LESSER, v', st')"
    using array_loop_short [of "varr v" "varr old" "register_value n st" n "[]"] array_start [OF e] by auto
next
  fix old st
  assume old: "\<exists>xs. old = VArr xs \<and> length xs = n \<and> list_all cln xs" and e: "entered st"
  then show "\<exists>c v st'. Deserialize_array n D old st = (Code c, v, st') \<and> c \<in> decode_codes \<and> kept_below st st'
      \<and> (c = NONE \<longrightarrow> (\<exists>xs. v = VArr xs \<and> length xs = n \<and> list_all wt xs) \<and> ready st'
          \<and> (\<exists>p. avail st = p @ avail st'))"
    using array_loop_total [of "[]" "varr old" "register_value n st" n] array_start [OF e] by fastforce
qed

end

end
