(* ===== verification/Serialization_Correct.thy ===== *)
theory Serialization_Correct
  imports Codec_Containers
begin

text \<open>
  Classes and variants, and the induction over all types: for every type that the library can
  deserialize, \<open>Serialize\<close> and \<open>StreamSerializer::deserialize\<close> are inverse to each other
  (\<open>stream_codec\<close>), stated as interpretations of the locale \<open>codec\<close>.
\<close>

section \<open>Fields, pairs, classes\<close>

lemma fields_decode:
  assumes "\<And>t. t \<in> set ts \<Longrightarrow> codec (E t) (R t) (W t) (C t)"
    and "list_all2 W ts xs" and "list_all2 C ts olds" and "ready st"
    and "avail st = concat (map2 E ts xs) @ rest"
  shows "\<exists>st'. deserialize_fields (map R ts) olds st = (Code NONE, xs, st')
            \<and> ready st' \<and> avail st' = rest \<and> kept st st'"
  using assms
proof (induction ts arbitrary: xs olds st)
  case Nil
  then show ?case by (auto simp: kept_refl)
next
  case (Cons t ts)
  then obtain x xs' old olds' where eq: "xs = x # xs'" "olds = old # olds'"
    and x: "W t x" "C t old" "list_all2 W ts xs'" "list_all2 C ts olds'"
    by (auto simp: list_all2_Cons1)
  obtain st1 where st1: "R t old st = (Code NONE, x, st1)" "ready st1"
      "avail st1 = concat (map2 E ts xs') @ rest" "kept st st1"
    using codec.decode [OF Cons.prems(1), of t x old st] Cons.prems x eq by auto
  then obtain st2 where "deserialize_fields (map R ts) olds' st1 = (Code NONE, xs', st2)"
      "ready st2" "avail st2 = rest" "kept st1 st2"
    using Cons.IH [OF _ x(3,4) st1(2)] Cons.prems(1) by auto
  with st1 eq show ?case by (auto intro: kept_trans)
qed

lemma fields_short:
  assumes "\<And>t. t \<in> set ts \<Longrightarrow> codec (E t) (R t) (W t) (C t)"
    and "list_all2 W ts xs" and "list_all2 C ts olds" and "ready st"
    and "proper_prefix (avail st) (concat (map2 E ts xs))"
  shows "\<exists>vs st'. deserialize_fields (map R ts) olds st = (Code BUFFER_SIZE_LESSER, vs, st')"
  using assms
proof (induction ts arbitrary: xs olds st)
  case Nil
  then show ?case by simp
next
  case (Cons t ts)
  then obtain x xs' old olds' where eq: "xs = x # xs'" "olds = old # olds'"
    and x: "W t x" "C t old" "list_all2 W ts xs'" "list_all2 C ts olds'"
    by (auto simp: list_all2_Cons1)
  have c: "codec (E t) (R t) (W t) (C t)" using Cons.prems(1) by simp
  from Cons.prems(5) eq consider "proper_prefix (avail st) (E t x)"
    | q where "avail st = E t x @ q" "proper_prefix q (concat (map2 E ts xs'))"
    by (auto simp: proper_prefix_append)
  then show ?case
  proof cases
    case 1
    with codec.short [OF c x(1,2) Cons.prems(4)] eq show ?thesis by auto
  next
    case 2
    then obtain st1 where st1: "R t old st = (Code NONE, x, st1)" "ready st1" "avail st1 = q"
      using codec.decode [OF c x(1,2) Cons.prems(4)] by auto
    with Cons.IH [OF _ x(3,4) st1(2)] Cons.prems(1) 2 eq show ?thesis by fastforce
  qed
qed

lemma fields_total:
  assumes "\<And>t. t \<in> set ts \<Longrightarrow> codec (E t) (R t) (W t) (C t)"
    and "list_all2 C ts olds" and "ready st"
  shows "\<exists>c vs st'. deserialize_fields (map R ts) olds st = (Code c, vs, st') \<and> c \<in> decode_codes
      \<and> kept st st' \<and> (c = NONE \<longrightarrow> list_all2 W ts vs \<and> ready st' \<and> (\<exists>p. avail st = p @ avail st'))"
  using assms
proof (induction ts arbitrary: olds st)
  case Nil
  then show ?case by (auto simp: kept_refl decode_codes_def)
next
  case (Cons t ts)
  then obtain old olds' where eq: "olds = old # olds'" and x: "C t old" "list_all2 C ts olds'"
    by (auto simp: list_all2_Cons1)
  obtain c v st1 where D: "R t old st = (Code c, v, st1)" "c \<in> decode_codes" "kept st st1"
    and ok: "c = NONE \<Longrightarrow> W t v \<and> ready st1 \<and> (\<exists>p. avail st = p @ avail st1)"
    using codec.total [OF Cons.prems(1), of t old st] x Cons.prems by auto
  show ?case
  proof (cases "c = NONE")
    case False
    with D eq show ?thesis by auto
  next
    case True
    with ok have w: "W t v" "ready st1" "\<exists>p. avail st = p @ avail st1" by auto
    obtain c2 vs st2 where f: "deserialize_fields (map R ts) olds' st1 = (Code c2, vs, st2)"
        "c2 \<in> decode_codes" "kept st1 st2"
      and ok2: "c2 = NONE \<Longrightarrow> list_all2 W ts vs \<and> ready st2 \<and> (\<exists>p. avail st1 = p @ avail st2)"
      using Cons.IH [OF _ x(2) w(2)] Cons.prems(1) by auto
    have "kept st st2" using D f by (blast intro: kept_trans)
    moreover have "list_all2 W (t # ts) (v # vs) \<and> ready st2 \<and> (\<exists>p. avail st = p @ avail st2)"
      if "c2 = NONE" using ok2 [OF that] w by auto
    ultimately show ?thesis using D True eq f by simp
  qed
qed

lemma struct_functor:
  assumes "\<And>t. t \<in> set ts \<Longrightarrow> codec (E t) (R t) (W t) (C t)"
  shows "functor_codec (\<lambda>v. concat (map2 E ts (vfields v))) (Deserialize_struct (map R ts))
     (\<lambda>v. \<exists>xs. v = VStruct xs \<and> list_all2 W ts xs) (\<lambda>v. \<exists>xs. v = VStruct xs \<and> list_all2 C ts xs)"
proof
  fix v old st rest
  assume "\<exists>xs. v = VStruct xs \<and> list_all2 W ts xs" "\<exists>xs. old = VStruct xs \<and> list_all2 C ts xs"
    and e: "entered st" and av: "avail st = concat (map2 E ts (vfields v)) @ rest"
  then obtain xs olds where v: "v = VStruct xs" "list_all2 W ts xs" "old = VStruct olds" "list_all2 C ts olds"
    by blast
  obtain st' where "deserialize_fields (map R ts) olds st = (Code NONE, xs, st')" "ready st'"
      "avail st' = rest" "kept st st'"
    using fields_decode [where E = E and R = R and W = W and C = C and ts = ts, OF assms v(2,4) entered_ready [OF e]] av v(1) by auto
  with v show "\<exists>st'. Deserialize_struct (map R ts) old st = (Code NONE, v, st') \<and> ready st'
      \<and> avail st' = rest \<and> kept_below st st'"
    by (simp add: Deserialize_struct_def kept_kept_below [OF e])
next
  fix v old st
  assume "\<exists>xs. v = VStruct xs \<and> list_all2 W ts xs" "\<exists>xs. old = VStruct xs \<and> list_all2 C ts xs"
    and e: "entered st" and "proper_prefix (avail st) (concat (map2 E ts (vfields v)))"
  then show "\<exists>v' st'. Deserialize_struct (map R ts) old st = (Code BUFFER_SIZE_LESSER, v', st')"
    using fields_short [where E = E and R = R and W = W and C = C and ts = ts, OF assms _ _ entered_ready [OF e],
        of "vfields v" "vfields old"]
    by (auto simp: Deserialize_struct_def)
next
  fix old st
  assume "\<exists>xs. old = VStruct xs \<and> list_all2 C ts xs" and e: "entered st"
  then obtain c vs st' where "deserialize_fields (map R ts) (vfields old) st = (Code c, vs, st')"
      "c \<in> decode_codes" "kept st st'"
      "c = NONE \<Longrightarrow> list_all2 W ts vs \<and> ready st' \<and> (\<exists>p. avail st = p @ avail st')"
    using fields_total [where E = E and R = R and W = W and C = C and ts = ts, OF assms _ entered_ready [OF e],
        of "vfields old"] by auto
  then show "\<exists>c v st'. Deserialize_struct (map R ts) old st = (Code c, v, st') \<and> c \<in> decode_codes
      \<and> kept_below st st' \<and> (c = NONE \<longrightarrow> (\<exists>xs. v = VStruct xs \<and> list_all2 W ts xs) \<and> ready st'
          \<and> (\<exists>p. avail st = p @ avail st'))"
    by (simp add: Deserialize_struct_def kept_kept_below [OF e])
qed

lemma pair_functor:
  assumes "codec E1 R1 W1 C1" and "codec E2 R2 W2 C2"
  shows "functor_codec (\<lambda>v. E1 (vfst v) @ E2 (vsnd v)) (Deserialize_pair R1 R2)
     (\<lambda>v. \<exists>x y. v = VPair x y \<and> W1 x \<and> W2 y) (\<lambda>v. \<exists>x y. v = VPair x y \<and> C1 x \<and> C2 y)"
proof -
  let ?sel = "\<lambda>a b t. if t then a else b"
  have c: "codec (?sel E1 E2 t) (?sel R1 R2 t) (?sel W1 W2 t) (?sel C1 C2 t)" for t
    using assms by simp
  show ?thesis
  proof
    fix v old st rest
    assume "\<exists>x y. v = VPair x y \<and> W1 x \<and> W2 y" "\<exists>x y. old = VPair x y \<and> C1 x \<and> C2 y"
      and e: "entered st" and av: "avail st = (E1 (vfst v) @ E2 (vsnd v)) @ rest"
    then obtain x y x' y' where v: "v = VPair x y" "W1 x" "W2 y" "old = VPair x' y'" "C1 x'" "C2 y'" by blast
    obtain st' where "deserialize_fields [R1, R2] [x', y'] st = (Code NONE, [x, y], st')" "ready st'"
        "avail st' = rest" "kept st st'"
      using fields_decode [where E = "?sel E1 E2" and R = "?sel R1 R2" and W = "?sel W1 W2" and C = "?sel C1 C2"
          and ts = "[True, False]", OF c, where xs = "[x, y]" and olds = "[x', y']" and st = st]
        av v entered_ready [OF e] by auto
    with v show "\<exists>st'. Deserialize_pair R1 R2 old st = (Code NONE, v, st') \<and> ready st'
        \<and> avail st' = rest \<and> kept_below st st'"
      by (simp add: Deserialize_pair_def kept_kept_below [OF e])
  next
    fix v old st
    assume "\<exists>x y. v = VPair x y \<and> W1 x \<and> W2 y" "\<exists>x y. old = VPair x y \<and> C1 x \<and> C2 y"
      and e: "entered st" and "proper_prefix (avail st) (E1 (vfst v) @ E2 (vsnd v))"
    then show "\<exists>v' st'. Deserialize_pair R1 R2 old st = (Code BUFFER_SIZE_LESSER, v', st')"
      using fields_short [where E = "?sel E1 E2" and R = "?sel R1 R2" and W = "?sel W1 W2" and C = "?sel C1 C2"
          and ts = "[True, False]", OF c _ _ entered_ready [OF e], of "[vfst v, vsnd v]" "[vfst old, vsnd old]"]
      by (auto simp: Deserialize_pair_def)
  next
    fix old st
    assume "\<exists>x y. old = VPair x y \<and> C1 x \<and> C2 y" and e: "entered st"
    then obtain cc vs st' where "deserialize_fields [R1, R2] [vfst old, vsnd old] st = (Code cc, vs, st')"
        "cc \<in> decode_codes" "kept st st'"
        "cc = NONE \<Longrightarrow> list_all2 (?sel W1 W2) [True, False] vs \<and> ready st' \<and> (\<exists>p. avail st = p @ avail st')"
      using fields_total [where E = "?sel E1 E2" and R = "?sel R1 R2" and W = "?sel W1 W2" and C = "?sel C1 C2"
          and ts = "[True, False]", OF c _ entered_ready [OF e], of "[vfst old, vsnd old]"] by auto
    then show "\<exists>c v st'. Deserialize_pair R1 R2 old st = (Code c, v, st') \<and> c \<in> decode_codes
        \<and> kept_below st st' \<and> (c = NONE \<longrightarrow> (\<exists>x y. v = VPair x y \<and> W1 x \<and> W2 y) \<and> ready st'
            \<and> (\<exists>p. avail st = p @ avail st'))"
      by (auto simp: Deserialize_pair_def kept_kept_below [OF e] list_all2_Cons1)
  qed
qed

section \<open>Variants\<close>

lemma variant_functor:
  assumes c: "\<And>t. t \<in> set ts \<Longrightarrow> codec (E t) (R t) (W t) (C t)"
    and dv: "\<And>t. t \<in> set ts \<Longrightarrow> C t (dv t)"
    and go: "good_order net h" and len: "length ts < 2 ^ 64"
  shows "functor_codec (\<lambda>v. put_uint net h 8 (vindex v) @ E (ts ! vindex v) (vitem v))
     (Deserialize_variant net h (map dv ts) (map R ts))
     (\<lambda>v. \<exists>i x. v = VVar i x \<and> i < length ts \<and> W (ts ! i) x) (\<lambda>v. True)"
proof
  fix v old st rest
  assume "\<exists>i x. v = VVar i x \<and> i < length ts \<and> W (ts ! i) x" and e: "entered st"
    and av: "avail st = (put_uint net h 8 (vindex v) @ E (ts ! vindex v) (vitem v)) @ rest"
  then obtain i x where v: "v = VVar i x" "i < length ts" "W (ts ! i) x" by blast
  then have "i < 256 ^ 8" using len by simp
  then obtain st1 where st1: "deserialize_numeric net h 8 (VInt SIZE_MAX) st = (Code NONE, VInt i, st1)"
      "ready st1" "avail st1 = E (ts ! i) x @ rest" "level st1 = level st" "registered st1 = registered st"
    using numeric_decode [OF entered_ready [OF e] go, of i 8] av v by auto
  obtain st2 where "R (ts ! i) (dv (ts ! i)) st1 = (Code NONE, x, st2)" "ready st2" "avail st2 = rest"
      "kept st1 st2"
    using codec.decode [OF c v(3) dv st1(2,3)] v by auto
  with st1 v e show "\<exists>st'. Deserialize_variant net h (map dv ts) (map R ts) old st = (Code NONE, v, st')
      \<and> ready st' \<and> avail st' = rest \<and> kept_below st st'"
    by (auto simp: Deserialize_variant_def emplace_def visit_def entered_ready intro: kept_below_via)
next
  fix v old st
  assume "\<exists>i x. v = VVar i x \<and> i < length ts \<and> W (ts ! i) x" and e: "entered st"
    and pp: "proper_prefix (avail st) (put_uint net h 8 (vindex v) @ E (ts ! vindex v) (vitem v))"
  then obtain i x where v: "v = VVar i x" "i < length ts" "W (ts ! i) x" by blast
  then have i: "i < 256 ^ 8" using len by simp
  from pp v consider "proper_prefix (avail st) (put_uint net h 8 i)"
    | q where "avail st = put_uint net h 8 i @ q" "proper_prefix q (E (ts ! i) x)"
    by (auto simp: proper_prefix_append)
  then show "\<exists>v' st'. Deserialize_variant net h (map dv ts) (map R ts) old st = (Code BUFFER_SIZE_LESSER, v', st')"
  proof cases
    case 1
    from proper_prefix_length [OF this] e show ?thesis
      by (simp add: Deserialize_variant_def entered_ready numeric_short)
  next
    case 2
    then obtain st1 where st1: "deserialize_numeric net h 8 (VInt SIZE_MAX) st = (Code NONE, VInt i, st1)"
        "ready st1" "avail st1 = q"
      using numeric_decode [OF entered_ready [OF e] go i] by blast
    with codec.short [OF c v(3) dv st1(2)] v 2 e show ?thesis
      by (auto simp: Deserialize_variant_def emplace_def visit_def entered_ready)
  qed
next
  fix old st
  assume e: "entered st"
  from numeric_result [OF entered_ready [OF e], of net h 8 "VInt SIZE_MAX"]
  consider i st1 where "deserialize_numeric net h 8 (VInt SIZE_MAX) st = (Code NONE, VInt i, st1)"
        "ready st1" "\<exists>p. avail st = p @ avail st1" "level st1 = level st" "registered st1 = registered st"
    | "deserialize_numeric net h 8 (VInt SIZE_MAX) st = (Code BUFFER_SIZE_LESSER, VInt SIZE_MAX, st)"
    by blast
  then show "\<exists>c v st'. Deserialize_variant net h (map dv ts) (map R ts) old st = (Code c, v, st')
      \<and> c \<in> decode_codes \<and> kept_below st st'
      \<and> (c = NONE \<longrightarrow> (\<exists>i x. v = VVar i x \<and> i < length ts \<and> W (ts ! i) x) \<and> ready st'
          \<and> (\<exists>p. avail st = p @ avail st'))"
  proof cases
    case 1
    show ?thesis
    proof (cases "i < length ts")
      case False
      with 1 e show ?thesis
        by (auto simp: Deserialize_variant_def emplace_def entered_ready decode_codes_def kept_below_same)
    next
      case True
      obtain cc y st2 where R: "R (ts ! i) (dv (ts ! i)) st1 = (Code cc, y, st2)" "cc \<in> decode_codes"
          "kept st1 st2"
        and ok: "cc = NONE \<Longrightarrow> W (ts ! i) y \<and> ready st2 \<and> (\<exists>p. avail st1 = p @ avail st2)"
        using codec.total [OF c dv 1(2), of "ts ! i"] True by auto
      have "kept_below st st2" using R 1 e by (auto intro: kept_below_via)
      with R ok 1 e True show ?thesis
        by (auto simp: Deserialize_variant_def emplace_def visit_def entered_ready)
    qed
  next
    case 2
    with e show ?thesis
      by (auto simp: Deserialize_variant_def entered_ready decode_codes_def kept_below_def)
  qed
qed

section \<open>All types\<close>

text \<open>
  The objects into which a value can be read: of the right shape and, where a read does not
  replace the old contents, without an engaged \<open>std::optional\<close> (see \<open>stale_optional\<close>).
\<close>

primrec clean :: "ty \<Rightarrow> val \<Rightarrow> bool" where
  "clean (TInt n) = (\<lambda>v. True)"
| "clean (TFloat n) = (\<lambda>v. True)"
| "clean (TTime k) = (\<lambda>v. True)"
| "clean (TDur k) = (\<lambda>v. True)"
| "clean (TPtr t) = (\<lambda>v. True)"
| "clean (TWeak t) = (\<lambda>v. True)"
| "clean TEmpty = (\<lambda>v. v = VEmpty)"
| "clean (TPair a b) = (\<lambda>v. case v of VPair x y \<Rightarrow> clean a x \<and> clean b y | _ \<Rightarrow> False)"
| "clean (TArr n t) = (\<lambda>v. case v of VArr xs \<Rightarrow> length xs = n \<and> list_all (clean t) xs | _ \<Rightarrow> False)"
| "clean (TOpt t) = (\<lambda>v. v = VOpt None)"
| "clean (TRange c t) = (\<lambda>v. True)"
| "clean (TRef t) = (\<lambda>v. True)"
| "clean (TVar ts) = (\<lambda>v. True)"
| "clean (TStruct ts) = (\<lambda>v. case v of VStruct xs \<Rightarrow> list_all2 (\<lambda>p x. p x) (map clean ts) xs | _ \<Rightarrow> False)"

lemma clean_default: "wf_ty t \<Longrightarrow> clean t (default_val t)"
proof (induction t)
  case (TStruct ts)
  then show ?case by (auto simp: list_all2_map1 list_all2_map2 list_all_iff intro!: list.rel_refl_strong)
qed (auto simp: list_all_iff)

lemma clean_cases:
  "clean (TPair a b) = (\<lambda>v. \<exists>x y. v = VPair x y \<and> clean a x \<and> clean b y)"
  "clean (TArr n t) = (\<lambda>v. \<exists>xs. v = VArr xs \<and> length xs = n \<and> list_all (clean t) xs)"
  "clean (TStruct ts) = (\<lambda>v. \<exists>xs. v = VStruct xs \<and> list_all2 clean ts xs)"
  by (auto simp: fun_eq_iff list_all2_map1 split: val.splits)

lemma has_ty_funs:
  "has_ty (TInt n) = (\<lambda>v. \<exists>x. v = VInt x \<and> x < 256 ^ n)"
  "has_ty (TFloat n) = (\<lambda>v. \<exists>x. v = VInt x \<and> x < 256 ^ n)"
  "has_ty (TPtr t) = (\<lambda>v. \<exists>p. v = VPtr p \<and> pred_option (has_ty t) p)"
  "has_ty (TPair a b) = (\<lambda>v. \<exists>x y. v = VPair x y \<and> has_ty a x \<and> has_ty b y)"
  "has_ty (TArr m t) = (\<lambda>v. \<exists>xs. v = VArr xs \<and> length xs = m \<and> list_all (has_ty t) xs)"
  "has_ty (TOpt t) = (\<lambda>v. \<exists>p. v = VOpt p \<and> pred_option (has_ty t) p)"
  "has_ty (TRange c t) = (\<lambda>v. \<exists>xs. v = VRange xs \<and> length xs < 2 ^ 64
      \<and> list_all (has_ty t) xs \<and> keys_distinct c xs)"
  "has_ty (TVar ts) = (\<lambda>v. \<exists>i x. v = VVar i x \<and> i < length ts \<and> has_ty (ts ! i) x)"
  "has_ty (TStruct ts) = (\<lambda>v. \<exists>xs. v = VStruct xs \<and> list_all2 has_ty ts xs)"
  by (simp_all only: fun_eq_iff has_ty_cases simp_thms)

lemma functor_codec_subst:
  assumes "functor_codec enc F wt cln" and "\<And>v. wt v \<Longrightarrow> enc' v = enc v"
  shows "functor_codec enc' F wt cln"
proof
  show "\<exists>st'. F old st = (Code NONE, v, st') \<and> ready st' \<and> avail st' = rest \<and> kept_below st st'"
    if "wt v" "cln old" "entered st" "avail st = enc' v @ rest" for v old st rest
    using functor_codec.F_decode [OF assms(1) that(1-3)] that(4) assms(2) [OF that(1)] by simp
  show "\<exists>v' st'. F old st = (Code BUFFER_SIZE_LESSER, v', st')"
    if "wt v" "cln old" "entered st" "proper_prefix (avail st) (enc' v)" for v old st
    using functor_codec.F_short [OF assms(1) that(1-3)] that(4) assms(2) [OF that(1)] by simp
qed (rule functor_codec.F_total [OF assms(1)])

text \<open>
  The functor of a type that is not a number, which \<open>stream_deserialize\<close> calls one level deeper, and
  what is proved by induction: a number has a codec, every other type a functor that keeps its contract.
\<close>

fun type_functor :: "bool \<Rightarrow> host \<Rightarrow> ty \<Rightarrow> deserializer" where
  "type_functor net h (TTime k) = Deserialize_ticks net h k"
| "type_functor net h (TDur k) = Deserialize_ticks net h k"
| "type_functor net h (TPtr t) = Deserialize_smart_ptr net h (default_val t) (stream_deserialize net h t)"
| "type_functor net h (TPair a b) = Deserialize_pair (stream_deserialize net h a) (stream_deserialize net h b)"
| "type_functor net h (TArr n t) = Deserialize_array n (stream_deserialize net h t)"
| "type_functor net h (TOpt t) = Deserialize_optional net h (default_val t) (stream_deserialize net h t)"
| "type_functor net h (TRange c t) = Deserialize_range net h c (default_val t) (stream_deserialize net h t)"
| "type_functor net h (TVar ts) =
     Deserialize_variant net h (map default_val ts) (map (stream_deserialize net h) ts)"
| "type_functor net h (TStruct ts) = Deserialize_struct (map (stream_deserialize net h) ts)"
| "type_functor net h t = (\<lambda>v st. (Code NONE, v, st))"

fun number_ty :: "ty \<Rightarrow> bool" where
  "number_ty (TInt n) = True" | "number_ty (TFloat n) = True" | "number_ty t = False"

lemma stream_deserialize_object:
  "\<not> number_ty t \<Longrightarrow> deserializable t \<Longrightarrow> stream_deserialize net h t = deserialize_object (type_functor net h t)"
  by (cases t) auto

definition type_codec :: "bool \<Rightarrow> host \<Rightarrow> ty \<Rightarrow> bool" where
  "type_codec net h t \<longleftrightarrow>
     (if number_ty t then codec (encode net h t) (stream_deserialize net h t) (has_ty t) (clean t)
      else functor_codec (encode net h t) (type_functor net h t) (has_ty t) (clean t))"

lemma type_codecD:
  "type_codec net h t \<Longrightarrow> deserializable t \<Longrightarrow>
   codec (encode net h t) (stream_deserialize net h t) (has_ty t) (clean t)"
  by (auto simp: type_codec_def stream_deserialize_object functor_codec.object_codec split: if_splits)

lemma stream_type_codec:
  "wf_ty t \<Longrightarrow> deserializable t \<Longrightarrow> good_order net h \<Longrightarrow> type_codec net h t"
proof (induction t)
  case (TPtr t)
  then have "codec (encode net h t) (stream_deserialize net h t) (has_ty t) (clean t)" by (simp add: type_codecD)
  from codec.smart_ptr_functor [OF this TPtr.prems(3) clean_default] TPtr.prems show ?case
    by (simp add: has_ty_funs type_codec_def del: has_ty.simps)
next
  case (TPair a b)
  then have "codec (encode net h a) (stream_deserialize net h a) (has_ty a) (clean a)"
    "codec (encode net h b) (stream_deserialize net h b) (has_ty b) (clean b)" by (simp_all add: type_codecD)
  from pair_functor [OF this] show ?case
    by (simp add: has_ty_funs clean_cases type_codec_def del: has_ty.simps clean.simps)
next
  case (TArr n t)
  then have "codec (encode net h t) (stream_deserialize net h t) (has_ty t) (clean t)" by (simp add: type_codecD)
  from codec.array_functor [OF this] show ?case
    by (simp add: has_ty_funs clean_cases type_codec_def del: has_ty.simps clean.simps)
next
  case (TOpt t)
  then have "codec (encode net h t) (stream_deserialize net h t) (has_ty t) (clean t)" by (simp add: type_codecD)
  from codec.optional_functor [OF this TOpt.prems(3) clean_default] TOpt.prems show ?case
    by (simp add: has_ty_funs type_codec_def del: has_ty.simps)
next
  case (TRange c t)
  then have "codec (encode net h t) (stream_deserialize net h t) (has_ty t) (clean t)" by (simp add: type_codecD)
  from codec.range_functor [OF this TRange.prems(3) clean_default] TRange.prems show ?case
    by (simp add: has_ty_funs type_codec_def del: has_ty.simps)
next
  case (TVar ts)
  then have c: "codec (encode net h t) (stream_deserialize net h t) (has_ty t) (clean t)"
      "clean t (default_val t)" if "t \<in> set ts" for t
    using that by (auto simp: list_all_iff clean_default type_codecD)
  have "functor_codec (\<lambda>v. put_uint net h 8 (vindex v) @ encode net h (ts ! vindex v) (vitem v))
     (Deserialize_variant net h (map default_val ts) (map (stream_deserialize net h) ts))
     (has_ty (TVar ts)) (\<lambda>v. True)"
    unfolding has_ty_funs
    by (rule variant_functor [where C = clean]) (use c TVar.prems in auto)
  then have "functor_codec (encode net h (TVar ts))
     (Deserialize_variant net h (map default_val ts) (map (stream_deserialize net h) ts))
     (has_ty (TVar ts)) (\<lambda>v. True)"
    by (rule functor_codec_subst) (auto simp: has_ty_cases simp del: has_ty.simps)
  then show ?case by (simp add: type_codec_def)
next
  case (TStruct ts)
  then have c: "codec (encode net h t) (stream_deserialize net h t) (has_ty t) (clean t)"
    if "t \<in> set ts" for t
    using that by (auto simp: list_all_iff type_codecD)
  have "functor_codec (\<lambda>v. concat (map2 (encode net h) ts (vfields v)))
     (Deserialize_struct (map (stream_deserialize net h) ts)) (has_ty (TStruct ts)) (clean (TStruct ts))"
    unfolding has_ty_funs clean_cases by (rule struct_functor) (rule c)
  then have "functor_codec (encode net h (TStruct ts))
     (Deserialize_struct (map (stream_deserialize net h) ts)) (has_ty (TStruct ts)) (clean (TStruct ts))"
    by (rule functor_codec_subst) (simp add: map_zip_map comp_def split_def)
  then show ?case by (simp add: type_codec_def)
qed (auto simp: has_ty_funs numeric_codec ticks_functor empty_functor type_codec_def
     simp del: has_ty.simps(1,2))

lemma stream_codec:
  "wf_ty t \<Longrightarrow> deserializable t \<Longrightarrow> good_order net h \<Longrightarrow>
   codec (encode net h t) (stream_deserialize net h t) (has_ty t) (clean t)"
  by (intro type_codecD stream_type_codec)

lemma stream_functor:
  "wf_ty t \<Longrightarrow> deserializable t \<Longrightarrow> good_order net h \<Longrightarrow> \<not> number_ty t \<Longrightarrow>
   functor_codec (encode net h t) (type_functor net h t) (has_ty t) (clean t)"
  using stream_type_codec [of t net h] by (simp add: type_codec_def)

text \<open>In network order every deserializable type has a codec, on every host.\<close>

interpretation network: codec "encode True h t" "stream_deserialize True h t"
    "\<lambda>v. wf_ty t \<and> deserializable t \<and> has_ty t v"
    "\<lambda>v. wf_ty t \<and> deserializable t \<and> clean t v" for h t
proof (cases "wf_ty t \<and> deserializable t")
  case True
  then show "codec (encode True h t) (stream_deserialize True h t)
      (\<lambda>v. wf_ty t \<and> deserializable t \<and> has_ty t v) (\<lambda>v. wf_ty t \<and> deserializable t \<and> clean t v)"
    using stream_codec [of t True h] by (simp add: good_order_def)
next
  case False
  then show "codec (encode True h t) (stream_deserialize True h t)
      (\<lambda>v. wf_ty t \<and> deserializable t \<and> has_ty t v) (\<lambda>v. wf_ty t \<and> deserializable t \<and> clean t v)"
    by unfold_locales auto
qed

text \<open>In native order the same holds on a little-endian host.\<close>

interpretation native: codec "encode False LittleHost t" "stream_deserialize False LittleHost t"
    "\<lambda>v. wf_ty t \<and> deserializable t \<and> has_ty t v"
    "\<lambda>v. wf_ty t \<and> deserializable t \<and> clean t v" for t
proof (cases "wf_ty t \<and> deserializable t")
  case True
  then show "codec (encode False LittleHost t) (stream_deserialize False LittleHost t)
      (\<lambda>v. wf_ty t \<and> deserializable t \<and> has_ty t v) (\<lambda>v. wf_ty t \<and> deserializable t \<and> clean t v)"
    using stream_codec [of t False LittleHost] by (simp add: good_order_def)
next
  case False
  then show "codec (encode False LittleHost t) (stream_deserialize False LittleHost t)
      (\<lambda>v. wf_ty t \<and> deserializable t \<and> has_ty t v) (\<lambda>v. wf_ty t \<and> deserializable t \<and> clean t v)"
    by unfold_locales auto
qed

end
