(* ===== verification/Serialization_Resume.thy ===== *)
theory Serialization_Resume
  imports Serialization_Correct
begin

text \<open>
  Input that arrives in pieces. \<open>StreamSerializer::deserialize\<close> may be called again, on the same
  object, after more bytes have been pushed. For a sequence container of numbers every
  interrupted call leaves the stream in the state \<open>suspended\<close>, from which the next call goes on.
\<close>

section \<open>Numeric reads without read-ahead bookkeeping\<close>

definition moved :: "nat \<Rightarrow> stream \<Rightarrow> stream \<Rightarrow> bool" where
  "moved d st st' \<longleftrightarrow> mb_inv (view st') \<and> end_p st' = end_p st + d \<and> begin_p st' = begin_p st
     \<and> level st' = level st \<and> registered st' = registered st"

lemma moved_trans: "moved d a b \<Longrightarrow> moved d' b c \<Longrightarrow> moved (d + d') a c"
  by (simp add: moved_def)

lemma numeric_moves:
  assumes "mb_inv (view st)" and "good_order net h" and "x < 256 ^ n"
    and "avail st = put_uint net h n x @ rest"
  shows "\<exists>st'. deserialize_numeric net h n old st = (Code NONE, VInt x, st')
            \<and> moved n st st' \<and> avail st' = rest"
proof -
  obtain m where "read_trivial net h n (view st)
        = Defined (Some (fix_order net h n (of_mem_bytes h (take n (avail st)))), m)"
      "mb_inv m" "pending m = drop n (avail st)"
    using read_trivial_enough [of "view st" n net h] assms by auto
  with assms show ?thesis by (simp add: deserialize_numeric_def moved_def fix_order_put_uint)
qed

definition numbers :: "nat \<Rightarrow> val list \<Rightarrow> bool" where
  "numbers n xs \<longleftrightarrow> list_all (has_ty (TInt n)) xs"

lemma numbers_simps [simp]:
  "numbers n []" "numbers n (v # xs) \<longleftrightarrow> (\<exists>x. v = VInt x \<and> x < 256 ^ n) \<and> numbers n xs"
  by (simp_all add: numbers_def has_ty_funs(1) del: has_ty.simps)

abbreviation put_all :: "bool \<Rightarrow> host \<Rightarrow> nat \<Rightarrow> val list \<Rightarrow> byte list" where
  "put_all net h n xs \<equiv> concat (map (\<lambda>v. put_uint net h n (vint v)) xs)"

lemma number_loop_step:
  assumes "mb_inv (view st)" "good_order net h" "x < 256 ^ n" "avail st = put_uint net h n x @ rest"
  shows "\<exists>st'. moved n st st' \<and> avail st' = rest \<and>
     range_loop Sequence d (deserialize_numeric net h n) (Suc m) sz items st
       = range_loop Sequence d (deserialize_numeric net h n) m sz (items @ [VInt x]) st'"
proof -
  obtain st' where "deserialize_numeric net h n d st = (Code NONE, VInt x, st')"
      "moved n st st'" "avail st' = rest"
    using numeric_moves [OF assms] by blast
  then show ?thesis
    by (intro exI [of _ st']) (subst range_loop.simps, simp add: insert_item_def)
qed

lemma number_loop_done:
  assumes "numbers n xs" "mb_inv (view st)" "good_order net h" "avail st = put_all net h n xs @ rest"
  shows "\<exists>st'. range_loop Sequence d (deserialize_numeric net h n) (length xs) sz items st
              = (Code NONE, items @ xs, st') \<and> moved (n * length xs) st st' \<and> avail st' = rest"
  using assms
proof (induction xs arbitrary: items st)
  case Nil
  then show ?case by (auto simp: range_loop.simps moved_def)
next
  case (Cons v xs)
  then obtain x where x: "v = VInt x" "x < 256 ^ n" by auto
  obtain st1 where st1: "moved n st st1" "avail st1 = put_all net h n xs @ rest"
      "range_loop Sequence d (deserialize_numeric net h n) (Suc (length xs)) sz items st
       = range_loop Sequence d (deserialize_numeric net h n) (length xs) sz (items @ [v]) st1"
    using number_loop_step [OF Cons.prems(2,3) x(2), where rest = "put_all net h n xs @ rest" and d = d
        and m = "length xs" and sz = sz and items = items] Cons.prems(4) x(1) by auto
  then obtain st2 where "range_loop Sequence d (deserialize_numeric net h n) (length xs) sz (items @ [v]) st1
        = (Code NONE, (items @ [v]) @ xs, st2)" "moved (n * length xs) st1 st2" "avail st2 = rest"
    using Cons.IH [of st1 "items @ [v]"] Cons.prems by (auto simp: moved_def)
  with st1 moved_trans [OF st1(1)] show ?case by fastforce
qed

lemma number_loop_stops:
  assumes "numbers n xs" "mb_inv (view st)" "good_order net h"
    and "avail st @ q = put_all net h n xs" "q \<noteq> []"
  shows "\<exists>j st'. j \<le> length xs \<and> range_loop Sequence d (deserialize_numeric net h n) (length xs) sz items st
              = (Code BUFFER_SIZE_LESSER, items @ take j xs, st')
            \<and> moved (n * j) st st' \<and> avail st' @ q = put_all net h n (drop j xs)"
  using assms
proof (induction xs arbitrary: items st)
  case Nil
  then show ?case by simp
next
  case (Cons v xs)
  then obtain x where x: "v = VInt x" "x < 256 ^ n" by auto
  show ?case
  proof (cases "length (avail st) < n")
    case True
    from numeric_short [OF this, of net h d] show ?thesis
      using Cons.prems by (intro exI [of _ 0] exI [of _ st])
        (auto simp: range_loop.simps [of _ _ _ "Suc _"] moved_def)
  next
    case False
    with Cons.prems(4) x obtain rest where rest: "avail st = put_uint net h n x @ rest" "rest @ q = put_all net h n xs"
      using append_split [of "avail st" q "put_uint net h n x"] by auto
    obtain st1 where st1: "moved n st st1" "avail st1 = rest"
      "range_loop Sequence d (deserialize_numeric net h n) (Suc (length xs)) sz items st
       = range_loop Sequence d (deserialize_numeric net h n) (length xs) sz (items @ [v]) st1"
      using number_loop_step [OF Cons.prems(2,3) x(2) rest(1)] x(1) by blast
    then obtain j st2 where "j \<le> length xs"
        "range_loop Sequence d (deserialize_numeric net h n) (length xs) sz (items @ [v]) st1
          = (Code BUFFER_SIZE_LESSER, (items @ [v]) @ take j xs, st2)"
        "moved (n * j) st1 st2" "avail st2 @ q = put_all net h n (drop j xs)"
      using Cons.IH [of st1 "items @ [v]"] Cons.prems rest(2) by (auto simp: moved_def)
    with st1 moved_trans [OF st1(1)] show ?thesis
      by (intro exI [of _ "Suc j"] exI [of _ st2]) fastforce
  qed
qed

section \<open>Suspended calls\<close>

text \<open>
  \<open>suspended n xs k st\<close>: the size and the first \<open>k\<close> elements of \<open>xs\<close> have been read by earlier
  calls; \<open>idle\<close>: nothing has been read.
\<close>

definition idle :: "stream \<Rightarrow> bool" where
  "idle st \<longleftrightarrow> mb_inv (view st) \<and> level st = 0 \<and> end_p st = begin_p st \<and> iterator st = begin_p st
     \<and> registered st = (\<lambda>_. None)"

definition suspended :: "nat \<Rightarrow> val list \<Rightarrow> nat \<Rightarrow> stream \<Rightarrow> bool" where
  "suspended n xs k st \<longleftrightarrow> k \<le> length xs \<and> mb_inv (view st) \<and> level st = 0
     \<and> end_p st = begin_p st + (8 + n * k) \<and> iterator st = begin_p st
     \<and> registered st = (\<lambda>_. None)(1 := Some [length xs])"

abbreviation sequence_of_numbers :: "bool \<Rightarrow> host \<Rightarrow> nat \<Rightarrow> deserializer" where
  "sequence_of_numbers net h n \<equiv> stream_deserialize net h (TRange Sequence (TInt n))"

lemma push_view_idle: "idle st \<Longrightarrow> idle (push_view c st) \<and> avail (push_view c st) = avail st @ c"
  by (cases "c = []") (auto simp: idle_def push_view_def reset_iterator_def push_inv push_pending)

lemma push_view_suspended:
  "suspended n xs k st \<Longrightarrow>
   suspended n xs k (push_view c st) \<and> avail (push_view c st) = avail st @ c"
  by (cases "c = []") (auto simp: suspended_def push_view_def reset_iterator_def push_inv push_pending)

lemma finish_level_one:
  assumes "mb_inv (view st)" and "level st = 1"
  shows "\<exists>st'. finish_success st = Some st'"
  using flush_ok [OF assms(1)] assms(2) by (auto simp: finish_success_def)

text \<open>How an object at level 0 returns when its functor has run at level 1.\<close>

lemma object_done:
  assumes "F old (st\<lparr>level := 1\<rparr>) = (Code NONE, v, st1)" "level st = 0" "mb_inv (view st1)" "level st1 = 1"
  shows "\<exists>st'. deserialize_object F old st = (Code NONE, v, st')"
  using finish_level_one [OF assms(3,4)] assms(1,2) by (auto simp: deserialize_object_def)

lemma object_stops:
  assumes "F old (st\<lparr>level := 1\<rparr>) = (Code BUFFER_SIZE_LESSER, v, st1)" "level st = 0" "level st1 = 1"
  shows "deserialize_object F old st
       = (Code BUFFER_SIZE_LESSER, v, st1\<lparr>iterator := begin_p st1, level := 0\<rparr>)"
  using assms by (simp add: deserialize_object_def Let_def reset_iterator_def)

lemma range_resumes:
  assumes s: "suspended n xs k st" and fit: "8 + n * length xs < 2 ^ 64" "length xs < 2 ^ 64"
  shows "Deserialize_range net h Sequence d D (VRange (take k xs)) (st\<lparr>level := 1\<rparr>)
       = (case range_loop Sequence d D (length (drop k xs)) k (take k xs)
                 (st\<lparr>level := 1, iterator := begin_p st + 8\<rparr>) of
            (out, items', st'') \<Rightarrow> (out, VRange items', st''))"
proof -
  have "n * k \<le> n * length xs" using s by (simp add: suspended_def)
  then have "8 + n * k < 2 ^ 64" using fit(1) by linarith
  then have "usub64 (begin_p st + (8 + n * k)) (begin_p st) = 8 + n * k"
    by (simp add: usub64_le)
  moreover have "usub64 (length xs) k = length xs - k"
    using s fit(2) by (simp add: usub64_le suspended_def)
  ultimately show ?thesis
    using s by (simp add: Deserialize_range_def try_advance_def trivial_deserialized_def get_value_at_def
        range_elements_def range_size_before_def suspended_def min_absorb2)
qed

lemma suspended_done:
  assumes "numbers n xs" "good_order net h" "suspended n xs k st"
    and fit: "8 + n * length xs < 2 ^ 64" "length xs < 2 ^ 64"
    and "avail st = put_all net h n (drop k xs) @ rest"
  shows "\<exists>st'. sequence_of_numbers net h n (VRange (take k xs)) st = (Code NONE, VRange xs, st')"
proof -
  let ?st = "st\<lparr>level := 1, iterator := begin_p st + 8\<rparr>"
  have dn: "numbers n (drop k xs)" "mb_inv (view ?st)" "avail ?st = put_all net h n (drop k xs) @ rest"
    using assms by (auto simp: numbers_def list_all_iff suspended_def dest: in_set_dropD)
  obtain st1 where "range_loop Sequence (VInt 0) (deserialize_numeric net h n) (length (drop k xs)) k
        (take k xs) ?st = (Code NONE, xs, st1)" "moved (n * length (drop k xs)) ?st st1"
    using number_loop_done [OF dn(1,2) assms(2) dn(3), of "VInt 0" k "take k xs"] by auto
  then show ?thesis
    using object_done range_resumes [OF assms(3) fit] assms(3)
    by (simp add: suspended_def moved_def)
qed

lemma suspended_stops:
  assumes "numbers n xs" "good_order net h" "suspended n xs k st"
    and fit: "8 + n * length xs < 2 ^ 64" "length xs < 2 ^ 64"
    and "avail st @ q = put_all net h n (drop k xs)" "q \<noteq> []"
  shows "\<exists>j st'. sequence_of_numbers net h n (VRange (take k xs)) st
              = (Code BUFFER_SIZE_LESSER, VRange (take j xs), st')
            \<and> suspended n xs j st' \<and> avail st' @ q = put_all net h n (drop j xs)"
proof -
  let ?st = "st\<lparr>level := 1, iterator := begin_p st + 8\<rparr>"
  have dn: "numbers n (drop k xs)" "mb_inv (view ?st)" "avail ?st @ q = put_all net h n (drop k xs)"
    using assms by (auto simp: numbers_def list_all_iff suspended_def dest: in_set_dropD)
  obtain j st1 where j: "j \<le> length (drop k xs)"
      and l: "range_loop Sequence (VInt 0) (deserialize_numeric net h n) (length (drop k xs)) k
        (take k xs) ?st = (Code BUFFER_SIZE_LESSER, take k xs @ take j (drop k xs), st1)"
      and m: "moved (n * j) ?st st1" "avail st1 @ q = put_all net h n (drop j (drop k xs))"
    using number_loop_stops [OF dn(1,2) assms(2) dn(3) assms(7), of "VInt 0" k "take k xs"] by blast
  have "deserialize_object (Deserialize_range net h Sequence (VInt 0) (deserialize_numeric net h n))
          (VRange (take k xs)) st
      = (Code BUFFER_SIZE_LESSER, VRange (take (k + j) xs), st1\<lparr>iterator := begin_p st1, level := 0\<rparr>)"
    by (rule object_stops) (use l m range_resumes [OF assms(3) fit] assms(3) in
        \<open>simp_all add: suspended_def moved_def take_add\<close>)
  moreover have "k + j \<le> length xs" using j assms(3) by (auto simp: suspended_def)
  ultimately show ?thesis using m assms(3)
    by (intro exI [of _ "k + j"]) (simp add: suspended_def moved_def algebra_simps)
qed

lemma range_starts:
  assumes "idle st" and "good_order net h" and "length xs < 2 ^ 64"
    and "avail st = put_uint net h 8 (length xs) @ rest"
  shows "\<exists>st1. Deserialize_range net h Sequence d D old (st\<lparr>level := 1\<rparr>)
       = (case range_loop Sequence d D (length xs) 0 [] (register_value (length xs) st1) of
            (out, items', st'') \<Rightarrow> (out, VRange items', st''))
       \<and> moved 8 (st\<lparr>level := 1\<rparr>) st1 \<and> avail st1 = rest"
proof -
  obtain st1 where "deserialize_numeric net h 8 (VInt 0) (st\<lparr>level := 1\<rparr>) = (Code NONE, VInt (length xs), st1)"
      "moved 8 (st\<lparr>level := 1\<rparr>) st1" "avail st1 = rest"
    using numeric_moves [of "st\<lparr>level := 1\<rparr>" net h "length xs" 8 rest "VInt 0"] assms
    by (auto simp: idle_def)
  with assms show ?thesis
    by (intro exI [of _ st1])
      (simp add: Deserialize_range_def try_advance_def trivial_deserialized_def idle_def
        range_elements_def range_size_before_def)
qed

lemma idle_step:
  assumes nx: "numbers n xs" and go: "good_order net h" and st: "idle st"
    and len: "length xs < 2 ^ 64"
    and av: "avail st @ q = put_uint net h 8 (length xs) @ put_all net h n xs"
  shows "if q = [] then \<exists>st'. sequence_of_numbers net h n old st = (Code NONE, VRange xs, st')
         else (\<exists>st'. sequence_of_numbers net h n old st = (Code BUFFER_SIZE_LESSER, VRange [], st')
                  \<and> idle st' \<and> avail st' = avail st)
            \<or> (\<exists>j st'. sequence_of_numbers net h n old st = (Code BUFFER_SIZE_LESSER, VRange (take j xs), st')
                  \<and> suspended n xs j st' \<and> avail st' @ q = put_all net h n (drop j xs))"
proof (cases "length (avail st) < 8")
  case True
  with av have q: "q \<noteq> []" by (auto dest: arg_cong [where f = length])
  have "Deserialize_range net h Sequence (VInt 0) (deserialize_numeric net h n) old (st\<lparr>level := 1\<rparr>)
      = (Code BUFFER_SIZE_LESSER, VRange [], st\<lparr>level := 1\<rparr>)"
    using True st by (simp add: Deserialize_range_def try_advance_def trivial_deserialized_def idle_def
        numeric_short)
  from object_stops [of "Deserialize_range net h Sequence (VInt 0) (deserialize_numeric net h n)" old st
      "VRange []" "st\<lparr>level := 1\<rparr>", OF this] st
  have "sequence_of_numbers net h n old st
      = (Code BUFFER_SIZE_LESSER, VRange [], st\<lparr>level := 1\<rparr>\<lparr>iterator := begin_p st, level := 0\<rparr>)"
    by (simp add: idle_def)
  with q st show ?thesis by (simp add: idle_def)
next
  case False
  with av obtain rest where rest: "avail st = put_uint net h 8 (length xs) @ rest" "rest @ q = put_all net h n xs"
    using append_split [of "avail st" q "put_uint net h 8 (length xs)"] by auto
  obtain st1 where st1: "Deserialize_range net h Sequence (VInt 0) (deserialize_numeric net h n) old (st\<lparr>level := 1\<rparr>)
       = (case range_loop Sequence (VInt 0) (deserialize_numeric net h n) (length xs) 0 []
            (register_value (length xs) st1) of (out, items', st'') \<Rightarrow> (out, VRange items', st''))"
      "moved 8 (st\<lparr>level := 1\<rparr>) st1" "avail st1 = rest"
    using range_starts [OF st go len rest(1)] by blast
  let ?st = "register_value (length xs) st1"
  have reg: "mb_inv (view ?st)" "avail ?st = rest" "level ?st = 1" "end_p ?st = begin_p st + 8"
      "begin_p ?st = begin_p st" "registered ?st = (\<lambda>_. None)(1 := Some [length xs])"
    using st1 st by (auto simp: register_value_def moved_def idle_def)
  show ?thesis
  proof (cases "q = []")
    case True
    then obtain st2 where "range_loop Sequence (VInt 0) (deserialize_numeric net h n) (length xs) 0 [] ?st
          = (Code NONE, xs, st2)" "moved (n * length xs) ?st st2"
      using number_loop_done [OF nx reg(1) go, of "[]" "VInt 0" 0 "[]"] rest reg by auto
    with True st1 st reg show ?thesis
      using object_done [of "Deserialize_range net h Sequence (VInt 0) (deserialize_numeric net h n)" old st "VRange xs" st2]
      by (simp add: moved_def idle_def)
  next
    case False
    then obtain j st2 where j: "j \<le> length xs"
        and l: "range_loop Sequence (VInt 0) (deserialize_numeric net h n) (length xs) 0 [] ?st
          = (Code BUFFER_SIZE_LESSER, take j xs, st2)"
        and m: "moved (n * j) ?st st2" "avail st2 @ q = put_all net h n (drop j xs)"
      using number_loop_stops [OF nx reg(1) go, of q "VInt 0" 0 "[]"] rest reg by auto
    have "sequence_of_numbers net h n old st
        = (Code BUFFER_SIZE_LESSER, VRange (take j xs), st2\<lparr>iterator := begin_p st2, level := 0\<rparr>)"
      using object_stops [of "Deserialize_range net h Sequence (VInt 0) (deserialize_numeric net h n)"
          old st "VRange (take j xs)" st2] l m st1 st reg
      by (simp add: moved_def idle_def)
    with False j m reg show ?thesis
      by (auto simp: suspended_def moved_def)
  qed
qed

section \<open>Feeding a stream in pieces\<close>

fun feed :: "deserializer \<Rightarrow> byte list list \<Rightarrow> val \<Rightarrow> stream \<Rightarrow> outcome \<times> val \<times> stream" where
  "feed D [] old st = (Code BUFFER_SIZE_LESSER, old, st)"
| "feed D (c # cs) old st =
     (case D old (push_view c st) of
        (out, v, st') \<Rightarrow> if out = Code BUFFER_SIZE_LESSER then feed D cs v st' else (out, v, st'))"

lemma feed_suspended:
  assumes "numbers n xs" "good_order net h" and fit: "8 + n * length xs < 2 ^ 64" "length xs < 2 ^ 64"
    and "suspended n xs k st" "avail st @ concat cs = put_all net h n (drop k xs)" "cs \<noteq> []"
    and "[] \<notin> set cs"
  shows "\<exists>st'. feed (sequence_of_numbers net h n) cs (VRange (take k xs)) st = (Code NONE, VRange xs, st')"
  using assms(5-)
proof (induction cs arbitrary: k st)
  case Nil
  then show ?case by simp
next
  case (Cons c cs)
  let ?st = "push_view c st"
  have s: "suspended n xs k ?st" "avail ?st @ concat cs = put_all net h n (drop k xs)"
    using push_view_suspended [OF Cons.prems(1), of c] Cons.prems(2) by auto
  show ?case
  proof (cases "cs = []")
    case True
    with suspended_done [OF assms(1,2) s(1) fit, of "[]"] s(2) show ?thesis by auto
  next
    case False
    with Cons.prems(4) have "concat cs \<noteq> []" by (cases cs) auto
    then obtain j st' where
        "sequence_of_numbers net h n (VRange (take k xs)) ?st = (Code BUFFER_SIZE_LESSER, VRange (take j xs), st')"
        "suspended n xs j st'" "avail st' @ concat cs = put_all net h n (drop j xs)"
      using suspended_stops [OF assms(1,2) s(1) fit s(2)] by blast
    with Cons.IH [of j st'] False Cons.prems show ?thesis by auto
  qed
qed

lemma feed_idle:
  assumes "numbers n xs" "good_order net h" and fit: "8 + n * length xs < 2 ^ 64" "length xs < 2 ^ 64"
    and "idle st" "avail st @ concat cs = put_uint net h 8 (length xs) @ put_all net h n xs" "cs \<noteq> []"
    and "[] \<notin> set cs"
  shows "\<exists>st'. feed (sequence_of_numbers net h n) cs old st = (Code NONE, VRange xs, st')"
  using assms(5-)
proof (induction cs arbitrary: old st)
  case Nil
  then show ?case by simp
next
  case (Cons c cs)
  let ?st = "push_view c st"
  have s: "idle ?st" "avail ?st @ concat cs = put_uint net h 8 (length xs) @ put_all net h n xs"
    using push_view_idle [OF Cons.prems(1), of c] Cons.prems(2) by auto
  have ne: "concat cs = [] \<longleftrightarrow> cs = []" using Cons.prems(4) by (cases cs) auto
  from idle_step [OF assms(1,2) s(1) fit(2) s(2), of old, unfolded ne]
  consider "cs = []" "\<exists>st'. sequence_of_numbers net h n old ?st = (Code NONE, VRange xs, st')"
    | st' where "cs \<noteq> []" "sequence_of_numbers net h n old ?st = (Code BUFFER_SIZE_LESSER, VRange [], st')"
        "idle st'" "avail st' = avail ?st"
    | j st' where "cs \<noteq> []"
        "sequence_of_numbers net h n old ?st = (Code BUFFER_SIZE_LESSER, VRange (take j xs), st')"
        "suspended n xs j st'" "avail st' @ concat cs = put_all net h n (drop j xs)"
    by (cases "cs = []") (simp_all only: if_True if_False refl, blast+)
  then show ?case
  proof cases
    case 1
    then show ?thesis by auto
  next
    case 2
    with Cons.IH [of st' "VRange []"] s Cons.prems show ?thesis by auto
  next
    case 3
    with feed_suspended [OF assms(1,2) fit 3(3,4,1)] Cons.prems show ?thesis by auto
  qed
qed

end
