(* ===== verification/Serialization_Properties.thy ===== *)
theory Serialization_Properties
  imports Serialization_Resume
begin

text \<open>
  The properties of the serialization component: round trips between any two hosts and over any
  segmentation of the input, truncated and arbitrary input, serial sizes, resumed calls; and the
  places where the code departs from them.
\<close>

section \<open>Filling a stream\<close>

definition push_views :: "byte list list \<Rightarrow> stream \<Rightarrow> stream" where
  "push_views bufs st = foldl (\<lambda>s b. push_view b s) st bufs"

lemma push_views_simps [simp, codec_defs]:
  "push_views [] st = st" "push_views (b # bufs) st = push_views bufs (push_view b st)"
  by (simp_all add: push_views_def)

lemma push_views_idle:
  "idle st \<Longrightarrow> idle (push_views bufs st) \<and> avail (push_views bufs st) = avail st @ concat bufs"
  by (induction bufs arbitrary: st) (simp_all add: push_view_idle)

lemma idle_StreamSerializer: "idle StreamSerializer" "avail StreamSerializer = []"
  by (simp_all add: idle_def StreamSerializer_def mb_inv_MultiBufferView pending_MultiBufferView)

lemma idle_ready: "idle st \<Longrightarrow> ready st"
  by (simp add: idle_def ready_def)

text \<open>A new stream into which some buffers have been pushed.\<close>

lemma fresh_stream:
  "ready (push_views bufs StreamSerializer)" "avail (push_views bufs StreamSerializer) = concat bufs"
  "idle (push_views bufs StreamSerializer)"
  using push_views_idle [OF idle_StreamSerializer(1), of bufs]
  by (simp_all add: idle_StreamSerializer idle_ready)

text \<open>The network encoding does not depend on the host.\<close>

lemma encode_network_host: "encode True h t = encode True h' t"
proof (induction t)
  case (TVar ts)
  then have "map (encode True h) ts = map (encode True h') ts" by simp
  then show ?case by (simp only: encode.simps put_uint_def if_True)
next
  case (TStruct ts)
  then have "map (encode True h) ts = map (encode True h') ts" by simp
  then show ?case by (simp only: encode.simps)
qed (simp_all add: put_uint_def cong: option.case_cong)

lemma serialize_network_encode:
  "wf_ty t \<Longrightarrow> has_ty t v \<Longrightarrow> serialize_network h t v buf = (NONE, buf @ encode True h' t v)"
  using Serialize_encode [of t v True h buf] encode_network_host [of h t h']
  by (simp add: serialize_network_def)

section \<open>A sample message\<close>

abbreviation sample_ty :: ty where
  "sample_ty \<equiv> TStruct [TInt 4, TRange Sequence (TInt 2), TOpt (TInt 1)]"

abbreviation sample_val :: val where
  "sample_val \<equiv> VStruct [VInt 258, VRange [VInt 7, VInt 9], VOpt (Some (VInt 5))]"

abbreviation sample_bytes :: "byte list" where
  "sample_bytes \<equiv> [0, 0, 1, 2, 0, 0, 0, 0, 0, 0, 0, 2, 0, 7, 0, 9, 1, 5]"

lemma sample_typed:
  "wf_ty sample_ty" "deserializable sample_ty" "has_ty sample_ty sample_val"
  "clean sample_ty (default_val sample_ty)" "size_ok sample_ty"
  by (simp_all add: keys_distinct_def)

lemma sample_serialized: "serialize_network BigHost sample_ty sample_val [] = (NONE, sample_bytes)"
  by (simp add: buf_defs codec_defs)

section \<open>Round trips\<close>

text \<open>
  C1. Round trip in network order. What \<open>serialize_network\<close> writes for a value on one host,
  followed by any further bytes and cut into any buffers, is read by \<open>deserialize_network\<close> on
  any other host: it returns \<open>NONE\<close>, yields the value, and leaves exactly the further bytes.
\<close>

theorem network_roundtrip:
  assumes "wf_ty t" and "deserializable t" and "has_ty t v" and "clean t old"
    and "serialize_network h t v [] = (err, bytes)" and "concat bufs = bytes @ rest"
  shows "\<exists>st'. deserialize_network h' t old (push_views bufs StreamSerializer) = (Code NONE, v, st')
            \<and> avail st' = rest \<and> err = NONE"
  using network.decode [of t v old "push_views bufs StreamSerializer" h' rest] assms fresh_stream
  by (auto simp: serialize_network_encode [of t v h _ h'] deserialize_network_def)

theorem network_roundtrip_witness:
  "\<exists>st'. deserialize_network LittleHost sample_ty (default_val sample_ty)
        (push_views [[0, 0, 1], [2, 0, 0, 0, 0, 0, 0, 0, 2, 0, 7, 0], [], [9, 1, 5, 77]] StreamSerializer)
      = (Code NONE, sample_val, st') \<and> avail st' = [77] \<and> NONE = NONE"
  by (rule network_roundtrip [OF sample_typed(1-4) sample_serialized]) simp

text \<open>
  Round trip in native order, between little-endian hosts.
\<close>

lemma native_roundtrip:
  assumes "wf_ty t" and "deserializable t" and "has_ty t v" and "clean t old"
    and "serialize_native LittleHost t v [] = (err, bytes)" and "concat bufs = bytes @ rest"
  shows "\<exists>st'. deserialize_native LittleHost t old (push_views bufs StreamSerializer) = (Code NONE, v, st')
            \<and> avail st' = rest \<and> err = NONE"
  using native.decode [of t v old "push_views bufs StreamSerializer" rest] assms fresh_stream
  by (auto simp: serialize_native_def Serialize_encode deserialize_native_def)

lemma sample_serialized_native:
  "serialize_native LittleHost sample_ty sample_val []
     = (NONE, [2, 1, 0, 0, 2, 0, 0, 0, 0, 0, 0, 0, 7, 0, 9, 0, 1, 5])"
  by (simp add: buf_defs codec_defs)

text \<open>
  Several arguments: the variadic \<open>deserialize\<close> reads back, in order, the values that the
  variadic \<open>serialize\<close> has written one after the other.
\<close>

lemma variadic_roundtrip:
  assumes "list_all wf_ty ts" and "list_all deserializable ts" and "list_all2 has_ty ts vs"
    and "list_all2 clean ts olds"
    and "serialize_all (map2 (serialize_network h) ts vs) [] = (err, bytes)"
    and "concat bufs = bytes @ rest"
  shows "\<exists>st'. deserialize_fields (map (deserialize_network h') ts) olds (push_views bufs StreamSerializer)
              = (Code NONE, vs, st') \<and> avail st' = rest \<and> err = NONE"
proof -
  have "list_all2 (\<lambda>w e. \<forall>buf. w buf = (NONE, buf @ e))
          (map2 (serialize_network h) ts vs) (map2 (encode True h') ts vs)"
    using assms(1,3) by (auto simp: list_all2_conv_all_nth list_all_length serialize_network_encode)
  then have b: "err = NONE" "bytes = concat (map2 (encode True h') ts vs)"
    using assms(5) by (auto simp: serialize_all_encode)
  have "\<exists>st'. deserialize_fields (map (stream_deserialize True h') ts) olds (push_views bufs StreamSerializer)
              = (Code NONE, vs, st') \<and> ready st' \<and> avail st' = rest
            \<and> kept (push_views bufs StreamSerializer) st'"
    using assms b fresh_stream
    by (intro fields_decode [where E = "encode True h'" and W = has_ty and C = clean])
      (auto simp: list_all_iff good_order_def intro!: stream_codec)
  with b show ?thesis by (auto simp: deserialize_network_def [abs_def])
qed

section \<open>Truncated and arbitrary input\<close>

text \<open>
  C3. Truncated input: when only a proper prefix of the bytes of a value has arrived, the call
  reports \<open>BUFFER_SIZE_LESSER\<close>; it neither succeeds nor reads outside the buffers.
\<close>

theorem network_truncated:
  assumes "wf_ty t" and "deserializable t" and "has_ty t v" and "clean t old"
    and "serialize_network h t v [] = (err, concat bufs @ missing)" and "missing \<noteq> []"
  shows "\<exists>v' st'. deserialize_network h' t old (push_views bufs StreamSerializer)
              = (Code BUFFER_SIZE_LESSER, v', st')"
proof -
  have "proper_prefix (avail (push_views bufs StreamSerializer)) (encode True h' t v)"
    using assms fresh_stream(2) serialize_network_encode [of t v h "[]" h'] by (auto simp: proper_prefix_def)
  then show ?thesis
    using network.short [of t v old "push_views bufs StreamSerializer" h'] assms fresh_stream(1)
    by (auto simp: deserialize_network_def)
qed

theorem network_truncated_witness:
  "\<exists>v' st'. deserialize_network LittleHost sample_ty (default_val sample_ty)
        (push_views [[0, 0, 1], [2, 0, 0, 0, 0, 0, 0, 0, 2, 0, 7, 0]] StreamSerializer)
      = (Code BUFFER_SIZE_LESSER, v', st')"
  by (rule network_truncated [where h = BigHost and v = sample_val and err = NONE and missing = "[9, 1, 5]"])
    (simp_all add: buf_defs codec_defs keys_distinct_def)



text \<open>
  An index that names no alternative of a \<open>std::variant\<close> is rejected with
  \<open>UNMATCHED_TYPE\<close>, and the target keeps its value.
\<close>

lemma variant_bad_index:
  assumes "length ts \<le> i" and "i < 2 ^ 64"
  shows "\<exists>st'. deserialize_network h (TVar ts) old
              (push_views [rev (le_bytes 8 i) @ rest] StreamSerializer) = (Code UNMATCHED_TYPE, old, st')"
proof -
  let ?st = "(push_views [rev (le_bytes 8 i) @ rest] StreamSerializer)\<lparr>level := 1\<rparr>"
  have r: "ready ?st" "avail ?st = put_uint True h 8 i @ rest"
    using fresh_stream [of "[rev (le_bytes 8 i) @ rest]"] by (auto simp: ready_def idle_def put_uint_def)
  obtain st' where "deserialize_numeric True h 8 (VInt SIZE_MAX) ?st = (Code NONE, VInt i, st')"
    using numeric_decode [OF r(1) _ _ r(2)] assms(2) by (auto simp: good_order_def)
  then have "Deserialize_variant True h (map default_val ts) (map (stream_deserialize True h) ts) old ?st
      = (Code UNMATCHED_TYPE, old, st')"
    using assms(1) r(1) by (simp add: Deserialize_variant_def emplace_def del: push_views_simps)
  moreover have "level (push_views [rev (le_bytes 8 i) @ rest] StreamSerializer) = 0"
    using fresh_stream(3) by (simp only: idle_def)
  ultimately show ?thesis
    by (simp add: deserialize_network_def deserialize_object_def Let_def del: push_views_simps)
qed

section \<open>The encoding and its size\<close>

text \<open>
  C16. The serializers refine the specification \<open>encode\<close>: on every well-typed value they append
  exactly its encoding to the buffer, and never report an error.
\<close>

theorem Serialize_refines:
  assumes "wf_ty t" and "has_ty t v"
  shows "Serialize net h t v buf = (NONE, buf @ encode net h t v)"
  using assms by (rule Serialize_encode)

theorem Serialize_refines_witness:
  "Serialize True LittleHost sample_ty sample_val [42] = (NONE, [42] @ encode True LittleHost sample_ty sample_val)"
  by (rule Serialize_refines) (simp_all add: keys_distinct_def)



section \<open>The multi-buffer view\<close>

text \<open>
  Reading over segmented input: for every way of cutting the bytes into spans, \<open>read\<close>
  returns the next \<open>n\<close> bytes of the concatenation and leaves the rest, or fails without moving
  when there are fewer; it never leaves the spans.
\<close>

lemma read_is_flat:
  "\<exists>m'. read n (MultiBufferView bufs)
       = Defined (if n \<le> length (concat bufs) then Some (take n (concat bufs)) else None, m')
     \<and> pending m' = (if n \<le> length (concat bufs) then drop n (concat bufs) else concat bufs)"
  using mbv.rd_enough [OF mb_inv_MultiBufferView [of bufs], of n]
    mbv.rd_short [OF mb_inv_MultiBufferView [of bufs], of n]
  by (auto simp: pending_MultiBufferView not_le)

text \<open>
  \<open>advance\<close> moves exactly as a successful \<open>read\<close> does, without the copy.
\<close>

lemma advance_is_read:
  "advance n m = (case read n m of
     OutOfBounds \<Rightarrow> OutOfBounds
   | Defined (Some bs, m') \<Rightarrow> Defined (True, m')
   | Defined (None, m') \<Rightarrow> Defined (False, m'))"
  by (simp add: advance_def read_def advance_loop_read_loop [of n m "[]"] split: access.split prod.split)

text \<open>
  A trivial read is atomic: after a failed \<open>read_trivial\<close> the view, its checkpoints
  included, is what it was; after a successful one the checkpoints are what they were, and
  exactly the object representation has been consumed.
\<close>

lemma read_trivial_atomic:
  assumes "mb_inv m"
  shows "if n \<le> length (pending m)
     then \<exists>v m'. read_trivial net h n m = Defined (Some v, m') \<and> v < 256 ^ n \<and> mb_inv m'
            \<and> pending m' = drop n (pending m) \<and> checkpoints m' = checkpoints m
     else read_trivial net h n m = Defined (None, m)"
  using read_trivial_enough [OF assms, of n net h] read_trivial_short [of m n net h]
    fix_order_bound [OF of_mem_bytes_bound, of "take n (pending m)" n net h]
  by fastforce

text \<open>
  \<open>flush_deserialized\<close> drops exactly the bytes that have been read: it reports their number,
  and the bytes that are still to be read are the same, now at position 0.
\<close>

lemma flush_keeps_pending:
  assumes "mb_inv m"
  shows "\<exists>m'. flush_deserialized m = Defined (length (concat (buffers m)) - length (pending m), m')
            \<and> mb_inv m' \<and> pending m' = pending m \<and> concat (buffers m') = pending m \<and> position m' = 0"
  using flush_ok [OF assms] position_pending [OF assms] by (metis add_diff_cancel_right')

section \<open>Input that arrives in pieces\<close>

text \<open>
  C12. Resumption: when the bytes of a sequence of numbers arrive in non-empty pieces, cut
  anywhere, and \<open>deserialize\<close> is called again on the same object after each
  \<open>BUFFER_SIZE_LESSER\<close>, then the calls end with \<open>NONE\<close> and the whole sequence.
\<close>

theorem sequence_resumes:
  assumes "wf_ty (TInt n)" and "has_ty (TRange Sequence (TInt n)) (VRange xs)"
    and "8 + n * length xs < 2 ^ 64"
    and "serialize_network h (TRange Sequence (TInt n)) (VRange xs) [] = (err, concat pieces)"
    and "[] \<notin> set pieces"
  shows "\<exists>st'. feed (deserialize_network h' (TRange Sequence (TInt n))) pieces old StreamSerializer
              = (Code NONE, VRange xs, st')"
proof -
  have "concat pieces = encode True h' (TRange Sequence (TInt n)) (VRange xs)"
    using serialize_network_encode [OF _ assms(2), of h "[]" h'] assms(1,4) by simp
  then have c: "concat pieces = put_uint True h' 8 (length xs) @ put_all True h' n xs" by simp
  then have "pieces \<noteq> []" by (auto dest: arg_cong [where f = length])
  then show ?thesis
    using feed_idle [of n xs True h' StreamSerializer pieces old] assms c idle_StreamSerializer
    by (simp add: deserialize_network_def numbers_def good_order_def)
qed

theorem sequence_resumes_witness:
  "\<exists>st'. feed (deserialize_network LittleHost (TRange Sequence (TInt 2)))
        [[0, 0, 0], [0, 0, 0, 0, 2, 0], [7], [0, 9]] (VRange []) StreamSerializer
      = (Code NONE, VRange [VInt 7, VInt 9], st')"
  by (rule sequence_resumes [where h = BigHost and err = NONE])
    (simp_all add: buf_defs codec_defs keys_distinct_def)

section \<open>Where the code departs from the round trip\<close>

text \<open>
  Reading an empty \<open>std::optional\<close> into an engaged one leaves the old value in place, with code
  \<open>NONE\<close>: the reason for \<open>clean\<close>.
\<close>

lemma stale_optional:
  "fst (deserialize_network h (TOpt (TInt 1)) (VOpt (Some (VInt 5))) (push_views [[0]] StreamSerializer)) = Code NONE"
  "fst (snd (deserialize_network h (TOpt (TInt 1)) (VOpt (Some (VInt 5))) (push_views [[0]] StreamSerializer)))
     = VOpt (Some (VInt 5))"
  by (cases h; simp add: buf_defs codec_defs)+

text \<open>\<open>Serial_size\<close> of a live weak pointer counts its flag byte twice.\<close>

lemma weak_size_off_by_one:
  assumes "Serial_size t x = length (encode net h t x)"
  shows "Serial_size (TWeak t) (VPtr (Some x)) = Suc (length (encode net h (TWeak t) (VPtr (Some x))))"
  using assms by simp

text \<open>\<open>Max_serial_size\<close> of a pair is a plain sum: with an unbounded component it wraps around.\<close>

lemma pair_max_wraps: "Max_serial_size (TPair (TRange Sequence (TInt 4)) (TInt 4)) = 3"
  by (simp add: SIZE_MAX_def uadd64_def)

text \<open>
  In native order on a big-endian host \<open>serialize\<close> writes host order and \<open>deserialize\<close> swaps.
\<close>

lemma native_big_endian_swaps:
  "serialize_native BigHost (TInt 2) (VInt 258) [] = (NONE, [1, 2])"
  "fst (snd (deserialize_native BigHost (TInt 2) (VInt 0) (push_views [[1, 2]] StreamSerializer))) = VInt 513"
  by (simp_all add: buf_defs codec_defs)

text \<open>
  Resuming an array: the registered count stays at \<open>SZ - 1\<close>, so the second call goes on at index
  1 and stops before the last element; the call returns \<open>NONE\<close>.
\<close>

lemma array_resume_loses:
  "fst (feed (deserialize_network LittleHost (TArr 3 (TInt 1))) [[1, 2], [3]]
     (VArr [VInt 0, VInt 0, VInt 0]) StreamSerializer) = Code NONE"
  "fst (snd (feed (deserialize_network LittleHost (TArr 3 (TInt 1))) [[1, 2], [3]]
     (VArr [VInt 0, VInt 0, VInt 0]) StreamSerializer)) = VArr [VInt 1, VInt 3, VInt 0]"
  by (simp_all add: buf_defs codec_defs upt_rec)

text \<open>Resuming a pair of numbers: the first component is read again from the new bytes.\<close>

lemma pair_resume_rereads:
  "fst (feed (deserialize_network LittleHost (TPair (TInt 1) (TInt 2))) [[1], [2, 3, 4]]
     (VPair (VInt 0) (VInt 0)) StreamSerializer) = Code NONE"
  "fst (snd (feed (deserialize_network LittleHost (TPair (TInt 1) (TInt 2))) [[1], [2, 3, 4]]
     (VPair (VInt 0) (VInt 0)) StreamSerializer)) = VPair (VInt 2) (VInt 772)"
  by (simp_all add: buf_defs codec_defs)

text \<open>
  A top-level number moves \<open>end\<close> but not \<open>begin\<close>; a later \<open>push_view\<close> sets the iterator back to
  \<open>begin\<close>, and the next container takes its size for already read: \<open>unordered_map::at\<close> throws in a
  \<open>noexcept\<close> function.
\<close>

lemma number_then_sequence_terminates:
  "fst (deserialize_network LittleHost (TRange Sequence (TInt 4)) (VRange [])
     (push_view [0, 0, 0, 0, 0, 0, 0, 0]
       (snd (snd (deserialize_network LittleHost (TInt 8) (VInt 0)
         (push_view [0, 0, 0, 0, 0, 0, 0, 9] StreamSerializer)))))) = Abnormal"
  by (simp add: buf_defs codec_defs)

end
