(* ===== verification/Fifo.thy ===== *)
theory Fifo
  imports Prelude
begin

text \<open>
  The interface of the outgoing buffers (\<open>RingBuffer\<close>, \<open>VectorizedBuffer\<close>): data is inserted at
  the end, possibly only in part; the segments expose what is stored, in order; what has been
  sent is removed from the front. \<open>fifo_run\<close> is a client's history of such calls. The locale
  \<open>fifo_queue\<close> states the laws and proves that a history neither loses, nor repeats, nor
  reorders data; \<open>bounded_fifo\<close> adds the accounting of the room.
\<close>

datatype 'a fifo_op = Write "'a list" | Send nat

fun fifo_run ::
    "('a list \<Rightarrow> 's \<Rightarrow> (nat \<times> 's) access) \<Rightarrow> ('s \<Rightarrow> 'a list) \<Rightarrow> (nat \<Rightarrow> 's \<Rightarrow> 's access)
       \<Rightarrow> 'a fifo_op list \<Rightarrow> 's \<Rightarrow> ('a list \<times> 'a list \<times> 's) access" where
  "fifo_run ins segs del [] s = Defined ([], [], s)"
| "fifo_run ins segs del (Write xs # ops) s =
     (case ins xs s of
        OutOfBounds \<Rightarrow> OutOfBounds
      | Defined (n, s') \<Rightarrow>
          (case fifo_run ins segs del ops s' of
             OutOfBounds \<Rightarrow> OutOfBounds
           | Defined (sent, taken, s'') \<Rightarrow> Defined (sent, take n xs @ taken, s'')))"
| "fifo_run ins segs del (Send n # ops) s =
     (case del n s of
        OutOfBounds \<Rightarrow> OutOfBounds
      | Defined s' \<Rightarrow>
          (case fifo_run ins segs del ops s' of
             OutOfBounds \<Rightarrow> OutOfBounds
           | Defined (sent, taken, s'') \<Rightarrow> Defined (take n (segs s) @ sent, taken, s'')))"

text \<open>\<open>inv k s\<close>: the state is well-formed and fit for \<open>k\<close> more calls.\<close>

locale fifo_queue =
  fixes inv :: "nat \<Rightarrow> 's \<Rightarrow> bool"
    and items :: "'s \<Rightarrow> 'a list"
    and ins :: "'a list \<Rightarrow> 's \<Rightarrow> (nat \<times> 's) access"
    and segs :: "'s \<Rightarrow> 'a list"
    and del :: "nat \<Rightarrow> 's \<Rightarrow> 's access"
  assumes segs_items: "inv k s \<Longrightarrow> segs s = items s"
    and ins_items: "inv (Suc k) s \<Longrightarrow> \<exists>n s'. ins xs s = Defined (n, s') \<and> inv k s'
        \<and> items s' = items s @ take n xs"
    and del_items: "inv (Suc k) s \<Longrightarrow> \<exists>s'. del n s = Defined s' \<and> inv k s' \<and> items s' = drop n (items s)"
begin

lemma run_fifo:
  "inv (length ops + k) s \<Longrightarrow>
   \<exists>sent taken s'. fifo_run ins segs del ops s = Defined (sent, taken, s') \<and> inv k s'
      \<and> items s @ taken = sent @ items s'"
proof (induction ops arbitrary: s)
  case Nil
  then show ?case by simp
next
  case (Cons op ops)
  then have i: "inv (Suc (length ops + k)) s" by simp
  show ?case
  proof (cases op)
    case (Write xs)
    obtain n s1 where s1: "ins xs s = Defined (n, s1)" "inv (length ops + k) s1" "items s1 = items s @ take n xs"
      using ins_items [OF i] by blast
    obtain sent taken s' where "fifo_run ins segs del ops s1 = Defined (sent, taken, s')" "inv k s'"
        "items s1 @ taken = sent @ items s'"
      using Cons.IH [OF s1(2)] by blast
    with Write s1 show ?thesis by auto
  next
    case (Send n)
    obtain s1 where s1: "del n s = Defined s1" "inv (length ops + k) s1" "items s1 = drop n (items s)"
      using del_items [OF i] by blast
    obtain sent taken s' where R: "fifo_run ins segs del ops s1 = Defined (sent, taken, s')" "inv k s'"
        "items s1 @ taken = sent @ items s'"
      using Cons.IH [OF s1(2)] by blast
    then have "items s @ taken = (take n (items s) @ sent) @ items s'"
      using s1(3) by (metis append.assoc append_take_drop_id)
    with Send s1 R segs_items [OF i] show ?thesis by auto
  qed
qed

end

locale bounded_fifo = fifo_queue +
  fixes room :: "'a \<Rightarrow> nat"
  assumes ins_room: "inv (Suc k) s \<Longrightarrow> ins xs s = Defined (n, s') \<Longrightarrow>
        n = min (length xs) (room s) \<and> room s' = room s - length xs"
    and del_room: "inv (Suc k) s \<Longrightarrow> del n s = Defined s' \<Longrightarrow> room s' = room s + min n (length (items s))"
begin

text \<open>The sum of what is stored and what is free does not change.\<close>

lemma run_room:
  "inv (length ops + k) s \<Longrightarrow> fifo_run ins segs del ops s = Defined (sent, taken, s') \<Longrightarrow>
   room s' + length (items s') = room s + length (items s)"
proof (induction ops arbitrary: s sent taken)
  case Nil
  then show ?case by simp
next
  case (Cons op ops)
  then have i: "inv (Suc (length ops + k)) s" by simp
  show ?case
  proof (cases op)
    case (Write xs)
    obtain n s1 where s1: "ins xs s = Defined (n, s1)" "inv (length ops + k) s1" "items s1 = items s @ take n xs"
      using ins_items [OF i] by blast
    moreover obtain sent1 taken1 where "fifo_run ins segs del ops s1 = Defined (sent1, taken1, s')"
      using Cons.prems(2) Write s1(1) by (auto split: access.splits prod.splits)
    from Cons.IH [OF s1(2) this] have "room s' + length (items s') = room s1 + length (items s1)" .
    ultimately show ?thesis using ins_room [OF i s1(1)] by auto
  next
    case (Send n)
    obtain s1 where s1: "del n s = Defined s1" "inv (length ops + k) s1" "items s1 = drop n (items s)"
      using del_items [OF i] by blast
    moreover obtain sent1 taken1 where "fifo_run ins segs del ops s1 = Defined (sent1, taken1, s')"
      using Cons.prems(2) Send s1(1) by (auto split: access.splits prod.splits)
    from Cons.IH [OF s1(2) this] have "room s' + length (items s') = room s1 + length (items s1)" .
    ultimately show ?thesis using del_room [OF i s1(1)] by auto
  qed
qed

end

end
