(* ===== verification/Ring_Buffer.thy ===== *)
theory Ring_Buffer
  imports Fifo
begin

text \<open>
  \<open>RingBuffer<T>\<close> and its iterators (\<open>include/OsterLib/network/buffers/ring_buffer.h\<close>): a
  fixed array with a head, a tail and a flag that tells a full buffer from an empty one. The
  abstraction \<open>contents\<close> is the list of the stored elements, oldest first; every operation is
  related to an operation on that list, and the laws of the locale
  \<open>bounded_fifo\<close> are proved for it.
\<close>

section \<open>State and queries\<close>

record 'a ring =
  buf :: "'a list"
  head :: nat
  tail :: nat
  full :: bool

text \<open>\<open>vector::resize\<close> keeps the old elements and appends value-initialised ones (\<open>d\<close>).\<close>

definition set_capacity :: "'a \<Rightarrow> nat \<Rightarrow> 'a ring \<Rightarrow> 'a ring" where
  "set_capacity d n r =
     r\<lparr>buf := take n (buf r) @ replicate (n - length (buf r)) d, head := 0, tail := 0, full := False\<rparr>"

definition RingBuffer :: "'a \<Rightarrow> nat \<Rightarrow> 'a ring" where
  "RingBuffer d n = set_capacity d n \<lparr>buf = [], head = 0, tail = 0, full = False\<rparr>"

definition capacity :: "'a ring \<Rightarrow> nat" where
  "capacity r = length (buf r)"

definition ring_size :: "'a ring \<Rightarrow> nat" where
  "ring_size r = (if full r then capacity r
                  else if tail r \<ge> head r then tail r - head r
                  else capacity r - head r + tail r)"

definition ring_empty :: "'a ring \<Rightarrow> bool" where
  "ring_empty r \<longleftrightarrow> \<not> full r \<and> head r = tail r"

definition ring_full :: "'a ring \<Rightarrow> bool" where
  "ring_full r \<longleftrightarrow> full r"

text \<open>\<open>buffer_[phys]\<close>, with \<open>phys\<close> computed in \<open>size_t\<close>; with capacity 0 the \<open>%\<close> is undefined.\<close>

definition data_at :: "nat \<Rightarrow> 'a ring \<Rightarrow> 'a access" where
  "data_at logical_index r =
     (if capacity r = 0 then OutOfBounds
      else Defined (buf r ! (uadd64 (head r) logical_index mod capacity r)))"

section \<open>Iterators\<close>

text \<open>
  An iterator is its buffer, which does not change, and a logical index of type \<open>size_t\<close>;
  \<open>difference_type\<close> is the signed type of the same width.
\<close>

type_synonym iter = "64 word"

definition it_deref :: "'a ring \<Rightarrow> iter \<Rightarrow> 'a access" where
  "it_deref r it = data_at (unat it) r"

definition it_inc :: "iter \<Rightarrow> iter" where
  "it_inc it = it + 1"

definition it_dec :: "iter \<Rightarrow> iter" where
  "it_dec it = it - 1"

definition it_add :: "iter \<Rightarrow> int \<Rightarrow> iter" where
  "it_add it n = it + word_of_int n"

definition it_sub :: "iter \<Rightarrow> int \<Rightarrow> iter" where
  "it_sub it n = it - word_of_int n"

definition it_diff :: "iter \<Rightarrow> iter \<Rightarrow> int" where
  "it_diff it other = sint (it - other)"

definition it_index :: "'a ring \<Rightarrow> iter \<Rightarrow> int \<Rightarrow> 'a access" where
  "it_index r it n = it_deref r (it_add it n)"

definition it_post_inc :: "iter \<Rightarrow> iter \<times> iter" where
  "it_post_inc it = (it, it_inc it)"

definition it_post_dec :: "iter \<Rightarrow> iter \<times> iter" where
  "it_post_dec it = (it, it_dec it)"

definition it_eq :: "iter \<Rightarrow> iter \<Rightarrow> bool" where
  "it_eq it other \<longleftrightarrow> it = other"

definition it_less :: "iter \<Rightarrow> iter \<Rightarrow> bool" where
  "it_less it other \<longleftrightarrow> it < other"

definition it_le :: "iter \<Rightarrow> iter \<Rightarrow> bool" where
  "it_le it other \<longleftrightarrow> it \<le> other"

definition it_greater :: "iter \<Rightarrow> iter \<Rightarrow> bool" where
  "it_greater it other \<longleftrightarrow> it > other"

definition it_ge :: "iter \<Rightarrow> iter \<Rightarrow> bool" where
  "it_ge it other \<longleftrightarrow> it \<ge> other"

definition it_begin :: "'a ring \<Rightarrow> iter" where
  "it_begin r = 0"

definition it_end :: "'a ring \<Rightarrow> iter" where
  "it_end r = word_of_nat (ring_size r)"

text \<open>The loop \<open>for (it = begin; it != end; ++it)\<close>, which collects the elements; \<open>None\<close> when the fuel runs out.\<close>

fun it_collect :: "nat \<Rightarrow> 'a ring \<Rightarrow> iter \<Rightarrow> 'a list access option" where
  "it_collect fuel r it =
     (if it = it_end r then Some (Defined [])
      else case fuel of
             0 \<Rightarrow> None
           | Suc k \<Rightarrow>
               (case it_deref r it of
                  OutOfBounds \<Rightarrow> Some OutOfBounds
                | Defined x \<Rightarrow>
                    map_option (\<lambda>a. case a of Defined xs \<Rightarrow> Defined (x # xs) | OutOfBounds \<Rightarrow> OutOfBounds)
                      (it_collect k r (it_inc it))))"

declare it_collect.simps [simp del]

section \<open>Vectored access\<close>

text \<open>An \<open>iovec\<close> into the buffer: an element offset (\<open>None\<close> is the null pointer) and a length.\<close>

record iovec =
  iov_base :: "nat option"
  iov_len :: nat

definition no_iovec :: iovec where
  "no_iovec = \<lparr>iov_base = None, iov_len = 0\<rparr>"

definition write_vectored :: "'a ring \<Rightarrow> iovec \<times> iovec" where
  "write_vectored r =
     (if full r then (no_iovec, no_iovec)
      else if head r \<le> tail r
      then (\<lparr>iov_base = Some (tail r), iov_len = capacity r - tail r\<rparr>,
            if head r > 0 then \<lparr>iov_base = Some 0, iov_len = head r\<rparr> else no_iovec)
      else (\<lparr>iov_base = Some (tail r), iov_len = head r - tail r\<rparr>, no_iovec))"

definition read_vectored :: "'a ring \<Rightarrow> iovec \<times> iovec" where
  "read_vectored r =
     (if ring_empty r then (no_iovec, no_iovec)
      else if head r < tail r
      then (\<lparr>iov_base = Some (head r), iov_len = tail r - head r\<rparr>, no_iovec)
      else (\<lparr>iov_base = Some (head r), iov_len = capacity r - head r\<rparr>,
            \<lparr>iov_base = Some 0, iov_len = tail r\<rparr>))"

text \<open>\<open>data()\<close>: two spans; \<open>subspan\<close> with an offset behind the end is undefined.\<close>

definition ring_data :: "'a ring \<Rightarrow> 'a list \<times> 'a list" where
  "ring_data r =
     (if ring_empty r then (buf r, buf r)
      else if head r < tail r then (take (tail r - head r) (drop (head r) (buf r)), [])
      else (drop (head r) (buf r), take (tail r) (buf r)))"

text \<open>The elements an \<open>iovec\<close> refers to, and storing elements through it.\<close>

definition iov_load :: "'a list \<Rightarrow> iovec \<Rightarrow> 'a list" where
  "iov_load xs v = (case iov_base v of None \<Rightarrow> [] | Some b \<Rightarrow> take (iov_len v) (drop b xs))"

definition iov_store :: "iovec \<Rightarrow> 'a list \<Rightarrow> 'a list \<Rightarrow> 'a list access" where
  "iov_store v ys xs =
     (if ys = [] then Defined xs
      else case iov_base v of
             None \<Rightarrow> OutOfBounds
           | Some b \<Rightarrow> if b + length ys \<le> length xs
                       then Defined (take b xs @ ys @ drop (b + length ys) xs) else OutOfBounds)"

section \<open>Operations\<close>

definition commit_write :: "nat \<Rightarrow> 'a ring \<Rightarrow> 'a ring access" where
  "commit_write n r =
     (if n = 0 then Defined r
      else let sz = ring_size r;
               n' = (if n > capacity r - sz then capacity r - sz else n)
           in if capacity r = 0 then OutOfBounds
              else let t = (tail r + n') mod capacity r
                   in Defined (r\<lparr>tail := t, full := (t = head r)\<rparr>))"

definition commit_read :: "nat \<Rightarrow> 'a ring \<Rightarrow> 'a ring access" where
  "commit_read n r =
     (if n = 0 then Defined r
      else let sz = ring_size r;
               n' = (if n > sz then sz else n)
           in if capacity r = 0 then OutOfBounds
              else Defined (r\<lparr>head := (head r + n') mod capacity r, full := False\<rparr>))"

text \<open>\<open>insert\<close> returns how many elements of the container it has taken.\<close>

definition insert_offsets :: "'a list \<Rightarrow> 'a ring \<Rightarrow> nat \<times> nat" where
  "insert_offsets container r =
     (let vec = write_vectored r;
          offset_1 = min (iov_len (fst vec)) (length container);
          offset_2 = min (iov_len (snd vec)) (length container - offset_1)
      in (offset_1, offset_2))"

definition ring_insert :: "'a list \<Rightarrow> 'a ring \<Rightarrow> (nat \<times> 'a ring) access" where
  "ring_insert container r =
     (let vec = write_vectored r;
          (offset_1, offset_2) = insert_offsets container r
      in case iov_store (fst vec) (take offset_1 container) (buf r) of
           OutOfBounds \<Rightarrow> OutOfBounds
         | Defined b1 \<Rightarrow>
             (case iov_store (snd vec) (take offset_2 (drop offset_1 container)) b1 of
                OutOfBounds \<Rightarrow> OutOfBounds
              | Defined b2 \<Rightarrow>
                  (case commit_write (offset_1 + offset_2) (r\<lparr>buf := b2\<rparr>) of
                     OutOfBounds \<Rightarrow> OutOfBounds
                   | Defined r' \<Rightarrow> Defined (offset_1 + offset_2, r'))))"

definition pop_front :: "'a ring \<Rightarrow> bool \<times> 'a ring" where
  "pop_front r =
     (if ring_empty r then (False, r)
      else (True, r\<lparr>head := (head r + 1) mod capacity r, full := False\<rparr>))"

definition ring_clear :: "'a ring \<Rightarrow> 'a ring" where
  "ring_clear r = r\<lparr>head := 0, tail := 0, full := False\<rparr>"

text \<open>\<open>push_back\<close> returns success, the error code (\<open>None\<close> when cleared) and the buffer.\<close>

definition push_back :: "'a \<Rightarrow> 'a ring \<Rightarrow> (bool \<times> errc option \<times> 'a ring) access" where
  "push_back value r =
     (if full r then Defined (False, Some no_buffer_space, r)
      else if tail r < length (buf r)
      then let t = (if tail r = length (buf r) - 1 then 0 else tail r + 1)
           in Defined (True, None,
                r\<lparr>buf := (buf r)[tail r := value], tail := t, full := (t = head r)\<rparr>)
      else OutOfBounds)"

text \<open>
  The extractions swap the element with \<open>value\<close>. In \<open>extract_front\<close> the \<open>if\<close> has an empty
  statement, so \<open>head_ = 0\<close> is always executed; \<open>extract_back\<close> indexes with \<open>tail_ - 1\<close>, in
  \<open>size_t\<close>.
\<close>

definition extract_front :: "'a \<Rightarrow> 'a ring \<Rightarrow> (bool \<times> 'a \<times> 'a ring) access" where
  "extract_front value r =
     (if ring_empty r then Defined (False, value, r)
      else if head r < length (buf r)
      then Defined (True, buf r ! head r, r\<lparr>buf := (buf r)[head r := value], head := 0\<rparr>)
      else OutOfBounds)"

definition extract_back :: "'a \<Rightarrow> 'a ring \<Rightarrow> (bool \<times> 'a \<times> 'a ring) access" where
  "extract_back value r =
     (if ring_empty r then Defined (False, value, r)
      else let i = usub64 (tail r) 1
           in if i < length (buf r)
              then Defined (True, buf r ! i, r\<lparr>buf := (buf r)[i := value],
                     tail := (if tail r = 0 then length (buf r) else tail r - 1)\<rparr>)
              else OutOfBounds)"

section \<open>Invariant and abstraction\<close>

text \<open>A \<open>std::vector\<close> has fewer than \<open>2 ^ 63\<close> elements.\<close>

definition ring_inv :: "'a ring \<Rightarrow> bool" where
  "ring_inv r \<longleftrightarrow> capacity r < 2 ^ 63
     \<and> (if capacity r = 0 then head r = 0 \<and> tail r = 0 \<and> \<not> full r
        else head r < capacity r \<and> tail r < capacity r \<and> (full r \<longrightarrow> head r = tail r))"

definition slot :: "'a ring \<Rightarrow> nat \<Rightarrow> nat" where
  "slot r i = (head r + i) mod capacity r"

definition contents :: "'a ring \<Rightarrow> 'a list" where
  "contents r = map (\<lambda>i. buf r ! slot r i) [0..<ring_size r]"

lemma mod_once: "h < c \<Longrightarrow> k \<le> c \<Longrightarrow> (h + k) mod c = (if h + k < c then h + k else h + k - (c :: nat))"
  by (simp add: mod_if)

lemma min_plus_diff: "min n s + (s - n) = (s :: nat)"
  by simp

lemma ring_size_char:
  assumes "head r < capacity r" and "k \<le> capacity r"
    and "tail r = (head r + k) mod capacity r" and "full r \<longleftrightarrow> k = capacity r"
  shows "ring_size r = k"
  using assms by (auto simp: ring_size_def mod_once split: if_splits)

lemma ring_inv_char:
  "0 < capacity r \<Longrightarrow> ring_inv r \<longleftrightarrow> capacity r < 2 ^ 63 \<and> head r < capacity r
     \<and> (\<exists>k \<le> capacity r. tail r = (head r + k) mod capacity r \<and> (full r \<longleftrightarrow> k = capacity r))"
  (is "?c \<Longrightarrow> ?L \<longleftrightarrow> ?R")
proof -
  assume c: ?c
  show ?thesis
  proof
    assume ?L
    with c have l: "capacity r < 2 ^ 63" "head r < capacity r" "tail r < capacity r" "full r \<longrightarrow> head r = tail r"
      by (auto simp: ring_inv_def)
    have "ring_size r \<le> capacity r" "tail r = (head r + ring_size r) mod capacity r"
      "full r \<longleftrightarrow> ring_size r = capacity r"
      using l by (auto simp: ring_size_def)
    with l show ?R by blast
  next
    assume ?R
    with c show ?L by (auto simp: ring_inv_def mod_once)
  qed
qed

lemma ring_inv_facts:
  assumes "ring_inv r"
  shows "ring_size r \<le> capacity r"
    and "0 < capacity r \<Longrightarrow> head r < capacity r"
    and "0 < capacity r \<Longrightarrow> tail r = (head r + ring_size r) mod capacity r"
    and "full r \<longleftrightarrow> 0 < capacity r \<and> ring_size r = capacity r"
    and "ring_empty r \<longleftrightarrow> ring_size r = 0"
  using assms by (auto simp: ring_inv_def ring_size_def ring_empty_def split: if_splits)

lemma ring_stateI:
  assumes "0 < capacity r" "capacity r < 2 ^ 63" "head r < capacity r" "k \<le> capacity r"
    and "tail r = (head r + k) mod capacity r" and "full r \<longleftrightarrow> k = capacity r"
  shows "ring_inv r \<and> ring_size r = k"
  using assms ring_size_char ring_inv_char [of r] by blast

lemma length_contents [simp]: "length (contents r) = ring_size r"
  by (simp add: contents_def)

lemma contents_nth [simp]: "i < ring_size r \<Longrightarrow> contents r ! i = buf r ! slot r i"
  by (simp add: contents_def)

lemma slot_inj:
  assumes "head r < capacity r" "i < capacity r" "j < capacity r" "slot r i = slot r j"
  shows "i = j"
  using assms by (auto simp: slot_def mod_once split: if_splits)

lemma slot_bound: "0 < capacity r \<Longrightarrow> slot r i < capacity r"
  by (simp add: slot_def)

section \<open>The operations on the abstraction\<close>

lemma set_capacity_contents:
  assumes "n < 2 ^ 63"
  shows "ring_inv (set_capacity d n r)" "contents (set_capacity d n r) = []"
    "capacity (set_capacity d n r) = n"
  using assms by (auto simp: ring_inv_def set_capacity_def capacity_def contents_def ring_size_def)

lemma clear_contents:
  assumes "ring_inv r"
  shows "ring_inv (ring_clear r)" "contents (ring_clear r) = []" "capacity (ring_clear r) = capacity r"
  using assms by (auto simp: ring_inv_def ring_clear_def capacity_def contents_def ring_size_def)

lemma commit_write_state:
  assumes "ring_inv r" and "0 < capacity r"
  shows "\<exists>r'. commit_write n r = Defined r' \<and> ring_inv r' \<and> buf r' = buf r \<and> head r' = head r
            \<and> ring_size r' = min (ring_size r + n) (capacity r)"
proof (cases "n = 0")
  case True
  then show ?thesis using assms ring_inv_facts(1) [OF assms(1)] by (simp add: commit_write_def min_absorb1)
next
  case False
  let ?n = "if n > capacity r - ring_size r then capacity r - ring_size r else n"
  let ?t = "(tail r + ?n) mod capacity r"
  let ?r = "r\<lparr>tail := ?t, full := (?t = head r)\<rparr>"
  let ?k = "ring_size r + ?n"
  note f = ring_inv_facts [OF assms(1)]
  have t: "?t = (head r + ?k) mod capacity r"
    using f(3) [OF assms(2)] by (simp add: mod_simps add.assoc)
  have k: "?k \<le> capacity r" "0 < ?k" "?k = min (ring_size r + n) (capacity r)"
    using f(1) False assms(2) by auto
  have fl: "?t = head r \<longleftrightarrow> ?k = capacity r"
    unfolding t using k f(2) [OF assms(2)] by (subst mod_once) auto
  have "ring_inv ?r \<and> ring_size ?r = ?k"
    by (rule ring_stateI) (use assms f t k fl in \<open>auto simp: capacity_def ring_inv_def\<close>)
  with False assms(2) k(3) show ?thesis by (simp add: commit_write_def Let_def del: mod_less)
qed

lemma commit_read_state:
  assumes "ring_inv r" and "0 < capacity r"
  shows "\<exists>r'. commit_read n r = Defined r' \<and> ring_inv r' \<and> buf r' = buf r
            \<and> (\<forall>i. slot r' i = slot r (min n (ring_size r) + i)) \<and> ring_size r' = ring_size r - n"
proof (cases "n = 0")
  case True
  then show ?thesis using assms by (simp add: commit_read_def)
next
  case False
  let ?n = "min n (ring_size r)"
  let ?r = "r\<lparr>head := (head r + ?n) mod capacity r, full := False\<rparr>"
  note f = ring_inv_facts [OF assms(1)]
  have "ring_inv ?r \<and> ring_size ?r = ring_size r - n"
  proof (rule ring_stateI)
    show "tail ?r = (head ?r + (ring_size r - n)) mod capacity ?r"
      using f(3) [OF assms(2)] min_plus_diff [of n "ring_size r"]
      by (simp add: capacity_def mod_simps add.assoc)
  qed (use assms f False in \<open>auto simp: capacity_def ring_inv_def\<close>)
  moreover have "commit_read n r = Defined ?r"
    using False assms(2) by (simp add: commit_read_def Let_def min_def)
  ultimately show ?thesis by (simp add: slot_def capacity_def mod_simps add.assoc)
qed

lemma commit_read_contents:
  assumes "ring_inv r" and "0 < capacity r"
  shows "\<exists>r'. commit_read n r = Defined r' \<and> ring_inv r' \<and> capacity r' = capacity r
            \<and> contents r' = drop n (contents r)"
proof -
  obtain r' where r': "commit_read n r = Defined r'" "ring_inv r'" "buf r' = buf r"
      "\<forall>i. slot r' i = slot r (min n (ring_size r) + i)" "ring_size r' = ring_size r - n"
    using commit_read_state [OF assms] by blast
  then have "contents r' = drop n (contents r)"
    by (intro nth_equalityI) (auto simp: min_def)
  with r' show ?thesis by (auto simp: capacity_def)
qed

lemma pop_front_contents:
  assumes "ring_inv r"
  shows "\<exists>r'. pop_front r = (contents r \<noteq> [], r') \<and> ring_inv r' \<and> capacity r' = capacity r
            \<and> contents r' = tl (contents r)"
proof (cases "ring_empty r")
  case True
  then show ?thesis
    using assms ring_inv_facts(5) [OF assms] by (simp add: pop_front_def contents_def)
next
  case False
  note f = ring_inv_facts [OF assms]
  from False f have c: "0 < capacity r" "ring_size r \<noteq> 0" by auto
  have "commit_read 1 r = Defined (snd (pop_front r))"
    using False c by (simp add: commit_read_def pop_front_def)
  moreover have "fst (pop_front r) \<longleftrightarrow> contents r \<noteq> []"
    using False c(2) by (auto simp: pop_front_def dest: arg_cong [where f = length])
  ultimately show ?thesis
    using commit_read_contents [OF assms c(1), of 1] by (cases "pop_front r") (auto simp: drop_Suc)
qed

text \<open>
  Writing \<open>ys\<close> behind the tail, around the end of the array: the position \<open>p\<close> receives the
  element whose distance from the tail it is.
\<close>

definition written :: "'a list \<Rightarrow> 'a ring \<Rightarrow> 'a list \<Rightarrow> bool" where
  "written ys r b \<longleftrightarrow> length b = capacity r
     \<and> (\<forall>j < length ys. b ! slot r (ring_size r + j) = ys ! j)
     \<and> (\<forall>i < ring_size r. b ! slot r i = buf r ! slot r i)"

lemma written_contents:
  assumes "written ys r b" and "length ys = ring_size r' - ring_size r" and "ring_size r \<le> ring_size r'"
    and "buf r' = b" "head r' = head r"
  shows "contents r' = contents r @ ys"
proof (rule nth_equalityI)
  show "length (contents r') = length (contents r @ ys)" using assms by simp
  have s: "slot r' i = slot r i" for i
    using assms by (simp add: slot_def capacity_def written_def)
  fix i assume "i < length (contents r')"
  then show "contents r' ! i = (contents r @ ys) ! i"
    using assms s by (cases "i < ring_size r") (auto simp: written_def nth_append dest: spec [of _ "i - ring_size r"])
qed

lemma push_back_contents:
  assumes "ring_inv r" and "0 < capacity r"
  shows "\<exists>r'. push_back x r = Defined (\<not> full r, if full r then Some no_buffer_space else None, r')
            \<and> ring_inv r' \<and> capacity r' = capacity r
            \<and> contents r' = (if full r then contents r else contents r @ [x])"
proof (cases "full r")
  case True
  then show ?thesis using assms by (simp add: push_back_def)
next
  case False
  note f = ring_inv_facts [OF assms(1)]
  let ?t = "if tail r = length (buf r) - 1 then 0 else tail r + 1"
  let ?r = "r\<lparr>buf := (buf r)[tail r := x], tail := ?t, full := (?t = head r)\<rparr>"
  have sz: "ring_size r < capacity r" using False f assms(2) by (simp add: le_neq_implies_less)
  have t: "tail r = slot r (ring_size r)" using f(3) [OF assms(2)] by (simp add: slot_def)
  have tc: "tail r < length (buf r)" using assms by (auto simp: ring_inv_def capacity_def)
  have t': "?t = (tail r + 1) mod capacity r" using tc by (auto simp: capacity_def mod_if)
  have "?t = (head r + Suc (ring_size r)) mod capacity r"
    unfolding t' using f(3) [OF assms(2)] by (simp add: mod_simps)
  moreover have "?t = head r \<longleftrightarrow> Suc (ring_size r) = capacity r"
    unfolding calculation using sz f(2) [OF assms(2)] by (subst mod_once) auto
  ultimately have st: "ring_inv ?r \<and> ring_size ?r = Suc (ring_size r)"
    by (intro ring_stateI) (use assms f sz in \<open>auto simp: capacity_def ring_inv_def\<close>)
  have "tail r \<noteq> slot r i" if "i < ring_size r" for i
    using slot_inj [of r i "ring_size r"] t that sz f(2) [OF assms(2)] by auto
  then have "written [x] r (buf ?r)"
    using t tc by (simp add: written_def capacity_def)
  then have "contents ?r = contents r @ [x]" by (rule written_contents) (use st in auto)
  moreover have "push_back x r = Defined (True, None, ?r)"
    using False tc by (simp only: push_back_def Let_def if_True if_False)
  moreover have "capacity ?r = capacity r" by (simp add: capacity_def)
  ultimately show ?thesis using False st by (intro exI [of _ ?r]) (simp only: simp_thms if_False)
qed

text \<open>
  The two segments that \<open>write_vectored\<close> offers, with the sizes that \<open>insert\<close> uses.
\<close>

lemma insert_offsets_eq:
  assumes "\<not> full r"
  shows "insert_offsets xs r =
     (if head r \<le> tail r
      then (min (capacity r - tail r) (length xs),
            min (head r) (length xs - min (capacity r - tail r) (length xs)))
      else (min (head r - tail r) (length xs), 0))"
  using assms by (simp add: insert_offsets_def write_vectored_def no_iovec_def Let_def)

lemma ring_size_not_full:
  assumes "\<not> full r"
  shows "ring_size r = (if head r \<le> tail r then tail r - head r else capacity r - head r + tail r)"
  using assms by (simp add: ring_size_def)

lemma ring_inv_le: "ring_inv r \<Longrightarrow> head r \<le> capacity r \<and> tail r \<le> capacity r"
  by (cases "capacity r = 0") (auto simp: ring_inv_def)

lemma insert_offsets_cases:
  assumes "ring_inv r" and "\<not> full r" and "insert_offsets xs r = (k1, k2)"
  shows "k1 + k2 = min (length xs) (capacity r - ring_size r)"
    and "k1 \<le> capacity r - tail r"
    and "0 < k2 \<Longrightarrow> k1 = capacity r - tail r \<and> k2 \<le> head r \<and> head r \<le> tail r"
    and "head r > tail r \<Longrightarrow> k1 \<le> head r - tail r"
proof -
  have le: "head r \<le> capacity r" "tail r \<le> capacity r" using ring_inv_le [OF assms(1)] by auto
  have k: "k1 = fst (insert_offsets xs r)" "k2 = snd (insert_offsets xs r)" using assms(3) by simp_all
  show "k1 + k2 = min (length xs) (capacity r - ring_size r)"
    using le unfolding k insert_offsets_eq [OF assms(2)] ring_size_not_full [OF assms(2)]
    by (cases "head r \<le> tail r") auto
  show "k1 \<le> capacity r - tail r"
    using le unfolding k insert_offsets_eq [OF assms(2)] by (cases "head r \<le> tail r") simp_all
  show "k1 = capacity r - tail r \<and> k2 \<le> head r \<and> head r \<le> tail r" if "0 < k2"
    using le that unfolding k insert_offsets_eq [OF assms(2)]
    by (cases "head r \<le> tail r") (simp_all add: min_def split: if_splits)
  show "k1 \<le> head r - tail r" if "head r > tail r"
    using that unfolding k insert_offsets_eq [OF assms(2)] by simp
qed

lemma insert_written:
  assumes "ring_inv r" and "0 < capacity r" and nf: "\<not> full r"
    and k: "insert_offsets xs r = (k1, k2)"
    and b1: "b1 = take (tail r) (buf r) @ take k1 xs @ drop (tail r + k1) (buf r)"
    and b2: "b2 = take k2 (drop k1 xs) @ drop k2 b1"
  shows "written (take (k1 + k2) xs) r b2"
proof -
  note o = insert_offsets_cases [OF assms(1) nf k] and f = ring_inv_facts [OF assms(1)]
  let ?c = "capacity r" and ?t = "tail r"
  have t: "?t < ?c" using assms by (auto simp: ring_inv_def)
  have kl: "k1 + k2 \<le> length xs" "k1 + k2 \<le> ?c - ring_size r" using o(1) by auto
  have len: "length b1 = ?c" "length b2 = ?c"
    using t kl o(2,3) b1 b2 f(2) [OF assms(2)] by (auto simp: capacity_def)
  have pos: "slot r (ring_size r + j) = (if ?t + j < ?c then ?t + j else ?t + j - ?c)" if "j < k1 + k2" for j
  proof -
    have "slot r (ring_size r + j) = (?t + j) mod ?c"
      unfolding slot_def using f(3) [OF assms(2)] by (metis add.assoc mod_add_left_eq)
    also have "\<dots> = (if ?t + j < ?c then ?t + j else ?t + j - ?c)"
      by (rule mod_once) (use t that kl(2) in auto)
    finally show ?thesis .
  qed
  have new: "b2 ! slot r (ring_size r + j) = take (k1 + k2) xs ! j" if j: "j < k1 + k2" for j
  proof (cases "j < k1")
    case True
    then have "?t + j < ?c" using o(2) by simp
    moreover have "k2 \<le> ?t + j" using o(3) by (cases "k2 = 0") auto
    moreover have "b1 ! (?t + j) = xs ! j"
      using True kl t by (simp add: b1 nth_append capacity_def min_def)
    moreover have "b2 ! (?t + j) = b1 ! (?t + j)"
      using calculation(1,2) kl(1) len by (simp add: b2 nth_append min_absorb2)
    ultimately show ?thesis using pos [OF j] True by simp
  next
    case False
    then have "k1 = ?c - ?t" using j o(3) by auto
    then have "slot r (ring_size r + j) = j - k1" using pos [OF j] False t by auto
    then show ?thesis
      using False j kl by (auto simp: b2 nth_append)
  qed
  have old: "b2 ! slot r i = buf r ! slot r i" if i: "i < ring_size r" for i
  proof -
    have p: "slot r i = (if head r + i < ?c then head r + i else head r + i - ?c)"
      unfolding slot_def by (rule mod_once) (use f(1) f(2) [OF assms(2)] i in auto)
    have out: "k2 \<le> slot r i \<and> (slot r i < ?t \<or> ?t + k1 \<le> slot r i)"
    proof (cases "head r \<le> ?t")
      case True
      then have "slot r i = head r + i" "head r + i < ?t"
        using p i t ring_size_not_full [OF nf] by simp_all
      then show ?thesis using o(3) by (cases "k2 = 0") auto
    next
      case False
      then have "k2 = 0" "k1 \<le> head r - ?t" using o(3,4) by auto
      moreover have "slot r i < ?t \<or> head r \<le> slot r i"
        using p i False ring_size_not_full [OF nf] f(2) [OF assms(2)] by auto
      ultimately show ?thesis using False by auto
    qed
    have sc: "slot r i < ?c" by (rule slot_bound [OF assms(2)])
    have "b2 ! slot r i = b1 ! slot r i"
      using out kl(1) len by (simp add: b2 nth_append min_absorb2)
    also have "\<dots> = buf r ! slot r i"
      using out sc t kl(1) by (elim conjE disjE) (auto simp: b1 nth_append capacity_def min_absorb2)
    finally show ?thesis .
  qed
  show ?thesis using len new old kl(1) by (simp add: written_def)
qed

text \<open>The two stores of \<open>insert\<close> stay inside the segments and leave the buffer as \<open>insert_written\<close> says.\<close>

lemma insert_stores:
  assumes "ring_inv r" and "\<not> full r" and "insert_offsets xs r = (k1, k2)"
  shows "\<exists>b1. iov_store (fst (write_vectored r)) (take k1 xs) (buf r) = Defined b1
       \<and> b1 = take (tail r) (buf r) @ take k1 xs @ drop (tail r + k1) (buf r)
       \<and> iov_store (snd (write_vectored r)) (take k2 (drop k1 xs)) b1
           = Defined (take k2 (drop k1 xs) @ drop k2 b1)"
proof -
  note o = insert_offsets_cases [OF assms]
  have kl: "k1 + k2 \<le> length xs" using o(1) by simp
  have t: "tail r \<le> capacity r" using assms(1) by (auto simp: ring_inv_def split: if_splits)
  let ?b1 = "take (tail r) (buf r) @ take k1 xs @ drop (tail r + k1) (buf r)"
  have w: "iov_base (fst (write_vectored r)) = Some (tail r)"
    using assms(2) by (simp add: write_vectored_def)
  have w2: "iov_base (snd (write_vectored r)) = Some 0" if "0 < k2"
    using o(3) [OF that] that assms(2) by (simp add: write_vectored_def)
  have l1: "length ?b1 = capacity r" using kl t o(2) by (simp add: capacity_def)
  have "k2 \<le> capacity r" using o(3) t by (cases "k2 = 0") auto
  then have "iov_store (snd (write_vectored r)) (take k2 (drop k1 xs)) ?b1
      = Defined (take k2 (drop k1 xs) @ drop k2 ?b1)"
    using w2 kl l1 by (cases "k2 = 0") (auto simp: iov_store_def min_absorb2 simp del: length_append)
  moreover have "iov_store (fst (write_vectored r)) (take k1 xs) (buf r) = Defined ?b1"
    using w kl o(2) t by (cases "k1 = 0") (auto simp: iov_store_def capacity_def min_absorb2)
  ultimately show ?thesis by blast
qed

lemma ring_insert_contents:
  assumes "ring_inv r"
  shows "\<exists>r'. ring_insert xs r = Defined (min (length xs) (capacity r - ring_size r), r')
            \<and> ring_inv r' \<and> capacity r' = capacity r
            \<and> contents r' = contents r @ take (capacity r - ring_size r) xs"
proof (cases "full r \<or> capacity r = 0")
  case True
  then have "insert_offsets xs r = (0, 0)" "capacity r - ring_size r = 0"
    using assms by (auto simp: insert_offsets_def write_vectored_def no_iovec_def ring_inv_def ring_size_def)
  then show ?thesis
    using assms by (simp add: ring_insert_def iov_store_def commit_write_def)
next
  case False
  obtain k1 k2 where k: "insert_offsets xs r = (k1, k2)" by fastforce
  from False have nf: "\<not> full r" and c: "0 < capacity r" by auto
  define b1 where "b1 = take (tail r) (buf r) @ take k1 xs @ drop (tail r + k1) (buf r)"
  define b2 where "b2 = take k2 (drop k1 xs) @ drop k2 b1"
  have st: "iov_store (fst (write_vectored r)) (take k1 xs) (buf r) = Defined b1"
      "iov_store (snd (write_vectored r)) (take k2 (drop k1 xs)) b1 = Defined b2"
    using insert_stores [OF assms nf k] by (auto simp: b1_def b2_def)
  have w: "written (take (k1 + k2) xs) r b2"
    by (rule insert_written [OF assms c nf k b1_def b2_def])
  let ?r = "r\<lparr>buf := b2\<rparr>"
  have same: "capacity ?r = capacity r" "ring_size ?r = ring_size r" "ring_inv ?r"
    using w assms by (auto simp: written_def capacity_def ring_size_def ring_inv_def)
  have kk: "k1 + k2 = min (length xs) (capacity r - ring_size r)"
    by (rule insert_offsets_cases [OF assms nf k])
  obtain r' where r': "commit_write (k1 + k2) ?r = Defined r'" "ring_inv r'" "buf r' = b2" "head r' = head r"
      "ring_size r' = min (ring_size r + (k1 + k2)) (capacity r)"
    using commit_write_state [of ?r "k1 + k2"] same c by auto
  have "contents r' = contents r @ take (k1 + k2) xs"
    by (rule written_contents [OF w _ _ r'(3,4)])
      (use r'(5) kk ring_inv_facts(1) [OF assms] in auto)
  moreover have "take (k1 + k2) xs = take (capacity r - ring_size r) xs"
    by (simp add: kk min_def)
  moreover have "capacity r' = capacity r" using r'(3) w by (simp add: capacity_def written_def)
  ultimately show ?thesis
    using k st r' kk by (simp add: ring_insert_def Let_def)
qed

section \<open>Reading: segments, spans, iterators\<close>

lemma ring_size_nonempty:
  assumes "ring_inv r" and "\<not> ring_empty r"
  shows "ring_size r = (if head r < tail r then tail r - head r else capacity r - head r + tail r)"
proof (cases "full r")
  case True
  then have "head r = tail r" using assms(1) by (auto simp: ring_inv_def split: if_splits)
  with True ring_inv_le [OF assms(1)] show ?thesis by (simp add: ring_size_def)
next
  case False
  with assms(2) show ?thesis by (auto simp: ring_size_def ring_empty_def)
qed

lemma contents_segments:
  assumes "ring_inv r"
  shows "contents r = (if ring_empty r then []
     else if head r < tail r then take (tail r - head r) (drop (head r) (buf r))
     else drop (head r) (buf r) @ take (tail r) (buf r))"
proof (cases "ring_empty r")
  case True
  then show ?thesis using ring_inv_facts(5) [OF assms] by (simp add: contents_def)
next
  case False
  note f = ring_inv_facts [OF assms] and le = ring_inv_le [OF assms]
    and sz = ring_size_nonempty [OF assms False]
  have p: "slot r i = (if head r + i < capacity r then head r + i else head r + i - capacity r)"
    if "i < ring_size r" for i
    unfolding slot_def by (rule mod_once) (use f(1,2) that in auto)
  show ?thesis
  proof (cases "head r < tail r")
    case True
    have "contents r = take (tail r - head r) (drop (head r) (buf r))"
      by (rule nth_equalityI) (use True sz p le in \<open>auto simp: capacity_def\<close>)
    with True False show ?thesis by simp
  next
    case ge: False
    have "contents r = drop (head r) (buf r) @ take (tail r) (buf r)"
      by (rule nth_equalityI) (use ge sz p le in
          \<open>auto simp: capacity_def nth_append intro!: arg_cong [where f = "nth (buf r)"]\<close>)
    with ge False show ?thesis by simp
  qed
qed

lemma read_vectored_contents:
  assumes "ring_inv r"
  shows "iov_load (buf r) (fst (read_vectored r)) @ iov_load (buf r) (snd (read_vectored r)) = contents r"
  unfolding contents_segments [OF assms]
  by (simp add: read_vectored_def iov_load_def no_iovec_def capacity_def)

lemma data_contents:
  assumes "ring_inv r" and "contents r \<noteq> []"
  shows "fst (ring_data r) @ snd (ring_data r) = contents r"
proof -
  have "\<not> ring_empty r" using assms ring_inv_facts(5) [OF assms(1)] by (auto simp: contents_def)
  then show ?thesis unfolding contents_segments [OF assms(1)] by (simp add: ring_data_def)
qed

lemma data_at_contents:
  assumes "ring_inv r" and "i < ring_size r"
  shows "data_at i r = Defined (contents r ! i)"
proof -
  note f = ring_inv_facts [OF assms(1)]
  have c: "0 < capacity r" "capacity r < 2 ^ 63" using f(1) assms by (auto simp: ring_inv_def)
  then have "uadd64 (head r) i = head r + i" using f assms(2) by (intro uadd64_small) auto
  with c assms show ?thesis by (simp add: data_at_def slot_def)
qed

lemma ring_size_bound: "ring_inv r \<Longrightarrow> ring_size r < 2 ^ 63"
  by (rule order_le_less_trans [OF ring_inv_facts(1)]) (auto simp: ring_inv_def)

lemma unat_iter: "i < 2 ^ 64 \<Longrightarrow> unat (word_of_nat i :: iter) = i"
  by (simp add: unat_of_nat)

lemma iter_eq: "i < 2 ^ 64 \<Longrightarrow> j < 2 ^ 64 \<Longrightarrow> (word_of_nat i :: iter) = word_of_nat j \<longleftrightarrow> i = j"
  by (metis unat_iter)

lemma it_collect_drop:
  assumes "ring_inv r" and "i \<le> ring_size r"
  shows "it_collect (ring_size r - i) r (word_of_nat i) = Some (Defined (drop i (contents r)))"
  using assms(2)
proof (induction "ring_size r - i" arbitrary: i)
  case 0
  then show ?case by (simp add: it_collect.simps it_end_def)
next
  case (Suc k)
  have b: "ring_size r < 2 ^ 64" "i < 2 ^ 64" using ring_size_bound [OF assms(1)] Suc.prems by auto
  have i: "i < ring_size r" "ring_size r - i = Suc k" using Suc.hyps(2) by auto
  have k: "k = ring_size r - Suc i" "Suc i \<le> ring_size r" using i by auto
  have "it_collect k r (word_of_nat (Suc i)) = Some (Defined (drop (Suc i) (contents r)))"
    using Suc.hyps(1) [OF k] k(1) by simp
  moreover have "it_inc (word_of_nat i) = word_of_nat (Suc i)" by (simp add: it_inc_def)
  moreover have "it_deref r (word_of_nat i) = Defined (contents r ! i)"
    using data_at_contents [OF assms(1) i(1)] unat_iter [OF b(2)] by (simp add: it_deref_def)
  moreover have "(word_of_nat i :: iter) \<noteq> it_end r"
    using iter_eq [OF b(2,1)] i(1) by (simp add: it_end_def)
  ultimately show ?case
    unfolding i(2) using i(1) by (subst it_collect.simps) (simp add: Cons_nth_drop_Suc del: contents_nth)
qed

section \<open>The interface of a bounded queue\<close>

abbreviation ring_room :: "'a ring \<Rightarrow> nat" where
  "ring_room r \<equiv> capacity r - ring_size r"

abbreviation ring_segs :: "'a ring \<Rightarrow> 'a list" where
  "ring_segs r \<equiv> iov_load (buf r) (fst (read_vectored r)) @ iov_load (buf r) (snd (read_vectored r))"

interpretation rb: bounded_fifo "\<lambda>k r. ring_inv r \<and> 0 < capacity r" contents
  ring_insert ring_segs commit_read ring_room
proof
  fix r r' :: "'a ring" and k
  assume "ring_inv r \<and> 0 < capacity r"
  then have r: "ring_inv r" "0 < capacity r" by auto
  show "ring_segs r = contents r" by (rule read_vectored_contents [OF r(1)])
  show "\<exists>n r'. ring_insert xs r = Defined (n, r') \<and> (ring_inv r' \<and> 0 < capacity r')
        \<and> contents r' = contents r @ take n xs" for xs
    using ring_insert_contents [OF r(1), of xs] r(2) by (auto simp: min_def)
  show "\<exists>r'. commit_read n r = Defined r' \<and> (ring_inv r' \<and> 0 < capacity r') \<and> contents r' = drop n (contents r)" for n
    using commit_read_contents [OF r, of n] r(2) by auto
  show "n = min (length xs) (ring_room r) \<and> ring_room r' = ring_room r - length xs"
    if "ring_insert xs r = Defined (n, r')" for xs n
  proof -
    have "n = min (length xs) (ring_room r)" "capacity r' = capacity r"
        "contents r' = contents r @ take (ring_room r) xs"
      using ring_insert_contents [OF r(1), of xs] that by auto
    moreover from arg_cong [OF this(3), of length]
    have "ring_size r' = ring_size r + min (length xs) (ring_room r)" by simp
    ultimately show ?thesis by auto
  qed
  show "ring_room r' = ring_room r + min n (length (contents r))" if "commit_read n r = Defined r'" for n
  proof -
    have "capacity r' = capacity r" "contents r' = drop n (contents r)"
      using commit_read_contents [OF r, of n] that by auto
    moreover from arg_cong [OF this(2), of length] have "ring_size r' = ring_size r - n" by simp
    ultimately show ?thesis using ring_inv_facts(1) [OF r(1)] by auto
  qed
qed

end
