(* ===== verification/Ring_Properties.thy ===== *)
theory Ring_Properties
  imports Ring_Buffer
begin

text \<open>
  The properties of \<open>RingBuffer\<close>, and the two extraction operations, which break its invariant.
\<close>

abbreviation wrapped_ring :: "nat ring" where
  "wrapped_ring \<equiv> \<lparr>buf = [20, 30, 0, 10], head = 3, tail = 2, full = False\<rparr>"

lemma wrapped_ring_facts:
  "ring_inv wrapped_ring" "0 < capacity wrapped_ring" "capacity wrapped_ring = 4" "ring_size wrapped_ring = 3"
  "contents wrapped_ring = [10, 20, 30]"
  by (simp_all add: ring_inv_def capacity_def ring_size_def contents_def slot_def upt_rec)

section \<open>The buffer is a queue\<close>

text \<open>
  C4. The buffer is a queue: over any history of inserts and sends (each send exposes the read
  segments and then commits \<open>n\<close> elements), no call goes out of bounds, and what was sent,
  followed by what is still stored, is what was stored followed by what the inserts took.
\<close>

theorem ring_fifo:
  assumes "ring_inv r" and "0 < capacity r"
  shows "\<exists>sent taken r'. fifo_run ring_insert ring_segs commit_read ops r = Defined (sent, taken, r')
      \<and> ring_inv r' \<and> contents r @ taken = sent @ contents r'
      \<and> ring_size r' + (capacity r' - ring_size r') = capacity r"
proof -
  obtain sent taken r' where R: "fifo_run ring_insert ring_segs commit_read ops r = Defined (sent, taken, r')"
      "ring_inv r'" "contents r @ taken = sent @ contents r'"
    using rb.run_fifo [of r ops] assms by blast
  moreover have "ring_size r' + (capacity r' - ring_size r') = capacity r"
    using rb.run_room [OF _ R(1)] assms ring_inv_facts(1) [OF assms(1)] by simp
  ultimately show ?thesis by blast
qed

theorem ring_fifo_witness:
  "\<exists>sent taken r'. fifo_run ring_insert ring_segs commit_read [Send 2, Write [40, 50, 60, 70], Send 9] wrapped_ring
        = Defined (sent, taken, r')
      \<and> ring_inv r' \<and> contents wrapped_ring @ taken = sent @ contents r'
      \<and> ring_size r' + (capacity r' - ring_size r') = capacity wrapped_ring"
  by (rule ring_fifo [OF wrapped_ring_facts(1,2)])

text \<open>
  \<open>push_back\<close> appends one element; on a full buffer it changes nothing and reports
  \<open>no_buffer_space\<close>.
\<close>

lemma push_back_refines:
  assumes "ring_inv r" and "0 < capacity r"
  shows "\<exists>r'. push_back x r = Defined (ring_size r < capacity r,
              if ring_size r < capacity r then None else Some no_buffer_space, r')
            \<and> ring_inv r' \<and> capacity r' = capacity r
            \<and> contents r' = (if ring_size r < capacity r then contents r @ [x] else contents r)"
proof -
  have "\<not> full r \<longleftrightarrow> ring_size r < capacity r"
    using ring_inv_facts(1,4) [OF assms(1)] assms(2) by auto
  with push_back_contents [OF assms, of x] show ?thesis by auto
qed

section \<open>Segments and iterators\<close>

definition iov_slots :: "iovec \<Rightarrow> nat set" where
  "iov_slots v = (case iov_base v of None \<Rightarrow> {} | Some b \<Rightarrow> {b..<b + iov_len v})"

abbreviation used_slots :: "'a ring \<Rightarrow> nat set" where
  "used_slots r \<equiv> slot r ` {..<ring_size r}"

lemma used_slots_not_full:
  assumes "ring_inv r" and "\<not> full r" and "0 < capacity r"
  shows "used_slots r = (if head r \<le> tail r then {head r..<tail r} else {head r..<capacity r} \<union> {..<tail r})"
proof -
  note f = ring_inv_facts [OF assms(1)] and le = ring_inv_le [OF assms(1)]
  have p: "slot r i = (if head r + i < capacity r then head r + i else head r + i - capacity r)"
    if "i < ring_size r" for i
    unfolding slot_def by (rule mod_once) (use f(1,2) that in auto)
  show ?thesis
  proof (cases "head r \<le> tail r")
    case True
    then have sz: "ring_size r = tail r - head r" using assms(2) by (simp add: ring_size_not_full)
    have "slot r ` {..<ring_size r} = (\<lambda>i. head r + i) ` {..<ring_size r}"
      by (rule image_cong [OF refl]) (use p sz True le in auto)
    also have "\<dots> = {head r..<tail r}"
      using True image_add_atLeastLessThan [of "head r" 0 "tail r - head r"]
      by (simp add: sz lessThan_atLeast0)
    finally show ?thesis using True by simp
  next
    case False
    then have sz: "ring_size r = capacity r - head r + tail r" using assms(2) by (simp add: ring_size_not_full)
    have hi: "q \<in> used_slots r" if "head r \<le> q" "q < capacity r" for q
      using p [of "q - head r"] that sz by (intro image_eqI [of _ _ "q - head r"]) auto
    have lo: "q \<in> used_slots r" if "q < tail r" for q
    proof (rule image_eqI)
      show "capacity r - head r + q \<in> {..<ring_size r}" using that sz by simp
      then show "q = slot r (capacity r - head r + q)" using p that le False by auto
    qed
    have "used_slots r \<subseteq> {head r..<capacity r} \<union> {..<tail r}"
      using p sz le False by (auto split: if_splits)
    moreover have "{head r..<capacity r} \<union> {..<tail r} \<subseteq> used_slots r" using hi lo by fastforce
    ultimately have "used_slots r = {head r..<capacity r} \<union> {..<tail r}" by (rule equalityI)
    with False show ?thesis by simp
  qed
qed

text \<open>
  The segments of \<open>write_vectored\<close> are exactly the free slots: their lengths add up to the
  room, they lie inside the buffer, and they contain no slot of a stored element. So data that
  \<open>readv\<close> puts there never overwrites unread data.
\<close>

lemma write_vectored_free:
  assumes "ring_inv r" and "0 < capacity r" and "write_vectored r = (v1, v2)"
  shows "iov_slots v1 \<union> iov_slots v2 = {..<capacity r} - used_slots r
       \<and> iov_len v1 + iov_len v2 = capacity r - ring_size r"
proof (cases "full r")
  case True
  note f = ring_inv_facts [OF assms(1)]
  have "inj_on (slot r) {..<capacity r}"
    using slot_inj [OF f(2) [OF assms(2)]] by (auto simp: inj_on_def)
  then have "slot r ` {..<capacity r} = {..<capacity r}"
    by (rule endo_inj_surj [rotated 2]) (use slot_bound [OF assms(2)] in auto)
  with True f(4) assms(3) show ?thesis by (auto simp: write_vectored_def no_iovec_def iov_slots_def)
next
  case False
  note le = ring_inv_le [OF assms(1)] and u = used_slots_not_full [OF assms(1) False assms(2)]
  show ?thesis
  proof (cases "head r \<le> tail r")
    case True
    then have "v1 = \<lparr>iov_base = Some (tail r), iov_len = capacity r - tail r\<rparr>"
        "v2 = (if head r > 0 then \<lparr>iov_base = Some 0, iov_len = head r\<rparr> else no_iovec)"
      using assms(3) False by (simp_all add: write_vectored_def)
    with True u le False show ?thesis
      by (auto simp: iov_slots_def no_iovec_def ring_size_not_full)
  next
    case lt: False
    then have "v1 = \<lparr>iov_base = Some (tail r), iov_len = head r - tail r\<rparr>" "v2 = no_iovec"
      using assms(3) False by (simp_all add: write_vectored_def)
    with lt u le False show ?thesis
      by (auto simp: iov_slots_def no_iovec_def ring_size_not_full)
  qed
qed

text \<open>
  The segments of \<open>read_vectored\<close>, and on a non-empty buffer the spans of \<open>data\<close>, are the
  contents in order.
\<close>

lemma read_segments:
  assumes "ring_inv r"
  shows "iov_load (buf r) (fst (read_vectored r)) @ iov_load (buf r) (snd (read_vectored r)) = contents r
     \<and> (contents r \<noteq> [] \<longrightarrow> fst (ring_data r) @ snd (ring_data r) = contents r)"
  using read_vectored_contents [OF assms] data_contents [OF assms] by blast

text \<open>
  C18. Iterating from \<open>begin\<close> to \<open>end\<close> ends after \<open>size\<close> steps and visits the contents in order;
  \<open>end - begin\<close> is the size, and \<open>begin[i]\<close> is the element \<open>i\<close>.
\<close>

theorem iteration_visits_contents:
  assumes "ring_inv r"
  shows "it_collect (ring_size r) r (it_begin r) = Some (Defined (contents r))
     \<and> it_diff (it_end r) (it_begin r) = int (ring_size r)
     \<and> (\<forall>i < ring_size r. it_index r (it_begin r) (int i) = Defined (contents r ! i))"
proof (intro conjI allI impI)
  show "it_collect (ring_size r) r (it_begin r) = Some (Defined (contents r))"
    using it_collect_drop [OF assms, of 0] by (simp add: it_begin_def)
  have b: "ring_size r < 2 ^ 63" by (rule ring_size_bound [OF assms])
  show "it_diff (it_end r) (it_begin r) = int (ring_size r)"
    using signed_take_bit_int_eq_self [of 63 "int (ring_size r)"] b
    by (simp add: it_diff_def it_end_def it_begin_def signed_of_nat)
  fix i assume i: "i < ring_size r"
  with b have "unat (word_of_nat i :: iter) = i" by (intro unat_iter) simp
  with data_at_contents [OF assms i] show "it_index r (it_begin r) (int i) = Defined (contents r ! i)"
    by (simp add: it_index_def it_add_def it_deref_def it_begin_def)
qed

theorem iteration_visits_contents_witness:
  "it_collect 3 wrapped_ring (it_begin wrapped_ring) = Some (Defined [10, 20, 30])
     \<and> it_diff (it_end wrapped_ring) (it_begin wrapped_ring) = 3
     \<and> it_index wrapped_ring (it_begin wrapped_ring) 2 = Defined 30"
proof -
  note w = iteration_visits_contents [OF wrapped_ring_facts(1), unfolded wrapped_ring_facts(4,5)]
  then have "\<forall>i < 3. it_index wrapped_ring (it_begin wrapped_ring) (int i) = Defined ([10, 20, 30] ! i)" by blast
  from this [rule_format, of 2] w show ?thesis by simp
qed

text \<open>
  Random access: \<open>+ n\<close> and \<open>- n\<close> are inverse and the difference is \<open>n\<close>, for every
  \<open>ptrdiff_t\<close> \<open>n\<close>, through the wrap-around of the index; \<open>+ 1\<close> and \<open>- 1\<close> are the increment and
  the decrement, and the comparisons agree with each other.
\<close>

lemma iterator_random_access:
  assumes "- (2 ^ 63) \<le> n" and "n < 2 ^ 63"
  shows "it_diff (it_add it n) it = n \<and> it_sub (it_add it n) n = it
     \<and> it_add it 1 = it_inc it \<and> it_dec (it_inc it) = it
     \<and> it_post_inc it = (it, it_add it 1) \<and> it_post_dec it = (it, it_sub it 1)
     \<and> (it_le it other \<longleftrightarrow> it_less it other \<or> it_eq it other)
     \<and> (it_ge it other \<longleftrightarrow> \<not> it_less it other) \<and> (it_greater it other \<longleftrightarrow> it_less other it)"
  using signed_take_bit_int_eq_self [of 63 n] assms
  by (simp add: it_diff_def it_add_def it_sub_def it_inc_def it_dec_def signed_of_int
      it_post_inc_def it_post_dec_def it_le_def it_less_def it_eq_def it_ge_def it_greater_def le_less not_less)

section \<open>The extraction operations\<close>

text \<open>
  \<open>extract_front\<close> sets the head to 0 instead of moving it on: after one extraction from a
  two-element buffer that starts at slot 1 three elements seem to be stored, and of a full buffer
  the flag stays set, so that the invariant is lost.
\<close>

lemma extract_front_resets_head:
  "map_access (\<lambda>(ok, x, r). (x, contents r)) (extract_front 0 \<lparr>buf = [7, 10, 20, 9], head = 1, tail = 3, full = False\<rparr>)
     = Defined (10, [7, 0, 20 :: nat])"
  "map_access (\<lambda>(ok, x, r). ring_inv r) (extract_front 0 \<lparr>buf = [20, 10 :: nat], head = 1, tail = 1, full = True\<rparr>)
     = Defined False"
  by (simp_all add: extract_front_def ring_empty_def contents_def ring_size_def slot_def capacity_def
      ring_inv_def upt_rec)

text \<open>
  \<open>extract_back\<close> with the tail at slot 0 indexes outside the buffer; and from a full buffer it
  leaves the flag set.
\<close>

lemma extract_back_out_of_bounds:
  "extract_back 0 \<lparr>buf = [10, 20 :: nat], head = 0, tail = 0, full = True\<rparr> = OutOfBounds"
  "map_access (\<lambda>(ok, x, r). ring_inv r) (extract_back 0 \<lparr>buf = [20, 10 :: nat], head = 1, tail = 1, full = True\<rparr>)
     = Defined False"
  by (simp_all add: extract_back_def ring_empty_def usub64_def ring_inv_def capacity_def)

text \<open>\<open>data\<close> of an empty buffer is the whole array, twice.\<close>

lemma data_of_empty: "ring_data (RingBuffer d n) = (replicate n d, replicate n d)"
  by (simp add: ring_data_def RingBuffer_def set_capacity_def ring_empty_def)

end
