(* ===== verification/Vectorized_Buffer.thy ===== *)
theory Vectorized_Buffer
  imports Fifo Serialization_Correct
begin

text \<open>
  \<open>VectorizedBuffer\<close> (\<open>include/OsterLib/network/buffers/vectorized_buffer.h\<close> and
  \<open>src/network/buffers/vectorized_buffer.cpp\<close>): a deque of byte vectors and, in parallel, the
  \<open>iovec\<close>s that point into them. A vector is named by the address of its storage, an \<open>iovec\<close> by
  that address, an offset and a length, so that a dangling \<open>iovec\<close> is a state of the model. The
  allocator hands out addresses that are not in use: here the next unused number.
\<close>

section \<open>State and operations\<close>

record viov =
  v_addr :: nat
  v_off :: nat
  v_len :: nat

record vecbuf =
  vbuf :: "viov list"
  bufs :: "(nat \<times> byte list) list"
  active_el :: nat
  next_addr :: nat

definition VectorizedBuffer :: vecbuf where
  "VectorizedBuffer = \<lparr>vbuf = [], bufs = [], active_el = 0, next_addr = 0\<rparr>"

text \<open>\<open>native()\<close> and \<open>data()\<close>.\<close>

definition native_iovecs :: "vecbuf \<Rightarrow> viov list" where
  "native_iovecs b = vbuf b"

definition vec_data :: "vecbuf \<Rightarrow> byte list list" where
  "vec_data b = map snd (bufs b)"

definition push_buffer :: "byte list \<Rightarrow> vecbuf \<Rightarrow> vecbuf" where
  "push_buffer buffer b =
     (if buffer = [] then b
      else b\<lparr>bufs := bufs b @ [(next_addr b, buffer)],
             vbuf := vbuf b @ [\<lparr>v_addr = next_addr b, v_off = 0, v_len = length buffer\<rparr>],
             next_addr := Suc (next_addr b)\<rparr>)"

definition vec_serialize :: "host \<Rightarrow> ty \<Rightarrow> val \<Rightarrow> vecbuf \<Rightarrow> SerializationEC \<times> vecbuf" where
  "vec_serialize h t value b =
     (case serialize_network h t value [] of
        (ser_res, buffer) \<Rightarrow>
          if ser_res \<noteq> NONE then (ser_res, b) else (ser_res, push_buffer buffer b))"

text \<open>Several values go into one vector; the fold over \<open>&&\<close> stops at the first error.\<close>

definition vec_serialize_all :: "host \<Rightarrow> (ty \<times> val) list \<Rightarrow> vecbuf \<Rightarrow> SerializationEC \<times> vecbuf" where
  "vec_serialize_all h values b =
     (case serialize_all (map (\<lambda>(t, v). serialize_network h t v) values) [] of
        (err, buffer) \<Rightarrow> if err \<noteq> NONE then (err, b) else (err, push_buffer buffer b))"

definition clear_buffer :: "vecbuf \<Rightarrow> vecbuf" where
  "clear_buffer b = b\<lparr>vbuf := [], bufs := [], active_el := 0\<rparr>"

text \<open>A pointer to the first active \<open>iovec\<close> (its index) and the number of active ones.\<close>

definition remaining :: "vecbuf \<Rightarrow> nat option \<times> nat" where
  "remaining b =
     (if active_el b \<ge> length (vbuf b) then (None, 0)
      else (Some (active_el b), usub64 (length (bufs b)) (active_el b)))"

text \<open>The loop of \<open>consume\<close>; \<open>active_el_\<close> has 32 bits.\<close>

fun consume_loop :: "nat \<Rightarrow> nat \<Rightarrow> vecbuf \<Rightarrow> vecbuf option" where
  "consume_loop fuel bytes_sent b =
     (if bytes_sent > 0 \<and> active_el b < length (vbuf b)
      then case fuel of
             0 \<Rightarrow> None
           | Suc k \<Rightarrow>
               (let current = vbuf b ! active_el b
                in if bytes_sent \<ge> v_len current
                   then consume_loop k (bytes_sent - v_len current)
                          (b\<lparr>active_el := (active_el b + 1) mod 2 ^ 32\<rparr>)
                   else consume_loop k 0
                          (b\<lparr>vbuf := (vbuf b)[active_el b :=
                               current\<lparr>v_off := v_off current + bytes_sent,
                                       v_len := v_len current - bytes_sent\<rparr>]\<rparr>))
      else Some b)"

declare consume_loop.simps [simp del]

text \<open>Every round uses up an \<open>iovec\<close> or ends the loop: the number of \<open>iovec\<close>s is enough fuel.\<close>

definition consume :: "nat \<Rightarrow> vecbuf \<Rightarrow> vecbuf option" where
  "consume bytes_sent b = consume_loop (Suc (length (vbuf b))) bytes_sent b"

definition compact :: "vecbuf \<Rightarrow> vecbuf" where
  "compact b =
     (if active_el b > 0
      then b\<lparr>vbuf := drop (active_el b) (vbuf b), bufs := drop (active_el b) (bufs b), active_el := 0\<rparr>
      else b)"

definition has_to_write :: "vecbuf \<Rightarrow> bool" where
  "has_to_write b \<longleftrightarrow> active_el b < length (vbuf b)"

definition vec_empty :: "vecbuf \<Rightarrow> bool" where
  "vec_empty b \<longleftrightarrow> bufs b = []"

section \<open>What the kernel reads through the \<open>iovec\<close>s\<close>

definition iov_bytes :: "(nat \<times> byte list) list \<Rightarrow> viov \<Rightarrow> byte list access" where
  "iov_bytes store v = (case map_of store (v_addr v) of
     None \<Rightarrow> OutOfBounds
   | Some bytes \<Rightarrow> if v_off v + v_len v \<le> length bytes
                   then Defined (take (v_len v) (drop (v_off v) bytes)) else OutOfBounds)"

fun gather :: "(nat \<times> byte list) list \<Rightarrow> viov list \<Rightarrow> byte list access" where
  "gather store [] = Defined []"
| "gather store (v # vs) =
     (case iov_bytes store v of
        OutOfBounds \<Rightarrow> OutOfBounds
      | Defined xs \<Rightarrow>
          (case gather store vs of OutOfBounds \<Rightarrow> OutOfBounds | Defined ys \<Rightarrow> Defined (xs @ ys)))"

text \<open>\<open>writev\<close> on the result of \<open>remaining\<close>: the bytes it can send.\<close>

definition vec_gather :: "vecbuf \<Rightarrow> byte list access" where
  "vec_gather b = (case remaining b of
     (None, n) \<Rightarrow> Defined []
   | (Some i, n) \<Rightarrow> gather (bufs b) (take n (drop i (native_iovecs b))))"

section \<open>Invariant and abstraction\<close>

text \<open>
  Each \<open>iovec\<close> is a non-empty suffix of the vector at the same place; the unsent bytes are the
  suffixes of the active ones.
\<close>

definition points :: "viov \<Rightarrow> nat \<times> byte list \<Rightarrow> bool" where
  "points v p \<longleftrightarrow> v_addr v = fst p \<and> v_off v + v_len v = length (snd p) \<and> 0 < v_len v"

definition vec_inv :: "vecbuf \<Rightarrow> bool" where
  "vec_inv b \<longleftrightarrow> list_all2 points (vbuf b) (bufs b) \<and> active_el b \<le> length (vbuf b)
     \<and> distinct (map fst (bufs b)) \<and> (\<forall>p \<in> set (bufs b). fst p < next_addr b)"

definition unsent :: "vecbuf \<Rightarrow> byte list" where
  "unsent b = concat (map2 (\<lambda>v p. drop (v_off v) (snd p))
     (drop (active_el b) (vbuf b)) (drop (active_el b) (bufs b)))"

lemma vec_inv_lengths: "vec_inv b \<Longrightarrow> length (bufs b) = length (vbuf b) \<and> active_el b \<le> length (vbuf b)"
  by (auto simp: vec_inv_def list_all2_lengthD)

lemma unsent_active:
  assumes "vec_inv b" and "active_el b < length (vbuf b)"
  shows "unsent b = drop (v_off (vbuf b ! active_el b)) (snd (bufs b ! active_el b))
     @ unsent (b\<lparr>active_el := Suc (active_el b)\<rparr>)"
    and "points (vbuf b ! active_el b) (bufs b ! active_el b)"
  using assms vec_inv_lengths [OF assms(1)]
  by (auto simp: unsent_def take_drop_nth vec_inv_def list_all2_conv_all_nth)

lemma has_to_write_unsent:
  assumes "vec_inv b"
  shows "has_to_write b \<longleftrightarrow> unsent b \<noteq> []"
proof (cases "active_el b < length (vbuf b)")
  case True
  from unsent_active [OF assms this] show ?thesis using True by (auto simp: has_to_write_def points_def)
next
  case False
  then show ?thesis by (simp add: has_to_write_def unsent_def)
qed

lemma push_buffer_unsent:
  assumes "vec_inv b"
  shows "vec_inv (push_buffer xs b) \<and> unsent (push_buffer xs b) = unsent b @ xs
     \<and> length (vbuf (push_buffer xs b)) \<le> Suc (length (vbuf b))"
proof (cases "xs = []")
  case True
  then show ?thesis using assms by (simp add: push_buffer_def)
next
  case False
  let ?v = "\<lparr>v_addr = next_addr b, v_off = 0, v_len = length xs\<rparr>"
  note l = vec_inv_lengths [OF assms]
  have "vec_inv (push_buffer xs b)"
    using assms False by (auto simp: vec_inv_def push_buffer_def points_def list_all2_appendI less_Suc_eq)
  moreover have "unsent (push_buffer xs b) = unsent b @ xs"
    using l False by (simp add: unsent_def push_buffer_def)
  ultimately show ?thesis using False by (simp add: push_buffer_def)
qed

lemma clear_buffer_unsent: "vec_inv (clear_buffer b)" "unsent (clear_buffer b) = []"
  by (simp_all add: vec_inv_def clear_buffer_def unsent_def)

lemma compact_unsent:
  assumes "vec_inv b"
  shows "vec_inv (compact b) \<and> unsent (compact b) = unsent b \<and> active_el (compact b) = 0
     \<and> length (vbuf (compact b)) \<le> length (vbuf b)"
  using assms by (auto simp: vec_inv_def compact_def unsent_def list_all2_dropI drop_map [symmetric]
      dest: in_set_dropD)

lemma partial_step:
  assumes "vec_inv b" and "active_el b < length (vbuf b)" and "n < v_len (vbuf b ! active_el b)"
    and "c = vbuf b ! active_el b"
    and "b' = b\<lparr>vbuf := (vbuf b)[active_el b := c\<lparr>v_off := v_off c + n, v_len := v_len c - n\<rparr>]\<rparr>"
  shows "vec_inv b' \<and> unsent b' = drop n (unsent b)"
proof -
  note a = unsent_active [OF assms(1,2)]
  have p: "points (c\<lparr>v_off := v_off c + n, v_len := v_len c - n\<rparr>) (bufs b ! active_el b)"
    using a(2) assms(3,4) by (auto simp: points_def)
  then have inv: "vec_inv b'"
    using assms(1,2,5) by (auto simp: vec_inv_def list_all2_conv_all_nth nth_list_update)
  have "unsent (b'\<lparr>active_el := Suc (active_el b)\<rparr>) = unsent (b\<lparr>active_el := Suc (active_el b)\<rparr>)"
    using assms(5) by (simp add: unsent_def)
  then show ?thesis
    using inv unsent_active(1) [OF inv] a assms(2-5)
    by (simp add: points_def add.commute)
qed

lemma consume_loop_ok:
  "vec_inv b \<Longrightarrow> length (vbuf b) < 2 ^ 32 \<Longrightarrow> length (vbuf b) - active_el b < fuel \<Longrightarrow>
   \<exists>b'. consume_loop fuel n b = Some b' \<and> vec_inv b' \<and> unsent b' = drop n (unsent b)
      \<and> length (vbuf b') = length (vbuf b) \<and> bufs b' = bufs b"
proof (induction fuel arbitrary: n b)
  case 0
  then show ?case by simp
next
  case (Suc k)
  let ?c = "vbuf b ! active_el b"
  show ?case
  proof (cases "n > 0 \<and> active_el b < length (vbuf b)")
    case stop: False
    then have "unsent b = drop n (unsent b)"
      using has_to_write_unsent [OF Suc.prems(1)] by (auto simp: has_to_write_def)
    with stop Suc.prems(1) show ?thesis by (auto simp: consume_loop.simps)
  next
    case True
    note a = unsent_active [OF Suc.prems(1) conjunct2 [OF True]]
    show ?thesis
    proof (cases "v_len ?c \<le> n")
      case whole: True
      let ?b = "b\<lparr>active_el := Suc (active_el b)\<rparr>"
      have fuel: "length (vbuf b) - Suc (active_el b) < k" using Suc.prems(3) True by linarith
      have "vec_inv ?b" using Suc.prems(1) True by (simp add: vec_inv_def)
      then obtain b' where b': "consume_loop k (n - v_len ?c) ?b = Some b'" "vec_inv b'"
          "unsent b' = drop (n - v_len ?c) (unsent ?b)" "length (vbuf b') = length (vbuf ?b)" "bufs b' = bufs ?b"
        using Suc.IH [of ?b "n - v_len ?c"] Suc.prems(2) fuel by auto
      have "Suc (active_el b) mod 2 ^ 32 = Suc (active_el b)" using Suc.prems(2) True by simp
      then have "consume_loop (Suc k) n b = consume_loop k (n - v_len ?c) ?b"
        using True whole by (subst consume_loop.simps) (simp add: Let_def)
      moreover have "drop n (unsent b) = drop (n - v_len ?c) (unsent ?b)"
      proof -
        have "length (drop (v_off ?c) (snd (bufs b ! active_el b))) = v_len ?c"
          using a(2) by (auto simp: points_def)
        then show ?thesis unfolding a(1) drop_append using whole by (simp only: drop_all append_Nil)
      qed
      ultimately show ?thesis using b' by auto
    next
      case part: False
      let ?b = "b\<lparr>vbuf := (vbuf b)[active_el b := ?c\<lparr>v_off := v_off ?c + n, v_len := v_len ?c - n\<rparr>]\<rparr>"
      have "consume_loop (Suc k) n b = Some ?b"
        using True part by (subst consume_loop.simps) (simp add: Let_def consume_loop.simps)
      moreover have "vec_inv ?b \<and> unsent ?b = drop n (unsent b)"
        by (rule partial_step [OF Suc.prems(1) _ _ refl refl]) (use True part in auto)
      ultimately show ?thesis by simp
    qed
  qed
qed

lemma consume_unsent:
  assumes "vec_inv b" and "length (vbuf b) < 2 ^ 32"
  shows "\<exists>b'. consume n b = Some b' \<and> vec_inv b' \<and> unsent b' = drop n (unsent b)
            \<and> length (vbuf b') = length (vbuf b) \<and> bufs b' = bufs b"
  unfolding consume_def by (rule consume_loop_ok) (use assms in auto)

lemma gather_points:
  assumes "list_all2 points vs ps" and "\<And>p. p \<in> set ps \<Longrightarrow> map_of store (fst p) = Some (snd p)"
  shows "gather store vs = Defined (concat (map2 (\<lambda>v p. drop (v_off v) (snd p)) vs ps))"
  using assms by (induction rule: list_all2_induct) (auto simp: points_def iov_bytes_def)

lemma vec_gather_unsent:
  assumes "vec_inv b" and "length (vbuf b) < 2 ^ 32"
  shows "vec_gather b = Defined (unsent b)"
proof (cases "active_el b < length (vbuf b)")
  case True
  note l = vec_inv_lengths [OF assms(1)]
  have "usub64 (length (bufs b)) (active_el b) = length (bufs b) - active_el b"
    by (rule usub64_le) (use l assms(2) in auto)
  moreover have "map_of (bufs b) (fst p) = Some (snd p)" if "p \<in> set (drop (active_el b) (bufs b))" for p
    using that assms(1) by (auto simp: vec_inv_def map_of_eq_Some_iff dest: in_set_dropD)
  ultimately show ?thesis
    using gather_points [of "drop (active_el b) (vbuf b)" "drop (active_el b) (bufs b)" "bufs b"] True l assms(1)
    by (simp add: vec_gather_def remaining_def native_iovecs_def unsent_def vec_inv_def list_all2_dropI)
next
  case False
  then show ?thesis by (simp add: vec_gather_def remaining_def unsent_def)
qed

section \<open>The buffer as a queue\<close>

text \<open>One send: \<open>consume\<close> what the kernel has taken, then \<open>compact\<close>.\<close>

definition vec_sent :: "nat \<Rightarrow> vecbuf \<Rightarrow> vecbuf access" where
  "vec_sent n b = (case consume n b of None \<Rightarrow> OutOfBounds | Some b' \<Rightarrow> Defined (compact b'))"

abbreviation vec_insert :: "byte list \<Rightarrow> vecbuf \<Rightarrow> (nat \<times> vecbuf) access" where
  "vec_insert xs b \<equiv> Defined (length xs, push_buffer xs b)"

abbreviation vec_segs :: "vecbuf \<Rightarrow> byte list" where
  "vec_segs b \<equiv> (case vec_gather b of Defined xs \<Rightarrow> xs | OutOfBounds \<Rightarrow> [])"

lemma vec_sent_unsent:
  assumes "vec_inv b" and "length (vbuf b) < 2 ^ 32"
  shows "\<exists>b'. vec_sent n b = Defined b' \<and> vec_inv b' \<and> unsent b' = drop n (unsent b)
            \<and> length (vbuf b') \<le> length (vbuf b)"
proof -
  obtain b1 where b1: "consume n b = Some b1" "vec_inv b1" "unsent b1 = drop n (unsent b)"
      "length (vbuf b1) = length (vbuf b)"
    using consume_unsent [OF assms] by blast
  with compact_unsent [OF b1(2)] show ?thesis by (simp add: vec_sent_def)
qed

interpretation vb: fifo_queue "\<lambda>k b. vec_inv b \<and> length (vbuf b) + k < 2 ^ 32" unsent
  vec_insert vec_segs vec_sent
proof
  fix b k assume "vec_inv b \<and> length (vbuf b) + k < 2 ^ 32"
  then show "vec_segs b = unsent b" using vec_gather_unsent [of b] by simp
next
  fix b k xs n assume "vec_inv b \<and> length (vbuf b) + Suc k < 2 ^ 32"
  then have b: "vec_inv b" "length (vbuf b) < 2 ^ 32" "length (vbuf b) + Suc k < 2 ^ 32" by auto
  show "\<exists>n b'. vec_insert xs b = Defined (n, b') \<and> (vec_inv b' \<and> length (vbuf b') + k < 2 ^ 32)
      \<and> unsent b' = unsent b @ take n xs"
    using push_buffer_unsent [OF b(1), of xs] b(3) by auto
  show "\<exists>b'. vec_sent n b = Defined b' \<and> (vec_inv b' \<and> length (vbuf b') + k < 2 ^ 32)
      \<and> unsent b' = drop n (unsent b)"
    using vec_sent_unsent [OF b(1,2), of n] b(3) by fastforce
qed

end
