(* ===== verification/Socket_Transfer.thy ===== *)
theory Socket_Transfer
  imports Ring_Buffer Vectorized_Buffer
begin

text \<open>
  The functions that move bytes between a buffer and a socket: \<open>send_vectorized\<close> for both
  buffers (\<open>src/network/send.cpp\<close>) and \<open>receive_to_ring_buffer\<close> (\<open>src/network/receive.cpp\<close>),
  with \<open>send\<close> and \<open>receive\<close> of \<open>send.h\<close> and \<open>receive.h\<close>. The system calls are parameters: \<open>writev\<close>
  is given the bytes its segments refer to and answers how many it has taken or fails with an
  \<open>errno\<close>; \<open>readv\<close> is given the room and answers with bytes. The socket itself does not appear.
\<close>

section \<open>System calls\<close>

datatype io_out = Taken nat | OutFailed errc
datatype io_in = Received "byte list" | InFailed errc

text \<open>What \<open>writev(2)\<close> and \<open>readv(2)\<close> document: they transfer at most what was offered.\<close>

definition writev_spec :: "(byte list \<Rightarrow> io_out) \<Rightarrow> bool" where
  "writev_spec writev \<longleftrightarrow> (\<forall>bytes n. writev bytes = Taken n \<longrightarrow> n \<le> length bytes)"

definition readv_spec :: "(nat \<Rightarrow> io_in) \<Rightarrow> bool" where
  "readv_spec readv \<longleftrightarrow> (\<forall>n data. readv n = Received data \<longrightarrow> length data \<le> n)"

section \<open>Sending\<close>

text \<open>
  \<open>res == -1\<close> is passed on to \<open>consume(size_t)\<close> and \<open>commit_read(size_t)\<close>, where it is
  \<open>SIZE_MAX\<close>. A result is the returned count, the error code and the buffer; a loop that does not
  end is \<open>OutOfBounds\<close>, too.
\<close>

definition consume_then :: "bool \<Rightarrow> nat \<Rightarrow> vecbuf \<Rightarrow> vecbuf access" where
  "consume_then stand n b = (case consume n b of
     None \<Rightarrow> OutOfBounds | Some b' \<Rightarrow> Defined (if stand then b' else compact b'))"

definition send_vectorized ::
    "(byte list \<Rightarrow> io_out) \<Rightarrow> bool \<Rightarrow> errc option \<Rightarrow> vecbuf \<Rightarrow> (nat \<times> errc option \<times> vecbuf) access" where
  "send_vectorized writev stand err buffer =
     (if fst (remaining buffer) = None then Defined (0, err, buffer)
      else case vec_gather buffer of
        OutOfBounds \<Rightarrow> OutOfBounds
      | Defined bytes \<Rightarrow>
          (case writev bytes of
             OutFailed e \<Rightarrow>
               if e = resource_unavailable_try_again \<or> e = operation_in_progress
               then map_access (\<lambda>b. (0, Some e, b)) (consume_then stand SIZE_MAX buffer)
               else Defined (0, Some e, buffer)
           | Taken res \<Rightarrow>
               if res = 0 then Defined (res, err, buffer)
               else map_access (\<lambda>b. (res, None, b)) (consume_then stand res buffer)))"

definition send_ring ::
    "(byte list \<Rightarrow> io_out) \<Rightarrow> bool \<Rightarrow> byte ring \<Rightarrow> (nat \<times> errc option \<times> byte ring) access" where
  "send_ring writev stand buffer =
     (let to_write = read_vectored buffer
      in if iov_len (fst to_write) = 0 \<and> iov_len (snd to_write) = 0
         then Defined (0, Some no_buffer_space, buffer)
         else case writev (iov_load (buf buffer) (fst to_write) @ iov_load (buf buffer) (snd to_write)) of
                OutFailed e \<Rightarrow>
                  if e \<in> {resource_unavailable_try_again, operation_in_progress, no_buffer_space}
                  then if stand then Defined (0, Some e, buffer)
                       else map_access (\<lambda>b. (0, Some e, b)) (commit_read SIZE_MAX buffer)
                  else Defined (0, Some e, buffer)
              | Taken res \<Rightarrow>
                  if res = 0 then Defined (0, None, buffer)
                  else if stand then Defined (res, None, buffer)
                  else map_access (\<lambda>b. (res, None, b)) (commit_read res buffer))"

text \<open>\<open>send\<close> of one contiguous buffer: a call that would block is not an error.\<close>

definition send_plain :: "(byte list \<Rightarrow> io_out) \<Rightarrow> errc option \<Rightarrow> byte list \<Rightarrow> nat \<times> errc option" where
  "send_plain send err buffer =
     (if length buffer = 0 then (0, err)
      else case send buffer of
             OutFailed e \<Rightarrow>
               if e = resource_unavailable_try_again \<or> e = operation_in_progress then (0, err) else (0, Some e)
           | Taken cur \<Rightarrow> (cur, err))"

section \<open>Receiving\<close>

text \<open>The kernel fills the two segments one after the other.\<close>

definition scatter :: "byte list \<Rightarrow> byte ring \<Rightarrow> byte list access" where
  "scatter data r =
     (let vec = write_vectored r; (k1, k2) = insert_offsets data r
      in case iov_store (fst vec) (take k1 data) (buf r) of
           OutOfBounds \<Rightarrow> OutOfBounds
         | Defined b \<Rightarrow> iov_store (snd vec) (take k2 (drop k1 data)) b)"

definition receive_to_ring_buffer ::
    "(nat \<Rightarrow> io_in) \<Rightarrow> byte ring \<Rightarrow> (nat \<times> errc option \<times> byte ring) access" where
  "receive_to_ring_buffer readv buffer =
     (let to_read = write_vectored buffer
      in if iov_len (fst to_read) = 0 \<and> iov_len (snd to_read) = 0
         then Defined (0, Some no_buffer_space, buffer)
         else case readv (iov_len (fst to_read) + iov_len (snd to_read)) of
                InFailed e \<Rightarrow>
                  if e = resource_unavailable_try_again \<or> e = operation_in_progress
                  then Defined (0, None, buffer) else Defined (0, Some e, buffer)
              | Received data \<Rightarrow>
                  if data = [] then Defined (0, Some connection_reset, buffer)
                  else case scatter data buffer of
                         OutOfBounds \<Rightarrow> OutOfBounds
                       | Defined b \<Rightarrow>
                           map_access (\<lambda>r. (length data, None, r))
                             (commit_write (length data) (buffer\<lparr>buf := b\<rparr>)))"

definition receive_plain ::
    "(nat \<Rightarrow> io_in) \<Rightarrow> errc option \<Rightarrow> nat \<Rightarrow> nat \<times> errc option \<times> byte list" where
  "receive_plain recv err n =
     (if n = 0 then (0, err, [])
      else case recv n of
             InFailed e \<Rightarrow>
               if e = resource_unavailable_try_again \<or> e = operation_in_progress
               then (0, None, []) else (0, Some e, [])
           | Received data \<Rightarrow> (length data, err, data))"

section \<open>Lemmas\<close>

lemma insert_via_scatter:
  "ring_insert data r = (case scatter data r of
     OutOfBounds \<Rightarrow> OutOfBounds
   | Defined b \<Rightarrow> map_access (Pair (fst (insert_offsets data r) + snd (insert_offsets data r)))
        (commit_write (fst (insert_offsets data r) + snd (insert_offsets data r)) (r\<lparr>buf := b\<rparr>)))"
  by (simp add: ring_insert_def scatter_def Let_def split: access.split prod.split)

lemma write_vectored_room:
  assumes "ring_inv r"
  shows "iov_len (fst (write_vectored r)) + iov_len (snd (write_vectored r)) = capacity r - ring_size r"
  using assms ring_inv_le [OF assms]
  by (cases "full r"; cases "head r \<le> tail r")
    (auto simp: write_vectored_def no_iovec_def ring_size_not_full ring_size_def)

lemma receive_appends:
  assumes "ring_inv r" and "0 < length data" and "length data \<le> capacity r - ring_size r"
  shows "\<exists>b r'. scatter data r = Defined b \<and> commit_write (length data) (r\<lparr>buf := b\<rparr>) = Defined r'
            \<and> ring_inv r' \<and> capacity r' = capacity r \<and> contents r' = contents r @ data"
proof -
  obtain r' where r': "ring_insert data r = Defined (length data, r')" "ring_inv r'" "capacity r' = capacity r"
      "contents r' = contents r @ data"
    using ring_insert_contents [OF assms(1), of data] assms(3) by (auto simp: min_absorb1)
  then show ?thesis
    by (auto simp: insert_via_scatter split: access.splits)
qed

lemma receive_data:
  assumes "ring_inv r" and "readv (capacity r - ring_size r) = Received data" and "data \<noteq> []"
    and "length data \<le> capacity r - ring_size r"
  shows "\<exists>r'. receive_to_ring_buffer readv r = Defined (length data, None, r')
            \<and> ring_inv r' \<and> capacity r' = capacity r \<and> contents r' = contents r @ data"
proof -
  note w = write_vectored_room [OF assms(1)]
  have "0 < length data" using assms(3) by simp
  moreover from this assms(4) have "0 < capacity r - ring_size r" by linarith
  ultimately show ?thesis
    using receive_appends [OF assms(1) _ assms(4)] w assms(2,3)
    by (auto simp: receive_to_ring_buffer_def Let_def)
qed

lemma consume_then_unsent:
  assumes "vec_inv b" and "length (vbuf b) < 2 ^ 32"
  shows "\<exists>b'. consume_then stand n b = Defined b' \<and> vec_inv b' \<and> unsent b' = drop n (unsent b)"
proof -
  obtain b1 where b1: "consume n b = Some b1" "vec_inv b1" "unsent b1 = drop n (unsent b)"
    using consume_unsent [OF assms] by blast
  with compact_unsent [OF b1(2)] show ?thesis by (simp add: consume_then_def)
qed

section \<open>Properties\<close>

abbreviation two_buffers :: vecbuf where
  "two_buffers \<equiv> push_buffer [4, 5] (push_buffer [1, 2, 3] VectorizedBuffer)"

lemma two_buffers_facts: "vec_inv two_buffers" "length (vbuf two_buffers) < 2 ^ 32" "unsent two_buffers = [1, 2, 3, 4, 5]"
  by (simp_all add: vec_inv_def push_buffer_def VectorizedBuffer_def points_def unsent_def)

text \<open>
  C5. The vectorized buffer is a queue: over any history of fewer than \<open>2 ^ 32\<close> pushes and sends
  (each send gathers the active \<open>iovec\<close>s, then consumes \<open>n\<close> bytes and compacts) no \<open>iovec\<close>
  dangles, no loop runs on, and what was sent followed by what is unsent is what was unsent
  followed by what was pushed, all of it.
\<close>

theorem vec_fifo:
  assumes "vec_inv b" and "length (vbuf b) + length ops < 2 ^ 32"
  shows "\<exists>sent taken b'. fifo_run vec_insert vec_segs vec_sent ops b = Defined (sent, taken, b')
      \<and> vec_inv b' \<and> unsent b @ taken = sent @ unsent b'"
  using vb.run_fifo [where ops = ops and k = 0 and s = b] assms by auto

theorem vec_fifo_witness:
  "\<exists>sent taken b'. fifo_run vec_insert vec_segs vec_sent [Send 4, Write [6], Send 1] two_buffers
        = Defined (sent, taken, b')
      \<and> vec_inv b' \<and> unsent two_buffers @ taken = sent @ unsent b'"
  by (rule vec_fifo [OF two_buffers_facts(1)]) (simp add: push_buffer_def VectorizedBuffer_def)

text \<open>
  \<open>consume\<close> returns, for every count, and drops exactly that many unsent bytes (all of them
  when there are fewer), splitting the \<open>iovec\<close> in which it stops; \<open>compact\<close> releases the vectors
  that are used up and keeps the unsent bytes.
\<close>

lemma consume_compact:
  assumes "vec_inv b" and "length (vbuf b) < 2 ^ 32"
  shows "\<exists>b'. consume n b = Some b' \<and> vec_inv b' \<and> unsent b' = drop n (unsent b)
      \<and> vec_inv (compact b') \<and> unsent (compact b') = unsent b'
      \<and> vec_data (compact b') = drop (active_el b') (vec_data b')
      \<and> (has_to_write (compact b') \<longleftrightarrow> n < length (unsent b))"
proof -
  obtain b' where b': "consume n b = Some b'" "vec_inv b'" "unsent b' = drop n (unsent b)"
    using consume_unsent [OF assms] by blast
  have "vec_data (compact b') = drop (active_el b') (vec_data b')"
    by (simp add: vec_data_def compact_def drop_map)
  with b' compact_unsent [OF b'(2)] has_to_write_unsent [of "compact b'"] show ?thesis by auto
qed



text \<open>
  C20. \<open>receive_to_ring_buffer\<close> offers exactly the free space to \<open>readv\<close>; what \<open>readv\<close> delivers is
  appended to the contents and counted; the end of the stream is reported as
  \<open>connection_reset\<close>; on failure the buffer is unchanged, and a call that would block is no error.
\<close>

theorem receive_to_ring_buffer_correct:
  assumes "ring_inv r" and "readv_spec readv" and "ring_size r < capacity r"
  shows "case readv (capacity r - ring_size r) of
       InFailed e \<Rightarrow> receive_to_ring_buffer readv r = Defined (0,
         if e \<in> {resource_unavailable_try_again, operation_in_progress} then None else Some e, r)
     | Received data \<Rightarrow>
         if data = [] then receive_to_ring_buffer readv r = Defined (0, Some connection_reset, r)
         else \<exists>r'. receive_to_ring_buffer readv r = Defined (length data, None, r')
                \<and> ring_inv r' \<and> capacity r' = capacity r \<and> contents r' = contents r @ data"
proof -
  note w = write_vectored_room [OF assms(1)]
  have ne: "\<not> (iov_len (fst (write_vectored r)) = 0 \<and> iov_len (snd (write_vectored r)) = 0)"
    using w assms(3) by auto
  show ?thesis
  proof (cases "readv (capacity r - ring_size r)")
    case (InFailed e)
    then show ?thesis using ne w by (auto simp: receive_to_ring_buffer_def Let_def)
  next
    case (Received data)
    show ?thesis
    proof (cases "data = []")
      case True
      with Received ne w show ?thesis by (auto simp: receive_to_ring_buffer_def Let_def)
    next
        case False
      have "length data \<le> capacity r - ring_size r" using assms(2) Received by (simp add: readv_spec_def)
      with receive_data [where readv = readv, OF assms(1) Received False] False Received show ?thesis by simp
    qed
  qed
qed

abbreviation small_ring :: "byte ring" where
  "small_ring \<equiv> \<lparr>buf = [20, 0, 0, 10], head = 3, tail = 1, full = False\<rparr>"

lemma small_ring_facts: "ring_inv small_ring" "ring_size small_ring < capacity small_ring"
  "capacity small_ring - ring_size small_ring = 2" "contents small_ring = [10, 20]"
  by (simp_all add: ring_inv_def capacity_def ring_size_def contents_def slot_def upt_rec)

theorem receive_to_ring_buffer_correct_witness:
  "\<exists>r'. receive_to_ring_buffer (\<lambda>n. Received (take n [7, 8, 9])) small_ring = Defined (2, None, r')
      \<and> contents r' = [10, 20, 7, 8]"
proof -
  have "readv_spec (\<lambda>n. Received (take n [7, 8, 9]))" by (simp add: readv_spec_def)
  from receive_to_ring_buffer_correct [OF small_ring_facts(1) this small_ring_facts(2), unfolded small_ring_facts(3,4)]
  show ?thesis by auto
qed

section \<open>A send that would block\<close>

text \<open>
  When \<open>writev\<close> answers that it would block, the result -1 goes to \<open>consume\<close> as \<open>SIZE_MAX\<close>: every
  unsent byte is dropped, although none has been sent. The same happens to the ring buffer.
\<close>

lemma would_block_drops_unsent:
  assumes "vec_inv b" and "length (vbuf b) < 2 ^ 32" and "length (unsent b) < 2 ^ 64" and "unsent b \<noteq> []"
    and "writev (unsent b) = OutFailed resource_unavailable_try_again"
  shows "\<exists>b'. send_vectorized writev stand err b = Defined (0, Some resource_unavailable_try_again, b')
            \<and> unsent b' = []"
proof -
  have "fst (remaining b) \<noteq> None"
    using has_to_write_unsent [OF assms(1)] assms(4) by (simp add: remaining_def has_to_write_def)
  with consume_then_unsent [OF assms(1,2), of stand SIZE_MAX] vec_gather_unsent [OF assms(1,2)] assms(3,5)
  show ?thesis by (auto simp: send_vectorized_def SIZE_MAX_def)
qed

lemma would_block_drops_ring:
  assumes "ring_inv r" and "contents r \<noteq> []" and "writev (contents r) = OutFailed resource_unavailable_try_again"
  shows "\<exists>r'. send_ring writev False r = Defined (0, Some resource_unavailable_try_again, r') \<and> contents r' = []"
proof -
  have "length (contents r) \<noteq> 0" using assms(2) by (simp only: length_0_conv not_False_eq_True)
  then have sz: "ring_size r \<noteq> 0" "0 < capacity r" "ring_size r < 2 ^ 63"
    using ring_inv_facts(1) [OF assms(1)] ring_size_bound [OF assms(1)] by auto
  have "length (ring_segs r) = ring_size r" using read_vectored_contents [OF assms(1)] by simp
  then have "\<not> (iov_len (fst (read_vectored r)) = 0 \<and> iov_len (snd (read_vectored r)) = 0)"
    using sz(1) by (auto simp: iov_load_def split: option.splits)
  moreover obtain r' where "commit_read SIZE_MAX r = Defined r'" "contents r' = []"
    using commit_read_contents [OF assms(1) sz(2), of SIZE_MAX] sz(3) by (auto simp: SIZE_MAX_def)
  ultimately show ?thesis
    using read_vectored_contents [OF assms(1)] assms(3) by (simp add: send_ring_def Let_def)
qed

end
