(* ===== verification/File_Io.thy ===== *)
theory File_Io
  imports Serialization_Resume
begin

text \<open>
  The file functions of \<open>serialization.h\<close>: \<open>serialize_to_file\<close> and \<open>deserialize_from_file\<close>, for one
  value and for several. A file stream is its bytes, its position and its failure flag; whether
  the device accepts an access is a field of its own.
\<close>

section \<open>File streams\<close>

record ofile =
  obytes :: "byte list"
  ofail :: bool
  odevice :: bool

record ifile =
  ibytes :: "byte list"
  ipos :: nat
  ifail :: bool
  idevice :: bool

text \<open>\<open>ostream::write\<close>: nothing happens on a failed stream; a refused access sets the flag.\<close>

definition ofwrite :: "byte list \<Rightarrow> ofile \<Rightarrow> ofile" where
  "ofwrite buffer f =
     (if ofail f then f
      else if odevice f then f\<lparr>obytes := obytes f @ buffer\<rparr> else f\<lparr>ofail := True\<rparr>)"

text \<open>
  \<open>istream::read\<close> of \<open>n\<close> bytes. \<open>None\<close>: fewer are left (end of file); otherwise the bytes, or the
  failure flag.
\<close>

definition ifread :: "nat \<Rightarrow> ifile \<Rightarrow> byte list option \<times> ifile" where
  "ifread n f =
     (if \<not> idevice f then (Some [], f\<lparr>ifail := True\<rparr>)
      else if ipos f + n \<le> length (ibytes f)
      then (Some (take n (drop (ipos f) (ibytes f))), f\<lparr>ipos := ipos f + n\<rparr>)
      else (None, f\<lparr>ipos := length (ibytes f), ifail := True\<rparr>))"

text \<open>\<open>tellg\<close> after \<open>seekg(0,end)\<close> minus the current position, in \<open>size_t\<close>; -1 - (-1) on a failed stream.\<close>

definition bytes_left :: "ifile \<Rightarrow> nat" where
  "bytes_left f = (if ifail f then 0 else usub64 (length (ibytes f)) (ipos f))"

text \<open>\<open>seekg(off,cur)\<close>; the offset is a \<open>size_t\<close> difference, read as a signed number.\<close>

definition seek_cur :: "nat \<Rightarrow> ifile \<Rightarrow> ifile" where
  "seek_cur off f = f\<lparr>ipos := nat (int (ipos f) + int64_of_bits off)\<rparr>"

section \<open>One value\<close>

definition serialize_to_file :: "bool \<Rightarrow> host \<Rightarrow> ty \<Rightarrow> val \<Rightarrow> ofile \<Rightarrow> SerializationEC \<times> ofile" where
  "serialize_to_file network h t v f =
     (case (if \<not> network then serialize_native h t v [] else serialize_network h t v []) of
        (err, buffer) \<Rightarrow>
          if err \<noteq> NONE then (err, f)
          else let f' = ofwrite buffer f
               in if ofail f' then (FILE_WRITING_ERROR, f') else (NONE, f'))"

text \<open>The part that both readers share: how much is read, and into which stream it goes.\<close>

definition load_file :: "nat \<Rightarrow> nat \<Rightarrow> ifile \<Rightarrow> SerializationEC \<times> byte list \<times> ifile" where
  "load_file min_sz max_sz f =
     (if ifail f then (FILE_READING_ERROR, [], f)
      else if bytes_left f < min_sz then (BUFFER_SIZE_LESSER, [], f)
      else case ifread (if bytes_left f > max_sz then max_sz else bytes_left f) f of
             (None, f') \<Rightarrow> (UNEXPECTED_EOF, [], f')
           | (Some buffer, f') \<Rightarrow> if ifail f' then (FILE_READING_ERROR, [], f') else (NONE, buffer, f'))"

definition deserialize_from_file ::
    "bool \<Rightarrow> host \<Rightarrow> ty \<Rightarrow> val \<Rightarrow> ifile \<Rightarrow> outcome \<times> val \<times> ifile" where
  "deserialize_from_file network h t v f =
     (case load_file (Min_serial_size t) (Max_serial_size t) f of
        (err, buffer, f') \<Rightarrow>
          if err \<noteq> NONE then (Code err, v, f')
          else case (if \<not> network then deserialize_native h t v (push_view buffer StreamSerializer)
                     else deserialize_network h t v (push_view buffer StreamSerializer)) of
                 (out, v', st) \<Rightarrow>
                   if out \<noteq> Code NONE then (out, v', f')
                   else (out, v', seek_cur (usub64 (Serial_size t v') (length buffer)) f'))"

section \<open>Several values\<close>

definition serialize_all_to_file ::
    "bool \<Rightarrow> host \<Rightarrow> (ty \<times> val) list \<Rightarrow> ofile \<Rightarrow> SerializationEC \<times> ofile" where
  "serialize_all_to_file network h tvs f =
     (case serialize_all (map (\<lambda>(t, v). if \<not> network then serialize_native h t v else serialize_network h t v) tvs) [] of
        (err, buffer) \<Rightarrow>
          if err \<noteq> NONE then (err, f)
          else let f' = ofwrite buffer f
               in if ofail f' then (FILE_WRITING_ERROR, f') else (err, f'))"

definition deserialize_all_from_file ::
    "bool \<Rightarrow> host \<Rightarrow> ty list \<Rightarrow> val list \<Rightarrow> ifile \<Rightarrow> outcome \<times> val list \<times> ifile" where
  "deserialize_all_from_file network h ts vs f =
     (case load_file (min_serial_size (map Min_serial_size ts)) (max_serial_size (map Max_serial_size ts)) f of
        (err, buffer, f') \<Rightarrow>
          if err \<noteq> NONE then (Code err, vs, f')
          else case deserialize_fields
                      (map (\<lambda>t. if \<not> network then deserialize_native h t else deserialize_network h t) ts) vs
                      (push_view buffer StreamSerializer) of
                 (out, vs', st) \<Rightarrow>
                   if out \<noteq> Code NONE then (out, vs', f')
                   else (out, vs',
                         seek_cur (usub64 (sum_list (map2 Serial_size ts vs')) (length buffer)) f'))"

section \<open>Lemmas\<close>

lemma serialize_by_order:
  "(if \<not> network then serialize_native h t v else serialize_network h t v) = Serialize network h t v"
  by (simp add: serialize_native_def serialize_network_def)

lemma deserialize_by_order:
  "(if \<not> network then deserialize_native h t else deserialize_network h t) = stream_deserialize network h t"
  by (simp add: deserialize_native_def deserialize_network_def)

text \<open>The file of a pending read: what comes before, the bytes of interest, what follows.\<close>

definition file_at :: "byte list \<Rightarrow> byte list \<Rightarrow> ifile" where
  "file_at before rest = \<lparr>ibytes = before @ rest, ipos = length before, ifail = False, idevice = True\<rparr>"

lemma load_file_at:
  assumes "length before + length rest < 2 ^ 63" and "min_sz \<le> length rest"
  shows "load_file min_sz max_sz (file_at before rest)
       = (NONE, take max_sz rest, (file_at before rest)\<lparr>ipos := length before + min max_sz (length rest)\<rparr>)"
proof -
  have "bytes_left (file_at before rest) = length rest"
    using assms(1) by (simp add: bytes_left_def file_at_def usub64_le)
  then show ?thesis
    using assms(2) by (auto simp: load_file_def ifread_def file_at_def min_def)
qed

lemma seek_back:
  assumes "s \<le> n" and "n < 2 ^ 63"
  shows "seek_cur (usub64 s n) (f\<lparr>ipos := p + n\<rparr>) = f\<lparr>ipos := p + s\<rparr>"
proof (cases "s = n")
  case True
  then show ?thesis by (simp add: seek_cur_def int64_of_bits_def)
next
  case False
  with assms have "usub64 s n = 2 ^ 64 - (n - s)" by (intro usub64_wrap) auto
  then have "int64_of_bits (usub64 s n) = int s - int n"
    using assms False by (simp add: int64_of_bits_def of_nat_diff)
  with assms show ?thesis by (simp add: seek_cur_def nat_add_distrib)
qed

lemma fresh_push:
  "ready (push_view buffer StreamSerializer)" "avail (push_view buffer StreamSerializer) = buffer"
  using push_view_idle [of StreamSerializer buffer]
  by (auto simp: idle_def ready_def StreamSerializer_def mb_inv_MultiBufferView pending_MultiBufferView)

lemma read_back:
  assumes "wf_ty t" "deserializable t" "good_order net h" "has_ty t v" "clean t old"
    and sz: "sizes_agree net h t v"
    and len: "length before + length (encode net h t v) + length after < 2 ^ 63"
  shows "deserialize_from_file net h t old (file_at before (encode net h t v @ after))
       = (Code NONE, v, file_at (before @ encode net h t v) after)"
proof -
  let ?e = "encode net h t v" and ?M = "Max_serial_size t"
  let ?buf = "take ?M (?e @ after)"
  have s: "Serial_size t v = length ?e" "Min_serial_size t \<le> length ?e" "length ?e \<le> ?M"
    using sz by (auto simp: sizes_agree_def)
  then have buf: "?buf = ?e @ take (?M - length ?e) after" by simp
  have ld: "load_file (Min_serial_size t) ?M (file_at before (?e @ after))
      = (NONE, ?buf, (file_at before (?e @ after))\<lparr>ipos := length before + length ?buf\<rparr>)"
    using load_file_at [of before "?e @ after" "Min_serial_size t" ?M] len s(2) by (simp add: min.commute)
  obtain st where "stream_deserialize net h t old (push_view ?buf StreamSerializer) = (Code NONE, v, st)"
    using codec.decode [OF stream_codec [OF assms(1,2,3)] assms(4,5) fresh_push(1)] fresh_push(2) buf by metis
  moreover have "seek_cur (usub64 (Serial_size t v) (length ?buf))
      ((file_at before (?e @ after))\<lparr>ipos := length before + length ?buf\<rparr>)
      = (file_at before (?e @ after))\<lparr>ipos := length before + Serial_size t v\<rparr>"
    by (rule seek_back) (use s len in \<open>auto simp: min_def\<close>)
  moreover have "(file_at before (?e @ after))\<lparr>ipos := length before + Serial_size t v\<rparr> = file_at (before @ ?e) after"
    using s by (simp add: file_at_def)
  ultimately show ?thesis
    using ld deserialize_by_order [of net h t]
    by (simp add: deserialize_from_file_def if_distribR [symmetric] if_distrib cong: if_cong)
qed

abbreviation new_file :: "byte list \<Rightarrow> ofile" where
  "new_file bytes \<equiv> \<lparr>obytes = bytes, ofail = False, odevice = True\<rparr>"

lemma write_file:
  "wf_ty t \<Longrightarrow> has_ty t v \<Longrightarrow>
   serialize_to_file net h t v (new_file before) = (NONE, new_file (before @ encode net h t v))"
  by (simp add: serialize_to_file_def serialize_native_def serialize_network_def Serialize_encode ofwrite_def)

text \<open>A client that writes values one after the other, and one that reads them back.\<close>

fun write_each :: "bool \<Rightarrow> host \<Rightarrow> (ty \<times> val) list \<Rightarrow> ofile \<Rightarrow> SerializationEC \<times> ofile" where
  "write_each network h [] f = (NONE, f)"
| "write_each network h ((t, v) # tvs) f =
     (case serialize_to_file network h t v f of
        (err, f') \<Rightarrow> if err = NONE then write_each network h tvs f' else (err, f'))"

fun read_each :: "bool \<Rightarrow> host \<Rightarrow> ty list \<Rightarrow> ifile \<Rightarrow> outcome \<times> val list \<times> ifile" where
  "read_each network h [] f = (Code NONE, [], f)"
| "read_each network h (t # ts) f =
     (case deserialize_from_file network h t (default_val t) f of
        (out, v, f') \<Rightarrow>
          if out = Code NONE
          then case read_each network h ts f' of (out', vs, f'') \<Rightarrow> (out', v # vs, f'')
          else (out, [v], f'))"

definition storable :: "ty \<times> val \<Rightarrow> bool" where
  "storable tv \<longleftrightarrow> wf_ty (fst tv) \<and> deserializable (fst tv) \<and> size_ok (fst tv) \<and> has_ty (fst tv) (snd tv)"

abbreviation encode_each :: "bool \<Rightarrow> host \<Rightarrow> (ty \<times> val) list \<Rightarrow> byte list" where
  "encode_each net h tvs \<equiv> concat (map (\<lambda>(t, v). encode net h t v) tvs)"

lemma write_each_file:
  "list_all storable tvs \<Longrightarrow>
   write_each net h tvs (new_file before) = (NONE, new_file (before @ encode_each net h tvs))"
  by (induction tvs arbitrary: before) (auto simp: storable_def write_file)

lemma storable_sizes:
  "storable (t, v) \<Longrightarrow> length (encode net h t v) < 2 ^ 63 \<Longrightarrow> sizes_agree net h t v"
  by (auto simp: storable_def SIZE_MAX_def intro: Serial_size_agrees)

lemma read_each_file:
  assumes "list_all storable tvs" "good_order net h"
    and "length before + length (encode_each net h tvs) + length after < 2 ^ 63"
  shows "read_each net h (map fst tvs) (file_at before (encode_each net h tvs @ after))
       = (Code NONE, map snd tvs, file_at (before @ encode_each net h tvs) after)"
  using assms(1,3)
proof (induction tvs arbitrary: before)
  case Nil
  then show ?case by simp
next
  case (Cons tv tvs)
  obtain t v where tv: "tv = (t, v)" by fastforce
  let ?e = "encode net h t v" and ?E = "encode_each net h tvs"
  have "deserialize_from_file net h t (default_val t) (file_at before (?e @ (?E @ after)))
      = (Code NONE, v, file_at (before @ ?e) (?E @ after))"
    by (rule read_back) (use Cons.prems tv assms(2) storable_sizes in \<open>auto simp: storable_def intro: clean_default\<close>)
  moreover have "read_each net h (map fst tvs) (file_at (before @ ?e) (?E @ after))
      = (Code NONE, map snd tvs, file_at ((before @ ?e) @ ?E) after)"
    by (rule Cons.IH) (use Cons.prems tv in auto)
  ultimately show ?case using tv by simp
qed

section \<open>Properties\<close>



text \<open>
  Failures of the device and of the file: a refused write is \<open>FILE_WRITING_ERROR\<close> and
  writes nothing; a failed stream or a refused read is \<open>FILE_READING_ERROR\<close>; a file that is shorter
  than the minimal size is \<open>BUFFER_SIZE_LESSER\<close> and the position is kept. In none of these
  cases is the value changed.
\<close>

lemma file_errors:
  assumes "wf_ty t" and "has_ty t v"
  shows "(\<not> odevice f \<or> ofail f \<longrightarrow> serialize_to_file net h t v f = (FILE_WRITING_ERROR, f\<lparr>ofail := True\<rparr>))
     \<and> (ifail g \<longrightarrow> deserialize_from_file net h t old g = (Code FILE_READING_ERROR, old, g))
     \<and> (\<not> ifail g \<and> bytes_left g < Min_serial_size t \<longrightarrow>
          deserialize_from_file net h t old g = (Code BUFFER_SIZE_LESSER, old, g))
     \<and> (\<not> ifail g \<and> Min_serial_size t \<le> bytes_left g \<and> \<not> idevice g \<longrightarrow>
          deserialize_from_file net h t old g = (Code FILE_READING_ERROR, old, g\<lparr>ifail := True\<rparr>))"
  using assms
  by (auto simp: serialize_to_file_def serialize_native_def serialize_network_def Serialize_encode ofwrite_def
      deserialize_from_file_def load_file_def ifread_def)

section \<open>Several values at once\<close>

lemma write_all_file:
  assumes "list_all storable tvs"
  shows "serialize_all_to_file net h tvs (new_file before) = (NONE, new_file (before @ encode_each net h tvs))"
proof -
  have "list_all2 (\<lambda>w e. \<forall>buf. w buf = (NONE, buf @ e))
      (map (\<lambda>(t, v). Serialize net h t v) tvs) (map (\<lambda>(t, v). encode net h t v) tvs)"
    using assms by (induction tvs) (auto simp: storable_def Serialize_encode)
  then show ?thesis
    by (simp add: serialize_all_to_file_def serialize_by_order serialize_all_encode ofwrite_def)
qed

lemma each_sizes:
  assumes "list_all storable tvs" and "length (encode_each net h tvs) < 2 ^ 63"
  shows "sum_list (map2 Serial_size (map fst tvs) (map snd tvs)) = length (encode_each net h tvs)"
    and "min_serial_size (map Min_serial_size (map fst tvs)) \<le> length (encode_each net h tvs)"
    and "length (encode_each net h tvs) \<le> max_serial_size (map Max_serial_size (map fst tvs))"
proof -
  have e: "map2 (encode net h) (map fst tvs) (map snd tvs) = map (\<lambda>(t, v). encode net h t v) tvs"
    by (induction tvs) auto
  have "length (encode net h t v) < 2 ^ 63" if "(t, v) \<in> set tvs" for t v
    using that assms(2) length_concat_member [of "encode net h t v" "map (\<lambda>(t, v). encode net h t v) tvs"] by force
  then have "list_all2 (sizes_agree net h) (map fst tvs) (map snd tvs)"
    using assms(1) by (auto simp: list_all2_map1 list_all2_map2 list_all_iff intro!: list.rel_refl_strong storable_sizes)
  from struct_sizes_agree [OF this]
  have "sizes_agree net h (TStruct (map fst tvs)) (VStruct (map snd tvs))"
    using e assms(2) by (simp add: map_zip_map comp_def split_def SIZE_MAX_def)
  with e show "sum_list (map2 Serial_size (map fst tvs) (map snd tvs)) = length (encode_each net h tvs)"
    "min_serial_size (map Min_serial_size (map fst tvs)) \<le> length (encode_each net h tvs)"
    "length (encode_each net h tvs) \<le> max_serial_size (map Max_serial_size (map fst tvs))"
    by (simp_all add: sizes_agree_def map_zip_map comp_def split_def)
qed

text \<open>
  The variadic file functions: what one call writes, one call with the same types reads
  back, and the position is left behind the last value.
\<close>

lemma file_variadic_roundtrip:
  assumes "list_all storable tvs" and "good_order net h" and "list_all2 clean (map fst tvs) olds"
    and "serialize_all_to_file net h tvs (new_file before) = (err, f)"
    and "length (obytes f) + length after < 2 ^ 63"
  shows "err = NONE \<and> deserialize_all_from_file net h (map fst tvs) olds
            (file_at before (drop (length before) (obytes f) @ after))
       = (Code NONE, map snd tvs, file_at (obytes f) after)"
proof -
  let ?E = "encode_each net h tvs" and ?ts = "map fst tvs" and ?vs = "map snd tvs"
  let ?M = "max_serial_size (map Max_serial_size ?ts)"
  let ?buf = "take ?M (?E @ after)" and ?f = "file_at before (?E @ after)"
  have f: "err = NONE" "f = new_file (before @ ?E)" using assms(4) write_all_file [OF assms(1)] by auto
  then have len: "length before + length ?E + length after < 2 ^ 63" using assms(5) by simp
  note s = each_sizes [OF assms(1), of net h]
  have buf: "?buf = ?E @ take (?M - length ?E) after" using s(3) len by simp
  have ld: "load_file (min_serial_size (map Min_serial_size ?ts)) ?M ?f
      = (NONE, ?buf, ?f\<lparr>ipos := length before + length ?buf\<rparr>)"
    using load_file_at [of before "?E @ after" "min_serial_size (map Min_serial_size ?ts)" ?M] len s(2)
    by (simp add: min.commute)
  have e: "map2 (encode net h) ?ts ?vs = map (\<lambda>(t, v). encode net h t v) tvs" by (induction tvs) auto
  have "\<exists>st'. deserialize_fields (map (stream_deserialize net h) ?ts) olds (push_view ?buf StreamSerializer)
              = (Code NONE, ?vs, st') \<and> ready st' \<and> avail st' = take (?M - length ?E) after
            \<and> kept (push_view ?buf StreamSerializer) st'"
  proof (rule fields_decode [where E = "encode net h" and W = has_ty and C = clean])
    show "codec (encode net h t) (stream_deserialize net h t) (has_ty t) (clean t)" if "t \<in> set ?ts" for t
      using that assms(1,2) by (auto simp: list_all_iff storable_def intro: stream_codec)
    show "list_all2 has_ty ?ts ?vs"
      using assms(1) by (auto simp: list_all2_map1 list_all2_map2 list_all_iff storable_def intro!: list.rel_refl_strong)
  qed (use assms(3) fresh_push buf e in auto)
  then obtain st where "deserialize_fields (map (stream_deserialize net h) ?ts) olds (push_view ?buf StreamSerializer)
      = (Code NONE, ?vs, st)" by blast
  moreover have "seek_cur (usub64 (sum_list (map2 Serial_size ?ts ?vs)) (length ?buf))
      (?f\<lparr>ipos := length before + length ?buf\<rparr>)
      = ?f\<lparr>ipos := length before + sum_list (map2 Serial_size ?ts ?vs)\<rparr>"
    by (rule seek_back) (use s len in \<open>auto simp: min_def\<close>)
  moreover have "?f\<lparr>ipos := length before + sum_list (map2 Serial_size ?ts ?vs)\<rparr> = file_at (before @ ?E) after"
    using s(1) len by (simp add: file_at_def)
  moreover have "map (\<lambda>t. if \<not> net then deserialize_native h t else deserialize_network h t) ?ts
      = map (stream_deserialize net h) ?ts" by (simp only: deserialize_by_order)
  ultimately have "deserialize_all_from_file net h ?ts olds ?f = (Code NONE, ?vs, file_at (before @ ?E) after)"
    using ld by (simp only: deserialize_all_from_file_def prod.case simp_thms if_False)
  then show ?thesis using f by simp
qed

section \<open>Pairs with an unbounded component\<close>

text \<open>
  \<open>Max_serial_size\<close> of such a pair has wrapped around, so the reader loads three bytes only and
  never succeeds, whatever the file holds.
\<close>

lemma file_pair_unreadable:
  assumes "ibytes f = b" "ipos f = 0" "\<not> ifail f" "idevice f" "12 \<le> length b" "length b < 2 ^ 63"
  shows "fst (deserialize_from_file True LittleHost (TPair (TRange Sequence (TInt 4)) (TInt 4)) old f)
       = Code BUFFER_SIZE_LESSER"
proof -
  have m: "Max_serial_size (TPair (TRange Sequence (TInt 4)) (TInt 4)) = 3"
    "Min_serial_size (TPair (TRange Sequence (TInt 4)) (TInt 4)) = 12"
    by (simp_all add: SIZE_MAX_def uadd64_def)
  have l: "bytes_left f = length b" using assms by (simp add: bytes_left_def usub64_le)
  obtain x y z where t: "take 3 b = [x, y, z]"
  proof -
    have "length (take 3 b) = Suc (Suc (Suc 0))" using assms(5) by simp
    then show ?thesis using that by (auto simp only: length_Suc_conv length_0_conv)
  qed
  have "load_file 12 3 f = (NONE, [x, y, z], f\<lparr>ipos := 3\<rparr>)"
    using assms l t by (simp add: load_file_def ifread_def)
  then show ?thesis
    unfolding deserialize_from_file_def m by (simp add: buf_defs codec_defs)
qed

end
