(* ===== verification/Frames.thy ===== *)
theory Frames
  imports Serialization_Properties
begin

text \<open>
  Frames (\<open>include/OsterLib/network/frame/dataframe.h\<close>, \<open>frames.h\<close>): a start, data and an end part
  that are serialized one after the other, in network order. \<open>DataFrame\<close> and \<open>Frame\<close> are
  templates over the types of their parts, which are arguments here; a part of an empty class
  (\<open>std::monostate\<close>) has type \<open>TEmpty\<close>. \<open>AbstractFrame\<close> is the interface through which a
  connection sends and receives a frame without knowing its types: its virtual functions are
  those of \<open>Frame\<close>.
\<close>

section \<open>\<open>DataFrame\<close>\<close>

record dataframe =
  start_part :: val
  data_part :: val
  end_part :: val

text \<open>The types of the parts, and the type under which the serializers know the frame.\<close>

type_synonym frame_ty = "ty \<times> ty \<times> ty"

fun DataFrame_ty :: "frame_ty \<Rightarrow> ty" where
  "DataFrame_ty (s, d, e) = TStruct [s, d, e]"

definition dataframe_val :: "dataframe \<Rightarrow> val" where
  "dataframe_val fr = VStruct [start_part fr, data_part fr, end_part fr]"

definition dataframe_of :: "val \<Rightarrow> dataframe" where
  "dataframe_of v = \<lparr>start_part = vfields v ! 0, data_part = vfields v ! 1, end_part = vfields v ! 2\<rparr>"

definition NotFramedData :: "ty \<Rightarrow> frame_ty" where
  "NotFramedData d = (TEmpty, d, TEmpty)"

definition SizeFramedData :: "ty \<Rightarrow> frame_ty" where
  "SizeFramedData d = (TInt 8, d, TEmpty)"

text \<open>The virtual functions of \<open>DataFrame\<close>.\<close>

fun DataFrame_serialize :: "host \<Rightarrow> frame_ty \<Rightarrow> dataframe \<Rightarrow> writer" where
  "DataFrame_serialize h (s, d, e) fr =
     serialize_all [Serialize True h s (start_part fr), Serialize True h d (data_part fr),
                    Serialize True h e (end_part fr)]"

fun DataFrame_deserialize ::
    "host \<Rightarrow> frame_ty \<Rightarrow> dataframe \<Rightarrow> stream \<Rightarrow> outcome \<times> dataframe \<times> stream" where
  "DataFrame_deserialize h (s, d, e) fr st =
     (case deserialize_fields [stream_deserialize True h s, stream_deserialize True h d, stream_deserialize True h e]
             [start_part fr, data_part fr, end_part fr] st of
        (out, vs, st') \<Rightarrow> (out, dataframe_of (VStruct vs), st'))"

fun DataFrame_serial_size :: "frame_ty \<Rightarrow> dataframe \<Rightarrow> nat" where
  "DataFrame_serial_size (s, d, e) fr =
     Serial_size s (start_part fr) + (Serial_size d (data_part fr) + Serial_size e (end_part fr))"

fun DataFrame_min_initial_size :: "frame_ty \<Rightarrow> nat" where
  "DataFrame_min_initial_size (s, d, e) = min_serial_size [Min_serial_size s]"

text \<open>The specialisations of the functors for \<open>DataFrame\<close>.\<close>

definition Serialize_DataFrame :: "host \<Rightarrow> frame_ty \<Rightarrow> dataframe \<Rightarrow> writer" where
  "Serialize_DataFrame h T fr = DataFrame_serialize h T fr"

definition Deserialize_DataFrame :: "host \<Rightarrow> frame_ty \<Rightarrow> deserializer" where
  "Deserialize_DataFrame h T v st =
     (case DataFrame_deserialize h T (dataframe_of v) st of (out, fr, st') \<Rightarrow> (out, dataframe_val fr, st'))"

fun DataFrame_limits :: "frame_ty \<Rightarrow> nat \<times> nat" where
  "DataFrame_limits (s, d, e) =
     (min_serial_size [Min_serial_size s, Min_serial_size d, Min_serial_size e],
      max_serial_size [Max_serial_size s, Max_serial_size d, Max_serial_size e])"

section \<open>\<open>Frame\<close> and \<open>AbstractFrame\<close>\<close>

record frame =
  frame_val :: dataframe

text \<open>The constructor moves the parts in; the parts of empty classes keep their only value.\<close>

fun Frame :: "frame_ty \<Rightarrow> val \<Rightarrow> val \<Rightarrow> val \<Rightarrow> frame" where
  "Frame (s, d, e) start data_v end_v =
     \<lparr>frame_val = \<lparr>start_part = (if s \<noteq> TEmpty then start else default_val s),
                   data_part = data_v,
                   end_part = (if e \<noteq> TEmpty then end_v else default_val e)\<rparr>\<rparr>"

definition start_frame :: "frame \<Rightarrow> val" where
  "start_frame f = start_part (frame_val f)"

definition data_frame :: "frame \<Rightarrow> val" where
  "data_frame f = data_part (frame_val f)"

definition end_frame :: "frame \<Rightarrow> val" where
  "end_frame f = end_part (frame_val f)"

definition Frame_serialize :: "host \<Rightarrow> frame_ty \<Rightarrow> frame \<Rightarrow> writer" where
  "Frame_serialize h T f = Serialize_DataFrame h T (frame_val f)"

definition Frame_deserialize :: "host \<Rightarrow> frame_ty \<Rightarrow> frame \<Rightarrow> stream \<Rightarrow> outcome \<times> frame \<times> stream" where
  "Frame_deserialize h T f st =
     (case deserialize_object (Deserialize_DataFrame h T) (dataframe_val (frame_val f)) st of
        (out, v, st') \<Rightarrow> (out, \<lparr>frame_val = dataframe_of v\<rparr>, st'))"

definition Frame_serial_size :: "frame_ty \<Rightarrow> frame \<Rightarrow> nat" where
  "Frame_serial_size T f = DataFrame_serial_size T (frame_val f)"

definition Frame_min_initial_size :: "frame_ty \<Rightarrow> nat" where
  "Frame_min_initial_size T = DataFrame_min_initial_size T"

text \<open>The functors for \<open>Frame\<close>: variadic calls with the one field.\<close>

definition Serialize_Frame :: "host \<Rightarrow> frame_ty \<Rightarrow> frame \<Rightarrow> writer" where
  "Serialize_Frame h T f = serialize_all [Serialize_DataFrame h T (frame_val f)]"

definition Deserialize_Frame :: "host \<Rightarrow> frame_ty \<Rightarrow> frame \<Rightarrow> stream \<Rightarrow> outcome \<times> frame \<times> stream" where
  "Deserialize_Frame h T f st =
     (case deserialize_object (Deserialize_DataFrame h T) (dataframe_val (frame_val f)) st of
        (out, v, st') \<Rightarrow> (out, \<lparr>frame_val = dataframe_of v\<rparr>, st'))"

text \<open>The functors for \<open>AbstractFrame\<close> call the virtual functions.\<close>

definition Serialize_AbstractFrame :: "host \<Rightarrow> frame_ty \<Rightarrow> frame \<Rightarrow> writer" where
  "Serialize_AbstractFrame h T f = Frame_serialize h T f"

definition Deserialize_AbstractFrame :: "host \<Rightarrow> frame_ty \<Rightarrow> deserializer" where
  "Deserialize_AbstractFrame h T v st =
     (case Frame_deserialize h T \<lparr>frame_val = dataframe_of v\<rparr> st of
        (out, f, st') \<Rightarrow> (out, dataframe_val (frame_val f), st'))"

text \<open>\<open>deserialize_network(AbstractFrame&, buf)\<close>.\<close>

definition deserialize_abstract_frame :: "host \<Rightarrow> frame_ty \<Rightarrow> frame \<Rightarrow> stream \<Rightarrow> outcome \<times> frame \<times> stream" where
  "deserialize_abstract_frame h T f st =
     (case deserialize_object (Deserialize_AbstractFrame h T) (dataframe_val (frame_val f)) st of
        (out, v, st') \<Rightarrow> (out, \<lparr>frame_val = dataframe_of v\<rparr>, st'))"

section \<open>Frames as classes\<close>

lemma dataframe_of_val [simp]: "dataframe_of (dataframe_val fr) = fr"
  by (simp add: dataframe_of_def dataframe_val_def numeral_2_eq_2)

lemma length_fields:
  "length (fst (snd (deserialize_fields Ds vs st))) = length vs"
  by (induction Ds vs st rule: deserialize_fields.induct) (auto split: prod.splits)

lemma vfields_three:
  assumes "length vs = 3"
  shows "dataframe_val (dataframe_of (VStruct vs)) = VStruct vs"
  using assms by (auto simp: dataframe_val_def dataframe_of_def numeral_3_eq_3 numeral_2_eq_2 length_Suc_conv)

lemma serialize_dataframe:
  "Serialize_DataFrame h T fr = Serialize True h (DataFrame_ty T) (dataframe_val fr)"
  by (cases T) (simp add: Serialize_DataFrame_def dataframe_val_def Serialize_struct_def fun_eq_iff)

lemma deserialize_dataframe:
  assumes "length (vfields v) = 3"
  shows "Deserialize_DataFrame h T v st
       = Deserialize_struct (map (stream_deserialize True h) [fst T, fst (snd T), snd (snd T)]) v st"
proof -
  obtain s d e where T: "T = (s, d, e)" by (cases T)
  have v: "vfields v = [vfields v ! 0, vfields v ! 1, vfields v ! 2]"
    using assms by (auto simp: numeral_3_eq_3 numeral_2_eq_2 length_Suc_conv)
  let ?Ds = "map (stream_deserialize True h) [s, d, e]"
  obtain out vs st' where R: "deserialize_fields ?Ds (vfields v) st = (out, vs, st')" by (metis prod_cases3)
  then have "length vs = 3" using length_fields [of ?Ds "vfields v" st] assms by simp
  then show ?thesis
    using R v T by (simp add: Deserialize_DataFrame_def Deserialize_struct_def dataframe_of_def [of v] vfields_three)
qed

lemma object_dataframe:
  assumes "length (vfields v) = 3"
  shows "deserialize_object (Deserialize_DataFrame h T) v st = stream_deserialize True h (DataFrame_ty T) v st"
  using deserialize_dataframe [OF assms] by (cases T) (simp add: deserialize_object_def)

lemma object_dataframe_shape:
  assumes "length (vfields v) = 3"
  shows "\<exists>out vs st'. stream_deserialize True h (DataFrame_ty T) v st = (out, VStruct vs, st') \<and> length vs = 3"
proof -
  obtain s d e where T: "T = (s, d, e)" by (cases T)
  let ?Ds = "map (stream_deserialize True h) [s, d, e]" and ?st = "st\<lparr>level := level st + 1\<rparr>"
  obtain out vs st' where R: "deserialize_fields ?Ds (vfields v) ?st = (out, vs, st')" by (metis prod_cases3)
  then have "length vs = 3" using length_fields [of ?Ds "vfields v" ?st] assms by simp
  with R T show ?thesis
    by (auto simp: deserialize_object_def Deserialize_struct_def Let_def split: outcome.split option.split)
qed

text \<open>Through the interface a frame is read one level deeper than the class it stands for.\<close>

lemma abstract_frame_object:
  "deserialize_abstract_frame h T f st =
     (case deserialize_object (stream_deserialize True h (DataFrame_ty T)) (dataframe_val (frame_val f)) st of
        (out, v, st') \<Rightarrow> (out, \<lparr>frame_val = dataframe_of v\<rparr>, st'))"
proof -
  let ?v = "dataframe_val (frame_val f)"
  have l: "length (vfields ?v) = 3" by (simp add: dataframe_val_def)
  have "Deserialize_AbstractFrame h T ?v st' = stream_deserialize True h (DataFrame_ty T) ?v st'" for st'
  proof -
    obtain out vs st'' where R: "stream_deserialize True h (DataFrame_ty T) ?v st' = (out, VStruct vs, st'')" "length vs = 3"
      using object_dataframe_shape [OF l] by blast
    then show ?thesis
      using object_dataframe [OF l] vfields_three by (simp add: Deserialize_AbstractFrame_def Frame_deserialize_def)
  qed
  then show ?thesis by (simp add: deserialize_abstract_frame_def deserialize_object_def)
qed

abbreviation frame_typed :: "frame_ty \<Rightarrow> frame \<Rightarrow> bool" where
  "frame_typed T f \<equiv> has_ty (DataFrame_ty T) (dataframe_val (frame_val f))"

lemma frame_bytes:
  "wf_ty (DataFrame_ty T) \<Longrightarrow> frame_typed T f \<Longrightarrow>
   Serialize_AbstractFrame h T f buf = (NONE, buf @ encode True h' (DataFrame_ty T) (dataframe_val (frame_val f)))"
  using serialize_network_encode [of "DataFrame_ty T" "dataframe_val (frame_val f)" h buf h']
  by (simp add: Serialize_AbstractFrame_def Frame_serialize_def serialize_dataframe serialize_network_def)

lemma DataFrame_serial_size_struct:
  "DataFrame_serial_size T fr = Serial_size (DataFrame_ty T) (dataframe_val fr)"
  by (cases T) (simp add: dataframe_val_def)

lemma DataFrame_limits_struct:
  "DataFrame_limits T = (Min_serial_size (DataFrame_ty T), Max_serial_size (DataFrame_ty T))"
  by (cases T) simp

section \<open>Properties\<close>

text \<open>
  C21. A frame that is sent through the \<open>AbstractFrame\<close> interface is received through it by a frame
  of the same type, on any host and over any segmentation: same start, data and end, and the
  bytes behind it stay.
\<close>

theorem frame_roundtrip:
  assumes "wf_ty (DataFrame_ty T)" and "deserializable (DataFrame_ty T)" and "frame_typed T f"
    and "clean (DataFrame_ty T) (dataframe_val (frame_val old))"
    and "Serialize_AbstractFrame h T f [] = (err, bytes)" and "concat bufs = bytes @ rest"
  shows "\<exists>st'. deserialize_abstract_frame h' T old (push_views bufs StreamSerializer) = (Code NONE, f, st')
            \<and> avail st' = rest \<and> err = NONE"
proof -
  have "concat bufs = encode True h' (DataFrame_ty T) (dataframe_val (frame_val f)) @ rest" "err = NONE"
    using assms(5,6) frame_bytes [OF assms(1,3), of h "[]" h'] by auto
  then obtain st' where "deserialize_object (stream_deserialize True h' (DataFrame_ty T))
        (dataframe_val (frame_val old)) (push_views bufs StreamSerializer)
      = (Code NONE, dataframe_val (frame_val f), st')" "avail st' = rest"
    using codec.decode [OF network.called.object_codec, of "DataFrame_ty T" "dataframe_val (frame_val f)"
        "dataframe_val (frame_val old)" "push_views bufs StreamSerializer" h' rest] assms(1-4) fresh_stream by auto
  with \<open>err = NONE\<close> show ?thesis by (simp add: abstract_frame_object)
qed

theorem frame_roundtrip_witness:
  "\<exists>st'. deserialize_abstract_frame LittleHost (SizeFramedData (TInt 2)) (Frame (SizeFramedData (TInt 2)) (VInt 0) (VInt 0) VEmpty)
        (push_views [[0, 0, 0, 0, 0], [0, 0, 2, 1], [2, 99]] StreamSerializer)
      = (Code NONE, Frame (SizeFramedData (TInt 2)) (VInt 2) (VInt 258) VEmpty, st') \<and> avail st' = [99] \<and> NONE = NONE"
  by (rule frame_roundtrip [where h = BigHost and bytes = "[0, 0, 0, 0, 0, 0, 0, 2, 1, 2]"])
    (simp_all add: SizeFramedData_def dataframe_val_def Serialize_AbstractFrame_def Frame_serialize_def
      Serialize_DataFrame_def buf_defs codec_defs)

text \<open>
  Frame sizes: \<open>serial_size\<close> is the number of bytes of the frame, it lies between the limits,
  and the bytes begin with those of the start part, of which there are at least
  \<open>min_initial_size\<close>.
\<close>

lemma frame_sizes:
  assumes "wf_ty (DataFrame_ty T)" and "size_ok (DataFrame_ty T)" and "frame_typed T f"
    and "Serialize_AbstractFrame h T f [] = (err, bytes)" and "length bytes \<le> SIZE_MAX"
  shows "Frame_serial_size T f = length bytes
     \<and> fst (DataFrame_limits T) \<le> length bytes \<and> length bytes \<le> snd (DataFrame_limits T)
     \<and> (\<exists>start rest. bytes = start @ rest \<and> serialize_network h (fst T) (start_frame f) [] = (NONE, start)
          \<and> Frame_min_initial_size T \<le> length start)"
proof -
  obtain s d e where T: "T = (s, d, e)" by (cases T)
  let ?v = "dataframe_val (frame_val f)"
  have b: "bytes = encode True h (DataFrame_ty T) ?v" using assms(4) frame_bytes [OF assms(1,3), of h "[]" h] by simp
  then have a: "sizes_agree True h (DataFrame_ty T) ?v"
    using Serial_size_agrees [OF assms(1-3)] assms(5) by simp
  have st: "wf_ty s" "size_ok s" "has_ty s (start_frame f)"
    using assms(1-3) T by (auto simp: dataframe_val_def start_frame_def)
  have b': "bytes = encode True h s (start_frame f) @ encode True h d (data_frame f) @ encode True h e (end_frame f)"
    using b T by (simp add: dataframe_val_def start_frame_def data_frame_def end_frame_def)
  then have "sizes_agree True h s (start_frame f)"
    using Serial_size_agrees [OF st] assms(5) by simp
  then have "Frame_min_initial_size T \<le> length (encode True h s (start_frame f))"
    using T by (simp add: Frame_min_initial_size_def sizes_agree_def)
  moreover have "serialize_network h (fst T) (start_frame f) [] = (NONE, encode True h s (start_frame f))"
    using T serialize_network_encode [OF st(1,3), of h "[]" h] by simp
  moreover have "Frame_serial_size T f = length bytes" "fst (DataFrame_limits T) \<le> length bytes"
      "length bytes \<le> snd (DataFrame_limits T)"
    using a b unfolding Frame_serial_size_def DataFrame_serial_size_struct DataFrame_limits_struct sizes_agree_def
    by (simp_all del: encode.simps Serial_size.simps Min_serial_size.simps Max_serial_size.simps)
  ultimately show ?thesis using b' by blast
qed

end
