(* ===== verification/Calendar.thy ===== *)
theory Calendar
  imports Prelude
begin

text \<open>
  The calendar part of \<open>std::chrono\<close> that \<open>types/time_interval.h\<close> is written with: years, months
  and days of the proleptic Gregorian calendar, the conversion between dates and day numbers
  (\<open>sys_days\<close>, counted from 1970-01-01), and the arithmetic of \<open>year_month_day\<close>. Years are stored in
  16 bits, months and days in 8 bits, as libstdc++ does; a date whose day is past the end of its
  month is allowed and counts on from the first of the month.

  The lemmas show that the two conversions are inverse to each other and that the day number grows
  with the date.
\<close>

section \<open>Fixed width signed integers\<close>

text \<open>Conversion to \<open>int8_t\<close>, \<open>int16_t\<close>, \<open>int32_t\<close>: reduction to the range of the type.\<close>

definition s8 :: "int \<Rightarrow> int" where
  "s8 x = signed_take_bit 7 x"

definition s16 :: "int \<Rightarrow> int" where
  "s16 x = signed_take_bit 15 x"

definition s32 :: "int \<Rightarrow> int" where
  "s32 x = signed_take_bit 31 x"

definition in_int8 :: "int \<Rightarrow> bool" where
  "in_int8 x \<longleftrightarrow> - 128 \<le> x \<and> x \<le> 127"

definition in_int16 :: "int \<Rightarrow> bool" where
  "in_int16 x \<longleftrightarrow> - 32768 \<le> x \<and> x \<le> 32767"

definition in_int32 :: "int \<Rightarrow> bool" where
  "in_int32 x \<longleftrightarrow> - 2147483648 \<le> x \<and> x \<le> 2147483647"

lemma s8_id [simp]: "in_int8 x \<Longrightarrow> s8 x = x"
  unfolding s8_def in_int8_def by (rule signed_take_bit_int_eq_self) auto

lemma s16_id [simp]: "in_int16 x \<Longrightarrow> s16 x = x"
  unfolding s16_def in_int16_def by (rule signed_take_bit_int_eq_self) auto

lemma s32_id [simp]: "in_int32 x \<Longrightarrow> s32 x = x"
  unfolding s32_def in_int32_def by (rule signed_take_bit_int_eq_self) auto

lemma in_int8_s8 [simp]: "in_int8 (s8 x)"
  using signed_take_bit_int_greater_eq_minus_exp [of 7 x] signed_take_bit_int_less_exp [of 7 x]
  by (simp add: s8_def in_int8_def)

lemma in_int16_s16 [simp]: "in_int16 (s16 x)"
  using signed_take_bit_int_greater_eq_minus_exp [of 15 x] signed_take_bit_int_less_exp [of 15 x]
  by (simp add: s16_def in_int16_def)

section \<open>Dates\<close>

record ymd =
  year :: int
  month :: int
  day :: int

definition is_leap :: "int \<Rightarrow> bool" where
  "is_leap y \<longleftrightarrow> y mod 4 = 0 \<and> (y mod 100 \<noteq> 0 \<or> y mod 400 = 0)"

definition last_day :: "int \<Rightarrow> int \<Rightarrow> int" where
  "last_day y m =
     (if m = 2 then (if is_leap y then 29 else 28)
      else if m = 4 \<or> m = 6 \<or> m = 9 \<or> m = 11 then 30 else 31)"

text \<open>\<open>year_month_day::ok\<close>, without the bound on the year.\<close>

definition ymd_ok :: "ymd \<Rightarrow> bool" where
  "ymd_ok d \<longleftrightarrow> 1 \<le> month d \<and> month d \<le> 12 \<and> 1 \<le> day d \<and> day d \<le> last_day (year d) (month d)"

text \<open>
  Years that start on the first of March: the year, and the number of the month in it. The days
  before such a year and the days before a month in it.
\<close>

definition march_year :: "ymd \<Rightarrow> int" where
  "march_year d = (if month d \<le> 2 then year d - 1 else year d)"

definition march_month :: "ymd \<Rightarrow> int" where
  "march_month d = (if month d \<le> 2 then month d + 9 else month d - 3)"

definition days_before_year :: "int \<Rightarrow> int" where
  "days_before_year y = 365 * y + y div 4 - y div 100 + y div 400"

definition days_before_month :: "int \<Rightarrow> int" where
  "days_before_month mp = (153 * mp + 2) div 5"

text \<open>\<open>sys_days(ymd)\<close>: the day number of a date.\<close>

definition sys_days :: "ymd \<Rightarrow> int" where
  "sys_days d = days_before_year (march_year d) + days_before_month (march_month d) + day d - 1 - 719468"

text \<open>
  \<open>year_month_day(sys_days)\<close>: the date of a day number. The number of days since 0000-03-01 is split
  by 400, 100, 4 and 1 years into a year and a day in it.
\<close>

definition year_and_day :: "int \<Rightarrow> int \<times> int" where
  "year_and_day z =
     (let era = z div 146097; r = z mod 146097;
          c = min 3 (r div 36524); r1 = r - c * 36524;
          q = r1 div 1461; r2 = r1 mod 1461;
          k = min 3 (r2 div 365)
      in (400 * era + 100 * c + 4 * q + k, r2 - k * 365))"

definition ymd_of_days :: "int \<Rightarrow> ymd" where
  "ymd_of_days n =
     (case year_and_day (n + 719468) of
        (y, doy) \<Rightarrow>
          let mp = (5 * doy + 2) div 153; m = (if mp < 10 then mp + 3 else mp - 9)
          in \<lparr>year = (if m \<le> 2 then y + 1 else y), month = m, day = doy - days_before_month mp + 1\<rparr>)"

text \<open>The arithmetic of \<open>year\<close>, \<open>month\<close>, \<open>day\<close> and of \<open>year_month_day\<close> with months and years.\<close>

definition year_plus :: "int \<Rightarrow> int \<Rightarrow> int" where
  "year_plus y n = s16 (y + n)"

definition month_plus :: "int \<Rightarrow> int \<Rightarrow> int" where
  "month_plus m n = (m - 1 + n) mod 12 + 1"

definition day_plus :: "int \<Rightarrow> int \<Rightarrow> int" where
  "day_plus d n = (d + n) mod 256"

definition ymd_add_months :: "ymd \<Rightarrow> int \<Rightarrow> ymd" where
  "ymd_add_months d n =
     d\<lparr>year := year_plus (year d) ((month d - 1 + n) div 12), month := month_plus (month d) n\<rparr>"

definition ymd_add_years :: "ymd \<Rightarrow> int \<Rightarrow> ymd" where
  "ymd_add_years d n = d\<lparr>year := year_plus (year d) n\<rparr>"

definition ymd_less :: "ymd \<Rightarrow> ymd \<Rightarrow> bool" where
  "ymd_less a b \<longleftrightarrow>
     (if year a \<noteq> year b then year a < year b
      else if month a \<noteq> month b then month a < month b else day a < day b)"

text \<open>A time point with a precision of seconds: its date and its time of day.\<close>

definition floor_days :: "int \<Rightarrow> int" where
  "floor_days tp = tp div 86400"

definition date_of :: "int \<Rightarrow> ymd" where
  "date_of tp = ymd_of_days (floor_days tp)"

definition time_of_day :: "int \<Rightarrow> int" where
  "time_of_day tp = tp - 86400 * floor_days tp"

lemmas ymd_defs = sys_days_def ymd_of_days_def year_and_day_def days_before_year_def days_before_month_def
  march_year_def march_month_def last_day_def is_leap_def

section \<open>The conversions are inverse\<close>

lemma year_split:
  fixes e :: int
  assumes "0 \<le> c" "c \<le> 3" "0 \<le> q" "q \<le> 24" "0 \<le> k" "k \<le> 3"
  defines "y \<equiv> 400 * e + 100 * c + 4 * q + k"
  shows "days_before_year y = 146097 * e + 36524 * c + 1461 * q + 365 * k"
proof -
  have "y div 4 = 100 * e + 25 * c + q" "y div 100 = 4 * e + c" "y div 400 = e"
    using assms by (auto simp: y_def)
  then show ?thesis by (simp add: days_before_year_def y_def)
qed

lemma month_of_day:
  fixes doy :: int
  assumes "0 \<le> doy" "doy \<le> 365"
  defines "mp \<equiv> (5 * doy + 2) div 153"
  shows "0 \<le> mp" and "mp \<le> 11" and "days_before_month mp \<le> doy" and "doy < days_before_month (mp + 1)"
  using assms by (auto simp: mp_def days_before_month_def)


text \<open>The last day of a year that starts in March is the end of the next February.\<close>

definition last_doy :: "int \<Rightarrow> int" where
  "last_doy y = (if is_leap (y + 1) then 365 else 364)"

lemma mod_0_upto: "0 < x \<Longrightarrow> x \<le> n \<Longrightarrow> x mod n = 0 \<longleftrightarrow> x = n" for x n :: int
  using mod_pos_pos_trivial [of x n] by (cases "x = n") auto

lemma last_doy_split:
  fixes e :: int
  assumes "0 \<le> c" "c \<le> 3" "0 \<le> q" "q \<le> 24" "0 \<le> k" "k \<le> 3"
  shows "last_doy (400 * e + 100 * c + 4 * q + k) = (if k = 3 \<and> (q \<noteq> 24 \<or> c = 3) then 365 else 364)"
proof -
  let ?y = "400 * e + 100 * c + 4 * q + k + 1"
  have "?y mod 4 = (4 * (100 * e + 25 * c + q) + (k + 1)) mod 4" by (simp add: algebra_simps)
  then have "?y mod 4 = (k + 1) mod 4" by (simp only: mod_mult_self4)
  then have 4: "?y mod 4 = 0 \<longleftrightarrow> k = 3" using assms(5,6) by presburger
  have "?y mod 100 = (100 * (4 * e + c) + (4 * q + k + 1)) mod 100" by (simp add: algebra_simps)
  then have "?y mod 100 = (4 * q + k + 1) mod 100" by (simp only: mod_mult_self4)
  moreover have "(4 * q + k + 1) mod 100 = 0 \<longleftrightarrow> 4 * q + k + 1 = 100"
    using assms(3-6) by (intro mod_0_upto) simp_all
  moreover have "4 * q + k + 1 = 100 \<longleftrightarrow> k = 3 \<and> q = 24" using assms(3-6) by presburger
  ultimately have 100: "?y mod 100 = 0 \<longleftrightarrow> k = 3 \<and> q = 24" by simp
  have "?y mod 400 = (400 * e + (100 * c + 4 * q + k + 1)) mod 400" by (simp add: algebra_simps)
  then have "?y mod 400 = (100 * c + 4 * q + k + 1) mod 400" by (simp only: mod_mult_self4)
  moreover have "(100 * c + 4 * q + k + 1) mod 400 = 0 \<longleftrightarrow> 100 * c + 4 * q + k + 1 = 400"
    using assms by (intro mod_0_upto) simp_all
  moreover have "100 * c + 4 * q + k + 1 = 400 \<longleftrightarrow> k = 3 \<and> q = 24 \<and> c = 3" using assms by linarith
  ultimately have 400: "?y mod 400 = 0 \<longleftrightarrow> k = 3 \<and> q = 24 \<and> c = 3" by simp
  show ?thesis using 4 100 400 by (auto simp: last_doy_def is_leap_def)
qed

lemma year_and_day_split:
  assumes "0 \<le> c" "c \<le> 3" "0 \<le> q" "q \<le> 24" "0 \<le> k" "k \<le> 3"
    and "0 \<le> doy" "doy \<le> (if k = 3 \<and> (q \<noteq> 24 \<or> c = 3) then 365 else 364)"
  shows "year_and_day (146097 * e + 36524 * c + 1461 * q + 365 * k + doy) = (400 * e + 100 * c + 4 * q + k, doy)"
proof -
  let ?r = "36524 * c + 1461 * q + 365 * k + doy"
  have z: "146097 * e + 36524 * c + 1461 * q + 365 * k + doy = 146097 * e + ?r" by simp
  have r: "0 \<le> ?r" "?r < 146097" using assms by (auto split: if_splits)
  then have era: "(146097 * e + ?r) div 146097 = e" "(146097 * e + ?r) mod 146097 = ?r"
    by simp_all
  have r1: "0 \<le> 1461 * q + 365 * k + doy" "1461 * q + 365 * k + doy \<le> (if c = 3 then 36524 else 36523)"
    using assms by (auto split: if_splits)
  have c: "min 3 (?r div 36524) = c"
    using r1 assms(1,2) by (auto split: if_splits)
  have r2: "0 \<le> 365 * k + doy" "365 * k + doy < 1461" using assms by (auto split: if_splits)
  then have q: "(1461 * q + (365 * k + doy)) div 1461 = q" "(1461 * q + (365 * k + doy)) mod 1461 = 365 * k + doy"
    by simp_all
  have k: "min 3 ((365 * k + doy) div 365) = k"
    using assms(5-8) by (auto split: if_splits)
  show ?thesis
    unfolding year_and_day_def Let_def z era c using q k by (simp add: algebra_simps)
qed

lemma year_cases:
  fixes y :: int
  obtains e c q k where "y = 400 * e + 100 * c + 4 * q + k" "0 \<le> c" "c \<le> 3" "0 \<le> q" "q \<le> 24" "0 \<le> k" "k \<le> 3"
proof
  let ?r = "y mod 400"
  have r: "0 \<le> ?r" "?r \<le> 399" using pos_mod_bound [of 400 y] by auto
  show "y = 400 * (y div 400) + 100 * (?r div 100) + 4 * (?r mod 100 div 4) + ?r mod 100 mod 4"
    by simp
  show "0 \<le> ?r div 100" "?r div 100 \<le> 3" using r by auto
  show "0 \<le> ?r mod 100 div 4" "?r mod 100 div 4 \<le> 24" using pos_mod_bound [of 100 ?r] pos_mod_sign [of 100 ?r] by auto
  show "0 \<le> ?r mod 100 mod 4" "?r mod 100 mod 4 \<le> 3" using pos_mod_bound [of 4 "?r mod 100"] by auto
qed

lemma year_and_day_of_date:
  assumes "0 \<le> doy" "doy \<le> last_doy y"
  shows "year_and_day (days_before_year y + doy) = (y, doy)"
proof (rule year_cases [of y])
  fix e c q k :: int
  assume y: "y = 400 * e + 100 * c + 4 * q + k"
    and b: "0 \<le> c" "c \<le> 3" "0 \<le> q" "q \<le> 24" "0 \<le> k" "k \<le> 3"
  show ?thesis
    using year_and_day_split [OF b, of doy e] assms
    unfolding y year_split [OF b] last_doy_split [OF b] by simp
qed

lemma days_before_next_year: "days_before_year (y + 1) = days_before_year y + last_doy y + 1"
proof -
  have div_step: "(y + 1) div n = y div n + (if (y + 1) mod n = 0 then 1 else 0)" if "1 < n" for n :: int
  proof -
    have "(y + 1) div n = (y mod n + 1 + y div n * n) div n" by (simp add: algebra_simps)
    also have "\<dots> = y div n + (y mod n + 1) div n" by (subst div_mult_self1) (use that in auto)
    finally have "(y + 1) div n = y div n + (y mod n + 1) div n" .
    moreover have "(y + 1) mod n = (y mod n + 1) mod n" by (simp add: mod_add_left_eq)
    moreover have "0 < y mod n + 1" "y mod n + 1 \<le> n"
      using that pos_mod_bound [of n y] pos_mod_sign [of n y] by linarith+
    ultimately show ?thesis
      using that mod_0_upto [of "y mod n + 1" n] div_pos_pos_trivial [of "y mod n + 1" n]
      by (cases "y mod n + 1 = n") simp_all
  qed
  have "(y + 1) mod 100 = 0 \<Longrightarrow> (y + 1) mod 4 = 0" "(y + 1) mod 400 = 0 \<Longrightarrow> (y + 1) mod 100 = 0"
    using dvd_trans [of 4 100 "y + 1"] dvd_trans [of 100 400 "y + 1"] by (auto simp: dvd_eq_mod_eq_0)
  moreover define v4 v100 v400 where "v4 = y div 4" and "v100 = y div 100" and "v400 = y div 400"
  moreover define b4 b100 b400 where "b4 \<longleftrightarrow> (y + 1) mod 4 = 0" and "b100 \<longleftrightarrow> (y + 1) mod 100 = 0"
    and "b400 \<longleftrightarrow> (y + 1) mod 400 = 0"
  ultimately have b: "b100 \<Longrightarrow> b4" "b400 \<Longrightarrow> b100"
    and d: "days_before_year (y + 1) = 365 * (y + 1) + (v4 + (if b4 then 1 else 0)) -
      (v100 + (if b100 then 1 else 0)) + (v400 + (if b400 then 1 else 0))"
      "days_before_year y = 365 * y + v4 - v100 + v400"
      "last_doy y = (if b4 \<and> (\<not> b100 \<or> b400) then 365 else 364)"
    by (simp_all only: days_before_year_def last_doy_def is_leap_def div_step)
  then show ?thesis by (cases b4; cases b100; cases b400) simp_all
qed

text \<open>Every day number is a day of some year.\<close>

lemma year_and_day_surj:
  assumes "year_and_day z = (y, doy)"
  shows "z = days_before_year y + doy" and "0 \<le> doy" and "doy \<le> last_doy y"
proof -
  define e r where "e = z div 146097" and "r = z mod 146097"
  define c r1 where "c = min 3 (r div 36524)" and "r1 = r - c * 36524"
  define q r2 where "q = r1 div 1461" and "r2 = r1 mod 1461"
  define k where "k = min 3 (r2 div 365)"
  have yd: "y = 400 * e + 100 * c + 4 * q + k" "doy = r2 - k * 365"
    using assms
    by (simp_all only: year_and_day_def Let_def e_def r_def c_def r1_def q_def r2_def k_def prod.inject)
  have z: "z = 146097 * e + r" "0 \<le> r" "r < 146097"
    by (simp_all add: e_def r_def)
  have c: "0 \<le> c" "c \<le> 3" "0 \<le> r1" "r1 \<le> (if c = 3 then 36524 else 36523)"
    using z(2,3) by (auto simp: c_def r1_def min_def)
  have r1: "r1 = 1461 * q + r2" "0 \<le> r2" "r2 \<le> 1460"
    by (auto simp: q_def r2_def pos_mod_bound zle_diff1_eq [symmetric])
  have q: "0 \<le> q" "q \<le> 24" using c(3,4) by (auto simp: q_def split: if_splits)
  have k: "0 \<le> k" "k \<le> 3" "0 \<le> doy" "k \<noteq> 3 \<longrightarrow> doy \<le> 364" "doy \<le> 365"
    using r1(2,3) by (auto simp: yd k_def min_def)
  have doy: "doy \<le> (if k = 3 \<and> (q \<noteq> 24 \<or> c = 3) then 365 else 364)"
    using k c r1 q yd(2) by (auto split: if_splits)
  show "z = days_before_year y + doy"
    unfolding yd(1) year_split [OF c(1,2) q k(1,2)] using z(1) r1(1) yd(2) by (simp add: r1_def)
  show "0 \<le> doy" by (fact k(3))
  show "doy \<le> last_doy y" unfolding yd(1) last_doy_split [OF c(1,2) q k(1,2)] by (fact doy)
qed

text \<open>The day in the year that starts in March, of a date; and the month of such a day.\<close>

lemma month_cases: "1 \<le> m \<Longrightarrow> m \<le> 12 \<Longrightarrow> m \<in> {1,2,3,4,5,6,7,8,9,10,11,12}" for m :: int
  by (simp, presburger)

lemma month_lengths:
  assumes "1 \<le> month d" "month d \<le> 12"
  defines "mp \<equiv> march_month d"
  shows "days_before_month mp + last_day y (month d) \<le> days_before_month (mp + 1)"
    and "month d \<noteq> 2 \<Longrightarrow> days_before_month (mp + 1) = days_before_month mp + last_day y (month d)"
    and "month d \<noteq> 2 \<Longrightarrow> days_before_month (mp + 1) \<le> 337"
    and "0 \<le> days_before_month mp"
  using month_cases [OF assms(1,2)]
  by (auto simp: mp_def days_before_month_def march_month_def last_day_def)

lemma month_of_doy:
  assumes "days_before_month mp \<le> doy" "doy < days_before_month (mp + 1)"
  shows "(5 * doy + 2) div 153 = mp"
proof -
  have "153 * mp \<le> 5 * doy + 2" "5 * doy + 2 < 153 * mp + 153"
    using assms by (simp_all add: days_before_month_def)
  then show ?thesis by simp
qed

lemma doy_bounds:
  assumes "ymd_ok d"
  defines "doy \<equiv> days_before_month (march_month d) + day d - 1"
  shows "0 \<le> doy" and "doy \<le> last_doy (march_year d)" and "(5 * doy + 2) div 153 = march_month d"
proof -
  have m: "1 \<le> month d" "month d \<le> 12" and d: "1 \<le> day d" "day d \<le> last_day (year d) (month d)"
    using assms(1) by (simp_all add: ymd_ok_def)
  note len = month_lengths(1,2) [OF m, of "year d"] month_lengths(3,4) [OF m]
  show "0 \<le> doy" using len(4) d(1) by (simp add: doy_def)
  show "(5 * doy + 2) div 153 = march_month d"
    by (rule month_of_doy) (use len(1) d in \<open>simp_all add: doy_def\<close>)
  show "doy \<le> last_doy (march_year d)"
  proof (cases "month d = 2")
    case True
    then have "doy \<le> 336 + last_day (year d) 2" using d(2) by (simp add: doy_def days_before_month_def march_month_def)
    then show ?thesis using True by (simp add: last_doy_def march_year_def last_day_def split: if_splits)
  next
    case False
    then show ?thesis using len(2,3) d(2) by (simp add: doy_def last_doy_def)
  qed
qed

text \<open>A date goes to its day number and back, and a day number to its date and back.\<close>

lemma ymd_of_sys_days:
  assumes "ymd_ok d"
  shows "ymd_of_days (sys_days d) = d"
proof -
  define doy where "doy = days_before_month (march_month d) + day d - 1"
  note b = doy_bounds [OF assms, folded doy_def]
  have "sys_days d + 719468 = days_before_year (march_year d) + doy" by (simp add: sys_days_def doy_def)
  then have "year_and_day (sys_days d + 719468) = (march_year d, doy)"
    by (simp add: year_and_day_of_date [OF b(1,2)])
  then have "ymd_of_days (sys_days d) =
      (let mp = march_month d; m = (if mp < 10 then mp + 3 else mp - 9)
       in \<lparr>year = (if m \<le> 2 then march_year d + 1 else march_year d), month = m, day = day d\<rparr>)"
    by (simp only: ymd_of_days_def prod.case b(3) Let_def) (simp add: doy_def)
  moreover have "1 \<le> month d" "month d \<le> 12" using assms by (simp_all add: ymd_ok_def)
  ultimately show ?thesis
    by (cases "month d \<le> 2") (simp_all add: Let_def march_month_def march_year_def)
qed

lemma ymd_of_days:
  shows sys_days_of_days: "sys_days (ymd_of_days n) = n" and ymd_of_days_ok: "ymd_ok (ymd_of_days n)"
proof -
  obtain y doy where yd: "year_and_day (n + 719468) = (y, doy)" by fastforce
  note s = year_and_day_surj [OF yd]
  have "doy \<le> 365" using s(3) by (simp add: last_doy_def split: if_splits)
  define mp where "mp = (5 * doy + 2) div 153"
  note mp = month_of_day [OF s(2) \<open>doy \<le> 365\<close>, folded mp_def]
  define d where "d = ymd_of_days n"
  have d: "month d = (if mp < 10 then mp + 3 else mp - 9)" "day d = doy - days_before_month mp + 1"
    "year d = (if mp < 10 then y else y + 1)"
    using mp by (auto simp: d_def ymd_of_days_def yd mp_def Let_def)
  then have m: "march_month d = mp" "march_year d = y" "1 \<le> month d" "month d \<le> 12"
    using mp by (auto simp: march_month_def march_year_def)
  show "sys_days (ymd_of_days n) = n"
    using s(1) d(2) m unfolding d_def [symmetric] by (simp add: sys_days_def)
  have "day d \<le> last_day (year d) (month d)"
  proof (cases "month d = 2")
    case True
    then have "mp = 11" "year d = y + 1" using d mp by (auto split: if_splits)
    then show ?thesis using d(2) s(3) True by (simp add: days_before_month_def last_day_def last_doy_def split: if_splits)
  next
    case False
    then show ?thesis using month_lengths(2) [OF m(3,4), of "year d"] mp(4) d(2) m(1) by simp
  qed
  then show "ymd_ok (ymd_of_days n)" using m d(2) mp(3) by (simp add: ymd_ok_def d_def [symmetric])
qed

section \<open>Day numbers grow with the date\<close>

definition month_index :: "ymd \<Rightarrow> int" where
  "month_index d = 12 * year d + (month d - 1)"

definition month_start :: "int \<Rightarrow> int" where
  "month_start k = sys_days \<lparr>year = k div 12, month = k mod 12 + 1, day = 1\<rparr>"

lemma sys_days_month:
  assumes "1 \<le> month d" "month d \<le> 12"
  shows "sys_days d = month_start (month_index d) + day d - 1"
proof -
  have "month_index d div 12 = year d" "month_index d mod 12 = month d - 1"
    using assms by (simp_all add: month_index_def)
  then show ?thesis by (simp add: month_start_def sys_days_def march_year_def march_month_def)
qed

lemma month_start_step:
  assumes "k div 12 = y" "k mod 12 = m"
  shows "month_start (k + 1) = month_start k + last_day y (m + 1)"
proof -
  have m: "0 \<le> m" "m \<le> 11" using assms(2) pos_mod_bound [of 12 k] pos_mod_sign [of 12 k] by auto
  have next_m: "(k + 1) div 12 = (if m = 11 then y + 1 else y)" "(k + 1) mod 12 = (if m = 11 then 0 else m + 1)"
  proof -
    have "k + 1 = (if m = 11 then 12 * (y + 1) else 12 * y + (m + 1))"
      using assms mult_div_mod_eq [of 12 k] by auto
    then show "(k + 1) div 12 = (if m = 11 then y + 1 else y)" "(k + 1) mod 12 = (if m = 11 then 0 else m + 1)"
      using m by simp_all
  qed
  have y: "days_before_year y = days_before_year (y - 1) + (if is_leap y then 366 else 365)"
    using days_before_next_year [of "y - 1"] by (simp add: last_doy_def)
  have "m = 0 \<or> m = 1 \<or> m = 2 \<or> m = 3 \<or> m = 4 \<or> m = 5 \<or> m = 6 \<or> m = 7 \<or> m = 8 \<or> m = 9 \<or> m = 10 \<or> m = 11"
    using m by presburger
  then show ?thesis
    unfolding month_start_def sys_days_def assms next_m march_year_def march_month_def
      days_before_month_def last_day_def
    by (elim disjE) (simp_all add: y)
qed

lemma month_start_mono: "k \<le> l \<Longrightarrow> month_start k + 28 * (l - k) \<le> month_start l"
proof (induction l rule: int_ge_induct)
  case (step l)
  have "28 \<le> last_day (l div 12) (l mod 12 + 1)" by (simp add: last_day_def)
  then show ?case using step.IH month_start_step [of l, OF refl refl] by simp
qed simp

lemma day_within_month:
  assumes "ymd_ok d"
  shows "month_start (month_index d) \<le> sys_days d" and "sys_days d < month_start (month_index d + 1)"
proof -
  have m: "1 \<le> month d" "month d \<le> 12" and d: "1 \<le> day d" "day d \<le> last_day (year d) (month d)"
    using assms by (simp_all add: ymd_ok_def)
  have i: "month_index d div 12 = year d" "month_index d mod 12 = month d - 1"
    using m by (simp_all add: month_index_def)
  show "month_start (month_index d) \<le> sys_days d" "sys_days d < month_start (month_index d + 1)"
    using d month_start_step [OF i] sys_days_month [OF m] by simp_all
qed

lemma sys_days_less:
  assumes "ymd_ok a" "ymd_ok b"
  shows "sys_days a < sys_days b \<longleftrightarrow>
    month_index a < month_index b \<or> month_index a = month_index b \<and> day a < day b"
proof -
  have *: "sys_days x < sys_days z" if "ymd_ok x" "ymd_ok z" "month_index x < month_index z" for x z
  proof -
    have "month_start (month_index x + 1) \<le> month_start (month_index z)"
      using month_start_mono [OF zless_imp_add1_zle [OF that(3)]] that(3) by simp
    then show ?thesis
      using day_within_month(2) [OF that(1)] day_within_month(1) [OF that(2)] by simp
  qed
  show ?thesis
    using *[OF assms] * [OF assms(2,1)] assms sys_days_month [of a] sys_days_month [of b]
    by (cases "month_index a" "month_index b" rule: linorder_cases) (auto simp: ymd_ok_def)
qed

lemma sys_days_add_months:
  assumes "1 \<le> month d" "month d \<le> 12" "in_int16 ((month_index d + n) div 12)"
  shows "sys_days (ymd_add_months d n) = month_start (month_index d + n) + day d - 1"
proof -
  have y: "year d + (month d - 1 + n) div 12 = (month_index d + n) div 12"
    by (simp add: month_index_def algebra_simps)
  have m: "(month d - 1 + n) mod 12 = (month_index d + n) mod 12"
    using mod_mult_self4 [of 12 "year d" "month d - 1 + n"] by (simp add: month_index_def algebra_simps)
  show ?thesis
    using assms y m
    by (subst sys_days_month)
      (simp_all add: ymd_add_months_def year_plus_def month_plus_def month_index_def)
qed

text \<open>The date and the time of day of a time point, and the time point from them.\<close>

lemma date_time_split: "tp = 86400 * sys_days (date_of tp) + time_of_day tp"
  by (simp add: date_of_def time_of_day_def sys_days_of_days)

lemma time_of_day_bounds: "0 \<le> time_of_day tp" "time_of_day tp < 86400"
  by (simp_all add: time_of_day_def floor_days_def minus_mult_div_eq_mod)

lemma ymd_ok_date_of [simp]: "ymd_ok (date_of tp)"
  by (simp add: date_of_def ymd_of_days_ok)

end
