(* ===== verification/Double.thy ===== *)
theory Double
  imports Complex_Main "HOL-Library.Signed_Division"
begin

text \<open>
  The \<open>double\<close> arithmetic that \<open>types/time_interval.h\<close> divides with. A finite \<open>double\<close> is the rational
  number it stands for; every operation yields the exact result rounded to 53 significant bits, to
  the nearest and to even when two are equally near. The quantities divided are counts of seconds and
  months, so that neither overflow nor underflow of the exponent occurs.

  The lemmas bound the rounding error and show that a rounded quotient of integers truncates to the
  integer quotient and is integral exactly when the division has no remainder.
\<close>

type_synonym dbl = rat

definition round_even :: "rat \<Rightarrow> int" where
  "round_even y =
     (let f = \<lfloor>y\<rfloor>; r = y - of_int f
      in if r < 1 / 2 then f else if 1 / 2 < r then f + 1 else if even f then f else f + 1)"

text \<open>The exponent of the last of 53 bits: doubled or halved until 53 bits stand before the point.\<close>

function scale_up :: "rat \<Rightarrow> nat \<Rightarrow> nat" where
  "scale_up x n = (if x * 2 ^ n < 2 ^ 52 \<and> 0 < x then scale_up x (n + 1) else n)"
  by auto

function scale_down :: "rat \<Rightarrow> nat \<Rightarrow> nat" where
  "scale_down x n = (if 2 ^ 53 \<le> x / 2 ^ n then scale_down x (n + 1) else n)"
  by auto

lemma scale_up_measure:
  fixes x :: rat
  assumes "0 < x" "x * 2 ^ n < 2 ^ 52"
  shows "nat \<lceil>2 ^ 52 / (x * 2 ^ n)\<rceil> > nat \<lceil>2 ^ 52 / (x * 2 ^ (n + 1))\<rceil>"
proof -
  define q where "q = 2 ^ 52 / (x * 2 ^ n)"
  have "q > 1" using assms by (simp add: q_def field_simps)
  moreover have "2 ^ 52 / (x * 2 ^ (n + 1)) = q / 2" by (simp add: q_def)
  moreover have "\<lceil>q / 2\<rceil> < \<lceil>q\<rceil>"
  proof -
    have "1 < \<lceil>q\<rceil>" using \<open>q > 1\<close> by (simp only: less_ceiling_iff of_int_1)
    then have "2 \<le> \<lceil>q\<rceil>" by simp
    have "q \<le> of_int \<lceil>q\<rceil>" by simp
    then have "q / 2 \<le> of_int \<lceil>q\<rceil> / 2" by simp
    also have "\<dots> \<le> of_int (\<lceil>q\<rceil> - 1)" using \<open>2 \<le> \<lceil>q\<rceil>\<close> by simp
    finally have "\<lceil>q / 2\<rceil> \<le> \<lceil>q\<rceil> - 1" by (simp only: ceiling_le_iff)
    then show ?thesis by simp
  qed
  ultimately show ?thesis by (simp only: q_def [symmetric]) simp
qed

lemma scale_down_measure:
  fixes x :: rat
  assumes "2 ^ 53 \<le> x / 2 ^ n"
  shows "nat \<lfloor>x / 2 ^ n\<rfloor> > nat \<lfloor>x / 2 ^ (n + 1)\<rfloor>"
proof -
  define q where "q = x / 2 ^ n"
  have "2 \<le> \<lfloor>q\<rfloor>" using assms by (simp add: q_def le_floor_iff)
  have "q / 2 < of_int \<lfloor>q\<rfloor>"
    using floor_correct [of q] \<open>2 \<le> \<lfloor>q\<rfloor>\<close> of_int_le_iff [of 2 "\<lfloor>q\<rfloor>", where 'a = rat] by simp
  then have "\<lfloor>q / 2\<rfloor> < \<lfloor>q\<rfloor>" by (simp add: floor_less_iff)
  moreover have "x / 2 ^ (n + 1) = q / 2" by (simp add: q_def)
  ultimately show ?thesis using \<open>2 \<le> \<lfloor>q\<rfloor>\<close> by (simp only: q_def [symmetric])
qed

termination scale_up
  by (relation "measure (\<lambda>(x, n). nat \<lceil>2 ^ 52 / (x * 2 ^ n)\<rceil>)") (use scale_up_measure in auto)

termination scale_down
  by (relation "measure (\<lambda>(x, n). nat \<lfloor>x / 2 ^ n\<rfloor>)") (use scale_down_measure in auto)

declare scale_up.simps [simp del] scale_down.simps [simp del]

definition round_dbl :: "rat \<Rightarrow> dbl" where
  "round_dbl x =
     (if \<bar>x\<bar> < 2 ^ 53
      then let k = scale_up \<bar>x\<bar> 0 in of_int (round_even (x * 2 ^ k)) / 2 ^ k
      else let k = scale_down \<bar>x\<bar> 0 in of_int (round_even (x / 2 ^ k)) * 2 ^ k)"

text \<open>
  Conversion of a \<open>double\<close> to an integer type drops the fraction; the result is defined only when it
  fits the type (\<open>None\<close> otherwise). \<open>is_integer\<close> is the lambda of the source: the fraction of the
  absolute value is less than \<open>epsilon\<close>, which is \<open>2\<^sup>-\<^sup>5\<^sup>2\<close>.
\<close>

definition trunc :: "dbl \<Rightarrow> int" where
  "trunc x = (if 0 \<le> x then \<lfloor>x\<rfloor> else \<lceil>x\<rceil>)"

definition dbl_to :: "(int \<Rightarrow> bool) \<Rightarrow> dbl \<Rightarrow> int option" where
  "dbl_to in_type x = (if in_type (trunc x) then Some (trunc x) else None)"

text \<open>\<open>static_cast<double>(a) / b\<close> for integers, and the other operations.\<close>

definition dbl_of :: "int \<Rightarrow> dbl" where
  "dbl_of a = round_dbl (of_int a)"

definition fdiv :: "dbl \<Rightarrow> dbl \<Rightarrow> dbl" where
  "fdiv x y = round_dbl (x / y)"

definition fsub :: "dbl \<Rightarrow> dbl \<Rightarrow> dbl" where
  "fsub x y = round_dbl (x - y)"

definition fmul :: "dbl \<Rightarrow> dbl \<Rightarrow> dbl" where
  "fmul x y = round_dbl (x * y)"

definition dbl_div :: "int \<Rightarrow> int \<Rightarrow> dbl" where
  "dbl_div a b = fdiv (dbl_of a) (dbl_of b)"

definition dbl_epsilon :: dbl where
  "dbl_epsilon = 1 / 2 ^ 52"

definition is_integer :: "dbl \<Rightarrow> bool" where
  "is_integer x \<longleftrightarrow> frac \<bar>x\<bar> < dbl_epsilon"

section \<open>Rounding\<close>

lemma round_even_error: "\<bar>of_int (round_even y) - y\<bar> \<le> 1 / 2"
  unfolding round_even_def Let_def using floor_correct [of y] by (auto simp: abs_le_iff)

lemma round_even_of_int [simp]: "round_even (of_int n) = n"
  by (simp add: round_even_def)

lemma scale_up_range:
  assumes "0 < x" "x * 2 ^ n < 2 ^ 53"
  shows "2 ^ 52 \<le> x * 2 ^ scale_up x n \<and> x * 2 ^ scale_up x n < 2 ^ 53"
  using assms
proof (induction x n rule: scale_up.induct)
  case (1 x n)
  then show ?case by (cases "x * 2 ^ n < 2 ^ 52") (subst (1 2) scale_up.simps, simp)+
qed

lemma scale_down_range:
  assumes "2 ^ 52 \<le> x / 2 ^ n"
  shows "2 ^ 52 \<le> x / 2 ^ scale_down x n \<and> x / 2 ^ scale_down x n < 2 ^ 53"
  using assms
proof (induction x n rule: scale_down.induct)
  case (1 x n)
  then show ?case by (cases "2 ^ 53 \<le> x / 2 ^ n") (subst (1 2) scale_down.simps, simp)+
qed

lemma rounded_at:
  fixes x p :: rat
  assumes "0 < p" "2 ^ 52 \<le> \<bar>x\<bar> * p"
  shows "\<bar>of_int (round_even (x * p)) / p - x\<bar> \<le> \<bar>x\<bar> / 2 ^ 53"
proof -
  have "of_int (round_even (x * p)) / p - x = (of_int (round_even (x * p)) - x * p) / p"
    using assms(1) by (simp add: field_simps)
  then have "\<bar>of_int (round_even (x * p)) / p - x\<bar> = \<bar>of_int (round_even (x * p)) - x * p\<bar> / p"
    using assms(1) by (simp only: abs_divide abs_of_pos)
  also have "\<dots> \<le> (1 / 2) / p"
    by (rule divide_right_mono) (use assms(1) round_even_error [of "x * p"] in auto)
  also have "\<dots> \<le> \<bar>x\<bar> / 2 ^ 53"
    using assms by (simp add: field_simps)
  finally show ?thesis .
qed

lemma round_dbl_error: "\<bar>round_dbl x - x\<bar> \<le> \<bar>x\<bar> / 2 ^ 53"
proof (cases "\<bar>x\<bar> < 2 ^ 53")
  case True
  show ?thesis
  proof (cases "x = 0")
    case False
    then show ?thesis
      using True scale_up_range [of "\<bar>x\<bar>" 0] rounded_at [of "2 ^ scale_up \<bar>x\<bar> 0" x]
      by (simp add: round_dbl_def Let_def)
  qed (simp add: round_dbl_def scale_up.simps round_even_def)
next
  case False
  then have "2 ^ 52 \<le> \<bar>x\<bar> / 2 ^ (0::nat)" by simp
  then show ?thesis
    using False scale_down_range [of "\<bar>x\<bar>" 0] rounded_at [of "1 / 2 ^ scale_down \<bar>x\<bar> 0" x]
    by (simp add: round_dbl_def Let_def)
qed

lemma round_dbl_of_int [simp]:
  assumes "\<bar>n\<bar> < 2 ^ 53"
  shows "round_dbl (of_int n) = of_int n"
proof -
  let ?k = "scale_up \<bar>of_int n\<bar> 0"
  have "\<bar>of_int n :: rat\<bar> < 2 ^ 53"
    using assms of_int_less_iff [of "\<bar>n\<bar>" "2 ^ 53", where 'a = rat] by simp
  moreover have "(of_int n :: rat) * 2 ^ ?k = of_int (n * 2 ^ ?k)" by simp
  ultimately show ?thesis
    unfolding round_dbl_def Let_def by (simp only: if_True round_even_of_int) simp
qed

lemma dbl_of_small [simp]: "\<bar>n\<bar> < 2 ^ 53 \<Longrightarrow> dbl_of n = of_int n"
  by (simp only: dbl_of_def round_dbl_of_int)

lemma fsub_of_int: "\<bar>m - n\<bar> < 2 ^ 53 \<Longrightarrow> fsub (of_int m) (of_int n) = of_int (m - n)"
  by (simp only: fsub_def of_int_diff [symmetric] round_dbl_of_int)

section \<open>Quotients of integers\<close>

text \<open>
  The rounded quotient lies on the same side of every integer as the exact one, and a fraction that
  is not zero stays above \<open>epsilon\<close>.
\<close>

lemma dbl_div_exact:
  assumes "0 < b" "b dvd a" "\<bar>a\<bar> < 2 ^ 53" "b < 2 ^ 53"
  shows "dbl_div a b = of_int (a div b)"
proof -
  have "(of_int a :: rat) / of_int b = of_int (a div b)" using assms(1,2) by auto
  moreover have "\<bar>a div b\<bar> \<le> \<bar>a\<bar>"
    using assms(1,2) by (auto elim!: dvdE simp: abs_mult mult_le_cancel_right1)
  ultimately show ?thesis using assms by (simp add: dbl_div_def fdiv_def)
qed

lemma dbl_div_between:
  assumes "0 < b" "\<not> b dvd a" "0 \<le> a" "a < 2 ^ 52" "b < 2 ^ 51"
  shows "of_int (a div b) + dbl_epsilon \<le> dbl_div a b" and "dbl_div a b < of_int (a div b) + 1"
proof -
  define x :: rat where "x = of_int a / of_int b"
  have b: "(0::rat) < of_int b" and a: "(0::rat) \<le> of_int a" "(of_int a :: rat) < 2 ^ 52" "(of_int b :: rat) < 2 ^ 51"
    using assms of_int_less_iff [of a "2 ^ 52", where 'a = rat] of_int_less_iff [of b "2 ^ 51", where 'a = rat]
    by simp_all
  have r: "1 \<le> a mod b" "a mod b \<le> b - 1"
  proof -
    have "a mod b \<noteq> 0" using assms(2) by (simp add: dvd_eq_mod_eq_0)
    then show "1 \<le> a mod b" "a mod b \<le> b - 1"
      using pos_mod_bound [OF assms(1), of a] pos_mod_sign [OF assms(1), of a] by linarith+
  qed
  have x: "x = of_int (a div b) + of_int (a mod b) / of_int b"
  proof -
    have "of_int a = (of_int (a div b) * of_int b + of_int (a mod b) :: rat)"
      by (metis div_mult_mod_eq of_int_add of_int_mult)
    then show ?thesis unfolding x_def using b by (simp add: add_divide_distrib)
  qed
  have "\<bar>dbl_div a b - x\<bar> \<le> x / 2 ^ 53"
    using round_dbl_error [of x] a b assms by (simp add: dbl_div_def fdiv_def x_def)
  then have err: "dbl_div a b \<le> x + x / 2 ^ 53" "x - x / 2 ^ 53 \<le> dbl_div a b"
    unfolding abs_le_iff by linarith+
  have small: "x / 2 ^ 53 + 1 / 2 ^ 52 \<le> 1 / of_int b"
  proof -
    have "x / 2 ^ 53 + 1 / 2 ^ 52 = (of_int a / 2 ^ 53 + of_int b / 2 ^ 52) / of_int b"
      using b by (simp add: x_def field_simps)
    also have "\<dots> \<le> 1 / of_int b" by (rule divide_right_mono) (use a b in simp_all)
    finally show ?thesis .
  qed
  have "1 / of_int b \<le> (of_int (a mod b) :: rat) / of_int b"
    by (rule divide_right_mono) (use b r in \<open>simp_all\<close>)
  moreover have "(of_int (a mod b) :: rat) / of_int b \<le> 1 - 1 / of_int b"
  proof -
    have "(of_int (a mod b) :: rat) / of_int b \<le> of_int (b - 1) / of_int b"
      by (rule divide_right_mono) (use b r(2) in \<open>simp_all only: of_int_le_iff order_less_imp_le\<close>)
    also have "\<dots> = 1 - 1 / of_int b" using b by (simp add: field_simps)
    finally show ?thesis .
  qed
  ultimately have "of_int (a div b) + 1 / of_int b \<le> x" "x + 1 / of_int b \<le> of_int (a div b) + 1"
    unfolding x by simp_all
  moreover have "dbl_div a b < x + 1 / of_int b" "x - 1 / of_int b + dbl_epsilon \<le> dbl_div a b"
    using err small zero_less_divide_1_iff [of "2 ^ 52 :: rat"] zero_less_power [of "2 :: rat" 52]
    unfolding dbl_epsilon_def by linarith+
  ultimately show "of_int (a div b) + dbl_epsilon \<le> dbl_div a b" "dbl_div a b < of_int (a div b) + 1"
    by linarith+
qed

lemma dbl_div_floor:
  assumes "0 < b" "0 \<le> a" "a < 2 ^ 52" "b < 2 ^ 51"
  shows "\<lfloor>dbl_div a b\<rfloor> = a div b" and "0 \<le> dbl_div a b"
proof -
  have "of_int (a div b) \<le> dbl_div a b \<and> dbl_div a b < of_int (a div b) + 1"
  proof (cases "b dvd a")
    case False
    then show ?thesis
      using dbl_div_between [of b a] assms by (simp add: dbl_epsilon_def)
  qed (use dbl_div_exact [of b a] assms in simp)
  moreover have "(0::rat) \<le> of_int (a div b)" using assms by (simp add: pos_imp_zdiv_nonneg_iff)
  ultimately show "\<lfloor>dbl_div a b\<rfloor> = a div b" "0 \<le> dbl_div a b"
    by (simp_all add: floor_eq_iff)
qed

lemma trunc_dbl_div:
  "0 < b \<Longrightarrow> 0 \<le> a \<Longrightarrow> a < 2 ^ 52 \<Longrightarrow> b < 2 ^ 51 \<Longrightarrow> trunc (dbl_div a b) = a div b"
  by (simp add: trunc_def dbl_div_floor)

lemma is_integer_of_int [simp]: "is_integer (of_int n)"
  unfolding is_integer_def of_int_abs [symmetric] frac_of_int by (simp add: dbl_epsilon_def)

lemma is_integer_dbl_div:
  assumes "0 < b" "0 \<le> a" "a < 2 ^ 52" "b < 2 ^ 51"
  shows "is_integer (dbl_div a b) \<longleftrightarrow> b dvd a"
proof (cases "b dvd a")
  case True
  then show ?thesis using dbl_div_exact [of b a] assms by simp
next
  case False
  then have "dbl_epsilon \<le> frac (dbl_div a b)"
    using dbl_div_between(1) [of b a] dbl_div_floor [of b a] assms by (simp add: frac_def)
  then show ?thesis using False dbl_div_floor(2) [of b a] assms by (simp add: is_integer_def)
qed

end
