(* ===== verification/Date_Time_Diff.thy ===== *)
theory Date_Time_Diff
  imports Calendar Double "HOL-Library.Monad_Syntax"
begin

text \<open>
  \<open>types/time_interval.h\<close>, first part: the functions of namespace \<open>chrono_func\<close> and the class
  \<open>DateTimeDiff\<close>, a calendar difference in years, months, days, hours, minutes and seconds that fit
  16 and 8 bits. Time points are counts of seconds; constructors that take a \<open>std::error_code&\<close>
  return it with the object, an exception is the value \<open>Inl\<close>, and a conversion from \<open>double\<close> that does
  not fit its type, which is undefined in the source, is \<open>None\<close>.
\<close>

section \<open>\<open>chrono_func\<close>\<close>

text \<open>A year has 31556952 seconds and a month 2629746, which is 146097/4800 days.\<close>

definition chrono_years :: "int \<Rightarrow> int" where
  "chrono_years s = s div 31556952"

definition chrono_months :: "int \<Rightarrow> int" where
  "chrono_months s = (let mo = s div 2629746 - chrono_years s * 12 in if mo > 0 then mo else 0)"

definition chrono_days :: "int \<Rightarrow> int" where
  "chrono_days s = (let d = s div 86400 - (s div 2629746 * 146097) sdiv 4800 in if d > 0 then d else 0)"

definition chrono_hours :: "int \<Rightarrow> int" where
  "chrono_hours s = (let h = s div 3600 - s div 86400 * 24 in if h > 0 then h else 0)"

definition chrono_minutes :: "int \<Rightarrow> int" where
  "chrono_minutes s = (let m = s div 60 - s div 3600 * 60 in if m > 0 then m else 0)"

definition chrono_seconds :: "int \<Rightarrow> int" where
  "chrono_seconds s = (let x = s - s div 60 * 60 in if x > 0 then x else 0)"

section \<open>\<open>DateTimeDiff\<close>\<close>

record DateTimeDiff =
  years :: int
  months :: int
  days :: int
  hours :: int
  minutes :: int
  seconds :: int

definition zero_diff :: DateTimeDiff where
  "zero_diff = \<lparr>years = 0, months = 0, days = 0, hours = 0, minutes = 0, seconds = 0\<rparr>"

definition isLeapYear :: "int \<Rightarrow> bool" where
  "isLeapYear y \<longleftrightarrow> (let y = y mod 65536 in (y mod 4 = 0 \<and> y mod 100 \<noteq> 0) \<or> y mod 400 = 0)"

definition getDaysInMonth :: "int \<Rightarrow> int \<Rightarrow> int" where
  "getDaysInMonth y m =
     (if m = 2 \<and> is_leap y then 29 else [31, 28, 31, 30, 31, 30, 31, 31, 30, 31, 30, 31] ! nat (m - 1))"

definition getDaysInYear :: "int \<Rightarrow> int" where
  "getDaysInYear y = (if isLeapYear y then 366 else 365)"

definition days_between_dates :: "ymd \<Rightarrow> ymd \<Rightarrow> int" where
  "days_between_dates ymd_from ymd_to =
     (if ymd_less ymd_to ymd_from then sys_days ymd_from - sys_days ymd_to
      else sys_days ymd_to - sys_days ymd_from)"

text \<open>The two lambdas of \<open>number_leap_days\<close>, and the function; its result is a \<open>uint32_t\<close>.\<close>

definition leap_count :: "int \<Rightarrow> int" where
  "leap_count y = y sdiv 4 - y sdiv 100 + y sdiv 400"

definition is_leap_bits :: "int \<Rightarrow> bool" where
  "is_leap_bits y \<longleftrightarrow> take_bit 2 y = 0 \<and> (y smod 100 \<noteq> 0 \<or> take_bit 4 y = 0)"

definition number_leap_days :: "ymd \<Rightarrow> ymd \<Rightarrow> int" where
  "number_leap_days ymd_from ymd_to =
     (let y1 = year ymd_from; y2 = year ymd_to;
          total = leap_count (y2 - 1) - leap_count (y1 - 1);
          total = (if is_leap_bits y1 \<and> month ymd_from < 3 then total + 1 else total);
          m2 = month ymd_to;
          total = (if is_leap_bits y2 \<and> (m2 > 2 \<or> m2 = 2 \<and> day ymd_to = 29) then total + 1 else total)
      in total mod 2 ^ 32)"

subsection \<open>The checked constructors\<close>

text \<open>One field: stored when it fits, otherwise the field keeps 0 and the error is set.\<close>

definition checked :: "(int \<Rightarrow> bool) \<Rightarrow> int \<Rightarrow> errc option \<Rightarrow> errc option \<times> int" where
  "checked in_type v err = (if in_type v then (err, v) else (Some invalid_argument, 0))"

definition DateTimeDiff_checked ::
    "errc option \<Rightarrow> int \<Rightarrow> int \<Rightarrow> int \<Rightarrow> int \<Rightarrow> int \<Rightarrow> int \<Rightarrow> errc option \<times> DateTimeDiff" where
  "DateTimeDiff_checked err y mo d h m s =
     (let (err, y') = checked in_int16 y err;
          (err, mo') = checked in_int8 mo err;
          (err, d') = checked in_int8 d err;
          (err, h') = checked in_int8 h err;
          (err, m') = checked in_int8 m err;
          (err, s') = checked in_int8 s err
      in (err, \<lparr>years = y', months = mo', days = d', hours = h', minutes = m', seconds = s'\<rparr>))"

definition DateTimeDiff_months :: "errc option \<Rightarrow> int \<Rightarrow> int \<Rightarrow> int \<Rightarrow> int \<Rightarrow> int \<Rightarrow> errc option \<times> DateTimeDiff" where
  "DateTimeDiff_months err mo d h m s = DateTimeDiff_checked err 0 mo d h m s"

definition DateTimeDiff_days :: "errc option \<Rightarrow> int \<Rightarrow> int \<Rightarrow> int \<Rightarrow> int \<Rightarrow> errc option \<times> DateTimeDiff" where
  "DateTimeDiff_days err d h m s = DateTimeDiff_checked err 0 0 d h m s"

definition DateTimeDiff_hours :: "errc option \<Rightarrow> int \<Rightarrow> int \<Rightarrow> int \<Rightarrow> errc option \<times> DateTimeDiff" where
  "DateTimeDiff_hours err h m s = DateTimeDiff_checked err 0 0 0 h m s"

definition DateTimeDiff_minutes :: "errc option \<Rightarrow> int \<Rightarrow> int \<Rightarrow> errc option \<times> DateTimeDiff" where
  "DateTimeDiff_minutes err m s = DateTimeDiff_checked err 0 0 0 0 m s"

definition DateTimeDiff_seconds :: "errc option \<Rightarrow> int \<Rightarrow> errc option \<times> DateTimeDiff" where
  "DateTimeDiff_seconds err s = DateTimeDiff_checked err 0 0 0 0 0 s"

subsection \<open>The difference of two time points\<close>

datatype std_exception = std_invalid_argument

definition DateTimeDiff_between :: "int \<Rightarrow> int \<Rightarrow> std_exception + DateTimeDiff" where
  "DateTimeDiff_between from to =
     (let ymd_from = date_of from; ymd_to = date_of to;
          ddiff = day ymd_to - day ymd_from;
          mdiff = month ymd_to - month ymd_from;
          ydiff = year ymd_to - year ymd_from
      in if \<not> in_int8 ddiff then Inl std_invalid_argument
         else let d = (if ddiff < 0 then s8 (ddiff + getDaysInMonth (year ymd_from) (month ymd_from)) else s8 ddiff);
                  mo = (if ddiff < 0 then s8 (0 - 1) else 0)
              in if \<not> in_int8 mdiff then Inl std_invalid_argument
                 else let y = (if mdiff < 0 then s16 (0 - 1) else 0);
                          mo = (if mdiff < 0 then s8 (mo + (mdiff + 12)) else s8 mdiff)
                      in if \<not> in_int16 ydiff then Inl std_invalid_argument
                         else Inr \<lparr>years = s16 (y + s16 ydiff), months = mo, days = d,
                                   hours = s8 ((time_of_day to - time_of_day from) sdiv 3600),
                                   minutes = s8 ((to mod 3600 - from mod 3600) sdiv 60),
                                   seconds = s8 (to mod 60 - from mod 60)\<rparr>)"

subsection \<open>The difference divided into equal intervals\<close>

text \<open>
  The constructor from two time points and a number of intervals computes in \<open>double\<close>. Its stages
  are given in order: the case of less than a month, then the time of day, the days, the months and
  the years, each stage passing the fraction that is left over down to the smaller units. \<open>to8\<close> and
  \<open>to16\<close> are the conversions of the source, \<open>drop_whole\<close> is \<open>diff-=static_cast<uint64_t>(diff)\<close>.
\<close>

abbreviation to8 :: "dbl \<Rightarrow> int option" where
  "to8 \<equiv> dbl_to in_int8"

abbreviation to16 :: "dbl \<Rightarrow> int option" where
  "to16 \<equiv> dbl_to in_int16"

definition drop_whole :: "dbl \<Rightarrow> dbl option" where
  "drop_whole diff = do {w \<leftarrow> dbl_to (\<lambda>n. 0 \<le> n \<and> n < 2 ^ 64) diff; Some (fsub diff (dbl_of w))}"

definition dtd_short :: "int \<Rightarrow> int \<Rightarrow> int \<Rightarrow> int \<Rightarrow> DateTimeDiff option" where
  "dtd_short from to n total_days_diff =
     do {let diff = dbl_of ((to - from) sdiv n);
         let d = s8 (total_days_diff div n);
         let diff = fdiv (fsub diff (dbl_of (d * 86400))) 3600;
         h \<leftarrow> to8 diff;
         let diff = fdiv (fsub diff (dbl_of (h * 3600))) 60;
         m \<leftarrow> to8 diff;
         let diff = fsub diff (dbl_of (m * 60));
         s \<leftarrow> to8 diff;
         Some (zero_diff\<lparr>days := d, hours := h, minutes := m, seconds := s\<rparr>)}"

definition dtd_time :: "int \<Rightarrow> int \<Rightarrow> int \<Rightarrow> DateTimeDiff option" where
  "dtd_time from_time to_time n =
     do {let diff = (if from_time > to_time then dbl_div (to_time - from_time + 86400) n
                     else dbl_div (to_time - from_time) n);
         let d = (if from_time > to_time then s8 (0 - 1) else 0);
         h \<leftarrow> to8 (fdiv diff 3600);
         m \<leftarrow> to8 (fdiv (fsub diff (dbl_of (h * 3600))) 60);
         s \<leftarrow> to8 (fsub (fsub diff (dbl_of (h * 3600))) (dbl_of (m * 60)));
         Some (zero_diff\<lparr>days := d, hours := h, minutes := m, seconds := s\<rparr>)}"

text \<open>Adding a number of seconds below a day to the hours, minutes and seconds.\<close>

definition add_clock :: "dbl \<Rightarrow> DateTimeDiff \<Rightarrow> DateTimeDiff option" where
  "add_clock diff r =
     do {h \<leftarrow> to8 (fdiv diff 3600);
         let diff = fsub diff (dbl_of (h * 3600));
         m \<leftarrow> to8 (fdiv diff 60);
         let diff = fsub diff (dbl_of (m * 60));
         s \<leftarrow> to8 diff;
         Some (r\<lparr>hours := s8 (hours r + h), minutes := s8 (minutes r + m), seconds := s8 (seconds r + s)\<rparr>)}"

definition dtd_days :: "ymd \<Rightarrow> ymd \<Rightarrow> int \<Rightarrow> DateTimeDiff \<Rightarrow> DateTimeDiff option" where
  "dtd_days ymd_from ymd_to n r =
     do {let borrow = (day ymd_to < day ymd_from);
         let diff = (if borrow
                     then dbl_div (day ymd_to - day ymd_from + (getDaysInMonth (year ymd_from) (month ymd_from) + days r)) n
                     else dbl_div (day ymd_to - day ymd_from + days r) n);
         let r = (if borrow then r\<lparr>months := s8 (months r - 1)\<rparr> else r);
         d \<leftarrow> to8 diff;
         let r = r\<lparr>days := d\<rparr>;
         diff \<leftarrow> drop_whole diff;
         if diff > dbl_epsilon then add_clock (fmul diff 86400) r else Some r}"

definition dtd_months :: "ymd \<Rightarrow> ymd \<Rightarrow> int \<Rightarrow> DateTimeDiff \<Rightarrow> DateTimeDiff option" where
  "dtd_months ymd_from ymd_to n r =
     do {let diff = dbl_div ((month ymd_to - month ymd_from) mod 12 + months r) n;
         mo \<leftarrow> to8 diff;
         let r = (if month ymd_to < month ymd_from then r\<lparr>months := mo, years := s16 (years r - 1)\<rparr>
                  else r\<lparr>months := mo\<rparr>);
         diff \<leftarrow> drop_whole diff;
         if diff > dbl_epsilon
         then do {let dim = getDaysInMonth (year ymd_from) (month ymd_from);
                  let diff = fmul diff (dbl_of (86400 * dim));
                  d \<leftarrow> to8 (fdiv diff (dbl_of (dim * 86400)));
                  let r = r\<lparr>days := s8 (days r + d)\<rparr>;
                  let diff = fsub diff (dbl_of (dim * 86400));
                  add_clock diff r}
         else Some r}"

definition dtd_years :: "ymd \<Rightarrow> ymd \<Rightarrow> int \<Rightarrow> DateTimeDiff \<Rightarrow> DateTimeDiff option" where
  "dtd_years ymd_from ymd_to n r =
     do {let diff = dbl_div (year ymd_to - year ymd_from + years r) n;
         y \<leftarrow> to16 diff;
         let r = r\<lparr>years := y\<rparr>;
         diff \<leftarrow> drop_whole diff;
         if diff > dbl_epsilon
         then do {mo \<leftarrow> to16 (fmul (frac diff) 12);
                  let dy = (if isLeapYear (year ymd_from) \<and> month ymd_from < 3 then 366 else 365);
                  let diff = (if mo \<noteq> 0 then fsub diff (fdiv (dbl_of mo) 12) else diff);
                  let r = r\<lparr>months := s8 (months r + mo)\<rparr>;
                  let diff = fmul diff dy;
                  d \<leftarrow> to8 diff;
                  let diff = (if d \<noteq> 0 then fsub diff (dbl_of d) else diff);
                  let r = r\<lparr>days := s8 (days r + d)\<rparr>;
                  h \<leftarrow> to8 (fmul diff 24);
                  let diff = (if h \<noteq> 0 then fsub diff (fdiv (dbl_of h) 24) else diff);
                  let r = r\<lparr>hours := s8 (hours r + h)\<rparr>;
                  m \<leftarrow> to8 (fmul diff 1440);
                  let diff = (if m \<noteq> 0 then fsub diff (fdiv (dbl_of m) (1440 * dy)) else diff);
                  let r = r\<lparr>minutes := s8 (minutes r + m)\<rparr>;
                  s \<leftarrow> to8 (fmul diff 86400);
                  Some (r\<lparr>seconds := s8 (seconds r + s)\<rparr>)}
         else Some r}"

definition DateTimeDiff_intervals :: "int \<Rightarrow> int \<Rightarrow> int \<Rightarrow> errc option \<Rightarrow> (errc option \<times> DateTimeDiff) option" where
  "DateTimeDiff_intervals from to n err =
     (if from = to then Some (if n > 0 then Some invalid_argument else err, zero_diff)
      else if n = 0 then Some (Some invalid_argument, zero_diff)
      else let ymd_from = date_of from; ymd_to = date_of to;
               diff = dbl_div (to - from - 86400 * number_leap_days ymd_from ymd_to) n;
               total_days_diff = days_between_dates ymd_from ymd_to
           in if \<not> is_integer diff then Some (Some invalid_argument, zero_diff)
              else if total_days_diff < getDaysInMonth (year ymd_from) (month ymd_from)
              then map_option (Pair err) (dtd_short from to n total_days_diff)
              else do {r \<leftarrow> dtd_time (time_of_day from) (time_of_day to) n;
                       r \<leftarrow> dtd_days ymd_from ymd_to n r;
                       r \<leftarrow> dtd_months ymd_from ymd_to n r;
                       r \<leftarrow> dtd_years ymd_from ymd_to n r;
                       Some (err, r)})"

subsection \<open>Sum, difference, order and hash\<close>

definition diff_plus :: "DateTimeDiff \<Rightarrow> int \<Rightarrow> int" where
  "diff_plus diff tp =
     (let d = date_of tp
      in seconds diff + 60 * minutes diff + 3600 * hours diff +
         86400 * sys_days \<lparr>year = year_plus (year d) (years diff), month = month_plus (month d) (months diff),
                           day = day_plus (day d) (days diff)\<rparr>)"

definition tp_minus :: "int \<Rightarrow> DateTimeDiff \<Rightarrow> int" where
  "tp_minus tp diff =
     (let d = date_of tp
      in 86400 * sys_days \<lparr>year = year_plus (year d) (- years diff), month = month_plus (month d) (- months diff),
                           day = day_plus (day d) (- days diff)\<rparr> -
         3600 * hours diff - 60 * minutes diff - seconds diff)"

definition diff_eq :: "DateTimeDiff \<Rightarrow> DateTimeDiff \<Rightarrow> bool" where
  "diff_eq a b \<longleftrightarrow> years a = years b \<and> months a = months b \<and> days a = days b \<and>
     hours a = hours b \<and> minutes a = minutes b \<and> seconds a = seconds b"

definition diff_less :: "DateTimeDiff \<Rightarrow> DateTimeDiff \<Rightarrow> bool" where
  "diff_less a b \<longleftrightarrow>
     (if years a \<noteq> years b then years a < years b
      else if months a \<noteq> months b then months a < months b
      else if days a \<noteq> days b then days a < days b
      else if hours a \<noteq> hours b then hours a < hours b
      else if minutes a \<noteq> minutes b then minutes a < minutes b
      else seconds a < seconds b)"

definition diff_greater :: "DateTimeDiff \<Rightarrow> DateTimeDiff \<Rightarrow> bool" where
  "diff_greater a b \<longleftrightarrow> diff_less b a"

definition diff_le :: "DateTimeDiff \<Rightarrow> DateTimeDiff \<Rightarrow> bool" where
  "diff_le a b \<longleftrightarrow> \<not> diff_less b a"

definition diff_ge :: "DateTimeDiff \<Rightarrow> DateTimeDiff \<Rightarrow> bool" where
  "diff_ge a b \<longleftrightarrow> \<not> diff_less a b"

definition diff_hash :: "DateTimeDiff \<Rightarrow> 64 word" where
  "diff_hash v =
     (let h = (\<lambda>x n. push_bit n (word_of_int x :: 64 word))
      in or (or (or (or (or (h (years v) 48) (h (months v) 40)) (h (days v) 32)) (h (hours v) 24))
           (h (minutes v) 16)) (h (minutes v) 8))"

section \<open>Calendar functions\<close>

lemma getDaysInMonth_eq: "1 \<le> m \<Longrightarrow> m \<le> 12 \<Longrightarrow> getDaysInMonth y m = last_day y m"
  using month_cases [of m] by (auto simp: getDaysInMonth_def last_day_def)

lemma is_leap_bits_eq: "is_leap_bits y \<longleftrightarrow> is_leap y"
proof -
  have "y smod 100 = 0 \<longleftrightarrow> y mod 100 = 0"
    by (simp add: smod_int_alt_def mod_eq_0_iff_dvd sgn_eq_0_iff) auto
  moreover have "y mod 16 = 0 \<longleftrightarrow> y mod 400 = 0" if h: "y mod 100 = 0"
  proof -
    obtain z where z: "y = 100 * z" using h by (auto simp: mod_eq_0_iff_dvd elim: dvdE)
    have "16 dvd 100 * z \<longleftrightarrow> 4 dvd 25 * z" using dvd_mult_cancel_left [of 4 4 "25 * z"] by simp
    also have "\<dots> \<longleftrightarrow> 4 dvd z" by presburger
    finally have "16 dvd 100 * z \<longleftrightarrow> 4 dvd z" .
    moreover have "400 dvd 100 * z \<longleftrightarrow> 4 dvd z"
      using dvd_mult_cancel_left [of 100 4 z] by simp
    ultimately show ?thesis by (simp add: z mod_eq_0_iff_dvd)
  qed
  ultimately show ?thesis by (auto simp: is_leap_bits_def is_leap_def take_bit_eq_mod)
qed

lemma isLeapYear_eq:
  assumes "0 \<le> y" "y < 65536"
  shows "isLeapYear y \<longleftrightarrow> is_leap y"
proof -
  have "4 dvd y" if "400 dvd y" using dvd_trans [of 4 400 y] that by simp
  then show ?thesis using assms by (auto simp: isLeapYear_def is_leap_def mod_eq_0_iff_dvd)
qed

lemma ymd_less_index:
  assumes "ymd_ok a" "ymd_ok b"
  shows "ymd_less a b \<longleftrightarrow> sys_days a < sys_days b"
  unfolding sys_days_less [OF assms]
  using assms by (auto simp: ymd_less_def month_index_def ymd_ok_def)

lemma days_between_dates_eq:
  "ymd_ok a \<Longrightarrow> ymd_ok b \<Longrightarrow> days_between_dates a b = \<bar>sys_days b - sys_days a\<bar>"
  by (simp add: days_between_dates_def ymd_less_index)

lemma positive_mod: "0 < n \<Longrightarrow> (if 0 < x mod n then x mod n else 0) = x mod n" for x n :: int
  by (simp add: order.antisym)

lemma chrono_clock:
  "chrono_hours s = s div 3600 mod 24" "chrono_minutes s = s div 60 mod 60" "chrono_seconds s = s mod 60"
proof -
  have div_24: "s div 86400 = s div 3600 div 24" using zdiv_zmult2_eq [of 24 s 3600] by simp
  have div_60: "s div 3600 = s div 60 div 60" using zdiv_zmult2_eq [of 60 s 60] by simp
  show "chrono_hours s = s div 3600 mod 24"
    unfolding chrono_hours_def Let_def div_24 minus_div_mult_eq_mod by (rule positive_mod) simp
  show "chrono_minutes s = s div 60 mod 60"
    unfolding chrono_minutes_def Let_def div_60 minus_div_mult_eq_mod by (rule positive_mod) simp
  show "chrono_seconds s = s mod 60"
    unfolding chrono_seconds_def Let_def minus_div_mult_eq_mod by (rule positive_mod) simp
qed

section \<open>The order of differences\<close>

text \<open>The comparison operators of the class form a linear order, so the facts about it are available.\<close>

interpretation dtd: linorder diff_le diff_less
proof unfold_locales
  fix a b c :: DateTimeDiff
  show "diff_less a b \<longleftrightarrow> diff_le a b \<and> \<not> diff_le b a"
    by (auto simp: diff_le_def diff_less_def)
  show "diff_le a a"
    by (simp add: diff_le_def diff_less_def)
  show "diff_le a b \<Longrightarrow> diff_le b c \<Longrightarrow> diff_le a c"
    by (auto simp: diff_le_def diff_less_def split: if_splits)
  show "diff_le a b \<Longrightarrow> diff_le b a \<Longrightarrow> a = b"
    by (cases a, cases b) (auto simp: diff_le_def diff_less_def split: if_splits)
  show "diff_le a b \<or> diff_le b a"
    by (auto simp: diff_le_def diff_less_def)
qed

section \<open>The constructors\<close>

definition diff_ok :: "DateTimeDiff \<Rightarrow> bool" where
  "diff_ok r \<longleftrightarrow> in_int16 (years r) \<and> in_int8 (months r) \<and> in_int8 (days r) \<and>
     in_int8 (hours r) \<and> in_int8 (minutes r) \<and> in_int8 (seconds r)"

lemma in_int_0 [simp]: "in_int8 0" "in_int16 0" "in_int32 0"
  by (simp_all add: in_int8_def in_int16_def in_int32_def)

lemma diff_ok_zero [simp]: "diff_ok zero_diff"
  by (simp add: diff_ok_def zero_diff_def)

lemma dbl_to_SomeD: "dbl_to P x = Some v \<Longrightarrow> P v"
  by (auto simp: dbl_to_def split: if_splits)

lemma DateTimeDiff_checked_ok: "diff_ok (snd (DateTimeDiff_checked err y mo d h m s))"
  by (simp add: DateTimeDiff_checked_def checked_def diff_ok_def split: prod.splits)

lemma DateTimeDiff_checked_error:
  "fst (DateTimeDiff_checked err y mo d h m s) =
     (if in_int16 y \<and> in_int8 mo \<and> in_int8 d \<and> in_int8 h \<and> in_int8 m \<and> in_int8 s then err
      else Some invalid_argument)"
  by (simp add: DateTimeDiff_checked_def checked_def)

lemma DateTimeDiff_checked_value:
  "in_int16 y \<Longrightarrow> in_int8 mo \<Longrightarrow> in_int8 d \<Longrightarrow> in_int8 h \<Longrightarrow> in_int8 m \<Longrightarrow> in_int8 s \<Longrightarrow>
   DateTimeDiff_checked err y mo d h m s =
     (err, \<lparr>years = y, months = mo, days = d, hours = h, minutes = m, seconds = s\<rparr>)"
  by (simp add: DateTimeDiff_checked_def checked_def)

lemma DateTimeDiff_between_ok: "DateTimeDiff_between from to = Inr r \<Longrightarrow> diff_ok r"
  by (auto simp: DateTimeDiff_between_def Let_def diff_ok_def split: if_splits)

lemma diff_ok_update [simp]:
  assumes "diff_ok r"
  shows "in_int16 y \<Longrightarrow> diff_ok (r\<lparr>years := y\<rparr>)" "in_int8 x \<Longrightarrow> diff_ok (r\<lparr>months := x\<rparr>)"
    "in_int8 x \<Longrightarrow> diff_ok (r\<lparr>days := x\<rparr>)" "in_int8 x \<Longrightarrow> diff_ok (r\<lparr>hours := x\<rparr>)"
    "in_int8 x \<Longrightarrow> diff_ok (r\<lparr>minutes := x\<rparr>)" "in_int8 x \<Longrightarrow> diff_ok (r\<lparr>seconds := x\<rparr>)"
  using assms by (simp_all add: diff_ok_def)

text \<open>Elimination rules for the steps of the constructors.\<close>

lemma bind_dbl_toE:
  assumes "dbl_to P x \<bind> f = Some r" obtains v where "P v" "f v = Some r"
  using assms by (auto simp: bind_eq_Some_conv dest: dbl_to_SomeD)

lemma bind_SomeE:
  assumes "m \<bind> f = Some r" obtains v where "f v = Some r"
  using assms by (auto simp: bind_eq_Some_conv)

lemma if_SomeE:
  assumes "(if c then a else b) = Some r" obtains "a = Some r" | "b = Some r"
  using assms by (auto split: if_splits)

lemmas dtd_elims = bind_dbl_toE bind_SomeE if_SomeE

lemma dtd_short_ok: "dtd_short from to n t = Some r \<Longrightarrow> diff_ok r"
  unfolding dtd_short_def Let_def by (elim dtd_elims) auto

lemma dtd_time_ok: "dtd_time ft tt n = Some r \<Longrightarrow> diff_ok r"
  unfolding dtd_time_def Let_def by (elim dtd_elims) auto

lemma add_clock_ok: "add_clock x r = Some r' \<Longrightarrow> diff_ok r \<Longrightarrow> diff_ok r'"
  unfolding add_clock_def Let_def by (elim dtd_elims) auto

lemma dtd_days_ok: "dtd_days a b n r = Some r' \<Longrightarrow> diff_ok r \<Longrightarrow> diff_ok r'"
  unfolding dtd_days_def Let_def by (elim dtd_elims) (auto elim!: add_clock_ok)

lemma dtd_months_ok: "dtd_months a b n r = Some r' \<Longrightarrow> diff_ok r \<Longrightarrow> diff_ok r'"
  unfolding dtd_months_def Let_def by (elim dtd_elims) (auto elim!: add_clock_ok)

lemma dtd_years_ok: "dtd_years a b n r = Some r' \<Longrightarrow> diff_ok r \<Longrightarrow> diff_ok r'"
  unfolding dtd_years_def Let_def by (elim dtd_elims) auto

lemmas dtd_stages_ok = dtd_short_ok dtd_time_ok dtd_days_ok dtd_months_ok dtd_years_ok

lemma DateTimeDiff_intervals_ok: "DateTimeDiff_intervals from to n err = Some (e, r) \<Longrightarrow> diff_ok r"
  by (auto simp: DateTimeDiff_intervals_def Let_def bind_eq_Some_conv split: if_splits dest: dtd_stages_ok)

end
