(* ===== verification/Time_Interval.thy ===== *)
theory Time_Interval
  imports Date_Time_Diff
begin

text \<open>
  \<open>types/time_interval.h\<close>, second part: the class template \<open>__time_interval__\<close>, a closed interval of
  time points, and the functions on two intervals. A time point is the count of its ticks; \<open>k\<close> is the
  number of ticks of the source precision in one tick of the target precision of a conversion.
  The abstract view of an interval is the set of its points.
\<close>

section \<open>Intervals\<close>

record time_interval =
  ti_from :: int
  ti_to :: int

definition time_point_cast :: "int \<Rightarrow> int \<Rightarrow> int" where
  "time_point_cast k tp = tp sdiv k"

definition time_interval_default :: time_interval where
  "time_interval_default = \<lparr>ti_from = 0, ti_to = 0\<rparr>"

definition time_interval_of :: "int \<Rightarrow> int \<Rightarrow> int \<Rightarrow> time_interval" where
  "time_interval_of k from to =
     \<lparr>ti_from = time_point_cast k (if from \<le> to then from else to),
      ti_to = time_point_cast k (if to \<ge> from then to else from)\<rparr>"

definition time_interval_conv :: "int \<Rightarrow> time_interval \<Rightarrow> time_interval" where
  "time_interval_conv k other =
     \<lparr>ti_from = time_point_cast k (ti_from other), ti_to = time_point_cast k (ti_to other)\<rparr>"

definition time_interval_assign :: "int \<Rightarrow> time_interval \<Rightarrow> time_interval" where
  "time_interval_assign k other =
     (if k = 1 then \<lparr>ti_from = ti_from other, ti_to = ti_to other\<rparr>
      else \<lparr>ti_from = time_point_cast k (ti_from other), ti_to = time_point_cast k (ti_to other)\<rparr>)"

definition interval_eq :: "time_interval \<Rightarrow> time_interval \<Rightarrow> bool" where
  "interval_eq a b \<longleftrightarrow> ti_from a = ti_from b \<and> ti_to a = ti_to b"

definition interval_less :: "time_interval \<Rightarrow> time_interval \<Rightarrow> bool" where
  "interval_less a b \<longleftrightarrow>
     (if ti_from a < ti_from b then True
      else if ti_from a = ti_from b then ti_to a - ti_from a < ti_to b - ti_from b else False)"

definition interval_contains :: "time_interval \<Rightarrow> time_interval \<Rightarrow> bool" where
  "interval_contains a b \<longleftrightarrow> ti_from a \<le> ti_from b \<and> ti_to a \<ge> ti_to b"

definition interval_hash :: "time_interval \<Rightarrow> 64 word" where
  "interval_hash v = xor (word_of_int (ti_from v)) (push_bit 1 (word_of_int (ti_from v)))"

definition is_correct_interval :: "time_interval \<Rightarrow> bool" where
  "is_correct_interval i \<longleftrightarrow> ti_to i - ti_from i \<ge> 0"

definition intervals_intersect :: "time_interval \<Rightarrow> time_interval \<Rightarrow> bool" where
  "intervals_intersect a b \<longleftrightarrow> \<not> (ti_from a > ti_to b \<or> ti_to a < ti_from b)"

definition points_intersect :: "int \<Rightarrow> int \<Rightarrow> int \<Rightarrow> int \<Rightarrow> bool" where
  "points_intersect from_1 to_1 from_2 to_2 \<longleftrightarrow> \<not> (from_1 > to_2 \<or> to_1 < from_2)"

definition interval_intersection :: "time_interval \<Rightarrow> time_interval \<Rightarrow> time_interval option" where
  "interval_intersection lhs rhs =
     (if intervals_intersect lhs rhs
      then if ti_from lhs < ti_from rhs
           then Some (time_interval_of 1 (ti_from rhs) (if ti_to lhs < ti_to rhs then ti_to lhs else ti_to rhs))
           else Some (time_interval_of 1 (ti_from lhs) (if ti_to lhs < ti_to rhs then ti_to lhs else ti_to rhs))
      else None)"

section \<open>Intervals as sets of points\<close>

definition points :: "time_interval \<Rightarrow> int set" where
  "points i = {ti_from i..ti_to i}"

lemma sdiv_mono: "a \<le> b \<Longrightarrow> 0 < k \<Longrightarrow> a sdiv k \<le> b sdiv k" for a b k :: int
proof -
  assume *: "a \<le> b" "0 < k"
  have "a sdiv k = (if 0 \<le> a then a div k else - (- a div k))" for a
    using *(2) by (simp add: signed_divide_int_def sgn_if)
  then show ?thesis
    using * zdiv_mono1 [of a b k] zdiv_mono1 [of "- b" "- a" k] pos_imp_zdiv_nonneg_iff [of k b]
      pos_imp_zdiv_nonneg_iff [of k "- a"] by auto
qed

lemma sdiv_1 [simp]: "a sdiv 1 = a" for a :: int
  by (simp add: signed_divide_int_def sgn_if)

lemma correct_time_interval_of: "0 < k \<Longrightarrow> is_correct_interval (time_interval_of k a b)"
  by (auto simp: is_correct_interval_def time_interval_of_def time_point_cast_def intro: sdiv_mono)

lemma correct_time_interval_conv:
  "0 < k \<Longrightarrow> is_correct_interval i \<Longrightarrow>
   is_correct_interval (time_interval_conv k i) \<and> is_correct_interval (time_interval_assign k i)"
  by (auto simp: is_correct_interval_def time_interval_conv_def time_interval_assign_def time_point_cast_def
      intro: sdiv_mono)

lemma intersect_points:
  "is_correct_interval a \<Longrightarrow> is_correct_interval b \<Longrightarrow> intervals_intersect a b \<longleftrightarrow> points a \<inter> points b \<noteq> {}"
  by (auto simp: intervals_intersect_def points_def is_correct_interval_def)

lemma intersection_points:
  assumes "is_correct_interval a" "is_correct_interval b" "intervals_intersect a b"
  shows "\<exists>c. interval_intersection a b = Some c \<and> is_correct_interval c \<and> points c = points a \<inter> points b"
  using assms(3) assms(1,2)
  by (auto simp: interval_intersection_def time_interval_of_def time_point_cast_def
      intervals_intersect_def is_correct_interval_def points_def)

text \<open>
  C36. A closed time interval, with any conversion of precision, has its start not after its end,
  whatever the order of the constructor's arguments. On such intervals \<open>contains\<close> is inclusion,
  \<open>intervals_intersect\<close> is having a common point, and \<open>interval_intersection\<close> returns the interval
  of the common points, or nothing when there are none.
\<close>

theorem interval_operations:
  assumes "0 < k" and "is_correct_interval a" and "is_correct_interval b"
  shows "is_correct_interval (time_interval_of k x y) \<and> is_correct_interval (time_interval_conv k a) \<and>
     (interval_contains a b \<longleftrightarrow> points b \<subseteq> points a) \<and>
     (intervals_intersect a b \<longleftrightarrow> points a \<inter> points b \<noteq> {}) \<and>
     (case interval_intersection a b of
        None \<Rightarrow> points a \<inter> points b = {}
      | Some c \<Rightarrow> is_correct_interval c \<and> points c = points a \<inter> points b)"
proof (intro conjI)
  show "is_correct_interval (time_interval_of k x y)" "is_correct_interval (time_interval_conv k a)"
    using assms correct_time_interval_of correct_time_interval_conv by simp_all
  show "interval_contains a b \<longleftrightarrow> points b \<subseteq> points a"
    using assms(3) by (simp add: interval_contains_def points_def is_correct_interval_def)
  show meet: "intervals_intersect a b \<longleftrightarrow> points a \<inter> points b \<noteq> {}"
    using intersect_points assms by simp
  show "case interval_intersection a b of
           None \<Rightarrow> points a \<inter> points b = {}
         | Some c \<Rightarrow> is_correct_interval c \<and> points c = points a \<inter> points b"
  proof (cases "intervals_intersect a b")
    case True
    then show ?thesis using intersection_points [OF assms(2,3)] by force
  qed (use meet in \<open>simp add: interval_intersection_def\<close>)
qed

theorem interval_operations_witness:
  "is_correct_interval (time_interval_of 60 600 (- 59)) \<and>
   points \<lparr>ti_from = 1, ti_to = 5\<rparr> \<inter> points \<lparr>ti_from = 3, ti_to = 9\<rparr> = points \<lparr>ti_from = 3, ti_to = 5\<rparr>"
  using interval_operations [of 60 "\<lparr>ti_from = 1, ti_to = 5\<rparr>" "\<lparr>ti_from = 3, ti_to = 9\<rparr>" 600 "- 59"]
  by (simp add: is_correct_interval_def interval_intersection_def intervals_intersect_def time_interval_of_def
      time_point_cast_def)

text \<open>The hash of an interval uses its start twice and its end not at all.\<close>

lemma interval_hash_ignores_end: "interval_hash \<lparr>ti_from = f, ti_to = t\<rparr> = interval_hash \<lparr>ti_from = f, ti_to = u\<rparr>"
  by (simp add: interval_hash_def)

end
