(* ===== verification/Time_Sequence.thy ===== *)
theory Time_Sequence
  imports Time_Interval
begin

text \<open>
  \<open>types/time_interval.h\<close>, third part: the class \<open>TimeSequence\<close>, equidistant time points in an
  interval of seconds, the distance being a \<open>DateTimeDiff\<close>. \<open>None\<close> is a conversion from \<open>double\<close> that
  is undefined in the source. Functions with a \<open>std::error_code&\<close> return it.
\<close>

section \<open>The class\<close>

record TimeSequence =
  interval :: time_interval
  time_duration :: DateTimeDiff
  intervals :: int

definition TimeSequence_default :: TimeSequence where
  "TimeSequence_default = \<lparr>interval = time_interval_default, time_duration = zero_diff, intervals = 0\<rparr>"

definition TimeSequence_at :: "int \<Rightarrow> TimeSequence" where
  "TimeSequence_at t = \<lparr>interval = time_interval_of 1 t t, time_duration = zero_diff, intervals = 0\<rparr>"

text \<open>\<open>operator[]\<close>: the date moves by years, months and days, the time of day by hours to seconds.\<close>

definition seq_at :: "int \<Rightarrow> DateTimeDiff \<Rightarrow> int \<Rightarrow> int" where
  "seq_at from r k =
     86400 * (sys_days (ymd_add_months (ymd_add_years (date_of from) (years r * k)) (months r * k)) + days r * k) +
     (time_of_day from + 3600 * (hours r * k) + 60 * (minutes r * k) + seconds r * k)"

definition seq_nth :: "TimeSequence \<Rightarrow> int \<Rightarrow> int" where
  "seq_nth ts k = seq_at (ti_from (interval ts)) (time_duration ts) k"

section \<open>The number of intervals between two time points\<close>

definition clock_seconds :: "DateTimeDiff \<Rightarrow> int" where
  "clock_seconds r = days r * 86400 + hours r * 3600 + minutes r * 60 + seconds r"

definition has_months :: "DateTimeDiff \<Rightarrow> bool" where
  "has_months r \<longleftrightarrow> years r \<noteq> 0 \<or> months r \<noteq> 0"

definition has_clock :: "DateTimeDiff \<Rightarrow> bool" where
  "has_clock r \<longleftrightarrow> days r \<noteq> 0 \<or> hours r \<noteq> 0 \<or> minutes r \<noteq> 0 \<or> seconds r \<noteq> 0"

text \<open>\<open>dy + dm\<close>: whole months from one time point to the other.\<close>

definition months_between :: "int \<Rightarrow> int \<Rightarrow> int" where
  "months_between from to =
     (let a = date_of from; b = date_of to
      in (year b - year a) * 12 +
         (month b - month a - (if day b < day a then 1 else if day b = day a \<and> time_of_day to < time_of_day from then 1 else 0)))"

text \<open>\<open>total_seconds\<close>: what is left when \<open>n\<close> times the months have been taken from the end.\<close>

definition clock_between :: "int \<Rightarrow> int \<Rightarrow> DateTimeDiff \<Rightarrow> int \<Rightarrow> int" where
  "clock_between from to r n =
     86400 * sys_days (ymd_add_months (date_of to) (- (n * months r + n * years r * 12))) + time_of_day to -
     (86400 * floor_days from + time_of_day from)"

text \<open>A \<open>double\<close> quotient converted to \<open>int32_t\<close>, and tested for a fraction; dividing by zero yields neither.\<close>

definition quot32 :: "int \<Rightarrow> int \<Rightarrow> int option" where
  "quot32 a b = (if b = 0 then None else dbl_to in_int32 (dbl_div a b))"

definition integer_quot :: "int \<Rightarrow> int \<Rightarrow> bool" where
  "integer_quot a b \<longleftrightarrow> b \<noteq> 0 \<and> is_integer (dbl_div a b)"

definition full_number_of_intervals :: "int \<Rightarrow> int \<Rightarrow> DateTimeDiff \<Rightarrow> (errc option \<times> int) option" where
  "full_number_of_intervals from_arg to_arg r =
     (let from = (if from_arg < to_arg then from_arg else to_arg);
          to = (if from_arg < to_arg then to_arg else from_arg)
      in if from = to then if diff_eq r zero_diff then Some (None, 0) else Some (Some invalid_argument, - 1)
         else if diff_eq r zero_diff then Some (Some invalid_argument, - 1)
         else do {n \<leftarrow> (if has_months r then quot32 (months_between from to) (years r * 12 + months r) else Some 0);
                  if has_clock r
                  then do {c \<leftarrow> quot32 (clock_between from to r n) (clock_seconds r);
                           Some (None, if has_months r then min n c else c)}
                  else Some (None, n)})"

definition compute_number_of_intervals :: "int \<Rightarrow> int \<Rightarrow> DateTimeDiff \<Rightarrow> (errc option \<times> int) option" where
  "compute_number_of_intervals from_arg to_arg r =
     (let from = (if from_arg < to_arg then from_arg else to_arg);
          to = (if from_arg < to_arg then to_arg else from_arg)
      in if from = to then if diff_eq r zero_diff then Some (None, 0) else Some (Some invalid_argument, - 1)
         else if diff_eq r zero_diff then Some (Some invalid_argument, - 1)
         else if has_months r \<and> \<not> has_clock r \<and> \<not> integer_quot (months_between from to) (years r * 12 + months r)
         then Some (Some invalid_argument, - 1)
         else do {n \<leftarrow> (if has_months r then quot32 (months_between from to) (years r * 12 + months r) else Some 0);
                  if has_clock r
                  then let total_seconds = clock_between from to r n; d = clock_seconds r
                       in if \<not> integer_quot total_seconds d then Some (Some invalid_argument, - 1)
                          else if dbl_div total_seconds d = 0
                          then if n \<noteq> 0 then Some (Some invalid_argument, - 1) else Some (None, n)
                          else if n \<noteq> 0
                          then do {c \<leftarrow> dbl_to (\<lambda>x. 0 \<le> x \<and> x < 2 ^ 32) (dbl_div total_seconds d);
                                   if n mod 2 ^ 32 \<noteq> c then Some (Some invalid_argument, - 1) else Some (None, n)}
                          else do {c \<leftarrow> quot32 total_seconds d; Some (None, c)}
                  else Some (None, n)})"

section \<open>Constructors\<close>

definition TimeSequence_n :: "int \<Rightarrow> int \<Rightarrow> int \<Rightarrow> errc option \<Rightarrow> (errc option \<times> TimeSequence) option" where
  "TimeSequence_n from to n err =
     do {(err, r) \<leftarrow> DateTimeDiff_intervals from to n err;
         let err = (if n = 0 \<and> from \<noteq> to \<or> n > 0 \<and> from = to then Some invalid_argument else err);
         Some (err, \<lparr>interval = time_interval_of 1 from to, time_duration = r, intervals = n\<rparr>)}"

text \<open>
  The arguments of the delegated constructor are evaluated in an order the language leaves open:
  \<open>ltr\<close> says whether the lambda that clears the error code runs before the intervals are counted.
  The code that \<open>DateTimeDiff\<close>'s constructor sets is cleared by \<open>compute_number_of_intervals\<close>.
\<close>

definition TimeSequence_units ::
    "bool \<Rightarrow> int \<Rightarrow> int \<Rightarrow> int \<Rightarrow> int \<Rightarrow> int \<Rightarrow> int \<Rightarrow> int \<Rightarrow> int \<Rightarrow> (errc option \<times> TimeSequence) option" where
  "TimeSequence_units ltr from to y mo d h m s =
     do {(err, n) \<leftarrow> (if from = to then Some (None, 0)
                      else compute_number_of_intervals (if from < to then from else to) (if to > from then to else from)
                             (snd (DateTimeDiff_checked None y mo d h m s)));
         TimeSequence_n from to (n mod 2 ^ 32) (if ltr then err else None)}"

definition TimeSequence_diff :: "bool \<Rightarrow> int \<Rightarrow> int \<Rightarrow> DateTimeDiff \<Rightarrow> (errc option \<times> TimeSequence) option" where
  "TimeSequence_diff ltr from to r =
     TimeSequence_units ltr from to (years r) (months r) (days r) (hours r) (minutes r) (seconds r)"

definition TimeSequence_months where
  "TimeSequence_months ltr from to mo d h m s = TimeSequence_units ltr from to 0 mo d h m s"

definition TimeSequence_days where
  "TimeSequence_days ltr from to d h m s = TimeSequence_units ltr from to 0 0 d h m s"

definition TimeSequence_hours where
  "TimeSequence_hours ltr from to h m s = TimeSequence_units ltr from to 0 0 0 h m s"

definition TimeSequence_minutes where
  "TimeSequence_minutes ltr from to m s = TimeSequence_units ltr from to 0 0 0 0 m s"

definition TimeSequence_seconds where
  "TimeSequence_seconds ltr from to s = TimeSequence_units ltr from to 0 0 0 0 0 s"

definition TimeSequence_interval :: "time_interval \<Rightarrow> std_exception + TimeSequence" where
  "TimeSequence_interval i =
     (case DateTimeDiff_between (ti_from i) (ti_to i) of
        Inl e \<Rightarrow> Inl e
      | Inr r \<Rightarrow> Inr \<lparr>interval = i, time_duration = r, intervals = 1\<rparr>)"

definition TimeSequence_steps :: "int \<Rightarrow> DateTimeDiff \<Rightarrow> int \<Rightarrow> TimeSequence" where
  "TimeSequence_steps from r n =
     (let ymd_to = ymd_add_months (ymd_add_years (date_of from) (years r * n)) (months r * n)
      in \<lparr>interval = time_interval_of 1 from (86400 * sys_days ymd_to + clock_seconds r * n),
          time_duration = r, intervals = n\<rparr>)"

section \<open>Operations\<close>

text \<open>
  The part of the sequence inside an interval. The result is \<open>None\<close> for an undefined conversion and
  \<open>Inl\<close> for the exception that the constructor from an interval may throw.
\<close>

definition bounded :: "int \<Rightarrow> int \<Rightarrow> int \<Rightarrow> DateTimeDiff \<Rightarrow> (std_exception + errc option \<times> TimeSequence)" where
  "bounded a b n r =
     (case TimeSequence_interval (time_interval_of 1 a b) of
        Inl e \<Rightarrow> Inl e
      | Inr result \<Rightarrow> Inr (None, result\<lparr>intervals := n, time_duration := r\<rparr>))"

definition bound_by_interval ::
    "TimeSequence \<Rightarrow> time_interval \<Rightarrow> errc option \<Rightarrow> (std_exception + errc option \<times> TimeSequence) option" where
  "bound_by_interval ts i err =
     (let from = ti_from i; to = ti_to i; f = ti_from (interval ts); t = ti_to (interval ts); r = time_duration ts
      in if to < f \<or> from > t then Some (Inr (Some invalid_argument, TimeSequence_default))
         else if from \<le> f
         then if to \<ge> t then Some (Inr (err, ts))
              else do {(err, n) \<leftarrow> full_number_of_intervals f to r;
                       if err \<noteq> None then Some (Inr (err, TimeSequence_default))
                       else if n = 0
                       then Some (map_sum id (Pair None) (TimeSequence_interval (time_interval_of 1 f f)))
                       else Some (bounded f (seq_nth ts n) n r)}
         else if to \<ge> t
         then do {(err, n) \<leftarrow> full_number_of_intervals f from r;
                  if err \<noteq> None then Some (Inr (err, TimeSequence_default))
                  else if n = 0 then Some (bounded (diff_plus r f) t ((intervals ts - 1) mod 2 ^ 32) r)
                  else Some (bounded f (seq_nth ts n) n r)}
         else do {(err, n1) \<leftarrow> full_number_of_intervals f from r;
                  if err \<noteq> None then Some (Inr (err, TimeSequence_default))
                  else do {(err, n2) \<leftarrow> full_number_of_intervals f to r;
                           if err \<noteq> None then Some (Inr (err, TimeSequence_default))
                           else Some (bounded (seq_nth ts (n1 + 1)) (seq_nth ts n2) ((n2 - (n1 + 1)) mod 2 ^ 32) r)}})"

definition seq_reset :: "int \<Rightarrow> TimeSequence \<Rightarrow> TimeSequence" where
  "seq_reset time ts = ts\<lparr>time_duration := zero_diff, interval := time_interval_of 1 time time\<rparr>"

text \<open>Pushing a time point; an exception inside these functions ends the program (\<open>Inl\<close>).\<close>

definition push_time_before ::
    "int \<Rightarrow> errc option \<Rightarrow> TimeSequence \<Rightarrow> (std_exception + bool \<times> errc option \<times> TimeSequence) option" where
  "push_time_before time err ts =
     (if time < ti_from (interval ts)
      then if diff_eq (time_duration ts) zero_diff
           then do {(err, tmp) \<leftarrow> TimeSequence_n time (ti_to (interval ts)) 1 err;
                    if err \<noteq> None then Some (Inr (False, err, ts)) else Some (Inr (True, err, tmp))}
           else case DateTimeDiff_between time (ti_from (interval ts)) of
                  Inl e \<Rightarrow> Some (Inl e)
                | Inr r \<Rightarrow>
                    if diff_eq r (time_duration ts)
                    then Some (Inr (True, err, ts\<lparr>interval := time_interval_of 1 time (ti_to (interval ts)),
                                                  intervals := (intervals ts + 1) mod 2 ^ 32\<rparr>))
                    else Some (Inr (False, err, ts))
      else Some (Inr (False, err, ts)))"

definition push_time_after ::
    "int \<Rightarrow> errc option \<Rightarrow> TimeSequence \<Rightarrow> (std_exception + bool \<times> errc option \<times> TimeSequence) option" where
  "push_time_after time err ts =
     (if time > ti_to (interval ts)
      then if diff_eq (time_duration ts) zero_diff
           then do {(err, tmp) \<leftarrow> TimeSequence_n (ti_from (interval ts)) time 1 err;
                    if err \<noteq> None then Some (Inr (False, err, ts)) else Some (Inr (True, err, tmp))}
           else case DateTimeDiff_between (ti_to (interval ts)) time of
                  Inl e \<Rightarrow> Some (Inl e)
                | Inr r \<Rightarrow>
                    if diff_eq r (time_duration ts)
                    then Some (Inr (True, err, ts\<lparr>interval := time_interval_of 1 (ti_from (interval ts)) time,
                                                  intervals := (intervals ts + 1) mod 2 ^ 32\<rparr>))
                    else Some (Inr (False, err, ts))
      else Some (Inr (False, err, ts)))"

definition push_time ::
    "int \<Rightarrow> errc option \<Rightarrow> TimeSequence \<Rightarrow> (std_exception + bool \<times> errc option \<times> TimeSequence) option" where
  "push_time time err ts =
     do {x \<leftarrow> push_time_before time err ts;
         case x of
           Inl e \<Rightarrow> Some (Inl e)
         | Inr (b, err, ts) \<Rightarrow>
             if b \<and> err = None then Some (Inr (True, err, ts))
             else if err = None
             then do {x \<leftarrow> push_time_after time err ts;
                      case x of
                        Inl e \<Rightarrow> Some (Inl e)
                      | Inr (b, err, ts) \<Rightarrow> Some (Inr (b \<and> err = None, err, ts))}
             else Some (Inr (False, err, ts))}"

text \<open>The loop of \<open>make_from_range\<close> returns the sequence and how many more elements went into it.\<close>

fun push_loop ::
    "int list \<Rightarrow> errc option \<Rightarrow> TimeSequence \<Rightarrow> nat \<Rightarrow> (std_exception + errc option \<times> TimeSequence \<times> nat) option" where
  "push_loop [] err ts i = Some (Inr (err, ts, i))"
| "push_loop (x # xs) err ts i =
     do {p \<leftarrow> push_time_after x err ts;
         case p of
           Inl e \<Rightarrow> Some (Inl e)
         | Inr (b, err, ts) \<Rightarrow> if b then push_loop xs err ts (i + 1) else Some (Inr (err, ts, i))}"

definition make_from_range ::
    "int list \<Rightarrow> errc option \<Rightarrow> (std_exception + errc option \<times> TimeSequence \<times> nat) option" where
  "make_from_range time_series err =
     (case time_series of
        [] \<Rightarrow> Some (Inr (Some invalid_argument, TimeSequence_default, 0))
      | first # rest \<Rightarrow>
          if rest \<noteq> [] then push_loop rest err (TimeSequence_at first) 1
          else Some (Inr (err, TimeSequence_at first, 1)))"

subsection \<open>Extension\<close>

definition extendable_by :: "TimeSequence \<Rightarrow> TimeSequence \<Rightarrow> bool option" where
  "extendable_by ts other =
     (let r = time_duration ts; f = ti_from (interval ts); t = ti_to (interval ts);
          fo = ti_from (interval other); to = ti_to (interval other)
      in if diff_eq (time_duration other) zero_diff \<and> diff_eq r zero_diff then Some True
         else if diff_eq r (time_duration other)
         then if to \<noteq> t \<or> fo \<noteq> f
              then do {(err, n) \<leftarrow> compute_number_of_intervals fo f r;
                       if err = None \<and> (fo \<le> diff_plus r t \<and> to \<ge> diff_plus r t \<or>
                                         to \<ge> tp_minus f r \<and> fo \<le> tp_minus f r)
                       then Some True
                       else do {(err, e) \<leftarrow> DateTimeDiff_intervals fo f 2 err;
                                Some (err = None \<and>
                                  (diff_plus e (diff_plus e f) = diff_plus r f \<or> tp_minus (tp_minus f e) e = tp_minus f r) \<and>
                                  (diff_plus e (diff_plus e t) = diff_plus r t \<or> tp_minus (tp_minus t e) e = tp_minus t r))}}
              else Some False
         else Some False)"

text \<open>The common tail of both functions: the hull of the intervals, counted anew.\<close>

definition extend_to :: "int \<Rightarrow> int \<Rightarrow> TimeSequence \<Rightarrow> (bool \<times> errc option \<times> TimeSequence) option" where
  "extend_to from to ts =
     (let i = time_interval_of 1 (if from < ti_from (interval ts) then from else ti_from (interval ts))
                (if to > ti_to (interval ts) then to else ti_to (interval ts))
      in do {(err, n) \<leftarrow> compute_number_of_intervals (ti_from i) (ti_to i) (time_duration ts);
             Some (True, err, ts\<lparr>interval := i, intervals := n mod 2 ^ 32\<rparr>)})"

definition extend_by_interval ::
    "bool \<Rightarrow> time_interval \<Rightarrow> TimeSequence \<Rightarrow> (bool \<times> errc option \<times> TimeSequence) option" where
  "extend_by_interval ltr i ts =
     do {(err, tmp) \<leftarrow> TimeSequence_diff ltr (ti_from i) (ti_to i) (time_duration ts);
         refused \<leftarrow> (if err \<noteq> None then map_option Not (extendable_by ts tmp) else Some False);
         if refused then Some (False, err, ts) else extend_to (ti_from i) (ti_to i) ts}"

definition extend_by_sequence ::
    "TimeSequence \<Rightarrow> errc option \<Rightarrow> TimeSequence \<Rightarrow> (bool \<times> errc option \<times> TimeSequence) option" where
  "extend_by_sequence sequence err ts =
     do {ok \<leftarrow> extendable_by ts sequence;
         if \<not> ok then Some (False, err, ts)
         else extend_to (ti_from (interval sequence)) (ti_to (interval sequence)) ts}"

text \<open>The positions of the intervals that meet a given interval, as \<open>uint64_t\<close>.\<close>

definition interval_intersection_pos ::
    "time_interval \<Rightarrow> TimeSequence \<Rightarrow> errc option \<Rightarrow> (errc option \<times> (int \<times> int) option) option" where
  "interval_intersection_pos to_seek initial err =
     (let f = ti_from (interval initial); t = ti_to (interval initial); r = time_duration initial
      in if \<not> intervals_intersect to_seek (interval initial) then Some (err, None)
         else if diff_eq r zero_diff then Some (err, None)
         else do {(err, first) \<leftarrow> (if ti_from to_seek \<le> f then Some (err, 0)
                                   else compute_number_of_intervals f (ti_from to_seek) r);
                  if err \<noteq> None then Some (err, None)
                  else do {(err, second) \<leftarrow> (if ti_to to_seek \<ge> t then Some (err, intervals initial)
                                              else do {(err, n) \<leftarrow> compute_number_of_intervals (ti_to to_seek) t r;
                                                       Some (err, (intervals initial - n) mod 2 ^ 32)});
                           if err \<noteq> None then Some (err, None)
                           else Some (err, Some (first mod 2 ^ 64, second mod 2 ^ 64))}})"

subsection \<open>Comparison and hash\<close>

definition seq_hash :: "TimeSequence \<Rightarrow> 64 word" where
  "seq_hash v = xor (interval_hash (interval v)) (push_bit 1 (diff_hash (time_duration v)))"

definition seq_equal_to :: "TimeSequence \<Rightarrow> TimeSequence \<Rightarrow> bool" where
  "seq_equal_to a b \<longleftrightarrow> interval_eq (interval a) (interval b)"

definition seq_less :: "TimeSequence \<Rightarrow> TimeSequence \<Rightarrow> bool" where
  "seq_less a b \<longleftrightarrow> interval_less (interval a) (interval b)"

end
