(* ===== verification/Time_Properties.thy ===== *)
theory Time_Properties
  imports Time_Sequence
begin

text \<open>
  Properties of the time classes: the number of intervals between two time points is the quotient of
  the durations when the distance has no months, and the greatest index not after the end when it has
  no days and clock time; the components of a difference lead from the one time point to the other
  when no unit has to be borrowed.
\<close>

section \<open>Distances of days and clock time\<close>

lemma ymd_add_months_0 [simp]: "1 \<le> month d \<Longrightarrow> month d \<le> 12 \<Longrightarrow> in_int16 (year d) \<Longrightarrow> ymd_add_months d 0 = d"
  by (simp add: ymd_add_months_def year_plus_def month_plus_def)

lemma ymd_ok_month: "ymd_ok d \<Longrightarrow> 1 \<le> month d \<and> month d \<le> 12"
  by (simp add: ymd_ok_def)

lemma clock_between_0:
  assumes "in_int16 (year (date_of to))"
  shows "clock_between from to r 0 = to - from"
  using assms ymd_ok_month [OF ymd_ok_date_of, of to] date_time_split [of to]
  by (simp add: clock_between_def time_of_day_def)

lemma clock_seconds_bound: "diff_ok r \<Longrightarrow> clock_seconds r < 2 ^ 51"
  by (simp add: clock_seconds_def diff_ok_def in_int8_def)

lemma has_clock: "clock_seconds r \<noteq> 0 \<Longrightarrow> has_clock r"
  by (auto simp: has_clock_def clock_seconds_def)

lemma clock_not_zero: "has_clock r \<Longrightarrow> \<not> diff_eq r zero_diff"
  by (auto simp: has_clock_def diff_eq_def zero_diff_def)

lemma quot32_eq:
  assumes "0 < b" "0 \<le> a" "a < 2 ^ 52" "b < 2 ^ 51" "a div b < 2 ^ 31"
  shows "quot32 a b = Some (a div b)"
proof -
  have "0 \<le> a div b" using assms by (simp add: pos_imp_zdiv_nonneg_iff)
  then show ?thesis
    using assms by (simp add: quot32_def dbl_to_def trunc_dbl_div in_int32_def)
qed

lemma integer_quot_eq:
  "0 < b \<Longrightarrow> 0 \<le> a \<Longrightarrow> a < 2 ^ 52 \<Longrightarrow> b < 2 ^ 51 \<Longrightarrow> integer_quot a b \<longleftrightarrow> b dvd a"
  by (simp add: integer_quot_def is_integer_dbl_div)

lemma full_number_sym: "full_number_of_intervals a b r = full_number_of_intervals b a r"
  by (simp add: full_number_of_intervals_def)

lemma compute_number_sym: "compute_number_of_intervals a b r = compute_number_of_intervals b a r"
  by (simp add: compute_number_of_intervals_def)

lemma seq_at_clock:
  assumes "\<not> has_months r" "in_int16 (year (date_of from))"
  shows "seq_at from r k = from + k * clock_seconds r"
proof -
  have "ymd_add_years (date_of from) 0 = date_of from"
    using assms(2) by (simp add: ymd_add_years_def year_plus_def)
  then show ?thesis
    using assms ymd_ok_month [OF ymd_ok_date_of, of "from"] date_time_split [of "from"]
    by (simp add: seq_at_def has_months_def clock_seconds_def algebra_simps)
qed

lemma clock_count:
  assumes "diff_ok r" and "\<not> has_months r" and "0 < clock_seconds r" and "from < to"
    and "to - from < 2 ^ 52" and "(to - from) div clock_seconds r < 2 ^ 31"
    and "in_int16 (year (date_of from))" and "in_int16 (year (date_of to))"
  defines "n \<equiv> (to - from) div clock_seconds r"
  shows "full_number_of_intervals from to r = Some (None, n)"
    and "full_number_of_intervals to from r = Some (None, n)"
    and "seq_at from r n \<le> to" and "to < seq_at from r (n + 1)"
    and "compute_number_of_intervals from to r =
           (if clock_seconds r dvd to - from then Some (None, n) else Some (Some invalid_argument, - 1))"
proof -
  let ?D = "clock_seconds r"
  have clock: "has_clock r" using assms(3) by (intro has_clock) simp
  have q: "quot32 (to - from) ?D = Some n"
    unfolding n_def using assms clock_seconds_bound [OF assms(1)] by (intro quot32_eq) simp_all
  show "full_number_of_intervals from to r = Some (None, n)"
    using assms(2,4) clock clock_not_zero [OF clock] q
    by (simp add: full_number_of_intervals_def clock_between_0 [OF assms(8)])
  then show "full_number_of_intervals to from r = Some (None, n)" by (simp add: full_number_sym)
  have "?D * n + (to - from) mod ?D = to - from" by (simp add: n_def)
  moreover have "0 \<le> (to - from) mod ?D" "(to - from) mod ?D < ?D" using assms(3) by simp_all
  ultimately show "seq_at from r n \<le> to" "to < seq_at from r (n + 1)"
    unfolding seq_at_clock [OF assms(2,7)] by (simp_all add: algebra_simps)
  have exact: "dbl_div (to - from) ?D \<noteq> 0" if "?D dvd to - from"
  proof -
    have "to - from = ?D * n" using that by (simp add: n_def)
    then have "n \<noteq> 0" using assms(4) by auto
    then show ?thesis
      using dbl_div_exact [OF assms(3) that] assms(4,5) clock_seconds_bound [OF assms(1)] by (simp add: n_def)
  qed
  have "integer_quot (to - from) ?D \<longleftrightarrow> ?D dvd to - from"
    using assms clock_seconds_bound [OF assms(1)] by (intro integer_quot_eq) simp_all
  then show "compute_number_of_intervals from to r =
      (if ?D dvd to - from then Some (None, n) else Some (Some invalid_argument, - 1))"
    using assms(2,4) clock clock_not_zero [OF clock] q exact
    by (simp add: compute_number_of_intervals_def clock_between_0 [OF assms(8)] Let_def)
qed

text \<open>
  When the distance \<open>r\<close> has no years and months and is \<open>D\<close> > 0 seconds long, both functions
  count by the quotient of the durations, in either order of the arguments:
  \<open>full_number_of_intervals\<close> returns the greatest \<open>n\<close> such that the element \<open>n\<close> of the sequence that
  starts at \<open>from\<close> is not after \<open>to\<close>, and \<open>compute_number_of_intervals\<close> returns the same number when
  the division has no remainder and an error otherwise. The \<open>double\<close> in between loses nothing.
\<close>

lemma number_of_intervals_clock:
  assumes "diff_ok r" and "\<not> has_months r" and "0 < clock_seconds r" and "from < to"
    and "to - from < 2 ^ 52" and "(to - from) div clock_seconds r < 2 ^ 31"
    and "in_int16 (year (date_of from))" and "in_int16 (year (date_of to))"
    and "n = (to - from) div clock_seconds r"
  shows "full_number_of_intervals from to r = Some (None, n) \<and> full_number_of_intervals to from r = Some (None, n) \<and>
     seq_at from r n \<le> to \<and> to < seq_at from r (n + 1) \<and>
     compute_number_of_intervals from to r =
       (if clock_seconds r dvd to - from then Some (None, n) else Some (Some invalid_argument, - 1))"
  using clock_count [OF assms(1-8)] assms(9) by simp

section \<open>Distances of years and months\<close>

text \<open>The time point \<open>j\<close> months after \<open>from\<close>, on the same day of the month and at the same time.\<close>

definition months_later :: "int \<Rightarrow> int \<Rightarrow> int" where
  "months_later from j =
     86400 * (month_start (month_index (date_of from) + j) + day (date_of from) - 1) + time_of_day from"

lemma tp_month_split:
  "tp = 86400 * (month_start (month_index (date_of tp)) + day (date_of tp) - 1) + time_of_day tp"
  using date_time_split [of tp] sys_days_month [of "date_of tp"] ymd_ok_month [OF ymd_ok_date_of, of tp] by simp

lemma months_between_index:
  "months_between from to = month_index (date_of to) - month_index (date_of from) -
     (if day (date_of to) < day (date_of from) \<or>
         day (date_of to) = day (date_of from) \<and> time_of_day to < time_of_day from then 1 else 0)"
  by (simp add: months_between_def Let_def month_index_def)

lemma months_later_le:
  assumes "day (date_of from) \<le> 28" "j \<le> months_between from to"
  shows "months_later from j \<le> to"
proof -
  let ?i = "month_index (date_of from) + j" and ?k = "month_index (date_of to)"
  have le: "?i \<le> ?k" using assms(2) by (simp add: months_between_index split: if_splits)
  have t: "time_of_day from < 86400" "0 \<le> time_of_day to" "1 \<le> day (date_of to)"
    using time_of_day_bounds ymd_ok_date_of [of to] by (simp_all add: ymd_ok_def)
  show ?thesis
  proof (cases "?i = ?k")
    case True
    then have "day (date_of from) < day (date_of to) \<or>
        day (date_of from) = day (date_of to) \<and> time_of_day from \<le> time_of_day to"
      using assms(2) by (auto simp: months_between_index split: if_splits)
    then show ?thesis
      using t True by (subst tp_month_split [of to]) (auto simp: months_later_def)
  next
    case False
    then have "28 \<le> 28 * (?k - ?i)" using le by simp
    then have "month_start ?i + 28 \<le> month_start ?k" using month_start_mono [OF le] by simp
    then show ?thesis
      using t assms(1) by (subst tp_month_split [of to]) (simp add: months_later_def)
  qed
qed

lemma months_later_gt:
  assumes "months_between from to < j"
  shows "to < months_later from j"
proof -
  let ?i = "month_index (date_of from) + j" and ?k = "month_index (date_of to)"
  have t: "time_of_day to < 86400" "0 \<le> time_of_day from" "1 \<le> day (date_of from)"
    using time_of_day_bounds ymd_ok_date_of [of "from"] by (simp_all add: ymd_ok_def)
  show ?thesis
  proof (cases "?k < ?i")
    case True
    then have "month_start (?k + 1) \<le> month_start ?i" using month_start_mono [of "?k + 1" ?i] by simp
    then have "sys_days (date_of to) + 1 \<le> month_start ?i" using day_within_month(2) [of "date_of to"] by simp
    then show ?thesis
      using t by (subst date_time_split [of to]) (simp add: months_later_def)
  next
    case False
    then have "?i = ?k" "day (date_of to) < day (date_of from) \<or>
        day (date_of to) = day (date_of from) \<and> time_of_day to < time_of_day from"
      using assms by (auto simp: months_between_index split: if_splits)
    then show ?thesis
      using t by (subst tp_month_split [of to]) (auto simp: months_later_def)
  qed
qed

lemma months_between_nonneg:
  assumes "from < to"
  shows "0 \<le> months_between from to"
proof (rule ccontr)
  assume "\<not> ?thesis"
  then have "to < months_later from 0" by (intro months_later_gt) simp
  then show False using assms tp_month_split [of "from"] by (simp add: months_later_def)
qed

lemma seq_at_months:
  assumes "\<not> has_clock r" "in_int16 (year (date_of from) + years r * k)"
    and "in_int16 ((month_index (date_of from) + (12 * years r + months r) * k) div 12)"
  shows "seq_at from r k = months_later from ((12 * years r + months r) * k)"
proof -
  let ?d = "ymd_add_years (date_of from) (years r * k)"
  have i: "month_index ?d + months r * k = month_index (date_of from) + (12 * years r + months r) * k"
    using assms(2) by (simp add: month_index_def ymd_add_years_def year_plus_def algebra_simps)
  have d: "1 \<le> month ?d" "month ?d \<le> 12" "day ?d = day (date_of from)"
    using ymd_ok_month [OF ymd_ok_date_of, of "from"] by (simp_all add: ymd_add_years_def)
  show ?thesis
    using sys_days_add_months [OF d(1,2), of "months r * k"] assms(1,3) d(3)
    unfolding i by (simp add: seq_at_def months_later_def has_clock_def)
qed



section \<open>Differences lead from one time point to the other\<close>

lemma div_diff_no_borrow:
  fixes a b c :: int
  assumes "0 < c" "b mod c \<le> a mod c"
  shows "(a - b) div c = a div c - b div c" and "(a - b) mod c = a mod c - b mod c"
proof -
  have "a - b = (a div c - b div c) * c + (a mod c - b mod c)"
    by (simp add: left_diff_distrib minus_mod_eq_div_mult [symmetric])
  moreover have "0 \<le> a mod c - b mod c" "a mod c - b mod c < c"
    using assms pos_mod_bound [OF assms(1), of a] pos_mod_sign [OF assms(1), of b] by linarith+
  ultimately show "(a - b) div c = a div c - b div c" "(a - b) mod c = a mod c - b mod c"
    using assms(1) by simp_all
qed

lemma clock_split: "x = 3600 * (x div 3600) + 60 * (x mod 3600 div 60) + x mod 60" for x :: int
proof -
  have "x mod 60 = x mod 3600 mod 60" using mod_mod_cancel [of 60 3600 x] by simp
  then show ?thesis using mult_div_mod_eq [of 60 "x mod 3600"] mult_div_mod_eq [of 3600 x] by linarith
qed

text \<open>The element 1 of a sequence, when its date part is the month of \<open>to\<close>.\<close>

lemma seq_at_one:
  assumes "in_int16 (year (date_of from) + years r)"
    and "month_index (date_of from) + (12 * years r + months r) = month_index (date_of to)"
    and "in_int16 (year (date_of to))"
    and "days r = day (date_of to) - day (date_of from)"
    and "3600 * hours r + 60 * minutes r + seconds r = time_of_day to - time_of_day from"
  shows "seq_at from r 1 = to"
proof -
  let ?d = "ymd_add_years (date_of from) (years r)"
  have i: "month_index ?d + months r = month_index (date_of to)"
    using assms(1,2) by (simp add: month_index_def ymd_add_years_def year_plus_def)
  have d: "1 \<le> month ?d" "month ?d \<le> 12" "day ?d = day (date_of from)"
    using ymd_ok_month [OF ymd_ok_date_of, of "from"] by (simp_all add: ymd_add_years_def)
  have "month_index (date_of to) div 12 = year (date_of to)"
    using ymd_ok_month [OF ymd_ok_date_of, of to] by (simp add: month_index_def)
  then have "sys_days (ymd_add_months ?d (months r)) = month_start (month_index (date_of to)) + day (date_of from) - 1"
    using sys_days_add_months [OF d(1,2), of "months r"] assms(3) d(3) unfolding i by simp
  then show ?thesis
    using assms(4,5) tp_month_split [of to] by (simp add: seq_at_def)
qed

lemma day_range: "1 \<le> day (date_of t)" "day (date_of t) \<le> 31"
  using ymd_ok_date_of [of t] by (auto simp: ymd_ok_def last_day_def split: if_splits)

lemma time_of_day_mod: "time_of_day t mod 3600 = t mod 3600" "time_of_day t mod 60 = t mod 60"
proof -
  have t: "time_of_day t = t mod 86400" by (simp add: time_of_day_def floor_days_def minus_mult_div_eq_mod)
  show "time_of_day t mod 3600 = t mod 3600" "time_of_day t mod 60 = t mod 60"
    using mod_mod_cancel [of 3600 86400 t] mod_mod_cancel [of 60 86400 t] unfolding t by simp_all
qed

lemma in_int8_div:
  assumes "0 \<le> v" "v < 128 * c" "0 < c"
  shows "in_int8 (v div c)"
proof -
  have "v div c * c \<le> v" using div_mult_mod_eq [of v c] pos_mod_sign [OF assms(3), of v] by linarith
  then have "v div c < 128" using assms(2) mult_right_mono [of 128 "v div c" c] assms(3) by linarith
  moreover have "0 \<le> v div c" using assms by (simp add: pos_imp_zdiv_nonneg_iff)
  ultimately show ?thesis by (simp add: in_int8_def)
qed

lemma sdiv_nonneg: "0 \<le> a \<Longrightarrow> 0 < b \<Longrightarrow> a sdiv b = a div b" for a b :: int
  by (simp add: signed_divide_int_def sgn_if)

text \<open>
  \<open>DateTimeDiff(from,to)\<close> leads from \<open>from\<close> to \<open>to\<close>: the sequence with that distance has \<open>to\<close> as
  its next element, when the day of the month, the hours, the minutes and the seconds of \<open>to\<close> are
  not less than those of \<open>from\<close>, and the years can be represented.
\<close>

lemma between_leads_to:
  assumes "day (date_of from) \<le> day (date_of to)" and "time_of_day from \<le> time_of_day to"
    and "from mod 3600 \<le> to mod 3600" and "from mod 60 \<le> to mod 60"
    and "in_int16 (year (date_of to))" and "in_int16 (year (date_of to) - 1)"
    and "in_int16 (year (date_of to) - year (date_of from))"
    and "in_int16 (year (date_of to) - year (date_of from) - 1)"
  shows "\<exists>r. DateTimeDiff_between from to = Inr r \<and> diff_ok r \<and> seq_at from r 1 = to"
proof -
  let ?a = "date_of from" and ?b = "date_of to" and ?x = "time_of_day to - time_of_day from"
  have ma: "1 \<le> month ?a" "month ?a \<le> 12" and mb: "1 \<le> month ?b" "month ?b \<le> 12"
    using ymd_ok_month [OF ymd_ok_date_of] by blast+
  define borrow :: int where "borrow = (if month ?b < month ?a then 1 else 0)"
  have x: "0 \<le> ?x" "?x < 86400" using assms(2) time_of_day_bounds [of to] time_of_day_bounds [of "from"] by simp_all
  have m3600: "?x mod 3600 = to mod 3600 - from mod 3600" and m60: "?x mod 60 = to mod 60 - from mod 60"
    using div_diff_no_borrow(2) [of 3600 "time_of_day from" "time_of_day to"]
      div_diff_no_borrow(2) [of 60 "time_of_day from" "time_of_day to"] assms(3,4) by (simp_all add: time_of_day_mod)
  have h: "?x sdiv 3600 = ?x div 3600" "(to mod 3600 - from mod 3600) sdiv 60 = ?x mod 3600 div 60"
    using x by (simp_all add: sdiv_nonneg m3600 [symmetric])
  have clock: "3600 * (?x sdiv 3600) + 60 * ((to mod 3600 - from mod 3600) sdiv 60) + (to mod 60 - from mod 60) = ?x"
    unfolding h m60 [symmetric] by (rule clock_split [symmetric])
  have clock_ranges: "in_int8 (?x sdiv 3600)" "in_int8 ((to mod 3600 - from mod 3600) sdiv 60)"
    unfolding h by (intro in_int8_div; use x pos_mod_bound [of 3600 ?x] pos_mod_sign [of 3600 ?x] in linarith)+
  have second_range: "in_int8 (to mod 60 - from mod 60)"
    using pos_mod_bound [of 60 to] assms(4) pos_mod_sign [of 60 "from"] by (simp add: in_int8_def)
  have date_ranges: "in_int8 (day ?b - day ?a)" "in_int8 (month ?b - month ?a)"
    "in_int8 (month ?b - month ?a + 12 * borrow)"
    using day_range [of "from"] day_range [of to] ma mb by (simp_all add: in_int8_def borrow_def)
  note ranges = clock_ranges second_range date_ranges
  define r where "r = \<lparr>years = year ?b - year ?a - borrow, months = month ?b - month ?a + 12 * borrow,
    days = day ?b - day ?a, hours = ?x sdiv 3600, minutes = (to mod 3600 - from mod 3600) sdiv 60,
    seconds = to mod 60 - from mod 60\<rparr>"
  have "s16 (- 1) = - 1" by (rule s16_id) (simp add: in_int16_def)
  then have "s16 (s16 (- 1) + (year ?b - year ?a)) = year ?b - year ?a - 1"
    using s16_id [OF assms(8)] by (simp add: algebra_simps)
  then have "DateTimeDiff_between from to = Inr r"
    using assms ranges
    by (cases "month ?b < month ?a") (simp_all add: DateTimeDiff_between_def Let_def r_def borrow_def)
  moreover have "seq_at from r 1 = to"
    by (rule seq_at_one) (use assms clock in \<open>simp_all add: r_def borrow_def month_index_def split: if_splits\<close>)
  ultimately show ?thesis using DateTimeDiff_between_ok by blast
qed

subsection \<open>One interval\<close>

lemma dbl_div_1: "\<bar>a\<bar> < 2 ^ 53 \<Longrightarrow> dbl_div a 1 = of_int a"
  using dbl_div_exact [of 1 a] by simp

lemma dbl_to_of_int: "dbl_to P (of_int n) = (if P n then Some n else None)"
  by (simp add: dbl_to_def trunc_def)

lemma drop_whole_of_int: "0 \<le> n \<Longrightarrow> n < 2 ^ 53 \<Longrightarrow> drop_whole (of_int n) = Some 0"
  using fsub_of_int [of n n] by (simp add: drop_whole_def dbl_to_of_int)

lemma to8_quot:
  assumes "0 \<le> x" "x < 128 * c" "0 < c" "c < 2 ^ 20"
  shows "to8 (fdiv (of_int x) (of_int c)) = Some (x div c)"
proof -
  have "fdiv (of_int x) (of_int c) = dbl_div x c" using assms by (simp add: dbl_div_def)
  then show ?thesis
    using assms in_int8_div [of x c] trunc_dbl_div [of c x] by (simp add: dbl_to_def)
qed

lemma fsub_mod:
  assumes "0 \<le> y" "y < 2 ^ 53" "0 < c"
  shows "fsub (of_int y) (dbl_of (y div c * c)) = of_int (y mod c)"
proof -
  define z where "z = y div c * c"
  have "0 \<le> y div c" using assms by (simp add: pos_imp_zdiv_nonneg_iff)
  then have "0 \<le> z" using assms(3) by (simp add: z_def)
  moreover have "y - z = y mod c" unfolding z_def by (rule minus_div_mult_eq_mod)
  moreover have "0 \<le> y mod c" using assms(3) by simp
  ultimately show ?thesis
    using assms(1,2) fsub_of_int [of y z] unfolding z_def [symmetric] by simp
qed

lemma dtd_time_one:
  assumes "0 \<le> ft" "ft \<le> tt" "tt < 86400"
  shows "dtd_time ft tt 1 =
    Some (zero_diff\<lparr>hours := (tt - ft) div 3600, minutes := (tt - ft) mod 3600 div 60, seconds := (tt - ft) mod 60\<rparr>)"
proof -
  define x where "x = tt - ft"
  have x: "0 \<le> x" "x < 86400" using assms by (simp_all add: x_def)
  have h: "to8 (fdiv (of_int x) 3600) = Some (x div 3600)" using to8_quot [of x 3600] x by simp
  have "0 \<le> x mod 3600" "x mod 3600 < 3600" by simp_all
  then have m: "to8 (fdiv (of_int (x mod 3600)) 60) = Some (x mod 3600 div 60)" using to8_quot [of "x mod 3600" 60] by simp
  have sub1: "fsub (of_int x) (dbl_of (x div 3600 * 3600)) = of_int (x mod 3600)"
    by (rule fsub_mod) (use x in simp_all)
  have sub2: "fsub (of_int (x mod 3600)) (dbl_of (x mod 3600 div 60 * 60)) = of_int (x mod 60)"
    using fsub_mod [of "x mod 3600" 60] \<open>x mod 3600 < 3600\<close> mod_mod_cancel [of 60 3600 x] by simp
  have s: "to8 (of_int (x mod 60)) = Some (x mod 60)"
    using in_int8_div [of "x mod 60" 1] by (simp add: dbl_to_of_int)
  show ?thesis
    using assms x h m sub1 sub2 s dbl_div_1 [of x]
    by (simp add: dtd_time_def x_def [symmetric] not_less zero_diff_def)
qed

lemma not_epsilon: "\<not> 0 > dbl_epsilon"
  by (simp add: dbl_epsilon_def)

lemma dtd_days_one:
  assumes "day a \<le> day b" "days r = 0" "day b - day a < 128"
  shows "dtd_days a b 1 r = Some (r\<lparr>days := day b - day a\<rparr>)"
  using assms dbl_div_1 [of "day b - day a"] drop_whole_of_int [of "day b - day a"] not_epsilon
  by (simp add: dtd_days_def dbl_to_of_int in_int8_def del: of_int_diff)

lemma dtd_months_one:
  assumes "months r = 0" "years r = 0"
  shows "dtd_months a b 1 r =
    Some (r\<lparr>months := (month b - month a) mod 12, years := (if month b < month a then - 1 else 0)\<rparr>)"
proof -
  define m where "m = (month b - month a) mod 12"
  have m: "0 \<le> m" "m < 12" by (simp_all add: m_def)
  have "s16 (- 1) = - 1" by (rule s16_id) (simp add: in_int16_def)
  then show ?thesis
    using m assms dbl_div_1 [of m] drop_whole_of_int [of m] not_epsilon
    by (cases r) (simp add: dtd_months_def m_def [symmetric] dbl_to_of_int in_int8_def)
qed

lemma dtd_years_one:
  assumes "0 \<le> year b - year a + years r" "in_int16 (year b - year a + years r)"
  shows "dtd_years a b 1 r = Some (r\<lparr>years := year b - year a + years r\<rparr>)"
proof -
  define y where "y = year b - year a + years r"
  have "\<bar>y\<bar> < 2 ^ 53" using assms by (simp add: y_def in_int16_def)
  then show ?thesis
    using assms dbl_div_1 [of y] drop_whole_of_int [of y] not_epsilon
    by (simp add: dtd_years_def y_def [symmetric] dbl_to_of_int)
qed

lemma month_index_mono:
  assumes "from < to"
  shows "month_index (date_of from) \<le> month_index (date_of to)"
  using months_between_nonneg [OF assms] by (simp add: months_between_index split: if_splits)

text \<open>
  A \<open>TimeSequence\<close> made from two time points and one interval holds both: its interval runs from
  the one to the other, its element 0 is the first and its element 1 the second, and the error code is
  not touched. This is for time points at least a month apart, the second not earlier in its month and
  in its day than the first.
\<close>

lemma one_interval_exact:
  assumes "from < to" and "to - from < 2 ^ 52"
    and "getDaysInMonth (year (date_of from)) (month (date_of from)) \<le> days_between_dates (date_of from) (date_of to)"
    and "day (date_of from) \<le> day (date_of to)" and "time_of_day from \<le> time_of_day to"
    and "in_int16 (year (date_of from))" and "in_int16 (year (date_of to))" and "in_int16 (year (date_of to) - 1)"
    and "in_int16 (year (date_of to) - year (date_of from))"
  shows "\<exists>ts. TimeSequence_n from to 1 err = Some (err, ts) \<and> intervals ts = 1 \<and> diff_ok (time_duration ts) \<and>
           interval ts = \<lparr>ti_from = from, ti_to = to\<rparr> \<and> seq_nth ts 0 = from \<and> seq_nth ts 1 = to"
proof -
  let ?a = "date_of from" and ?b = "date_of to" and ?x = "time_of_day to - time_of_day from"
  have ma: "1 \<le> month ?a" "month ?a \<le> 12" and mb: "1 \<le> month ?b" "month ?b \<le> 12"
    using ymd_ok_month [OF ymd_ok_date_of] by blast+
  define borrow :: int where "borrow = (if month ?b < month ?a then 1 else 0)"
  have mdiff: "(month ?b - month ?a) mod 12 = month ?b - month ?a + 12 * borrow"
  proof (cases "month ?b < month ?a")
    case True
    then have "(month ?b - month ?a + 12) mod 12 = month ?b - month ?a + 12" using ma mb by (intro mod_pos_pos_trivial) simp_all
    then show ?thesis using True by (simp add: borrow_def)
  qed (use ma mb in \<open>simp add: borrow_def\<close>)
  have year: "0 \<le> year ?b - year ?a - borrow" "in_int16 (year ?b - year ?a - borrow)"
    using month_index_mono [OF assms(1)] ma mb assms(9) by (auto simp: month_index_def borrow_def in_int16_def)
  define r where "r = \<lparr>years = year ?b - year ?a - borrow, months = month ?b - month ?a + 12 * borrow,
    days = day ?b - day ?a, hours = ?x div 3600, minutes = ?x mod 3600 div 60, seconds = ?x mod 60\<rparr>"
  define span where "span = to - from - 86400 * number_leap_days ?a ?b"
  have "0 \<le> number_leap_days ?a ?b" "number_leap_days ?a ?b < 2 ^ 32" by (simp_all add: number_leap_days_def Let_def)
  then have "\<bar>span\<bar> < 2 ^ 53" using assms(1,2) by (simp add: span_def)
  then have "is_integer (dbl_div span 1)" using dbl_div_1 [of span] by simp
  moreover have "dtd_time (time_of_day from) (time_of_day to) 1 = Some (r\<lparr>years := 0, months := 0, days := 0\<rparr>)"
    using dtd_time_one [OF time_of_day_bounds(1) assms(5) time_of_day_bounds(2)] by (simp add: r_def zero_diff_def)
  moreover have "dtd_days ?a ?b 1 (r\<lparr>years := 0, months := 0, days := 0\<rparr>) = Some (r\<lparr>years := 0, months := 0\<rparr>)"
    using dtd_days_one [OF assms(4), of "r\<lparr>years := 0, months := 0, days := 0\<rparr>"]
      day_range [of "from"] day_range [of to] by (simp add: r_def)
  moreover have "dtd_months ?a ?b 1 (r\<lparr>years := 0, months := 0\<rparr>) = Some (r\<lparr>years := - borrow\<rparr>)"
    using dtd_months_one [of "r\<lparr>years := 0, months := 0\<rparr>" ?a ?b] mdiff by (simp add: r_def borrow_def)
  moreover have "dtd_years ?a ?b 1 (r\<lparr>years := - borrow\<rparr>) = Some r"
    using dtd_years_one [of ?b ?a "r\<lparr>years := - borrow\<rparr>"] year by (simp add: r_def)
  ultimately have int: "DateTimeDiff_intervals from to 1 err = Some (err, r)"
    using assms(1,3) by (simp add: DateTimeDiff_intervals_def Let_def span_def [symmetric])
  have "seq_at from r 1 = to"
    by (rule seq_at_one)
      (use assms clock_split [of ?x] in \<open>simp_all add: r_def borrow_def month_index_def split: if_splits\<close>)
  moreover have "seq_at from r 0 = from"
  proof -
    have "ymd_add_years ?a 0 = ?a" using assms(6) by (simp add: ymd_add_years_def year_plus_def)
    then show ?thesis using ma assms(6) date_time_split [of "from"] by (simp add: seq_at_def)
  qed
  ultimately show ?thesis
    using int assms(1) DateTimeDiff_intervals_ok [OF int]
    by (simp add: TimeSequence_n_def seq_nth_def time_interval_of_def time_point_cast_def)
qed



end
