(* ===== verification/Time_Findings.thy ===== *)
theory Time_Findings
  imports Time_Properties
begin

text \<open>
  What the time classes do on inputs where they do not do what they mean to: evaluations of the
  definitions on concrete dates. \<open>tp_at y m d s\<close> is the time point \<open>s\<close> seconds after midnight of a date.
\<close>

definition tp_at :: "int \<Rightarrow> int \<Rightarrow> int \<Rightarrow> int \<Rightarrow> int" where
  "tp_at y m d s = 86400 * sys_days \<lparr>year = y, month = m, day = d\<rparr> + s"

definition in_months :: "int \<Rightarrow> DateTimeDiff" where
  "in_months n = zero_diff\<lparr>months := n\<rparr>"

definition in_days :: "int \<Rightarrow> DateTimeDiff" where
  "in_days n = zero_diff\<lparr>days := n\<rparr>"

text \<open>A leap day of the first year is counted twice when the first date lies before March.\<close>

lemma leap_day_counted_twice:
  "number_leap_days \<lparr>year = 2020, month = 1, day = 1\<rparr> \<lparr>year = 2021, month = 1, day = 1\<rparr> = 2"
  by code_simp

text \<open>Adding a difference drops the time of day of the time point.\<close>

lemma plus_drops_time_of_day: "diff_plus (in_days 1) (tp_at 2024 1 1 36000) = tp_at 2024 1 2 0"
  by code_simp

text \<open>Adding months past December stays in the same year.\<close>

lemma plus_loses_year_carry: "diff_plus (in_months 3) (tp_at 2024 11 15 0) = tp_at 2024 2 15 0"
  by code_simp

text \<open>Subtracting days past the first of the month adds 256 days.\<close>

lemma minus_wraps_day: "tp_minus (tp_at 2024 3 5 0) (in_days 10) = tp_at 2024 3 1 0 + 250 * 86400"
  by code_simp

text \<open>From 10:50 to 11:10 the difference is minus 40 minutes.\<close>

lemma between_loses_hour_borrow:
  "DateTimeDiff_between (tp_at 2024 1 1 39000) (tp_at 2024 1 1 40200) = Inr (zero_diff\<lparr>minutes := - 40\<rparr>)"
  by code_simp

text \<open>From 31 January to 1 February the difference is one month and one day.\<close>

lemma between_overwrites_month_borrow:
  "DateTimeDiff_between (tp_at 2024 1 31 0) (tp_at 2024 2 1 0) = Inr (zero_diff\<lparr>months := 1, days := 1\<rparr>)"
  by code_simp

text \<open>Half an hour in one interval is a difference of zero; one hour has no defined result.\<close>

lemma to8_below_1:
  assumes "0 \<le> x" "x < 1"
  shows "to8 x = Some 0"
proof -
  have "\<lfloor>x\<rfloor> = 0" using assms by (simp only: floor_eq_iff of_int_0 add_0)
  then show ?thesis using assms(1) by (simp add: dbl_to_def trunc_def)
qed

lemma round_dbl_nonneg:
  assumes "0 \<le> x"
  shows "0 \<le> round_dbl x \<and> round_dbl x \<le> x + x / 2 ^ 53"
proof -
  have "\<bar>round_dbl x - x\<bar> \<le> x / 2 ^ 53" using round_dbl_error [of x] assms by (simp only: abs_of_nonneg)
  moreover have "x / 2 ^ 53 \<le> x" using assms by simp
  ultimately show ?thesis unfolding abs_le_iff by linarith
qed

lemma half_hour_is_zero: "DateTimeDiff_intervals 0 1800 1 None = Some (None, zero_diff)"
proof -
  have dates: "date_of 0 = \<lparr>year = 1970, month = 1, day = 1\<rparr>" "date_of 1800 = \<lparr>year = 1970, month = 1, day = 1\<rparr>"
    "number_leap_days \<lparr>year = 1970, month = 1, day = 1\<rparr> \<lparr>year = 1970, month = 1, day = 1\<rparr> = 0"
    "days_between_dates \<lparr>year = 1970, month = 1, day = 1\<rparr> \<lparr>year = 1970, month = 1, day = 1\<rparr> = 0"
    "getDaysInMonth 1970 1 = 31" by code_simp+
  define x y where "x = round_dbl (1 / 2)" and "y = fdiv (fsub x 0) 60"
  have x: "0 \<le> x" "x < 3 / 4" using round_dbl_nonneg [of "1 / 2"] by (simp_all add: x_def)
  have x': "0 \<le> fsub x 0" "fsub x 0 < 1" using round_dbl_nonneg [of x] x by (simp_all add: fsub_def)
  have y: "0 \<le> y" "y < 1 / 2" using round_dbl_nonneg [of "fsub x 0 / 60"] x' by (simp_all add: y_def fdiv_def)
  have y': "0 \<le> fsub y 0" "fsub y 0 < 1" using round_dbl_nonneg [of y] y by (simp_all add: fsub_def)
  have d: "dbl_of 0 = 0" "dbl_of 1800 = 1800" using dbl_of_small [of 0] dbl_of_small [of 1800] by simp_all
  have "fdiv (fsub 1800 0) 3600 = x"
    using fsub_of_int [of 1800 0] by (simp add: x_def fdiv_def)
  then have "dtd_short 0 1800 1 0 = Some zero_diff"
    using x y y' d s8_id [of 0] to8_below_1 [of x] to8_below_1 [of y] to8_below_1 [of "fsub y 0"]
    by (simp add: dtd_short_def y_def [symmetric] sdiv_nonneg zero_diff_def)
  then show ?thesis
    using dbl_div_1 [of 1800] is_integer_of_int [of 1800]
    by (simp add: DateTimeDiff_intervals_def Let_def dates)
qed

text \<open>Bounding a sequence of the months of a year to the second half returns the first half.\<close>

definition monthly_1990 :: TimeSequence where
  "monthly_1990 = \<lparr>interval = \<lparr>ti_from = tp_at 1990 1 1 0, ti_to = tp_at 1991 1 1 0\<rparr>,
    time_duration = in_months 1, intervals = 12\<rparr>"

lemma count_in_months:
  assumes "months_between from to = n" "from < to" "0 \<le> n" "n < 2 ^ 31"
  shows "full_number_of_intervals from to (in_months 1) = Some (None, n)"
    and "compute_number_of_intervals from to (in_months 1) = Some (None, n)"
  using assms quot32_eq [of 1 n] integer_quot_eq [of 1 n]
  by (simp_all add: full_number_of_intervals_def compute_number_of_intervals_def in_months_def zero_diff_def
      diff_eq_def has_months_def has_clock_def)

lemma bound_returns_the_head:
  "bound_by_interval monthly_1990 \<lparr>ti_from = tp_at 1990 7 1 0, ti_to = tp_at 1992 1 1 0\<rparr> None =
     Some (Inr (None, \<lparr>interval = \<lparr>ti_from = tp_at 1990 1 1 0, ti_to = tp_at 1990 7 1 0\<rparr>,
                       time_duration = in_months 1, intervals = 6\<rparr>))"
proof -
  have less: "tp_at 1990 1 1 0 < tp_at 1990 7 1 0" "tp_at 1990 7 1 0 < tp_at 1991 1 1 0"
    "tp_at 1991 1 1 0 < tp_at 1992 1 1 0" by code_simp+
  have "months_between (tp_at 1990 1 1 0) (tp_at 1990 7 1 0) = 6" by code_simp
  note count = count_in_months(1) [OF this less(1)]
  have "seq_nth monthly_1990 6 = tp_at 1990 7 1 0" by code_simp
  moreover have "bounded (tp_at 1990 1 1 0) (tp_at 1990 7 1 0) 6 (in_months 1) =
      Inr (None, \<lparr>interval = \<lparr>ti_from = tp_at 1990 1 1 0, ti_to = tp_at 1990 7 1 0\<rparr>,
                  time_duration = in_months 1, intervals = 6\<rparr>)" by code_simp
  ultimately show ?thesis
    using less count by (simp add: bound_by_interval_def Let_def monthly_1990_def)
qed

text \<open>The strict count allows a remainder of days when the distance is in months.\<close>

lemma strict_count_allows_remainder:
  "compute_number_of_intervals (tp_at 2024 1 15 0) (tp_at 2024 3 20 0) (in_months 1) = Some (None, 2)"
proof -
  have "months_between (tp_at 2024 1 15 0) (tp_at 2024 3 20 0) = 2" "tp_at 2024 1 15 0 < tp_at 2024 3 20 0"
    by code_simp+
  then show ?thesis using count_in_months(2) by simp
qed

text \<open>The constructor from a start, a distance and a number ends at midnight.\<close>

lemma steps_drop_time_of_day:
  "ti_to (interval (TimeSequence_steps (tp_at 2024 1 1 36000) (in_months 1) 1)) = tp_at 2024 2 1 0"
  by code_simp

lemma reset_keeps_intervals: "intervals (seq_reset t ts) = intervals ts"
  by (simp add: seq_reset_def)

lemma hash_ignores_seconds: "diff_hash (r\<lparr>seconds := s\<rparr>) = diff_hash r"
  by (simp add: diff_hash_def)

text \<open>A number of years that does not fit is dropped without an error.\<close>

lemma range_error_lost:
  "TimeSequence_units ltr from to 40000 0 5 0 0 0 = TimeSequence_units ltr from to 0 0 5 0 0 0"
  by (simp add: TimeSequence_units_def DateTimeDiff_checked_def checked_def in_int16_def in_int8_def)

end
