(* ===== verification/Time_Text.thy ===== *)
theory Time_Text
  imports Date_Time_Diff
begin

text \<open>
  The text forms of \<open>DateTimeDiff\<close> (\<open>types/time_interval.cpp\<close>) and the functions of \<open>parsing.h\<close> they are
  written with. Text is a list of characters; an exception is \<open>Inl\<close> with its class.
\<close>

section \<open>Parsing\<close>

datatype text_error = Out_of_range | Invalid_argument | Runtime_error

type_synonym 'a parsed = "text_error + 'a"

definition then_parse :: "'a parsed \<Rightarrow> ('a \<Rightarrow> 'b parsed) \<Rightarrow> 'b parsed" where
  "then_parse r f = (case r of Inl e \<Rightarrow> Inl e | Inr x \<Rightarrow> f x)"

lemma then_parse_simps [simp]: "then_parse (Inl e) f = Inl e" "then_parse (Inr x) f = f x"
  by (simp_all add: then_parse_def)

lemma then_parse_Inr: "then_parse r f = Inr y \<longleftrightarrow> (\<exists>x. r = Inr x \<and> f x = Inr y)"
  by (cases r) simp_all

definition is_digit :: "char \<Rightarrow> bool" where
  "is_digit c \<longleftrightarrow> of_char c > (47 :: nat) \<and> of_char c < (58 :: nat)"

text \<open>\<open>std::toupper\<close> in the C locale.\<close>

definition to_upper :: "char \<Rightarrow> char" where
  "to_upper c = (if of_char c \<ge> (97 :: nat) \<and> of_char c \<le> (122 :: nat) then char_of (of_char c - (32 :: nat)) else c)"

definition case_insensitive_char_compare :: "char \<Rightarrow> char \<Rightarrow> bool" where
  "case_insensitive_char_compare ch1 ch2 \<longleftrightarrow> to_upper ch1 = to_upper ch2"

text \<open>\<open>string_view::substr\<close> throws when the position is behind the end.\<close>

definition substr :: "nat \<Rightarrow> string \<Rightarrow> string parsed" where
  "substr pos s = (if pos > length s then Inl Out_of_range else Inr (drop pos s))"

text \<open>
  \<open>iend_with\<close> for one text to match. The piece that is compared with \<open>str\<close> is taken from \<open>to_match\<close>,
  not from \<open>str\<close>.
\<close>

definition iend_with :: "string \<Rightarrow> string \<Rightarrow> bool parsed" where
  "iend_with str to_match =
     (if length str < length to_match then Inr False
      else then_parse (substr (length str - length to_match) to_match) (\<lambda>sub.
        Inr (list_all2 case_insensitive_char_compare sub str)))"

text \<open>\<open>split\<close> at one delimiter: the pieces between its occurrences, one more than there are.\<close>

fun split_at :: "char \<Rightarrow> string \<Rightarrow> string \<Rightarrow> string list" where
  "split_at d piece [] = [piece]"
| "split_at d piece (c # s) = (if c = d then piece # split_at d [] s else split_at d (piece @ [c]) s)"

definition split :: "char \<Rightarrow> string \<Rightarrow> string list" where
  "split d s = split_at d [] s"

text \<open>
  \<open>std::from_chars\<close> for a 32-bit \<open>int\<close>: an optional minus, then digits as far as they go; the value, which
  is absent when there is no digit or when it does not fit, and the rest of the range.
\<close>

definition digit_value :: "char \<Rightarrow> int" where
  "digit_value c = int (of_char c) - 48"

definition digits_value :: "string \<Rightarrow> int" where
  "digits_value s = foldl (\<lambda>n c. 10 * n + digit_value c) 0 s"

definition std_from_chars :: "string \<Rightarrow> int option \<times> string" where
  "std_from_chars s =
     (let (sign, body) = (case s of c # cs \<Rightarrow> if c = CHR ''-'' then (- 1, cs) else (1, s) | [] \<Rightarrow> (1, s));
          ds = takeWhile is_digit body; v = sign * digits_value ds
      in if ds = [] then (None, s)
         else (if in_int32 v then Some v else None, dropWhile is_digit body))"

text \<open>\<open>from_chars<int>\<close>: the whole range has to be a number.\<close>

definition from_chars :: "string \<Rightarrow> int option" where
  "from_chars s = (case std_from_chars s of (v, rest) \<Rightarrow> if rest = [] then v else None)"

section \<open>Reading a difference\<close>

text \<open>The index of the first character that is not a digit, -1 for an empty text.\<close>

definition find_char :: "string \<Rightarrow> int" where
  "find_char input = (if input = [] then - 1 else int (length (takeWhile is_digit input)))"

text \<open>
  One round: the number, which keeps the indeterminate value \<open>junk\<close> when there are no digits or they do not fit
  (the exceptions for these cases are made but not thrown), then the unit. The rounds are those
  of the source, in their order; minutes and seconds are assigned to the days.
\<close>

definition round_number :: "int \<Rightarrow> nat \<Rightarrow> string \<Rightarrow> int" where
  "round_number junk pos current = (case fst (std_from_chars (take pos current)) of Some v \<Rightarrow> v | None \<Rightarrow> junk)"

definition unit_matches :: "nat \<Rightarrow> nat \<Rightarrow> string \<Rightarrow> string \<Rightarrow> bool parsed" where
  "unit_matches pos n current name = iend_with (take n (drop pos current)) name"

definition read_unit :: "int \<Rightarrow> nat \<Rightarrow> string \<Rightarrow> DateTimeDiff \<Rightarrow> (DateTimeDiff \<times> string) parsed" where
  "read_unit tmp pos current result =
     then_parse (unit_matches pos 1 current ''h'') (\<lambda>is_h.
     if is_h \<and> in_int8 tmp then Inr (result\<lparr>hours := tmp\<rparr>, drop (pos + 1) current) else
     then_parse (unit_matches pos 1 current ''y'') (\<lambda>is_y.
     if is_y \<and> in_int16 tmp then Inr (result\<lparr>years := tmp\<rparr>, drop (pos + 1) current) else
     then_parse (unit_matches pos 1 current ''m'') (\<lambda>is_m.
     if is_m \<and> in_int8 tmp then Inr (result\<lparr>months := tmp\<rparr>, drop (pos + 1) current) else
     then_parse (unit_matches pos 1 current ''d'') (\<lambda>is_d.
     if is_d \<and> in_int8 tmp then Inr (result\<lparr>days := tmp\<rparr>, drop (pos + 1) current) else
     then_parse (unit_matches pos 3 current ''min'') (\<lambda>is_min.
     if is_min \<and> in_int8 tmp then Inr (result\<lparr>days := tmp\<rparr>, drop (pos + 3) current) else
     then_parse (unit_matches pos 1 current ''s'') (\<lambda>is_s.
     if is_s \<and> in_int8 tmp then Inr (result\<lparr>days := tmp\<rparr>, drop (pos + 1) current) else
     Inl Runtime_error))))))"

text \<open>
  The loop. An empty text is looked at in the first round only: the position -1 becomes the largest
  \<open>size_t\<close>, behind the end.
\<close>

lemma read_unit_shorter:
  assumes "read_unit tmp pos current result = Inr (r, rest)" and "pos \<le> length current" and "current \<noteq> []"
  shows "length rest < length current"
  using assms by (auto simp: read_unit_def then_parse_Inr split: if_splits)

function read_diff :: "(string \<Rightarrow> int) \<Rightarrow> string \<Rightarrow> DateTimeDiff \<Rightarrow> DateTimeDiff parsed" where
  "read_diff junk current result =
     (if current = [] then Inl Out_of_range
      else let pos = nat (find_char current)
           in case read_unit (round_number (junk current) pos current) pos current result of
                Inl e \<Rightarrow> Inl e
              | Inr (result, current) \<Rightarrow> if current = [] then Inr result else read_diff junk current result)"
  by pat_completeness auto
termination
proof (relation "measure (\<lambda>(junk, current, result). length current)", goal_cases)
  case 1
  then show ?case by simp
next
  case (2 junk current result pos p r rest)
  then show ?case
    using read_unit_shorter [of _ pos current result r rest] length_takeWhile_le [of is_digit current]
    by (auto simp: find_char_def)
qed

declare read_diff.simps [simp del]

definition lexical_cast_DateTimeDiff :: "(string \<Rightarrow> int) \<Rightarrow> string \<Rightarrow> DateTimeDiff parsed" where
  "lexical_cast_DateTimeDiff junk input = read_diff junk input zero_diff"

section \<open>Writing a difference\<close>

text \<open>\<open>std::to_string\<close>.\<close>

fun digits_of :: "nat \<Rightarrow> string" where
  "digits_of n = (if n < 10 then [char_of (48 + n)] else digits_of (n div 10) @ [char_of (48 + n mod 10)])"

declare digits_of.simps [simp del]

definition to_string :: "int \<Rightarrow> string" where
  "to_string x = (if x < 0 then CHR ''-'' # digits_of (nat (- x)) else digits_of (nat x))"

definition part_text :: "int \<Rightarrow> int \<Rightarrow> string \<Rightarrow> string" where
  "part_text field value name = (if field > 0 then to_string value @ name else [])"

definition DateTimeDiff_text :: "DateTimeDiff \<Rightarrow> string" where
  "DateTimeDiff_text d =
     (let result = part_text (years d) (years d) ''y'' @ part_text (months d) (months d) ''m''
         @ part_text (days d) (days d) ''d'' @ part_text (hours d) (hours d) ''h''
         @ part_text (minutes d) (hours d) ''min'' @ part_text (seconds d) (hours d) ''s''
      in if result = [] then ''0s'' else result)"

section \<open>Numbers\<close>

lemma digit_char:
  assumes "k < 10"
  shows "is_digit (char_of (48 + k :: nat))" and "digit_value (char_of (48 + k)) = int k"
  using assms by (simp_all add: is_digit_def digit_value_def)

lemma some_digits:
  "char_of (48 :: nat) = CHR ''0''" "char_of (51 :: nat) = CHR ''3''" "char_of (53 :: nat) = CHR ''5''"
  by (simp_all add: char_of_eq_iff)

lemma digits_of_digits: "list_all is_digit (digits_of n)"
  by (induction n rule: digits_of.induct) (simp add: digits_of.simps digit_char)

lemma digits_of_not_Nil [simp]: "digits_of n \<noteq> []"
  by (subst digits_of.simps) simp

lemma digits_value_digits_of: "digits_value (digits_of n) = int n"
proof (induction n rule: digits_of.induct)
  case (1 n)
  show ?case
  proof (cases "n < 10")
    case True
    then show ?thesis using digit_char(2) [of n] by (simp add: digits_of.simps digits_value_def)
  next
    case False
    then have "digits_value (digits_of n) = 10 * int (n div 10) + int (n mod 10)"
      using 1 digit_char(2) [of "n mod 10"] by (subst digits_of.simps) (simp add: digits_value_def)
    also have "\<dots> = int n" by (simp add: zdiv_int zmod_int)
    finally show ?thesis .
  qed
qed

lemma takeWhile_digits:
  "\<not> is_digit c \<Longrightarrow> takeWhile is_digit (digits_of n @ c # rest) = digits_of n"
  "takeWhile is_digit (digits_of n) = digits_of n" "dropWhile is_digit (digits_of n) = []"
  using digits_of_digits [of n] by (simp_all add: list_all_iff takeWhile_append)

lemma from_chars_digits: "int n < 2 ^ 31 \<Longrightarrow> std_from_chars (digits_of n) = (Some (int n), [])"
proof -
  assume n: "int n < 2 ^ 31"
  have "is_digit (hd (digits_of n))" using digits_of_digits [of n] by (simp add: list_all_iff)
  moreover have "\<not> is_digit (CHR ''-'')" by (simp add: is_digit_def)
  ultimately have "hd (digits_of n) \<noteq> CHR ''-''" by metis
  then have "std_from_chars (digits_of n) = (if in_int32 (int n) then Some (int n) else None, [])"
    by (cases "digits_of n") (use digits_of_not_Nil [of n] takeWhile_digits(2,3) [of n] digits_value_digits_of [of n] in
      \<open>auto simp: std_from_chars_def\<close>)
  with n show ?thesis by (simp add: in_int32_def)
qed

section \<open>Round trip\<close>

text \<open>One number and its unit, at the head of the text.\<close>

definition set_unit :: "char \<Rightarrow> int \<Rightarrow> DateTimeDiff \<Rightarrow> DateTimeDiff" where
  "set_unit u v d = (if u = CHR ''y'' then d\<lparr>years := v\<rparr> else if u = CHR ''m'' then d\<lparr>months := v\<rparr>
     else if u = CHR ''d'' then d\<lparr>days := v\<rparr> else if u = CHR ''h'' then d\<lparr>hours := v\<rparr> else d\<lparr>days := v\<rparr>)"

lemma unit_one:
  "unit_matches (length ds) (Suc 0) (ds @ u # rest) [c] = Inr (to_upper u = to_upper c)"
  by (auto simp: unit_matches_def iend_with_def substr_def case_insensitive_char_compare_def)

lemma unit_min:
  "to_upper u \<noteq> to_upper (CHR ''m'') \<Longrightarrow> unit_matches (length ds) 3 (ds @ u # rest) ''min'' = Inr False"
  by (auto simp: unit_matches_def iend_with_def substr_def case_insensitive_char_compare_def)

lemma read_unit_part:
  assumes "u \<in> {CHR ''y'', CHR ''m'', CHR ''d'', CHR ''h'', CHR ''s''}" and "in_int8 v \<or> u = CHR ''y'' \<and> in_int16 v"
  shows "read_unit v (length ds) (ds @ u # rest) r = Inr (set_unit u v r, rest)"
proof -
  have "in_int8 v \<Longrightarrow> in_int16 v" by (simp add: in_int8_def in_int16_def)
  then consider "u = CHR ''y''" "in_int16 v" | "u = CHR ''m''" "in_int8 v" | "u = CHR ''d''" "in_int8 v"
    | "u = CHR ''h''" "in_int8 v" | "u = CHR ''s''" "in_int8 v"
    using assms by auto
  then show ?thesis
    by cases (simp_all add: read_unit_def unit_one unit_min to_upper_def set_unit_def)
qed

lemma read_diff_part:
  assumes "u \<in> {CHR ''y'', CHR ''m'', CHR ''d'', CHR ''h'', CHR ''s''}" and "in_int8 v \<or> u = CHR ''y'' \<and> in_int16 v"
    and "0 \<le> v"
  shows "read_diff junk (to_string v @ u # rest) r =
     (if rest = [] then Inr (set_unit u v r) else read_diff junk rest (set_unit u v r))"
proof -
  have u: "\<not> is_digit u" using assms(1) by (auto simp: is_digit_def)
  have v: "int (nat v) < 2 ^ 31" using assms(2,3) by (auto simp: in_int8_def in_int16_def)
  have t: "to_string v = digits_of (nat v)" using assms(3) by (simp add: to_string_def)
  let ?t = "to_string v @ u # rest"
  have pos: "nat (find_char ?t) = length (digits_of (nat v))"
    by (simp add: find_char_def t takeWhile_digits(1) [OF u])
  have "round_number (junk ?t) (length (digits_of (nat v))) ?t = v"
    using from_chars_digits [OF v] assms(3) by (simp add: round_number_def t)
  with read_unit_part [OF assms(1,2), of "digits_of (nat v)" rest r] pos show ?thesis
    by (subst read_diff.simps) (simp add: t)
qed

text \<open>Parts that may be left out, one after the other.\<close>

definition fields_text :: "(int \<times> char) list \<Rightarrow> string" where
  "fields_text fs = concat (map (\<lambda>(v, u). part_text v v [u]) fs)"

definition set_fields :: "(int \<times> char) list \<Rightarrow> DateTimeDiff \<Rightarrow> DateTimeDiff" where
  "set_fields fs r = fold (\<lambda>(v, u) r. if v > 0 then set_unit u v r else r) fs r"

lemma read_fields:
  assumes "\<forall>(v, u) \<in> set fs. u \<in> {CHR ''y'', CHR ''m'', CHR ''d'', CHR ''h'', CHR ''s''}
      \<and> (in_int8 v \<or> u = CHR ''y'' \<and> in_int16 v)"
  shows "fields_text fs \<noteq> [] \<Longrightarrow> read_diff junk (fields_text fs) r = Inr (set_fields fs r)"
  using assms
proof (induction fs arbitrary: r)
  case Nil
  then show ?case by (simp add: fields_text_def)
next
  case (Cons f fs)
  obtain v u where f: "f = (v, u)" by fastforce
  have rest: "fields_text fs = [] \<Longrightarrow> set_fields fs r' = r'" for r'
  proof -
    assume "fields_text fs = []"
    then have "\<forall>(v, u) \<in> set fs. \<not> v > 0" by (fastforce simp: fields_text_def part_text_def split: if_splits)
    then show "set_fields fs r' = r'" by (induction fs) (auto simp: set_fields_def)
  qed
  show ?case
  proof (cases "v > 0")
    case True
    then have "read_diff junk (fields_text (f # fs)) r
        = (if fields_text fs = [] then Inr (set_unit u v r) else read_diff junk (fields_text fs) (set_unit u v r))"
      using read_diff_part [of u v junk "fields_text fs" r] Cons.prems(2) by (simp add: f fields_text_def part_text_def)
    with True Cons rest show ?thesis by (simp add: f set_fields_def)
  next
    case False
    with Cons show ?thesis by (simp add: f fields_text_def set_fields_def part_text_def)
  qed
qed



section \<open>Minutes and seconds\<close>

text \<open>
  They are written with the number of the hours. Minutes cannot be read at all, since \<open>m\<close> is tried before \<open>min\<close>;
  seconds are read as days.
\<close>

lemma minutes_written_as_hours:
  "DateTimeDiff_text \<lparr>years = 0, months = 0, days = 0, hours = 3, minutes = 20, seconds = 5\<rparr> = ''3h3min3s''"
  by (simp add: DateTimeDiff_text_def part_text_def to_string_def digits_of.simps some_digits)

lemma minutes_unreadable: "lexical_cast_DateTimeDiff junk ''5min'' = Inl Runtime_error"
proof -
  have "read_diff junk ''in'' r = Inl Runtime_error" for r
    by (subst read_diff.simps)
      (simp add: find_char_def is_digit_def read_unit_def unit_matches_def iend_with_def substr_def
        case_insensitive_char_compare_def to_upper_def)
  then show ?thesis
    using read_diff_part [of "CHR ''m''" 5 junk "''in''" zero_diff]
    by (simp add: lexical_cast_DateTimeDiff_def to_string_def digits_of.simps some_digits in_int8_def)
qed

lemma seconds_read_as_days: "lexical_cast_DateTimeDiff junk ''5s'' = Inr (zero_diff\<lparr>days := 5\<rparr>)"
  using read_diff_part [of "CHR ''s''" 5 junk "[]" zero_diff]
  by (simp add: lexical_cast_DateTimeDiff_def to_string_def digits_of.simps some_digits set_unit_def in_int8_def)

end
