(* ===== verification/Time_Serialization.thy ===== *)
theory Time_Serialization
  imports Serialization_Properties Time_Sequence
begin

text \<open>
  \<open>types/time_interval.h\<close>, fourth part: the specialisations of the serialization functors for
  \<open>__time_interval__\<close>, \<open>DateTimeDiff\<close> and \<open>TimeSequence\<close>. They call the variadic functions with their
  fields, so the objects are classes of the serializer's type of types; the conversions between the
  records and its values are given here. Time points count seconds, the unit on the wire is a
  nanosecond.
\<close>

section \<open>Types and values\<close>

abbreviation seconds_ty :: ty where
  "seconds_ty \<equiv> TTime 1000000000"

definition interval_ty :: ty where
  "interval_ty = TStruct [seconds_ty, seconds_ty]"

definition DateTimeDiff_ty :: ty where
  "DateTimeDiff_ty = TStruct [TInt 2, TInt 1, TInt 1, TInt 1, TInt 1, TInt 1]"

definition TimeSequence_ty :: ty where
  "TimeSequence_ty = TStruct [interval_ty, DateTimeDiff_ty, TInt 4]"

text \<open>The object representation of an integer of \<open>n\<close> bytes.\<close>

definition int_val :: "nat \<Rightarrow> int \<Rightarrow> val" where
  "int_val n x = VInt (nat (x mod 256 ^ n))"

definition interval_val :: "time_interval \<Rightarrow> val" where
  "interval_val i = VStruct [VTick (ti_from i), VTick (ti_to i)]"

definition diff_val :: "DateTimeDiff \<Rightarrow> val" where
  "diff_val r = VStruct [int_val 2 (years r), int_val 1 (months r), int_val 1 (days r), int_val 1 (hours r),
                         int_val 1 (minutes r), int_val 1 (seconds r)]"

definition seq_val :: "TimeSequence \<Rightarrow> val" where
  "seq_val ts = VStruct [interval_val (interval ts), diff_val (time_duration ts), int_val 4 (intervals ts)]"

definition interval_of_val :: "val \<Rightarrow> time_interval" where
  "interval_of_val v = \<lparr>ti_from = vtick (vfields v ! 0), ti_to = vtick (vfields v ! 1)\<rparr>"

definition diff_of_val :: "val \<Rightarrow> DateTimeDiff" where
  "diff_of_val v =
     (let f = (\<lambda>i. int (vint (vfields v ! i)))
      in \<lparr>years = s16 (f 0), months = s8 (f 1), days = s8 (f 2), hours = s8 (f 3), minutes = s8 (f 4), seconds = s8 (f 5)\<rparr>)"

definition seq_of_val :: "val \<Rightarrow> TimeSequence" where
  "seq_of_val v = \<lparr>interval = interval_of_val (vfields v ! 0), time_duration = diff_of_val (vfields v ! 1),
                   intervals = int (vint (vfields v ! 2))\<rparr>"

section \<open>The functors\<close>

definition Serialize_interval :: "bool \<Rightarrow> host \<Rightarrow> time_interval \<Rightarrow> writer" where
  "Serialize_interval net h i =
     serialize_all [Serialize net h seconds_ty (VTick (ti_from i)), Serialize net h seconds_ty (VTick (ti_to i))]"

definition Deserialize_interval :: "bool \<Rightarrow> host \<Rightarrow> deserializer" where
  "Deserialize_interval net h =
     Deserialize_struct [stream_deserialize net h seconds_ty, stream_deserialize net h seconds_ty]"

definition interval_serial_size :: "time_interval \<Rightarrow> nat" where
  "interval_serial_size i = Serial_size seconds_ty (VTick (ti_from i)) + Serial_size seconds_ty (VTick (ti_to i))"

definition interval_limits :: "nat \<times> nat" where
  "interval_limits = (min_serial_size [Min_serial_size seconds_ty, Min_serial_size seconds_ty],
                      max_serial_size [Max_serial_size seconds_ty, Max_serial_size seconds_ty])"

definition Serialize_DateTimeDiff :: "bool \<Rightarrow> host \<Rightarrow> DateTimeDiff \<Rightarrow> writer" where
  "Serialize_DateTimeDiff net h r =
     serialize_all [Serialize net h (TInt 2) (int_val 2 (years r)), Serialize net h (TInt 1) (int_val 1 (months r)),
                    Serialize net h (TInt 1) (int_val 1 (days r)), Serialize net h (TInt 1) (int_val 1 (hours r)),
                    Serialize net h (TInt 1) (int_val 1 (minutes r)), Serialize net h (TInt 1) (int_val 1 (seconds r))]"

definition Deserialize_DateTimeDiff :: "bool \<Rightarrow> host \<Rightarrow> deserializer" where
  "Deserialize_DateTimeDiff net h =
     Deserialize_struct [stream_deserialize net h (TInt 2), stream_deserialize net h (TInt 1),
                         stream_deserialize net h (TInt 1), stream_deserialize net h (TInt 1),
                         stream_deserialize net h (TInt 1), stream_deserialize net h (TInt 1)]"

definition DateTimeDiff_limits :: "nat \<times> nat" where
  "DateTimeDiff_limits =
     (let ts = [TInt 2, TInt 1, TInt 1, TInt 1, TInt 1, TInt 1]
      in (min_serial_size (map Min_serial_size ts), max_serial_size (map Max_serial_size ts)))"

definition Serialize_TimeSequence :: "bool \<Rightarrow> host \<Rightarrow> TimeSequence \<Rightarrow> writer" where
  "Serialize_TimeSequence net h ts =
     serialize_all [Serialize_interval net h (interval ts), Serialize_DateTimeDiff net h (time_duration ts),
                    Serialize net h (TInt 4) (int_val 4 (intervals ts))]"

definition Deserialize_TimeSequence :: "bool \<Rightarrow> host \<Rightarrow> deserializer" where
  "Deserialize_TimeSequence net h =
     Deserialize_struct [deserialize_object (Deserialize_interval net h),
                         deserialize_object (Deserialize_DateTimeDiff net h),
                         stream_deserialize net h (TInt 4)]"

definition TimeSequence_limits :: "nat \<times> nat" where
  "TimeSequence_limits =
     (min_serial_size [fst interval_limits, fst DateTimeDiff_limits, Min_serial_size (TInt 4)],
      max_serial_size [snd interval_limits, snd DateTimeDiff_limits, Max_serial_size (TInt 4)])"

section \<open>The functors are those of the class types\<close>

lemma Serialize_interval_eq: "Serialize_interval net h i = Serialize net h interval_ty (interval_val i)"
  by (simp add: Serialize_interval_def interval_ty_def interval_val_def Serialize_struct_def fun_eq_iff)

lemma Serialize_DateTimeDiff_eq: "Serialize_DateTimeDiff net h r = Serialize net h DateTimeDiff_ty (diff_val r)"
  by (simp add: Serialize_DateTimeDiff_def DateTimeDiff_ty_def diff_val_def Serialize_struct_def fun_eq_iff)

lemma Serialize_TimeSequence_eq: "Serialize_TimeSequence net h ts = Serialize net h TimeSequence_ty (seq_val ts)"
  by (simp add: Serialize_TimeSequence_def TimeSequence_ty_def seq_val_def Serialize_struct_def
      Serialize_interval_eq Serialize_DateTimeDiff_eq fun_eq_iff)

lemma Deserialize_TimeSequence_eq:
  "deserialize_object (Deserialize_TimeSequence net h) = stream_deserialize net h TimeSequence_ty"
  by (simp add: Deserialize_TimeSequence_def TimeSequence_ty_def interval_ty_def DateTimeDiff_ty_def
      Deserialize_interval_def Deserialize_DateTimeDiff_def fun_eq_iff)

lemma s16_bits: "s16 (x mod 65536) = s16 x" and s8_bits: "s8 (x mod 256) = s8 x"
  using signed_take_bit_take_bit [of 15 16 x] signed_take_bit_take_bit [of 7 8 x]
  by (simp_all add: s16_def s8_def take_bit_eq_mod)

lemma seq_of_seq_val:
  assumes "diff_ok (time_duration ts)" "0 \<le> intervals ts" "intervals ts < 2 ^ 32"
  shows "seq_of_val (seq_val ts) = ts"
proof -
  have "diff_of_val (diff_val r) = r" if "diff_ok r" for r
    using that
    by (cases r) (simp add: diff_of_val_def diff_val_def int_val_def Let_def s16_bits s8_bits diff_ok_def
        eval_nat_numeral)
  moreover have "interval_of_val (interval_val i) = i" for i
    by (simp add: interval_of_val_def interval_val_def)
  ultimately show ?thesis
    using assms by (simp add: seq_of_val_def seq_val_def int_val_def numeral_2_eq_2)
qed

definition tick_fits :: "int \<Rightarrow> bool" where
  "tick_fits t \<longleftrightarrow> fits_int64 t \<and> fits_int64 (t * 1000000000)"

lemma seq_typed:
  assumes "tick_fits (ti_from (interval ts))" "tick_fits (ti_to (interval ts))"
  shows "has_ty TimeSequence_ty (seq_val ts)"
  using assms
  by (simp add: TimeSequence_ty_def seq_val_def interval_ty_def interval_val_def DateTimeDiff_ty_def diff_val_def
      int_val_def is_tick_def tick_fits_def nat_less_iff)

lemma seq_ty_facts: "wf_ty TimeSequence_ty" "deserializable TimeSequence_ty" "clean TimeSequence_ty (seq_val old)"
  by (simp_all add: TimeSequence_ty_def interval_ty_def DateTimeDiff_ty_def seq_val_def interval_val_def diff_val_def
      int_val_def)

lemma seq_length: "length (encode net h TimeSequence_ty (seq_val ts)) = 27"
  by (simp add: TimeSequence_ty_def interval_ty_def DateTimeDiff_ty_def seq_val_def interval_val_def diff_val_def
      int_val_def)

text \<open>
  A \<open>TimeSequence\<close> in network order takes 27 bytes, which is its minimal and its maximal serial
  size, and is read back on any host, from any segmentation and into any object, with all its fields:
  the interval, the signed components of the distance and the number of intervals.
\<close>

lemma time_sequence_roundtrip:
  assumes "diff_ok (time_duration ts)" and "0 \<le> intervals ts" and "intervals ts < 2 ^ 32"
    and "tick_fits (ti_from (interval ts))" and "tick_fits (ti_to (interval ts))"
    and "Serialize_TimeSequence True h ts [] = (err, bytes)" and "concat bufs = bytes @ rest"
  shows "\<exists>v st'. deserialize_object (Deserialize_TimeSequence True h') (seq_val old) (push_views bufs StreamSerializer)
             = (Code NONE, v, st') \<and> seq_of_val v = ts \<and> avail st' = rest
             \<and> err = NONE \<and> length bytes = 27 \<and> TimeSequence_limits = (27, 27)"
proof -
  note typed = seq_typed [OF assms(4,5)]
  have b: "err = NONE" "bytes = encode True h' TimeSequence_ty (seq_val ts)"
    using assms(6) serialize_network_encode [OF seq_ty_facts(1) typed, of h "[]" h']
    by (simp_all add: Serialize_TimeSequence_eq serialize_network_def)
  then obtain st' where "stream_deserialize True h' TimeSequence_ty (seq_val old) (push_views bufs StreamSerializer)
      = (Code NONE, seq_val ts, st')" "avail st' = rest"
    using network.decode [of TimeSequence_ty "seq_val ts" "seq_val old" "push_views bufs StreamSerializer" h' rest]
      seq_ty_facts typed assms(7) fresh_stream by auto
  moreover have "TimeSequence_limits = (27, 27)"
    by (simp add: TimeSequence_limits_def interval_limits_def DateTimeDiff_limits_def codec_defs SIZE_MAX_def uadd64_def)
  ultimately show ?thesis
    using b seq_length seq_of_seq_val [OF assms(1-3)] by (simp add: Deserialize_TimeSequence_eq)
qed

definition sample_seq :: TimeSequence where
  "sample_seq = \<lparr>interval = \<lparr>ti_from = 1, ti_to = 2\<rparr>,
     time_duration = \<lparr>years = 0, months = - 1, days = 0, hours = 0, minutes = 0, seconds = 1\<rparr>, intervals = 1\<rparr>"

definition sample_seq_bytes :: "byte list" where
  "sample_seq_bytes = [0, 0, 0, 0, 59, 154, 202, 0, 0, 0, 0, 0, 119, 53, 148, 0, 0, 0, 255, 0, 0, 0, 1, 0, 0, 0, 1]"

end
