(* ===== verification/Time_Period.thy ===== *)
theory Time_Period
  imports Time_Text Time_Serialization
begin

text \<open>
  \<open>TimePeriod\<close> (\<open>types/time_period.h\<close>, \<open>types/time_period.cpp\<close>): a period of years to seconds, its addition
  to time points, its text and its serialization. The counts of \<open>std::chrono\<close> durations are integers;
  time points are counts of nanoseconds. A local variable without an initial value is an argument of the
  model, and a division by zero is \<open>None\<close>.
\<close>

section \<open>Periods\<close>

record TimePeriod =
  p_years :: int
  p_months :: int
  p_days :: int
  p_hours :: int
  p_minutes :: int
  p_seconds :: int

definition no_period :: TimePeriod where
  "no_period = \<lparr>p_years = 0, p_months = 0, p_days = 0, p_hours = 0, p_minutes = 0, p_seconds = 0\<rparr>"

text \<open>The constructor: what is carried over replaces the larger units.\<close>

definition carry_seconds :: "TimePeriod \<Rightarrow> TimePeriod" where
  "carry_seconds p = (if p_seconds p > 59
     then let s = p_seconds p
          in p\<lparr>p_days := s div 86400, p_hours := s mod 86400 div 3600, p_minutes := s mod 3600 div 60, p_seconds := s mod 60\<rparr>
     else p)"

definition carry_minutes :: "TimePeriod \<Rightarrow> TimePeriod" where
  "carry_minutes p = (if p_minutes p \<ge> 60
     then let m = p_minutes p
          in p\<lparr>p_days := m div 1440, p_hours := m mod 1440 div 60, p_minutes := m mod 60\<rparr>
     else p)"

definition carry_hours :: "TimePeriod \<Rightarrow> TimePeriod" where
  "carry_hours p = (if p_hours p \<ge> 24
     then let h = p_hours p in p\<lparr>p_days := h div 24, p_hours := h mod 24\<rparr>
     else p)"

definition TimePeriod_of :: "int \<Rightarrow> int \<Rightarrow> int \<Rightarrow> int \<Rightarrow> int \<Rightarrow> int \<Rightarrow> TimePeriod" where
  "TimePeriod_of y mo d h m s = carry_hours (carry_minutes (carry_seconds
     \<lparr>p_years = y, p_months = mo, p_days = d, p_hours = h, p_minutes = m, p_seconds = s\<rparr>))"

definition is_set :: "TimePeriod \<Rightarrow> bool" where
  "is_set p \<longleftrightarrow> p_years p \<noteq> 0 \<or> p_months p \<noteq> 0 \<or> p_days p \<noteq> 0 \<or> p_hours p \<noteq> 0 \<or> p_minutes p \<noteq> 0 \<or> p_seconds p \<noteq> 0"

datatype TIME_UNITS = SECONDS | MINUTES | HOURS | DAYS | MONTHS | YEARS

definition min_valuable :: "TimePeriod \<Rightarrow> TIME_UNITS" where
  "min_valuable p =
     (if p_seconds p > 0 then SECONDS else if p_minutes p > 0 then MINUTES else if p_hours p > 0 then HOURS
      else if p_days p > 0 then DAYS else if p_months p > 0 then MONTHS else if p_years p > 0 then YEARS else SECONDS)"

section \<open>Time points\<close>

text \<open>A year of \<open>std::chrono\<close> has 31556952 seconds, a month a twelfth of it.\<close>

definition ns :: int where "ns = 1000000000"

definition period_seconds :: "TimePeriod \<Rightarrow> int" where
  "period_seconds p = p_years p * 31556952 + p_months p * 2629746 + p_days p * 86400 + p_hours p * 3600
     + p_minutes p * 60 + p_seconds p"

definition tp_plus :: "int \<Rightarrow> TimePeriod \<Rightarrow> int" where
  "tp_plus tp p = tp + period_seconds p * ns"

definition tp_minus :: "int \<Rightarrow> TimePeriod \<Rightarrow> int" where
  "tp_minus tp p = tp - period_seconds p * ns"

definition get_next_tp :: "TimePeriod \<Rightarrow> int \<Rightarrow> int" where
  "get_next_tp p current_time =
     (let d = ymd_add_months (ymd_add_years (date_of (current_time div ns)) (p_years p)) (p_months p)
      in (sys_days d * 86400 + p_days p * 86400 + p_hours p * 3600) * ns)"

text \<open>
  \<open>get_null_aligned_tp\<close>. The \<open>if\<close> for the seconds has no statement of its own: it guards that of the years. \<open>year\<close>,
  \<open>month\<close> and \<open>day\<close> have no initial value. \<open>whole\<close> is \<open>x / k * k\<close> with the truncating division.
\<close>

definition whole :: "int \<Rightarrow> int \<Rightarrow> int option" where
  "whole x k = (if k = 0 then None else Some (x sdiv k * k))"

text \<open>One step: the result so far, or the early return (\<open>Inl\<close>).\<close>

type_synonym 'a aligned = "(int + 'a) option"

definition and_align :: "'a aligned \<Rightarrow> ('a \<Rightarrow> 'b aligned) \<Rightarrow> 'b aligned" where
  "and_align r f = (case r of None \<Rightarrow> None | Some (Inl t) \<Rightarrow> Some (Inl t) | Some (Inr x) \<Rightarrow> f x)"

definition whole_or_return :: "int \<Rightarrow> int \<Rightarrow> int \<Rightarrow> int aligned" where
  "whole_or_return initial x k = (case whole x k of
     None \<Rightarrow> None | Some v \<Rightarrow> Some (if v = 0 then Inl initial else Inr v))"

definition align_years :: "TimePeriod \<Rightarrow> ymd \<Rightarrow> ymd \<Rightarrow> int \<Rightarrow> int \<Rightarrow> int aligned" where
  "align_years p cur ini initial junk =
     (if p_seconds p > 0 \<and> p_years p \<noteq> 0 then whole_or_return initial (year cur - year ini) (p_years p)
      else Some (Inr junk))"

definition align_months :: "TimePeriod \<Rightarrow> ymd \<Rightarrow> ymd \<Rightarrow> int \<Rightarrow> int \<Rightarrow> int \<Rightarrow> (int \<times> int) aligned" where
  "align_months p cur ini initial y junk =
     (if p_months p = 0 then Some (Inr (y, junk))
      else let (y, mo) = (if p_months p > 11 then (p_years p + p_months p div 12, p_months p mod 12) else (y, junk))
           in and_align (if p_years p \<noteq> 0 then whole_or_return initial (year cur - year ini) y else Some (Inr y)) (\<lambda>y.
              and_align (whole_or_return initial ((month cur - month ini) mod 12) mo) (\<lambda>mo. Some (Inr (y, mo)))))"

definition align_unit :: "int \<Rightarrow> int \<Rightarrow> int \<Rightarrow> int \<Rightarrow> int \<Rightarrow> int aligned" where
  "align_unit count unit_ns initial current_time result =
     (if count > 0
      then let n = (current_time - result) sdiv (count * unit_ns)
           in Some (if n = 0 then Inl initial else Inr (result + n * count * unit_ns))
      else Some (Inr result))"

definition get_null_aligned_tp :: "TimePeriod \<Rightarrow> int \<times> int \<times> int \<Rightarrow> int \<Rightarrow> int \<Rightarrow> int option" where
  "get_null_aligned_tp p junk current_time initial =
     (case junk of (junk_y, junk_m, junk_d) \<Rightarrow>
      let cur = date_of (current_time div ns); ini = date_of (initial div ns);
          r = and_align (align_years p cur ini initial junk_y) (\<lambda>y.
              and_align (align_months p cur ini initial y junk_m) (\<lambda>(y, mo).
              let base = sys_days (ymd_add_months (ymd_add_years ini y) mo)
              in and_align (if p_days p > 0 then whole_or_return initial (floor_days (current_time div ns) - base) (p_days p)
                            else Some (Inr junk_d)) (\<lambda>d.
              and_align (align_unit (p_hours p) (3600 * ns) initial current_time ((base + d) * 86400 * ns)) (\<lambda>t.
              and_align (align_unit (p_minutes p) (60 * ns) initial current_time t) (\<lambda>t.
              align_unit (p_seconds p) ns initial current_time t)))))
      in map_option (\<lambda>x. case x of Inl t \<Rightarrow> t | Inr t \<Rightarrow> t) r)"

section \<open>Text\<close>

text \<open>
  \<open>boost::lexical_cast\<close> to a period: pieces between colons, in each of them a number behind the first character and
  a unit at the end.
\<close>

definition set_period_unit :: "string \<Rightarrow> int \<Rightarrow> string \<Rightarrow> TimePeriod \<Rightarrow> TimePeriod parsed" where
  "set_period_unit input v token r =
     then_parse (iend_with token ''h'') (\<lambda>is_h. if is_h then Inr (r\<lparr>p_hours := v\<rparr>) else
     then_parse (iend_with token ''y'') (\<lambda>is_y. if is_y then Inr (r\<lparr>p_years := v\<rparr>) else
     then_parse (iend_with token ''m'') (\<lambda>is_m. if is_m then Inr (r\<lparr>p_months := v\<rparr>) else
     then_parse (iend_with token ''d'') (\<lambda>is_d. if is_d then Inr (r\<lparr>p_days := v\<rparr>) else
     Inl Invalid_argument))))"

fun read_tokens :: "string \<Rightarrow> string list \<Rightarrow> TimePeriod \<Rightarrow> TimePeriod parsed" where
  "read_tokens input [] r = Inr r"
| "read_tokens input (token # tokens) r =
     then_parse (substr 1 token) (\<lambda>digits. case from_chars digits of
       None \<Rightarrow> Inl Invalid_argument
     | Some v \<Rightarrow>
         if v < 0 then Inl Invalid_argument
         else if v = 0 then read_tokens input tokens r
         else if length token > 0 then then_parse (set_period_unit input v token r) (read_tokens input tokens)
         else Inl Invalid_argument)"

definition lexical_cast_TimePeriod :: "string \<Rightarrow> TimePeriod parsed" where
  "lexical_cast_TimePeriod input =
     (let tokens = split (CHR '':'') input
      in if tokens \<noteq> [] then read_tokens input tokens no_period else Inl Invalid_argument)"

definition TimePeriod_text :: "TimePeriod \<Rightarrow> string" where
  "TimePeriod_text p = part_text (p_years p) (p_years p) ''y'' @ part_text (p_months p) (p_months p) ''m''
     @ part_text (p_days p) (p_days p) ''d'' @ part_text (p_hours p) (p_hours p) ''h''"

section \<open>Serialization\<close>

definition period_types :: "ty list" where
  "period_types = map (\<lambda>s. TDur (s * 1000000000)) [31556952, 2629746, 86400, 3600, 60, 1]"

definition period_vals :: "TimePeriod \<Rightarrow> val list" where
  "period_vals p = map VTick [p_years p, p_months p, p_days p, p_hours p, p_minutes p, p_seconds p]"

definition Serialize_TimePeriod :: "bool \<Rightarrow> host \<Rightarrow> TimePeriod \<Rightarrow> writer" where
  "Serialize_TimePeriod net h p = serialize_all (map2 (Serialize net h) period_types (period_vals p))"

definition Deserialize_TimePeriod :: "bool \<Rightarrow> host \<Rightarrow> deserializer" where
  "Deserialize_TimePeriod net h = Deserialize_struct (map (stream_deserialize net h) period_types)"

definition period_serial_size :: "TimePeriod \<Rightarrow> nat" where
  "period_serial_size p = sum_list (map2 Serial_size period_types (period_vals p))"

definition period_limits :: "nat \<times> nat" where
  "period_limits = (min_serial_size (map Min_serial_size period_types), max_serial_size (map Max_serial_size period_types))"

definition period_of_val :: "val \<Rightarrow> TimePeriod" where
  "period_of_val v = (let f = (\<lambda>i. vtick (vfields v ! i)) in
     \<lparr>p_years = f 0, p_months = f 1, p_days = f 2, p_hours = f 3, p_minutes = f 4, p_seconds = f 5\<rparr>)"

definition period_fits :: "TimePeriod \<Rightarrow> bool" where
  "period_fits p \<longleftrightarrow> list_all2 has_ty period_types (period_vals p)"

lemma period_roundtrip:
  assumes "period_fits p" and "Serialize_TimePeriod True h p [] = (err, bytes)" and "concat pieces = bytes @ rest"
  shows "\<exists>v st. deserialize_object (Deserialize_TimePeriod True h') (VStruct (period_vals old)) (push_views pieces StreamSerializer)
      = (Code NONE, v, st) \<and> period_of_val v = p \<and> avail st = rest \<and> err = NONE"
proof -
  let ?t = "TStruct period_types" and ?v = "VStruct (period_vals p)"
  have t: "wf_ty ?t" "deserializable ?t" "has_ty ?t ?v" "clean ?t (VStruct (period_vals old))"
    using assms(1) by (simp_all add: period_fits_def list_all2_map1) (simp_all add: period_types_def period_vals_def)
  have "Serialize True h ?t ?v [] = (err, bytes)"
    using assms(2) by (simp add: Serialize_TimePeriod_def Serialize_struct_def map_zip_map)
  then have b: "err = NONE" "bytes = encode True h' ?t ?v"
    using serialize_network_encode [OF t(1,3), of h "[]" h'] by (simp_all add: serialize_network_def)
  moreover have "period_of_val ?v = p" by (cases p) (simp add: period_of_val_def period_vals_def)
  moreover have "stream_deserialize True h' ?t = deserialize_object (Deserialize_TimePeriod True h')"
    by (simp add: Deserialize_TimePeriod_def)
  ultimately show ?thesis
    using network.decode [of ?t ?v "VStruct (period_vals old)" "push_views pieces StreamSerializer" h' rest] t
      assms(3) fresh_stream by auto
qed

section \<open>The constructor\<close>

lemmas carry_defs = TimePeriod_of_def carry_seconds_def carry_minutes_def carry_hours_def

text \<open>
  The components below the days are in their ranges. The time is kept when only the seconds are given; a carry
  replaces the days and hours that were given.
\<close>

lemma carry_seconds_range:
  "0 \<le> p_seconds p \<Longrightarrow> 0 \<le> p_seconds (carry_seconds p) \<and> p_seconds (carry_seconds p) < 60"
  "0 \<le> p_minutes p \<Longrightarrow> 0 \<le> p_minutes (carry_seconds p)"
  "0 \<le> p_hours p \<Longrightarrow> 0 \<le> p_hours (carry_seconds p)"
  by (simp_all add: carry_seconds_def Let_def pos_imp_zdiv_nonneg_iff)

lemma carry_minutes_range:
  "p_seconds (carry_minutes p) = p_seconds p"
  "0 \<le> p_minutes p \<Longrightarrow> 0 \<le> p_minutes (carry_minutes p) \<and> p_minutes (carry_minutes p) < 60"
  "0 \<le> p_hours p \<Longrightarrow> 0 \<le> p_hours (carry_minutes p)"
  by (simp_all add: carry_minutes_def Let_def pos_imp_zdiv_nonneg_iff)

lemma carry_hours_range:
  "p_seconds (carry_hours p) = p_seconds p"
  "p_minutes (carry_hours p) = p_minutes p"
  "0 \<le> p_hours p \<Longrightarrow> 0 \<le> p_hours (carry_hours p) \<and> p_hours (carry_hours p) < 24"
  by (simp_all add: carry_hours_def Let_def)

lemma period_normalised:
  assumes "0 \<le> h" and "0 \<le> m" and "0 \<le> s" and "TimePeriod_of y mo d h m s = p"
  shows "0 \<le> p_seconds p \<and> p_seconds p < 60 \<and> 0 \<le> p_minutes p \<and> p_minutes p < 60 \<and> 0 \<le> p_hours p \<and> p_hours p < 24"
  unfolding assms(4) [symmetric] TimePeriod_of_def using assms(1-3)
  by (simp add: carry_hours_range carry_minutes_range carry_seconds_range)

lemma split_seconds:
  "s div 86400 * 86400 + s mod 86400 div 3600 * 3600 + s mod 3600 div 60 * 60 + s mod 60 = (s :: int)"
proof -
  have "s mod 86400 mod 3600 = s mod 3600" "s mod 3600 mod 60 = s mod 60" by (simp_all add: mod_mod_cancel)
  then show ?thesis
    using div_mult_mod_eq [of s 86400] div_mult_mod_eq [of "s mod 86400" 3600] div_mult_mod_eq [of "s mod 3600" 60]
    by linarith
qed

lemma seconds_carried:
  "period_seconds (TimePeriod_of y mo 0 0 0 s) = y * 31556952 + mo * 2629746 + s"
proof (cases "s > 59")
  case True
  have "s mod 86400 div 3600 < 24"
    using div_mult_mod_eq [of "s mod 86400" 3600] pos_mod_sign [of 3600 "s mod 86400"] pos_mod_bound [of 86400 s]
    by linarith
  moreover have "s mod 3600 div 60 < 60"
    using div_mult_mod_eq [of "s mod 3600" 60] pos_mod_sign [of 60 "s mod 3600"] pos_mod_bound [of 3600 s]
    by linarith
  ultimately have "TimePeriod_of y mo 0 0 0 s = \<lparr>p_years = y, p_months = mo, p_days = s div 86400,
      p_hours = s mod 86400 div 3600, p_minutes = s mod 3600 div 60, p_seconds = s mod 60\<rparr>"
    using True by (simp add: carry_defs Let_def)
  then show ?thesis using split_seconds [of s] by (simp add: period_seconds_def)
next
  case False
  then show ?thesis by (simp add: carry_defs period_seconds_def)
qed

lemma carry_replaces:
  "TimePeriod_of 0 0 3 5 0 60 = \<lparr>p_years = 0, p_months = 0, p_days = 0, p_hours = 0, p_minutes = 1, p_seconds = 0\<rparr>"
  "TimePeriod_of 0 0 3 24 0 0 = \<lparr>p_years = 0, p_months = 0, p_days = 1, p_hours = 0, p_minutes = 0, p_seconds = 0\<rparr>"
  by (simp_all add: carry_defs)

section \<open>Reading text\<close>

lemma from_chars_nonempty: "from_chars s = Some v \<Longrightarrow> s \<noteq> []"
  by (auto simp: from_chars_def std_from_chars_def)

lemma long_token_no_unit: "2 \<le> length token \<Longrightarrow> iend_with token [u] \<noteq> Inr True"
  by (auto simp: iend_with_def substr_def then_parse_def dest: list_all2_lengthD split: if_splits)

lemma set_period_unit_fails:
  "2 \<le> length token \<Longrightarrow> set_period_unit input v token r \<in> {Inl Invalid_argument, Inl Out_of_range}"
  by (auto simp: set_period_unit_def iend_with_def substr_def then_parse_def dest: list_all2_lengthD split: sum.split)

lemma read_tokens_zero:
  "read_tokens input tokens r \<in> {Inr r, Inl Invalid_argument, Inl Out_of_range}"
proof (induction tokens)
  case Nil
  then show ?case by simp
next
  case (Cons token tokens)
  show ?case
  proof (cases "substr 1 token")
    case (Inl e)
    then show ?thesis by (auto simp: substr_def split: if_splits)
  next
    case (Inr digits)
    show ?thesis
    proof (cases "from_chars digits")
      case None
      with Inr show ?thesis by simp
    next
      case (Some v)
      have "digits = drop 1 token" using Inr by (auto simp: substr_def split: if_splits)
      then have "2 \<le> length token" using from_chars_nonempty [OF Some] by (cases token) (auto simp: neq_Nil_conv)
      from set_period_unit_fails [OF this, of input v r] Cons Inr Some show ?thesis by auto
    qed
  qed
qed

text \<open>
  C24. No text is read as a period: whatever the input, the conversion yields the empty period or an exception of
  two kinds. The unit is looked for in the name of the unit instead of the text, so that every piece with a
  number other than zero fails, and the text that a period is written as cannot be read back.
\<close>

theorem period_text_reads_zero:
  "lexical_cast_TimePeriod s \<in> {Inr no_period, Inl Invalid_argument, Inl Out_of_range}"
  using read_tokens_zero [of s "split (CHR '':'') s" no_period]
  by (auto simp: lexical_cast_TimePeriod_def Let_def)

section \<open>Time points\<close>

text \<open>
  The next time point forgets the time of day, and the minutes and seconds of the period.
\<close>

lemma next_forgets_time:
  "get_next_tp (no_period\<lparr>p_minutes := 30\<rparr>) (3600 * ns) = 0"
  by (simp add: get_next_tp_def date_of_def floor_days_def no_period_def ns_def ymd_add_months_def ymd_add_years_def
      year_plus_def month_plus_def ymd_defs s16_def)

text \<open>
  The days of the aligned time point are what the storage held when the period has no days: two values
  give two results.
\<close>

lemma alignment_reads_uninitialised:
  "get_null_aligned_tp (no_period\<lparr>p_hours := 5\<rparr>) (0, 0, 0) (7200 * ns) 0 = Some 0"
  "get_null_aligned_tp (no_period\<lparr>p_hours := 5\<rparr>) (0, 0, 1) (7200 * ns) 0 = Some (14400 * ns)"
  by code_simp+

end
