(* ===== verification/Events.thy ===== *)
theory Events
  imports Prelude
begin

unbundle bit_operations_syntax

text \<open>
  Event masks and event handles (\<open>multiplexor/events.h\<close>, \<open>multiplexor/events.cpp\<close>,
  \<open>multiplexor/eventhandle.h\<close>) and the error codes of the network components. A mask is the
  32-bit value that \<open>epoll_event\<close> holds; the handle's data is the 64-bit union of
  \<open>epoll_data_t\<close>, of which \<open>fd\<close> and \<open>u32\<close> are the low half on the little-endian platforms the
  library runs on.
\<close>

section \<open>Error codes\<close>

text \<open>
  A \<open>std::error_code\<close> is a value with a category. A cleared one has value 0 in the system
  category; \<open>std::make_error_code(std::errc)\<close> makes one of the generic category, also from the
  value 0. Comparison looks at the category, the conversion to \<open>bool\<close> only at the value.
\<close>

datatype error_code = Cleared | Generic nat

fun err_value :: "error_code \<Rightarrow> nat" where
  "err_value Cleared = 0"
| "err_value (Generic n) = n"

definition failed :: "error_code \<Rightarrow> bool" where
  "failed e \<longleftrightarrow> err_value e \<noteq> 0"

lemma failed_simps [simp]: "\<not> failed Cleared" "failed (Generic n) \<longleftrightarrow> n \<noteq> 0"
  by (simp_all add: failed_def)

text \<open>The values of \<open>errno\<close> that the code names.\<close>

abbreviation EINTR :: nat where "EINTR \<equiv> 4"
abbreviation EBADF :: nat where "EBADF \<equiv> 9"
abbreviation EAGAIN :: nat where "EAGAIN \<equiv> 11"
abbreviation ENODEV :: nat where "ENODEV \<equiv> 19"
abbreviation EINVAL :: nat where "EINVAL \<equiv> 22"
abbreviation ESRCH :: nat where "ESRCH \<equiv> 3"
abbreviation ENOTSOCK :: nat where "ENOTSOCK \<equiv> 88"
abbreviation EOPNOTSUPP :: nat where "EOPNOTSUPP \<equiv> 95"
abbreviation EAFNOSUPPORT :: nat where "EAFNOSUPPORT \<equiv> 97"
abbreviation ENOBUFS :: nat where "ENOBUFS \<equiv> 105"
abbreviation EISCONN :: nat where "EISCONN \<equiv> 106"
abbreviation ENOTCONN :: nat where "ENOTCONN \<equiv> 107"
abbreviation EINPROGRESS :: nat where "EINPROGRESS \<equiv> 115"
abbreviation ECANCELED :: nat where "ECANCELED \<equiv> 125"

section \<open>Event masks\<close>

type_synonym Event = "32 word"

definition Event_In :: Event where "Event_In = 0x1"
definition Event_HighProrityIn :: Event where "Event_HighProrityIn = 0x2"
definition Event_Out :: Event where "Event_Out = 0x4"
definition Event_Error :: Event where "Event_Error = 0x8"
definition Event_HangUp :: Event where "Event_HangUp = 0x10"
definition Event_EdgeTrigger :: Event where "Event_EdgeTrigger = 0x80000000"
definition Event_OneShot :: Event where "Event_OneShot = 0x40000000"
definition Event_WakeUp :: Event where "Event_WakeUp = 0x20000000"
definition Event_Exclusive :: Event where "Event_Exclusive = 0x10000000"
definition Event_CanReadButHangUp :: Event where "Event_CanReadButHangUp = 0x2000"
definition Event_EvStopRequested :: Event where "Event_EvStopRequested = push_bit 26 1"
definition Event_EvTaskDone :: Event where "Event_EvTaskDone = push_bit 27 1"

text \<open>
  The operators of \<open>events.cpp\<close> compute on the underlying 32-bit type. The overload with
  \<open>int\<close> converts the integer to the unsigned type first.
\<close>

definition event_or :: "Event \<Rightarrow> Event \<Rightarrow> Event" where "event_or lhs rhs = lhs OR rhs"
definition event_and :: "Event \<Rightarrow> Event \<Rightarrow> Event" where "event_and lhs rhs = lhs AND rhs"
definition event_xor :: "Event \<Rightarrow> Event \<Rightarrow> Event" where "event_xor lhs rhs = lhs XOR rhs"
definition event_not :: "Event \<Rightarrow> Event" where "event_not val = NOT val"
definition event_and_int :: "Event \<Rightarrow> int \<Rightarrow> Event" where "event_and_int lhs rhs = lhs AND word_of_int rhs"

text \<open>Whether a mask has a bit of another one: the condition \<open>(events & e) != 0\<close>.\<close>

definition has_event :: "Event \<Rightarrow> Event \<Rightarrow> bool" where
  "has_event events e \<longleftrightarrow> event_and events e \<noteq> 0"

lemmas event_defs = Event_In_def Event_HighProrityIn_def Event_Out_def Event_Error_def Event_HangUp_def
  Event_EdgeTrigger_def Event_OneShot_def Event_WakeUp_def Event_Exclusive_def
  Event_CanReadButHangUp_def Event_EvStopRequested_def Event_EvTaskDone_def

lemma word_eq_bit_iff: "(a :: 'a::len word) = b \<longleftrightarrow> (\<forall>n < LENGTH('a). bit a n = bit b n)"
  by (auto intro: bit_word_eqI)

lemmas event_ops = event_or_def event_and_def event_xor_def event_not_def event_and_int_def has_event_def

text \<open>Setting or clearing one mask leaves the others: the facts that the switches rest on.\<close>

lemma has_event_or: "has_event (event_or a b) e \<longleftrightarrow> has_event a e \<or> has_event b e"
  by (auto simp: event_ops word_eq_bit_iff bit_simps)

lemma has_event_clear_same: "\<not> has_event (event_and a (event_not b)) b"
  by (simp add: event_ops word_bw_assocs)

lemma has_event_clear_other:
  assumes "event_and b e = 0"
  shows "has_event (event_and a (event_not b)) e = has_event a e"
proof -
  have "e AND NOT b = e"
    using assms by (intro bit_word_eqI) (auto simp: event_ops bit_simps word_eq_bit_iff)
  moreover have "(a AND NOT b) AND e = a AND (e AND NOT b)" by (simp add: ac_simps)
  ultimately show ?thesis by (simp add: event_ops)
qed

lemma has_event_self: "e \<noteq> 0 \<Longrightarrow> has_event e e"
  by (simp add: event_ops)

section \<open>Event handles\<close>

record EventHandle =
  ev_events :: Event
  ev_data :: "64 word"

text \<open>Writing \<open>data.u32\<close> or \<open>data.fd\<close> replaces the low half and keeps the rest of the union.\<close>

definition with_low32 :: "64 word \<Rightarrow> 32 word \<Rightarrow> 64 word" where
  "with_low32 u v = (u AND NOT (mask 32)) OR ucast v"

text \<open>
  The constructors. The member \<open>ev_\<close> has no initializer, so the upper half of the union keeps
  what the storage held; it is the first argument.
\<close>

definition EventHandle_fd :: "64 word \<Rightarrow> int \<Rightarrow> Event \<Rightarrow> EventHandle" where
  "EventHandle_fd junk fd events = \<lparr>ev_events = events, ev_data = with_low32 junk (word_of_int fd)\<rparr>"

definition EventHandle_u32 :: "64 word \<Rightarrow> 32 word \<Rightarrow> Event \<Rightarrow> EventHandle" where
  "EventHandle_u32 junk value events = \<lparr>ev_events = events, ev_data = with_low32 junk value\<rparr>"

definition EventHandle_u64 :: "64 word \<Rightarrow> Event \<Rightarrow> EventHandle" where
  "EventHandle_u64 value events = \<lparr>ev_events = events, ev_data = value\<rparr>"

definition get_as_64 :: "EventHandle \<Rightarrow> 64 word" where
  "get_as_64 h = ev_data h"

definition get_as_32 :: "EventHandle \<Rightarrow> 32 word" where
  "get_as_32 h = ucast (ev_data h)"

definition get_as_fd :: "EventHandle \<Rightarrow> int" where
  "get_as_fd h = sint (ucast (ev_data h) :: 32 word)"

definition set_as_fd :: "int \<Rightarrow> EventHandle \<Rightarrow> EventHandle" where
  "set_as_fd value h = h\<lparr>ev_data := with_low32 0 (word_of_int value)\<rparr>"

definition set_as_64 :: "64 word \<Rightarrow> EventHandle \<Rightarrow> EventHandle" where
  "set_as_64 value h = h\<lparr>ev_data := value\<rparr>"

definition set_as_32 :: "32 word \<Rightarrow> EventHandle \<Rightarrow> EventHandle" where
  "set_as_32 value h = h\<lparr>ev_data := with_low32 0 value\<rparr>"

definition set_events :: "Event \<Rightarrow> EventHandle \<Rightarrow> EventHandle" where
  "set_events events h = h\<lparr>ev_events := events\<rparr>"

lemmas handle_defs = EventHandle_fd_def EventHandle_u32_def EventHandle_u64_def get_as_64_def
  get_as_32_def get_as_fd_def set_as_fd_def set_as_64_def set_as_32_def set_events_def

lemma low32_of_with_low32 [simp]: "(ucast (with_low32 u v) :: 32 word) = v"
  by (rule bit_word_eqI) (simp add: with_low32_def bit_simps)

lemma get_as_32_handle [simp]: "get_as_32 (EventHandle_u32 junk v e) = v"
  by (simp add: handle_defs)

lemma ev_events_handle [simp]: "ev_events (EventHandle_u32 junk v e) = e"
  by (simp add: handle_defs)

lemma set_events_simps [simp]:
  "get_as_32 (set_events e h) = get_as_32 h" "ev_events (set_events e h) = e"
  by (simp_all add: handle_defs)

lemma get_as_fd_handle: "- (2 ^ 31) \<le> fd \<Longrightarrow> fd < 2 ^ 31 \<Longrightarrow> get_as_fd (EventHandle_fd junk fd e) = fd"
  by (simp add: handle_defs signed_of_int signed_take_bit_int_eq_self)

end
