(* ===== verification/Syscalls.thy ===== *)
theory Syscalls
  imports Events
begin

text \<open>
  The operating system as the network components see it. The calls are a parameter of the
  model: a record of functions on a system state of any type, which answer with the value of
  \<open>errno\<close> (0 when the call has succeeded) and the next state. \<open>kernel_ok\<close> collects what the
  manual pages promise of them and the code relies on; it is a hypothesis of the theorems that
  need it, and \<open>ref_sys\<close> at the end of the theory is a system that keeps these promises.
\<close>

section \<open>The calls\<close>

datatype epoll_op = EPOLL_CTL_ADD | EPOLL_CTL_DEL | EPOLL_CTL_MOD

datatype shutdown_how = SHUT_RD | SHUT_WR | SHUT_RDWR

text \<open>A socket option: the value's bytes and the option's number (\<open>Socket::Option<T>\<close>).\<close>

record SocketOption =
  opt_value :: "byte list"
  opt_number :: int

text \<open>
  \<open>sc_epoll_wait\<close> answers with the ready events or with \<open>errno\<close>, \<open>sc_read\<close> tells whether the
  eight bytes of an event counter have been read, \<open>sc_so_error\<close> gives the pending error of a
  socket. \<open>sc_stack\<close> is the content of uninitialised automatic storage.
\<close>

record 'k syscalls =
  sc_epoll_ctl :: "'k \<Rightarrow> int \<Rightarrow> epoll_op \<Rightarrow> int \<Rightarrow> EventHandle option \<Rightarrow> nat \<times> 'k"
  sc_epoll_wait :: "'k \<Rightarrow> int \<Rightarrow> nat \<Rightarrow> int \<Rightarrow> (nat + EventHandle list) \<times> 'k"
  sc_epoll_create :: "'k \<Rightarrow> nat \<Rightarrow> (nat + int) \<times> 'k"
  sc_getfd :: "'k \<Rightarrow> int \<Rightarrow> nat \<times> 'k"
  sc_eventfd :: "'k \<Rightarrow> (nat + int) \<times> 'k"
  sc_read :: "'k \<Rightarrow> int \<Rightarrow> nat \<times> 'k"
  sc_write :: "'k \<Rightarrow> int \<Rightarrow> nat \<times> 'k"
  sc_close :: "'k \<Rightarrow> int \<Rightarrow> nat \<times> 'k"
  sc_shutdown :: "'k \<Rightarrow> int \<Rightarrow> shutdown_how \<Rightarrow> nat \<times> 'k"
  sc_connect :: "'k \<Rightarrow> int \<Rightarrow> byte list \<Rightarrow> nat \<times> 'k"
  sc_bind :: "'k \<Rightarrow> int \<Rightarrow> byte list \<Rightarrow> nat \<times> 'k"
  sc_socket :: "'k \<Rightarrow> int \<Rightarrow> int \<Rightarrow> int \<Rightarrow> (nat + int) \<times> 'k"
  sc_so_error :: "'k \<Rightarrow> int \<Rightarrow> (nat + nat) \<times> 'k"
  sc_getsockopt :: "'k \<Rightarrow> int \<Rightarrow> SocketOption \<Rightarrow> (nat + byte list) \<times> 'k"
  sc_setsockopt :: "'k \<Rightarrow> int \<Rightarrow> SocketOption \<Rightarrow> nat \<times> 'k"
  sc_getfl :: "'k \<Rightarrow> int \<Rightarrow> (nat + 32 word) \<times> 'k"
  sc_setfl :: "'k \<Rightarrow> int \<Rightarrow> 32 word \<Rightarrow> nat \<times> 'k"
  sc_inet_pton :: "int \<Rightarrow> string \<Rightarrow> byte list option"
  sc_stack :: "'k \<Rightarrow> 64 word"

text \<open>The system state together with the calling thread's \<open>errno\<close>.\<close>

record 'k os =
  errno :: nat
  kern :: 'k

text \<open>
  A call that fails stores its error in \<open>errno\<close>; a call that succeeds leaves \<open>errno\<close> as it is.
\<close>

definition do_call :: "('k \<Rightarrow> nat \<times> 'k) \<Rightarrow> 'k os \<Rightarrow> bool \<times> 'k os" where
  "do_call f s = (case f (kern s) of (e, k) \<Rightarrow>
     (e = 0, \<lparr>errno = (if e = 0 then errno s else e), kern = k\<rparr>))"

definition do_value :: "('k \<Rightarrow> (nat + 'a) \<times> 'k) \<Rightarrow> 'k os \<Rightarrow> 'a option \<times> 'k os" where
  "do_value f s = (case f (kern s) of
     (Inl e, k) \<Rightarrow> (None, \<lparr>errno = e, kern = k\<rparr>)
   | (Inr v, k) \<Rightarrow> (Some v, s\<lparr>kern := k\<rparr>))"

text \<open>The idiom \<open>err = make_error_code(static_cast<errc>(errno)); errno = 0\<close>.\<close>

definition take_errno :: "'k os \<Rightarrow> error_code \<times> 'k os" where
  "take_errno s = (Generic (errno s), s\<lparr>errno := 0\<rparr>)"

lemma take_errno_simps [simp]:
  "fst (take_errno s) = Generic (errno s)" "kern (snd (take_errno s)) = kern s" "errno (snd (take_errno s)) = 0"
  by (simp_all add: take_errno_def)

lemma do_call_simps:
  "f (kern s) = (0, k) \<Longrightarrow> do_call f s = (True, s\<lparr>kern := k\<rparr>)"
  "f (kern s) = (e, k) \<Longrightarrow> e \<noteq> 0 \<Longrightarrow> do_call f s = (False, \<lparr>errno = e, kern = k\<rparr>)"
  by (simp_all add: do_call_def)

lemma do_call_cases:
  obtains k where "f (kern s) = (0, k)" "do_call f s = (True, s\<lparr>kern := k\<rparr>)"
  | e k where "f (kern s) = (e, k)" "e \<noteq> 0" "do_call f s = (False, \<lparr>errno = e, kern = k\<rparr>)"
proof (cases "f (kern s)")
  case (Pair e k)
  then show ?thesis using that do_call_simps[of f s] by (cases "e = 0") auto
qed

lemma do_value_cases:
  obtains e k where "f (kern s) = (Inl e, k)" "do_value f s = (None, \<lparr>errno = e, kern = k\<rparr>)"
  | v k where "f (kern s) = (Inr v, k)" "do_value f s = (Some v, s\<lparr>kern := k\<rparr>)"
  by (cases "f (kern s)"; cases "fst (f (kern s))") (auto simp: do_value_def)

section \<open>What the manual pages promise\<close>

text \<open>
  \<open>interest k ep\<close> is the interest list of the epoll instance \<open>ep\<close>: the descriptors registered
  there with their event. \<open>epoll_ctl(2)\<close>: a call that succeeds changes the entry of its
  descriptor, one that fails changes nothing; registering twice, changing or removing what is
  not registered fails; \<open>EBADF\<close> means that a descriptor is not open, so it is not registered.
\<close>

type_synonym 'k interest_of = "'k \<Rightarrow> int \<Rightarrow> int \<Rightarrow> EventHandle option"

definition ctl_effect :: "epoll_op \<Rightarrow> int \<Rightarrow> EventHandle option \<Rightarrow> (int \<Rightarrow> EventHandle option) \<Rightarrow> int \<Rightarrow> EventHandle option" where
  "ctl_effect op fd ev m = (case op of EPOLL_CTL_DEL \<Rightarrow> m(fd := None) | _ \<Rightarrow> m(fd := ev))"

definition ctl_laws :: "'k syscalls \<Rightarrow> 'k interest_of \<Rightarrow> bool" where
  "ctl_laws sys interest \<longleftrightarrow> (\<forall>k ep op fd ev e k'. sc_epoll_ctl sys k ep op fd ev = (e, k') \<longrightarrow>
     (\<forall>ep'. ep' \<noteq> ep \<longrightarrow> interest k' ep' = interest k ep') \<and>
     (if e = 0
      then interest k' ep = ctl_effect op fd ev (interest k ep) \<and>
           (op = EPOLL_CTL_ADD \<longleftrightarrow> interest k ep fd = None)
      else interest k' ep = interest k ep \<and> (e = EBADF \<longrightarrow> interest k ep fd = None)))"

text \<open>\<open>close(2)\<close> and \<open>epoll(7)\<close>: closing a descriptor removes it from every interest list.\<close>

definition close_laws :: "'k syscalls \<Rightarrow> 'k interest_of \<Rightarrow> bool" where
  "close_laws sys interest \<longleftrightarrow> (\<forall>k fd ep. ep \<noteq> fd \<longrightarrow>
     interest (snd (sc_close sys k fd)) ep = (interest k ep)(fd := None))"

text \<open>The other calls do not touch interest lists.\<close>

definition keeps_interest :: "'k interest_of \<Rightarrow> ('k \<Rightarrow> 'a \<times> 'k) \<Rightarrow> bool" where
  "keeps_interest interest f \<longleftrightarrow> (\<forall>k. interest (snd (f k)) = interest k)"

definition other_laws :: "'k syscalls \<Rightarrow> 'k interest_of \<Rightarrow> bool" where
  "other_laws sys interest \<longleftrightarrow>
     (\<forall>fd. keeps_interest interest (\<lambda>k. sc_read sys k fd)) \<and>
     (\<forall>fd. keeps_interest interest (\<lambda>k. sc_getfd sys k fd)) \<and>
     (\<forall>fd. keeps_interest interest (\<lambda>k. sc_write sys k fd)) \<and>
     (\<forall>fd how. keeps_interest interest (\<lambda>k. sc_shutdown sys k fd how)) \<and>
     (\<forall>fd a. keeps_interest interest (\<lambda>k. sc_connect sys k fd a)) \<and>
     (\<forall>fd. keeps_interest interest (\<lambda>k. sc_so_error sys k fd)) \<and>
     (\<forall>fd opt. keeps_interest interest (\<lambda>k. sc_setsockopt sys k fd opt)) \<and>
     (\<forall>fd. keeps_interest interest (\<lambda>k. sc_getfl sys k fd)) \<and>
     (\<forall>fd fl. keeps_interest interest (\<lambda>k. sc_setfl sys k fd fl)) \<and>
     (\<forall>a b c. keeps_interest interest (\<lambda>k. sc_socket sys k a b c)) \<and>
     (\<forall>ep n t. keeps_interest interest (\<lambda>k. sc_epoll_wait sys k ep n t))"

definition kernel_ok :: "'k syscalls \<Rightarrow> 'k interest_of \<Rightarrow> bool" where
  "kernel_ok sys interest \<longleftrightarrow> ctl_laws sys interest \<and> close_laws sys interest \<and> other_laws sys interest"

text \<open>
  A system with enough memory and watches: registering a descriptor that is not registered and
  changing one that is succeed.
\<close>

definition kernel_reliable :: "'k syscalls \<Rightarrow> 'k interest_of \<Rightarrow> bool" where
  "kernel_reliable sys interest \<longleftrightarrow> (\<forall>k ep fd ev.
     (0 \<le> fd \<and> interest k ep fd = None \<longrightarrow> fst (sc_epoll_ctl sys k ep EPOLL_CTL_ADD fd (Some ev)) = 0) \<and>
     (interest k ep fd \<noteq> None \<longrightarrow> fst (sc_epoll_ctl sys k ep EPOLL_CTL_MOD fd (Some ev)) = 0))"

text \<open>
  \<open>eventfd(2)\<close>: reading a counter that is not zero succeeds and sets it to zero, reading a zero
  counter of a non-blocking descriptor fails with \<open>EAGAIN\<close>.
\<close>

definition eventfd_laws :: "'k syscalls \<Rightarrow> ('k \<Rightarrow> int \<Rightarrow> nat) \<Rightarrow> bool" where
  "eventfd_laws sys counter \<longleftrightarrow> (\<forall>k fd. case sc_read sys k fd of (e, k') \<Rightarrow>
     if counter k fd = 0 then e = EAGAIN else e = 0 \<and> counter k' fd = 0)"

section \<open>A system that keeps the promises\<close>

text \<open>
  Interest lists, event counters, and the answers of the calls that can go either way; the
  argument \<open>refuse\<close> names descriptors for which \<open>epoll_ctl\<close> fails with a given error. It is what
  the theorems' hypotheses are checked on.
\<close>

record ref_kernel =
  rk_interest :: "int \<Rightarrow> int \<Rightarrow> EventHandle option"
  rk_counter :: "int \<Rightarrow> nat"
  rk_ready :: "EventHandle list"
  rk_connect :: nat
  rk_so_error :: nat

definition ref_ctl :: "(int \<Rightarrow> nat) \<Rightarrow> ref_kernel \<Rightarrow> int \<Rightarrow> epoll_op \<Rightarrow> int \<Rightarrow> EventHandle option \<Rightarrow> nat \<times> ref_kernel" where
  "ref_ctl refuse k ep op fd ev =
    (if refuse fd \<noteq> 0 \<and> refuse fd \<noteq> EBADF then (refuse fd, k)
     else if op = EPOLL_CTL_ADD \<and> rk_interest k ep fd \<noteq> None then (17, k)
     else if op \<noteq> EPOLL_CTL_ADD \<and> rk_interest k ep fd = None then (2, k)
     else (0, k\<lparr>rk_interest := (rk_interest k)(ep := ctl_effect op fd ev (rk_interest k ep))\<rparr>))"

definition ref_sys :: "(int \<Rightarrow> nat) \<Rightarrow> ref_kernel syscalls" where
  "ref_sys refuse = \<lparr>
     sc_epoll_ctl = ref_ctl refuse,
     sc_epoll_wait = (\<lambda>k ep n t. (Inr (take n (rk_ready k)), k\<lparr>rk_ready := []\<rparr>)),
     sc_epoll_create = (\<lambda>k n. (Inr 3, k)),
     sc_getfd = (\<lambda>k fd. (0, k)),
     sc_eventfd = (\<lambda>k. (Inr 4, k)),
     sc_read = (\<lambda>k fd. if rk_counter k fd = 0 then (EAGAIN, k)
                        else (0, k\<lparr>rk_counter := (rk_counter k)(fd := 0)\<rparr>)),
     sc_write = (\<lambda>k fd. (0, k\<lparr>rk_counter := (rk_counter k)(fd := rk_counter k fd + 1)\<rparr>)),
     sc_close = (\<lambda>k fd. (0, k\<lparr>rk_interest := (\<lambda>ep. (rk_interest k ep)(fd := None))\<rparr>)),
     sc_shutdown = (\<lambda>k fd how. (if fd < 0 then EBADF else 0, k)),
     sc_connect = (\<lambda>k fd a. (rk_connect k, k)),
     sc_bind = (\<lambda>k fd a. (0, k)),
     sc_socket = (\<lambda>k a b c. (Inr 5, k)),
     sc_so_error = (\<lambda>k fd. (Inr (rk_so_error k), k)),
     sc_getsockopt = (\<lambda>k fd opt. (Inr (opt_value opt), k)),
     sc_setsockopt = (\<lambda>k fd opt. (0, k)),
     sc_getfl = (\<lambda>k fd. (Inr 0x800, k)),
     sc_setfl = (\<lambda>k fd fl. (0, k)),
     sc_inet_pton = (\<lambda>family host. if family = 2 then Some [127, 0, 0, 1] else None),
     sc_stack = (\<lambda>k. 0xDEADBEEF00000000)\<rparr>"

definition ref_start :: ref_kernel where
  "ref_start = \<lparr>rk_interest = (\<lambda>_ _. None), rk_counter = (\<lambda>_. 0),
     rk_ready = [], rk_connect = 0, rk_so_error = 0\<rparr>"

lemma ref_kernel_ok: "kernel_ok (ref_sys refuse) rk_interest"
  unfolding kernel_ok_def
proof (intro conjI)
  show "ctl_laws (ref_sys refuse) rk_interest"
    by (auto simp: ctl_laws_def ref_sys_def ref_ctl_def split: if_splits epoll_op.splits)
  show "close_laws (ref_sys refuse) rk_interest"
    by (auto simp: close_laws_def ref_sys_def)
  show "other_laws (ref_sys refuse) rk_interest"
    by (auto simp: other_laws_def keeps_interest_def ref_sys_def)
qed

lemma ref_kernel_reliable: "kernel_reliable (ref_sys (\<lambda>_. 0)) rk_interest"
  by (simp add: kernel_reliable_def ref_sys_def ref_ctl_def)

lemma ref_eventfd_laws: "eventfd_laws (ref_sys refuse) rk_counter"
  by (simp add: eventfd_laws_def ref_sys_def)

end
