(* ===== verification/Multiplexor.thy ===== *)
theory Multiplexor
  imports Syscalls
begin

text \<open>
  The event multiplexor (\<open>multiplexor.h\<close>, \<open>multiplexor.cpp\<close>): registration of descriptors with
  an epoll instance, the interruptor that wakes a waiting thread, and \<open>wait\<close>, which removes the
  interruptor's events from the array in place. Every operation takes the error code it may
  overwrite and the system state, and returns both.
\<close>

section \<open>State\<close>

record multiplexor =
  mpx_events :: "EventHandle list"
  interruptor :: "int option"
  epollfd :: int

definition si_ctrl :: "64 word" where
  "si_ctrl = push_bit 32 1"

section \<open>Registration\<close>

definition epoll_ctl :: "'k syscalls \<Rightarrow> multiplexor \<Rightarrow> epoll_op \<Rightarrow> int \<Rightarrow> EventHandle option \<Rightarrow> 'k os \<Rightarrow> bool \<times> 'k os" where
  "epoll_ctl sys m op fd ev = do_call (\<lambda>k. sc_epoll_ctl sys k (epollfd m) op fd ev)"

definition epoll_ctl_throw :: "'k os \<Rightarrow> error_code \<times> 'k os" where
  "epoll_ctl_throw s = take_errno s"

definition epoll_wait_throw :: "'k os \<Rightarrow> error_code \<times> 'k os" where
  "epoll_wait_throw s = take_errno s"

definition remove :: "'k syscalls \<Rightarrow> multiplexor \<Rightarrow> int \<Rightarrow> error_code \<Rightarrow> 'k os \<Rightarrow> bool \<times> error_code \<times> 'k os" where
  "remove sys m fd err s =
    (if epollfd m = -1 then (False, Generic EBADF, s)
     else let (ok, s) = epoll_ctl sys m EPOLL_CTL_DEL fd None s
          in if \<not> ok then let (err, s) = epoll_ctl_throw s in (False, err, s)
             else (True, err, s))"

text \<open>
  The overloads of \<open>add\<close>: with the descriptor itself, with an event handle, and with a 32-bit,
  64-bit or pointer value. They treat a failure differently: the first stores the error and
  then removes, the others remove and then store \<open>errno\<close>, which \<open>remove\<close> may have reset; only
  the overload with a handle reports the failure in its result.
\<close>

definition add_event :: "'k syscalls \<Rightarrow> multiplexor \<Rightarrow> int \<Rightarrow> Event \<Rightarrow> error_code \<Rightarrow> 'k os \<Rightarrow> bool \<times> error_code \<times> 'k os" where
  "add_event sys m fd event err s =
    (if epollfd m = -1 then (False, Generic EBADF, s)
     else if fd < 0 then (False, Generic EBADF, s)
     else let ev = EventHandle_fd (sc_stack sys (kern s)) fd event;
              (ok, s) = epoll_ctl sys m EPOLL_CTL_ADD fd (Some ev) s
          in if \<not> ok
             then let (err, s) = epoll_ctl_throw s; (_, err, s) = remove sys m fd err s in (True, err, s)
             else (True, err, s))"

definition add_handle :: "'k syscalls \<Rightarrow> multiplexor \<Rightarrow> int \<Rightarrow> EventHandle \<Rightarrow> error_code \<Rightarrow> 'k os \<Rightarrow> bool \<times> error_code \<times> 'k os" where
  "add_handle sys m fd ev err s =
    (if epollfd m = -1 then (False, Generic EBADF, s)
     else if fd < 0 then (False, Generic EBADF, s)
     else let (ok, s) = epoll_ctl sys m EPOLL_CTL_ADD fd (Some ev) s
          in if \<not> ok
             then let (_, err, s) = remove sys m fd err s; (err, s) = epoll_ctl_throw s in (False, err, s)
             else (True, Cleared, s))"

definition add_u32 :: "'k syscalls \<Rightarrow> multiplexor \<Rightarrow> int \<Rightarrow> 32 word \<Rightarrow> Event \<Rightarrow> error_code \<Rightarrow> 'k os \<Rightarrow> bool \<times> error_code \<times> 'k os" where
  "add_u32 sys m fd val event err s =
    (if epollfd m = -1 then (False, Generic EBADF, s)
     else if fd < 0 then (False, Generic EBADF, s)
     else let ev = EventHandle_u32 (sc_stack sys (kern s)) val event;
              (ok, s) = epoll_ctl sys m EPOLL_CTL_ADD fd (Some ev) s
          in if \<not> ok
             then let (_, err, s) = remove sys m fd err s; (err, s) = epoll_ctl_throw s in (True, err, s)
             else (True, err, s))"

definition add_u64 :: "'k syscalls \<Rightarrow> multiplexor \<Rightarrow> int \<Rightarrow> 64 word \<Rightarrow> Event \<Rightarrow> error_code \<Rightarrow> 'k os \<Rightarrow> bool \<times> error_code \<times> 'k os" where
  "add_u64 sys m fd val event err s =
    (if epollfd m = -1 then (False, Generic EBADF, s)
     else if fd < 0 then (False, err, s)
     else let ev = EventHandle_u64 val event;
              (ok, s) = epoll_ctl sys m EPOLL_CTL_ADD fd (Some ev) s
          in if \<not> ok
             then let (_, err, s) = remove sys m fd err s; (err, s) = epoll_ctl_throw s in (True, err, s)
             else (True, err, s))"

text \<open>
  \<open>modify\<close> removes a descriptor that the system reports as not open. It does not clear the
  error code when it succeeds.
\<close>

definition modify_failed :: "'k syscalls \<Rightarrow> multiplexor \<Rightarrow> int \<Rightarrow> 'k os \<Rightarrow> bool \<times> error_code \<times> 'k os" where
  "modify_failed sys m fd s =
    (let (err, s) = epoll_ctl_throw s
     in if err_value err = EBADF then let (_, err, s) = remove sys m fd err s in (False, err, s)
        else (False, err, s))"

definition modify_handle :: "'k syscalls \<Rightarrow> multiplexor \<Rightarrow> int \<Rightarrow> EventHandle \<Rightarrow> error_code \<Rightarrow> 'k os \<Rightarrow> bool \<times> error_code \<times> 'k os" where
  "modify_handle sys m fd hevent err s =
    (if epollfd m = -1 then (False, Generic EBADF, s)
     else if fd < 0 then (False, Generic EBADF, s)
     else let (ok, s) = epoll_ctl sys m EPOLL_CTL_MOD fd (Some hevent) s
          in if \<not> ok then modify_failed sys m fd s else (True, err, s))"

definition modify_event :: "'k syscalls \<Rightarrow> multiplexor \<Rightarrow> int \<Rightarrow> Event \<Rightarrow> error_code \<Rightarrow> 'k os \<Rightarrow> bool \<times> error_code \<times> 'k os" where
  "modify_event sys m fd event err s =
    (if epollfd m = -1 then (False, Generic EBADF, s)
     else if fd < 0 then (False, err, s)
     else let ev = EventHandle_fd (sc_stack sys (kern s)) fd event;
              (ok, s) = epoll_ctl sys m EPOLL_CTL_MOD fd (Some ev) s
          in if \<not> ok then modify_failed sys m fd s else (True, err, s))"

section \<open>The interruptor and construction\<close>

text \<open>
  When \<open>eventfd\<close> fails the error goes to a local variable that hides the parameter. The
  constructor tests \<open>errno\<close> rather than the result of \<open>epoll_create\<close>.
\<close>

definition set_interruptor :: "'k syscalls \<Rightarrow> multiplexor \<Rightarrow> error_code \<Rightarrow> 'k os \<Rightarrow> bool \<times> multiplexor \<times> error_code \<times> 'k os" where
  "set_interruptor sys m err s =
    (case interruptor m of
       Some _ \<Rightarrow> (True, m, err, s)
     | None \<Rightarrow> (case do_value (sc_eventfd sys) s of
         (None, s) \<Rightarrow> (False, m, err, s\<lparr>errno := 0\<rparr>)
       | (Some fd, s) \<Rightarrow>
           let m = m\<lparr>interruptor := Some fd\<rparr>;
               (ok, s) = epoll_ctl sys m EPOLL_CTL_ADD fd (Some (EventHandle_u64 si_ctrl Event_In)) s
           in if \<not> ok then let (err, s) = epoll_ctl_throw s in (False, m, err, s)
              else (True, m, Cleared, s)))"

definition Multiplexor :: "'k syscalls \<Rightarrow> nat \<Rightarrow> error_code \<Rightarrow> 'k os \<Rightarrow> multiplexor \<times> error_code \<times> 'k os" where
  "Multiplexor sys mp_controled err s =
    (let (created, s) = do_value (\<lambda>k. sc_epoll_create sys k mp_controled) s;
         m = \<lparr>mpx_events = replicate mp_controled \<lparr>ev_events = 0, ev_data = 0\<rparr>, interruptor = None,
              epollfd = (case created of None \<Rightarrow> -1 | Some fd \<Rightarrow> fd)\<rparr>
     in if errno s \<noteq> 0 then let (err, s) = take_errno s in (m, err, s)
        else let (_, m, err, s) = set_interruptor sys m err s
             in if epollfd m = -1 then (m, Generic EBADF, s) else (m, err, s))"

definition interrupt :: "'k syscalls \<Rightarrow> multiplexor \<Rightarrow> 'k os \<Rightarrow> 'k os" where
  "interrupt sys m s = (case interruptor m of
     None \<Rightarrow> s | Some fd \<Rightarrow> snd (do_call (\<lambda>k. sc_write sys k fd) s))"

section \<open>Waiting\<close>

text \<open>
  The loop that reads the event counter until nothing is left, and the loop that repeats an
  interrupted \<open>epoll_wait\<close>, may run for ever; not returning is \<open>None\<close>.
\<close>

partial_function (option) drain :: "'k syscalls \<Rightarrow> int \<Rightarrow> 'k os \<Rightarrow> 'k os option" where
  "drain sys fd s = (case do_call (\<lambda>k. sc_read sys k fd) s of
     (ok, s) \<Rightarrow> if ok then drain sys fd s else Some s)"

partial_function (option) epoll_wait_loop ::
  "'k syscalls \<Rightarrow> multiplexor \<Rightarrow> int \<Rightarrow> 'k os \<Rightarrow> (EventHandle list option \<times> 'k os) option" where
  "epoll_wait_loop sys m timeout s =
    (case do_value (\<lambda>k. sc_epoll_wait sys k (epollfd m) (length (mpx_events m)) timeout) s of
       (None, s) \<Rightarrow> if errno s = EINTR then epoll_wait_loop sys m timeout s else Some (None, s)
     | (Some evs, s) \<Rightarrow> Some (Some evs, s))"

text \<open>
  The loop over the events: \<open>i\<close> counts from 0 to \<open>event_sz\<close>, \<open>valid\<close> is the next free slot; the
  first argument is \<open>event_sz - i\<close>. An event of the interruptor drains its counter; the others
  are moved down. \<open>Inr\<close> is the early return when draining ended with another error than
  \<open>EAGAIN\<close>.
\<close>

fun compact_events ::
  "nat \<Rightarrow> 'k syscalls \<Rightarrow> int \<Rightarrow> nat \<Rightarrow> EventHandle list \<Rightarrow> nat \<Rightarrow> 'k os \<Rightarrow>
   ((EventHandle list \<times> nat) + error_code) option \<times> 'k os" where
  "compact_events 0 sys ifd i evs valid s = (Some (Inl (evs, valid)), s)"
| "compact_events (Suc n) sys ifd i evs valid s =
    (if get_as_64 (evs ! i) = si_ctrl
     then (case drain sys ifd s of
             None \<Rightarrow> (None, s)
           | Some s \<Rightarrow> if errno s \<noteq> EAGAIN then (Some (Inr (Generic (errno s))), s)
                       else compact_events n sys ifd (Suc i) evs valid s)
     else compact_events n sys ifd (Suc i) (evs[valid := evs ! i]) (Suc valid) s)"

text \<open>
  The result of \<open>wait\<close>: the span of events, or the call of \<open>std::terminate\<close> when the epoll
  descriptor itself has become invalid. \<open>No_interruptor\<close> stands for the use of a null
  interruptor.
\<close>

datatype wait_result = Ready "EventHandle list" | Terminated | No_interruptor

definition wait :: "'k syscalls \<Rightarrow> multiplexor \<Rightarrow> error_code \<Rightarrow> int \<Rightarrow> 'k os \<Rightarrow>
   (wait_result \<times> multiplexor \<times> error_code \<times> 'k os) option" where
  "wait sys m err timeout s =
    (if epollfd m = -1 then Some (Ready [], m, Generic EBADF, s)
     else case epoll_wait_loop sys m timeout s of
       None \<Rightarrow> None
     | Some (None, s) \<Rightarrow>
         (case do_call (\<lambda>k. sc_getfd sys k (epollfd m)) s of (ok, s) \<Rightarrow>
            if \<not> ok then Some (Terminated, m, err, s)
            else let (err, s) = epoll_wait_throw s in Some (Ready [], m, err, s))
     | Some (Some got, s) \<Rightarrow>
         let evs = got @ drop (length got) (mpx_events m)
         in if got = [] then Some (Ready [], m, Cleared, s)
            else case interruptor m of
              None \<Rightarrow> if \<exists>h \<in> set got. get_as_64 h = si_ctrl then Some (No_interruptor, m, err, s)
                      else Some (Ready got, m\<lparr>mpx_events := evs\<rparr>, err, s)
            | Some ifd \<Rightarrow>
                (case compact_events (length got) sys ifd 0 evs 0 s of
                   (None, _) \<Rightarrow> None
                 | (Some (Inr err), s) \<Rightarrow> Some (Ready [], m\<lparr>mpx_events := evs\<rparr>, err, s)
                 | (Some (Inl (evs, valid)), s) \<Rightarrow> Some (Ready (take valid evs), m\<lparr>mpx_events := evs\<rparr>, err, s)))"

section \<open>Effect on the interest list\<close>

text \<open>The interest list of a multiplexor in a system state.\<close>

definition registered :: "'k interest_of \<Rightarrow> multiplexor \<Rightarrow> 'k os \<Rightarrow> int \<Rightarrow> EventHandle option" where
  "registered interest m s = interest (kern s) (epollfd m)"

lemma epoll_ctl_effect:
  assumes "kernel_ok sys interest" and "epoll_ctl sys m op fd ev s = (ok, s')"
  shows "if ok then registered interest m s' = ctl_effect op fd ev (registered interest m s) \<and>
              (op = EPOLL_CTL_ADD \<longleftrightarrow> registered interest m s fd = None) \<and> errno s' = errno s
         else registered interest m s' = registered interest m s \<and> errno s' \<noteq> 0 \<and>
              (errno s' = EBADF \<longrightarrow> registered interest m s fd = None)"
proof -
  let ?f = "\<lambda>k. sc_epoll_ctl sys k (epollfd m) op fd ev"
  have laws: "ctl_laws sys interest" using assms(1) by (simp add: kernel_ok_def)
  show ?thesis
  proof (cases rule: do_call_cases[of ?f s])
    case (1 k)
    with laws have "interest k (epollfd m) = ctl_effect op fd ev (interest (kern s) (epollfd m))"
        "op = EPOLL_CTL_ADD \<longleftrightarrow> interest (kern s) (epollfd m) fd = None"
      unfolding ctl_laws_def by (metis (full_types))+
    with 1 assms(2) show ?thesis by (auto simp: epoll_ctl_def registered_def)
  next
    case (2 e k)
    with laws have "interest k (epollfd m) = interest (kern s) (epollfd m)"
        "e = EBADF \<longrightarrow> interest (kern s) (epollfd m) fd = None"
      unfolding ctl_laws_def by (metis (full_types))+
    with 2 assms(2) show ?thesis by (auto simp: epoll_ctl_def registered_def)
  qed
qed

lemmas throw_defs = epoll_ctl_throw_def epoll_wait_throw_def take_errno_def registered_def

lemma remove_effect:
  assumes "kernel_ok sys interest" and "remove sys m fd err s = (r, err', s')"
  shows "if r then registered interest m s' = (registered interest m s)(fd := None) \<and>
              registered interest m s fd \<noteq> None \<and> err' = err \<and> errno s' = errno s
         else registered interest m s' = registered interest m s \<and> failed err' \<and>
              (epollfd m \<noteq> -1 \<longrightarrow> errno s' = 0)"
proof (cases "epollfd m = -1")
  case True
  then show ?thesis using assms(2) by (auto simp: remove_def)
next
  case False
  obtain ok t where c: "epoll_ctl sys m EPOLL_CTL_DEL fd None s = (ok, t)" by fastforce
  from epoll_ctl_effect[OF assms(1) c] assms(2) False c show ?thesis
    by (cases ok) (auto simp: remove_def throw_defs ctl_effect_def)
qed

lemma add_handle_effect:
  assumes "kernel_ok sys interest" and "add_handle sys m fd ev err s = (r, err', s')"
  shows "if r then registered interest m s' = (registered interest m s)(fd := Some ev) \<and>
              registered interest m s fd = None \<and> err' = Cleared \<and> 0 \<le> fd
         else registered interest m s' = (registered interest m s)(fd := None) \<or>
              registered interest m s' = registered interest m s"
proof (cases "epollfd m = -1 \<or> fd < 0")
  case True
  then show ?thesis using assms(2) by (auto simp: add_handle_def split: if_splits)
next
  case False
  obtain ok t where c: "epoll_ctl sys m EPOLL_CTL_ADD fd (Some ev) s = (ok, t)" by fastforce
  obtain r2 err2 t2 where d: "remove sys m fd err t = (r2, err2, t2)" by (cases "remove sys m fd err t")
  from epoll_ctl_effect[OF assms(1) c] remove_effect[OF assms(1) d] assms(2) False c d show ?thesis
    by (cases ok; cases r2) (auto simp: add_handle_def throw_defs ctl_effect_def)
qed

text \<open>
  A registration that the system refuses, of a descriptor that is not registered: the attempt
  to remove it fails too and resets \<open>errno\<close>, so the error code that is stored has the value 0.
\<close>

lemma add_handle_loses_error:
  assumes "kernel_ok sys interest" and "add_handle sys m fd ev err s = (False, err', s')"
    and "registered interest m s fd = None" and "0 \<le> fd" and "epollfd m \<noteq> -1"
  shows "err' = Generic 0"
proof -
  obtain ok t where c: "epoll_ctl sys m EPOLL_CTL_ADD fd (Some ev) s = (ok, t)" by fastforce
  obtain r2 err2 t2 where d: "remove sys m fd err t = (r2, err2, t2)" by (cases "remove sys m fd err t")
  from epoll_ctl_effect[OF assms(1) c] remove_effect[OF assms(1) d] assms(2-) c d show ?thesis
    by (cases ok; cases r2) (auto simp: add_handle_def throw_defs)
qed

lemma modify_handle_effect:
  assumes "kernel_ok sys interest" and "modify_handle sys m fd ev err s = (r, err', s')"
  shows "if r then registered interest m s' = (registered interest m s)(fd := Some ev) \<and>
              registered interest m s fd \<noteq> None \<and> err' = err
         else registered interest m s' = registered interest m s \<and> failed err'"
proof (cases "epollfd m = -1 \<or> fd < 0")
  case True
  then show ?thesis using assms(2) by (auto simp: modify_handle_def split: if_splits)
next
  case False
  obtain ok t where c: "epoll_ctl sys m EPOLL_CTL_MOD fd (Some ev) s = (ok, t)" by fastforce
  obtain r2 err2 t2 where d: "remove sys m fd (Generic (errno t)) (t\<lparr>errno := 0\<rparr>) = (r2, err2, t2)"
    by (cases "remove sys m fd (Generic (errno t)) (t\<lparr>errno := 0\<rparr>)")
  from epoll_ctl_effect[OF assms(1) c] remove_effect[OF assms(1) d] assms(2) False c d show ?thesis
    by (cases ok; cases r2) (auto simp: modify_handle_def modify_failed_def throw_defs ctl_effect_def split: if_splits)
qed

lemma modify_handle_reliable:
  assumes "kernel_ok sys interest" and "kernel_reliable sys interest" and "epollfd m \<noteq> -1" and "0 \<le> fd"
    and "registered interest m s fd \<noteq> None" and "modify_handle sys m fd ev err s = (r, err', s')"
  shows r
proof -
  have "fst (sc_epoll_ctl sys (kern s) (epollfd m) EPOLL_CTL_MOD fd (Some ev)) = 0"
    using assms(2,5) by (simp add: kernel_reliable_def registered_def)
  with assms show ?thesis
    by (auto simp: modify_handle_def epoll_ctl_def do_call_def split: prod.splits if_splits)
qed

lemma add_handle_reliable:
  assumes "kernel_reliable sys interest" and "epollfd m \<noteq> -1" and "0 \<le> fd"
    and "registered interest m s fd = None" and "add_handle sys m fd ev err s = (r, err', s')"
  shows r
proof -
  have "fst (sc_epoll_ctl sys (kern s) (epollfd m) EPOLL_CTL_ADD fd (Some ev)) = 0"
    using assms by (simp add: kernel_reliable_def registered_def)
  with assms show ?thesis
    by (auto simp: add_handle_def epoll_ctl_def do_call_def split: prod.splits if_splits)
qed

section \<open>Waiting returns the events of the registered descriptors\<close>

text \<open>Draining ends after at most two reads, with \<open>errno\<close> equal to \<open>EAGAIN\<close>.\<close>

lemma eventfd_read:
  assumes "eventfd_laws sys counter" and "sc_read sys k fd = (e, k')"
  shows "if counter k fd = 0 then e = EAGAIN else e = 0 \<and> counter k' fd = 0"
  using assms unfolding eventfd_laws_def by (metis (mono_tags, lifting) case_prod_conv)

lemma drain_empty:
  assumes "eventfd_laws sys counter" and "counter (kern s) fd = 0"
  shows "\<exists>k. drain sys fd s = Some \<lparr>errno = EAGAIN, kern = k\<rparr>"
proof -
  obtain e k where r: "sc_read sys (kern s) fd = (e, k)" by fastforce
  with eventfd_read[OF assms(1) r] assms(2) show ?thesis
    by (subst drain.simps) (simp add: do_call_def)
qed

lemma drain_ends:
  assumes "eventfd_laws sys counter"
  shows "\<exists>k. drain sys fd s = Some \<lparr>errno = EAGAIN, kern = k\<rparr>"
proof (cases "counter (kern s) fd = 0")
  case True
  then show ?thesis by (rule drain_empty[OF assms])
next
  case False
  obtain e k where r: "sc_read sys (kern s) fd = (e, k)" by fastforce
  with eventfd_read[OF assms r] False drain_empty[OF assms, of "\<lparr>errno = errno s, kern = k\<rparr>" fd] show ?thesis
    by (subst drain.simps) (simp add: do_call_def)
qed

text \<open>
  The loop moves the events that are not the interruptor's to the front, in their order: a
  filter in place. At step \<open>i\<close> the first \<open>valid\<close> slots are the filtered first \<open>i\<close> events, and
  the events from \<open>i\<close> on are untouched.
\<close>

definition from_descriptor :: "EventHandle \<Rightarrow> bool" where
  "from_descriptor h \<longleftrightarrow> get_as_64 h \<noteq> si_ctrl"

lemma compact_events_filters:
  assumes "eventfd_laws sys counter"
    and "i + n = length got" and "valid \<le> i" and "length got \<le> length evs"
    and "take valid evs = filter from_descriptor (take i got)" and "drop i (take (length got) evs) = drop i got"
  shows "\<exists>evs' s'. compact_events n sys ifd i evs valid s = (Some (Inl (evs', length (filter from_descriptor got))), s') \<and>
     take (length (filter from_descriptor got)) evs' = filter from_descriptor got \<and>
     errno s' = (if \<exists>h \<in> set (drop i got). \<not> from_descriptor h then EAGAIN else errno s)"
  using assms(2-)
proof (induction n arbitrary: i evs valid s)
  case 0
  then have "valid = length (filter from_descriptor got)"
    by (metis add_0_right dual_order.trans length_take min.absorb2 order_refl take_all)
  with 0 show ?case by simp
next
  case (Suc n)
  have i: "i < length got" "i < length evs" using Suc.prems by auto
  have hd: "evs ! i = got ! i"
    using Suc.prems(5) i by (metis add.right_neutral nth_drop nth_take length_drop zero_less_diff drop_take nth_via_drop Cons_nth_drop_Suc length_take min.absorb2 Suc.prems(3))
  then have si: "get_as_64 (evs ! i) = si_ctrl \<longleftrightarrow> \<not> from_descriptor (got ! i)"
    by (simp add: from_descriptor_def)
  have tk: "take (Suc i) got = take i got @ [got ! i]" using i by (simp add: take_Suc_conv_app_nth)
  have dr: "drop i got = got ! i # drop (Suc i) got" using i by (simp add: Cons_nth_drop_Suc)
  have rest: "drop (Suc i) (take (length got) evs) = drop (Suc i) got"
    using Suc.prems(5) by (metis drop_drop plus_1_eq_Suc)
  show ?case
  proof (cases "from_descriptor (got ! i)")
    case True
    let ?evs = "evs[valid := evs ! i]"
    have "take (Suc valid) ?evs = filter from_descriptor (take (Suc i) got)"
      using Suc.prems i hd tk True by (simp add: take_Suc_conv_app_nth)
    moreover have "drop (Suc i) (take (length got) ?evs) = drop (Suc i) got"
      using rest Suc.prems by (simp add: take_update_swap)
    ultimately show ?thesis
      using Suc.IH[of "Suc i" "Suc valid" ?evs s] Suc.prems True si dr by simp
  next
    case False
    obtain k where d: "drain sys ifd s = Some \<lparr>errno = EAGAIN, kern = k\<rparr>"
      using drain_ends[OF assms(1)] by blast
    show ?thesis
      using Suc.IH[of "Suc i" valid evs "\<lparr>errno = EAGAIN, kern = k\<rparr>"] Suc.prems rest tk False si dr d
      by (simp split: if_splits)
  qed
qed

text \<open>
  A connection's handle is never taken for the interruptor's, whatever the upper half of the
  union holds, since connection identifiers are not 0.
\<close>

lemma connection_not_interruptor:
  assumes "cid \<noteq> 0"
  shows "from_descriptor (EventHandle_u32 junk cid events)"
proof -
  have "(ucast si_ctrl :: 32 word) = 0" by (simp add: si_ctrl_def)
  then show ?thesis
    using assms low32_of_with_low32[of junk cid] by (metis from_descriptor_def get_as_32_def get_as_32_handle get_as_64_def)
qed

text \<open>
  C11. \<open>Multiplexor::wait\<close> returns, in the order of the system, exactly the events that are not the
  interruptor's, although it removes those in place in the array it reads; its loops end, the
  error code is left as it was, and \<open>errno\<close> is \<open>EAGAIN\<close> afterwards whenever the thread was woken
  by the interruptor.
\<close>

theorem wait_filters_events:
  assumes "eventfd_laws sys counter" and "epollfd m \<noteq> -1" and "interruptor m = Some ifd"
    and "epoll_wait_loop sys m timeout s = Some (Some got, t)" and "got \<noteq> []"
    and "length got \<le> length (mpx_events m)"
  shows "\<exists>m' s'. wait sys m err timeout s = Some (Ready (filter from_descriptor got), m', err, s') \<and>
     errno s' = (if \<exists>h \<in> set got. \<not> from_descriptor h then EAGAIN else errno t)"
proof -
  let ?evs = "got @ drop (length got) (mpx_events m)"
  obtain evs' s' where "compact_events (length got) sys ifd 0 ?evs 0 t =
      (Some (Inl (evs', length (filter from_descriptor got))), s')"
    and "take (length (filter from_descriptor got)) evs' = filter from_descriptor got"
    and "errno s' = (if \<exists>h \<in> set got. \<not> from_descriptor h then EAGAIN else errno t)"
    using compact_events_filters[OF assms(1), of 0 "length got" got 0 ?evs ifd t] assms(6) by auto
  then show ?thesis using assms by (simp add: wait_def)
qed

definition two_ready :: "ref_kernel os" where
  "two_ready = \<lparr>errno = 0, kern = ref_start\<lparr>rk_ready :=
     [EventHandle_u32 0 7 Event_In, EventHandle_u64 si_ctrl Event_In, EventHandle_u32 0 9 Event_Out]\<rparr>\<rparr>"

definition some_multiplexor :: multiplexor where
  "some_multiplexor = \<lparr>mpx_events = replicate 4 \<lparr>ev_events = 0, ev_data = 0\<rparr>, interruptor = Some 4, epollfd = 3\<rparr>"

lemma two_ready_answer:
  "epoll_wait_loop (ref_sys (\<lambda>_. 0)) some_multiplexor 3000 two_ready =
     Some (Some (rk_ready (kern two_ready)), two_ready\<lparr>kern := ref_start\<rparr>)"
  by (subst epoll_wait_loop.simps)
     (simp add: do_value_def two_ready_def some_multiplexor_def ref_sys_def ref_start_def)

theorem wait_filters_events_witness:
  "\<exists>m' s'. wait (ref_sys (\<lambda>_. 0)) some_multiplexor Cleared 3000 two_ready =
     Some (Ready [EventHandle_u32 0 7 Event_In, EventHandle_u32 0 9 Event_Out], m', Cleared, s') \<and> errno s' = EAGAIN"
proof -
  have "filter from_descriptor (rk_ready (kern two_ready)) = [EventHandle_u32 0 7 Event_In, EventHandle_u32 0 9 Event_Out]"
    and "\<exists>h \<in> set (rk_ready (kern two_ready)). \<not> from_descriptor h"
    by (simp_all add: two_ready_def connection_not_interruptor)
       (simp_all add: from_descriptor_def handle_defs)
  then show ?thesis
    using wait_filters_events[OF ref_eventfd_laws _ _ two_ready_answer, of 4 Cleared]
    by (auto simp: some_multiplexor_def two_ready_def)
qed

end
