(* ===== verification/Sockets.thy ===== *)
theory Sockets
  imports Multiplexor
begin

text \<open>
  Sockets and addresses (\<open>commonsocket.h\<close>, \<open>commonsocket.cpp\<close>, \<open>address.h\<close>, \<open>address.cpp\<close>).
  A socket owns a descriptor until it is closed or moved from; the operations on it are system
  calls whose errors go from \<open>errno\<close> to the caller's error code.
\<close>

section \<open>Addresses\<close>

text \<open>
  An address keeps the \<open>len_\<close> valid bytes of its array; a default one has length 0.
  \<open>sockaddr_in\<close> and \<open>sockaddr_in6\<close> have the family in host order (little endian) and the port in
  network order.
\<close>

type_synonym address = "byte list"

abbreviation AF_INET :: nat where "AF_INET \<equiv> 2"
abbreviation AF_INET6 :: nat where "AF_INET6 \<equiv> 10"

definition le16 :: "nat \<Rightarrow> byte list" where
  "le16 n = [of_nat n, of_nat (n div 256)]"

definition htons :: "16 word \<Rightarrow> byte list" where
  "htons port = [ucast (drop_bit 8 port), ucast port]"

definition ntohs :: "byte list \<Rightarrow> 16 word" where
  "ntohs bs = push_bit 8 (ucast (bs ! 0)) OR ucast (bs ! 1)"

definition sockaddr_in :: "16 word \<Rightarrow> byte list \<Rightarrow> byte list" where
  "sockaddr_in port ip = le16 AF_INET @ htons port @ ip @ replicate 8 0"

definition sockaddr_in6 :: "16 word \<Rightarrow> byte list \<Rightarrow> byte list" where
  "sockaddr_in6 port ip = le16 AF_INET6 @ htons port @ replicate 4 0 @ ip @ replicate 4 0"

definition family_of :: "byte list \<Rightarrow> nat" where
  "family_of bs = unat (bs ! 0) + 256 * unat (bs ! 1)"

definition Address :: "byte list \<Rightarrow> error_code \<Rightarrow> address \<times> error_code" where
  "Address storage err =
    (if family_of storage = AF_INET then (take 16 storage, Cleared)
     else if family_of storage = AF_INET6 then (take 28 storage, Cleared)
     else ([], Generic EAFNOSUPPORT))"

definition ip_version :: "address \<Rightarrow> nat" where
  "ip_version a = (if a = [] then 0 else family_of a)"

definition addr_valid :: "address \<Rightarrow> bool" where
  "addr_valid a \<longleftrightarrow> length a > 0"

text \<open>
  \<open>make_address\<close> tries the host as an IPv4 address and then as an IPv6 address; the storage is
  zero-filled.
\<close>

definition make_address :: "'k syscalls \<Rightarrow> string \<Rightarrow> 16 word \<Rightarrow> error_code \<Rightarrow> address \<times> error_code" where
  "make_address sys host port err =
    (case sc_inet_pton sys (int AF_INET) host of
       Some ip \<Rightarrow> Address (sockaddr_in port ip @ replicate 112 0) err
     | None \<Rightarrow> (case sc_inet_pton sys (int AF_INET6) host of
         Some ip \<Rightarrow> Address (sockaddr_in6 port ip @ replicate 100 0) err
       | None \<Rightarrow> ([], Generic EINVAL)))"

text \<open>The number that \<open>port_to_text\<close> prints.\<close>

definition port_of :: "address \<Rightarrow> 16 word option" where
  "port_of a = (if ip_version a = AF_INET \<or> ip_version a = AF_INET6 then Some (ntohs (drop 2 a)) else None)"

definition is_correct_address :: "'k syscalls \<Rightarrow> string \<Rightarrow> bool" where
  "is_correct_address sys text \<longleftrightarrow>
     sc_inet_pton sys (int AF_INET) text \<noteq> None \<or> sc_inet_pton sys (int AF_INET6) text \<noteq> None"

lemma ntohs_htons [simp]: "ntohs (htons port @ rest) = port"
  by (rule bit_word_eqI) (auto simp: ntohs_def htons_def bit_simps less_Suc_eq_le)

lemma family_of_le16: "n < 65536 \<Longrightarrow> family_of (le16 n @ rest) = n"
  by (simp add: family_of_def le16_def unat_of_nat)

lemma make_address_port:
  assumes "\<And>ip. sc_inet_pton sys (int AF_INET) host = Some ip \<Longrightarrow> length ip = 4"
    and "\<And>ip. sc_inet_pton sys (int AF_INET6) host = Some ip \<Longrightarrow> length ip = 16"
    and "make_address sys host port err = (a, Cleared)"
  shows "port_of a = Some port"
  using assms
  by (auto simp: make_address_def Address_def sockaddr_in_def sockaddr_in6_def family_of_le16 le16_def htons_def
        port_of_def ip_version_def family_of_def ntohs_def unat_of_nat split: option.splits if_splits)
     (simp_all add: ntohs_htons[unfolded ntohs_def htons_def, of _ "[]", simplified])

section \<open>Sockets\<close>

record Socket =
  sk_fd :: int
  sk_closed :: bool

definition new_Socket :: "int \<Rightarrow> Socket" where
  "new_Socket raw_socket_id = \<lparr>sk_fd = raw_socket_id, sk_closed = False\<rparr>"

definition native :: "Socket \<Rightarrow> int" where
  "native sk = sk_fd sk"

definition sk_valid :: "Socket \<Rightarrow> bool" where
  "sk_valid sk \<longleftrightarrow> \<not> sk_closed sk \<and> sk_fd sk \<ge> 0"

definition sk_close :: "'k syscalls \<Rightarrow> Socket \<Rightarrow> 'k os \<Rightarrow> Socket \<times> 'k os" where
  "sk_close sys sk s =
    (if sk_fd sk \<ge> 0
     then (\<lparr>sk_fd = -1, sk_closed = True\<rparr>, snd (do_call (\<lambda>k. sc_close sys k (sk_fd sk)) s))
     else (sk, s))"

text \<open>
  Moving from a socket leaves it without a descriptor, and swaps nothing else: the source's
  \<open>closed_\<close> is read, not changed.
\<close>

definition sk_move :: "'k syscalls \<Rightarrow> Socket \<Rightarrow> Socket \<Rightarrow> 'k os \<Rightarrow> Socket \<times> Socket \<times> 'k os" where
  "sk_move sys this other s =
    (let (this, s) = sk_close sys this s
     in (\<lparr>sk_fd = sk_fd other, sk_closed = sk_closed other\<rparr>, other\<lparr>sk_fd := -1\<rparr>, s))"

abbreviation O_NONBLOCK :: "32 word" where "O_NONBLOCK \<equiv> 0x800"

definition set_no_block :: "'k syscalls \<Rightarrow> Socket \<Rightarrow> bool \<Rightarrow> error_code \<Rightarrow> 'k os \<Rightarrow> bool \<times> error_code \<times> 'k os" where
  "set_no_block sys sk noblock err s =
    (if sk_fd sk < 0 then (False, Generic EBADF, s\<lparr>errno := 0\<rparr>)
     else case do_value (\<lambda>k. sc_getfl sys k (sk_fd sk)) s of
       (None, s) \<Rightarrow> let (err, s) = take_errno s in (False, err, s)
     | (Some flags, s) \<Rightarrow>
         let flags = (if noblock then flags OR O_NONBLOCK else flags AND NOT O_NONBLOCK);
             (ok, s) = do_call (\<lambda>k. sc_setfl sys k (sk_fd sk) flags) s
         in if \<not> ok then let (err, s) = take_errno s in (False, err, s)
            else (True, Cleared, s))"

text \<open>The test for a non-blocking socket makes the socket non-blocking.\<close>

definition is_non_block :: "'k syscalls \<Rightarrow> Socket \<Rightarrow> error_code \<Rightarrow> 'k os \<Rightarrow> bool \<times> error_code \<times> 'k os" where
  "is_non_block sys sk err s =
    (if sk_fd sk \<ge> 0
     then (case do_value (\<lambda>k. sc_getfl sys k (sk_fd sk)) s of
         (None, s) \<Rightarrow> let (err, s) = take_errno s in (False, err, s)
       | (Some flags, s) \<Rightarrow>
           let (ok, s) = do_call (\<lambda>k. sc_setfl sys k (sk_fd sk) (flags OR O_NONBLOCK)) s
           in if \<not> ok then let (err, s) = take_errno s in (False, err, s)
              else (flags AND O_NONBLOCK \<noteq> 0, Cleared, s))
     else (False, Generic EBADF, s\<lparr>errno := 0\<rparr>))"

definition sk_bind :: "'k syscalls \<Rightarrow> Socket \<Rightarrow> address \<Rightarrow> error_code \<Rightarrow> 'k os \<Rightarrow> bool \<times> error_code \<times> 'k os" where
  "sk_bind sys sk addr err s =
    (let (ok, s) = do_call (\<lambda>k. sc_bind sys k (sk_fd sk) addr) s
     in if \<not> ok then let (err, s) = take_errno s in (False, err, s)
        else (True, Cleared, s\<lparr>errno := 0\<rparr>))"

definition sk_error :: "'k syscalls \<Rightarrow> Socket \<Rightarrow> error_code \<Rightarrow> 'k os \<Rightarrow> error_code \<times> error_code \<times> 'k os" where
  "sk_error sys sk err s = (case do_value (\<lambda>k. sc_so_error sys k (native sk)) s of
     (None, s) \<Rightarrow> let (err, s) = take_errno s in (err, err, s)
   | (Some err_conn, s) \<Rightarrow> (if err_conn \<noteq> 0 then Generic err_conn else Cleared, Cleared, s))"

text \<open>
  The three shutdown functions differ in the direction. They report an error when \<open>errno\<close> is not
  0, whether or not the call has failed.
\<close>

definition sk_shutdown :: "'k syscalls \<Rightarrow> shutdown_how \<Rightarrow> Socket \<Rightarrow> error_code \<Rightarrow> 'k os \<Rightarrow> bool \<times> error_code \<times> 'k os" where
  "sk_shutdown sys how sk err s =
    (let (result, s) = do_call (\<lambda>k. sc_shutdown sys k (sk_fd sk) how) s
     in if errno s \<noteq> 0 then let (err, s) = take_errno s in (result, err, s)
        else (result, err, s))"

definition shutdown_read where "shutdown_read sys = sk_shutdown sys SHUT_RD"
definition shutdown_write where "shutdown_write sys = sk_shutdown sys SHUT_WR"
definition shutdown_all where "shutdown_all sys = sk_shutdown sys SHUT_RDWR"

text \<open>\<open>Socket::Option<T>::set_option\<close> and \<open>assign\<close>; options are shared pointers that may be null.\<close>

definition Option_set_option :: "'k syscalls \<Rightarrow> SocketOption \<Rightarrow> Socket \<Rightarrow> error_code \<Rightarrow> 'k os \<Rightarrow> bool \<times> error_code \<times> 'k os" where
  "Option_set_option sys opt sk err s =
    (if native sk \<ge> 0
     then let (ok, s) = do_call (\<lambda>k. sc_setsockopt sys k (native sk) opt) s
          in if \<not> ok then let (err, s) = take_errno s in (False, err, s) else (True, err, s)
     else (False, Generic ENOTSOCK, s))"

definition Option_assign :: "'k syscalls \<Rightarrow> SocketOption \<Rightarrow> Socket \<Rightarrow> error_code \<Rightarrow> 'k os \<Rightarrow> SocketOption \<times> bool \<times> error_code \<times> 'k os" where
  "Option_assign sys opt sk err s =
    (if native sk \<ge> 0
     then (case do_value (\<lambda>k. sc_getsockopt sys k (native sk) opt) s of
         (None, s) \<Rightarrow> let (err, s) = take_errno s in (opt, False, err, s)
       | (Some v, s) \<Rightarrow> (opt\<lparr>opt_value := v\<rparr>, True, err, s))
     else (opt, False, Generic ENOTSOCK, s))"

definition sk_set_option :: "'k syscalls \<Rightarrow> Socket \<Rightarrow> SocketOption option \<Rightarrow> error_code \<Rightarrow> 'k os \<Rightarrow> bool \<times> error_code \<times> 'k os" where
  "sk_set_option sys sk option err s = (case option of
     None \<Rightarrow> (False, err, s) | Some opt \<Rightarrow> Option_set_option sys opt sk err s)"

fun sk_set_options :: "'k syscalls \<Rightarrow> Socket \<Rightarrow> SocketOption option list \<Rightarrow> error_code \<Rightarrow> 'k os \<Rightarrow> bool \<times> error_code \<times> 'k os" where
  "sk_set_options sys sk [] err s = (True, Cleared, s)"
| "sk_set_options sys sk (option # options) err s =
    (case sk_set_option sys sk option err s of (ok, err, s) \<Rightarrow>
       if \<not> ok then (False, err, s) else sk_set_options sys sk options err s)"

definition make_socket :: "'k syscalls \<Rightarrow> address \<Rightarrow> int \<Rightarrow> int \<Rightarrow> error_code \<Rightarrow> 'k os \<Rightarrow> Socket \<times> error_code \<times> 'k os" where
  "make_socket sys storage type proto err s =
    (if \<not> addr_valid storage
     then (new_Socket (-1), Generic EAFNOSUPPORT, s)
     else case do_value (\<lambda>k. sc_socket sys k (int (ip_version storage)) type proto) s of
       (None, s) \<Rightarrow> let (err, s) = take_errno s in (new_Socket (-1), err, s)
     | (Some raw, s) \<Rightarrow> (new_Socket raw, err, s))"

end
