(* ===== verification/Worker_State.thy ===== *)
theory Worker_State
  imports Sockets
begin

text \<open>
  The data of the worker (\<open>abstractworker.h\<close>, \<open>connectionhandle.h\<close>, \<open>connection.h\<close>,
  \<open>worker/command.h\<close>, \<open>abstractprocess.h\<close>): connection handles, connections, the processes
  attached to them, the commands that other threads queue, and the state of a worker thread
  with the operating system it talks to. Objects that other objects point to are named: a worker
  by the number in \<open>w_self\<close>, a command by the number it gets when it is queued.
\<close>

section \<open>Handles and connections\<close>

type_synonym ConnectionId = "32 word"

text \<open>A handle's owner is a worker or null.\<close>

record ConnectionHandle =
  conn_id :: ConnectionId
  owner :: "nat option"

definition is_valid_handler :: "ConnectionHandle \<Rightarrow> bool" where
  "is_valid_handler h \<longleftrightarrow> owner h \<noteq> None \<and> conn_id h \<noteq> 0"

definition same_owner :: "nat \<Rightarrow> ConnectionHandle \<Rightarrow> bool" where
  "same_owner w h \<longleftrightarrow> owner h = Some w"

text \<open>
  The constructor takes the next identifier from the global counter, which wraps around; 0 is
  replaced by 1.
\<close>

definition new_ConnectionHandle :: "nat option \<Rightarrow> 32 word \<Rightarrow> ConnectionHandle \<times> 32 word" where
  "new_ConnectionHandle own counter =
    (\<lparr>conn_id = (if counter = 0 then 1 else counter), owner = own\<rparr>, counter + 1)"

definition make_connection_handle :: "nat option \<Rightarrow> 32 word \<Rightarrow> ConnectionHandle \<times> 32 word" where
  "make_connection_handle own counter = (case own of
     Some w \<Rightarrow> new_ConnectionHandle (Some w) counter
   | None \<Rightarrow> (\<lparr>conn_id = 0, owner = None\<rparr>, counter))"

datatype State = Closed | Connecting | Active | Shutdowned | Closing

record Connection =
  storage :: address
  state :: State

definition new_Connection :: "address \<Rightarrow> Connection" where
  "new_Connection addr = \<lparr>storage = addr, state = Closed\<rparr>"

section \<open>Processes\<close>

text \<open>
  The library's part of a process: whether it has a task, whether it is an
  \<open>AbstractRequestableConnectionProcess\<close> with its queue of requests and the active one (requests
  are commands, named by their number; a shared pointer may be null), whether it has been given
  the connection's I/O object. The rest belongs to the class that the user derives.
\<close>

record 'u process =
  has_task :: bool
  requestable :: bool
  requests :: "nat option list"
  active_request :: "nat option"
  io_set :: bool
  user :: 'u

text \<open>
  What the worker keeps of a connection. Of the \<open>ConnectionIO\<close> object only its presence and the
  size of its receive buffer matter here.
\<close>

record 'u ConnectionState =
  cs_conn :: Connection
  cs_proc :: "'u process option"
  cs_io :: "nat option"
  cs_socket :: Socket
  events_handled :: Event

section \<open>Commands\<close>

text \<open>
  The settings of \<open>AddConnection\<close> are not read by the worker; of those of \<open>AttachConnection\<close> the
  size of the receive buffer is.
\<close>

datatype 'u Command =
    AddConnection ConnectionHandle string "16 word" int int
  | AttachConnection ConnectionHandle Connection nat Socket
  | RemoveConnection ConnectionHandle int
  | ModifyConnection ConnectionHandle "SocketOption option list"
  | AttachProcess ConnectionHandle "'u process"
  | RemoveProcess ConnectionHandle int
  | RequestStop ConnectionHandle int
  | ShutDownConnection ConnectionHandle
  | RequestData ConnectionHandle
  | TaskDone ConnectionHandle

datatype WorkerCommand = None_command | Stop

section \<open>The worker\<close>

text \<open>
  \<open>results\<close> holds the values of the commands' promises, \<open>next_cmd\<close> the number of the next
  command. \<open>aborted\<close> records that the program has been ended by a failed assertion or by an
  exception in a \<open>noexcept\<close> function.
\<close>

record ('k, 'u) worker =
  w_self :: nat
  w_name :: string
  stop_requested :: bool
  connections :: "ConnectionId \<Rightarrow> 'u ConnectionState option"
  cmds :: "(nat \<times> 'u Command) list"
  w_cmds :: "WorkerCommand list"
  mpx :: multiplexor
  results :: "nat \<Rightarrow> error_code option"
  next_cmd :: nat
  aborted :: bool
  w_os :: "'k os"

text \<open>
  The virtual functions that a user's class implements, and the task a process runs (a thread or
  a call whose classes are not modelled). A callback may use the worker through the interface
  that \<open>proc_step\<close> lists.
\<close>

type_synonym ('k, 'u) callback =
  "'u process \<Rightarrow> ('k, 'u) worker \<Rightarrow> error_code \<Rightarrow> 'u process \<times> ('k, 'u) worker \<times> error_code"

record ('k, 'u) process_ops =
  on_read :: "('k, 'u) callback"
  on_write :: "('k, 'u) callback"
  on_task_done :: "('k, 'u) callback"
  on_stop_requested :: "('k, 'u) callback"
  on_init_connection :: "('k, 'u) callback"
  task_is_ready :: "'u process \<Rightarrow> error_code \<Rightarrow> bool \<times> error_code"
  task_request_stop :: "int \<Rightarrow> ('k, 'u) callback"

section \<open>Small steps on the state\<close>

definition on_os :: "('k os \<Rightarrow> 'a \<times> 'k os) \<Rightarrow> ('k, 'u) worker \<Rightarrow> 'a \<times> ('k, 'u) worker" where
  "on_os f w = (let (a, s) = f (w_os w) in (a, w\<lparr>w_os := s\<rparr>))"

definition on_os2 :: "('k os \<Rightarrow> 'a \<times> 'b \<times> 'k os) \<Rightarrow> ('k, 'u) worker \<Rightarrow> 'a \<times> 'b \<times> ('k, 'u) worker" where
  "on_os2 f w = (let (a, b, s) = f (w_os w) in (a, b, w\<lparr>w_os := s\<rparr>))"

definition upd_conn :: "ConnectionId \<Rightarrow> ('u ConnectionState \<Rightarrow> 'u ConnectionState) \<Rightarrow> ('k, 'u) worker \<Rightarrow> ('k, 'u) worker" where
  "upd_conn cid f w = w\<lparr>connections := (connections w)(cid := map_option f (connections w cid))\<rparr>"

definition set_connection_state :: "State \<Rightarrow> 'u ConnectionState \<Rightarrow> 'u ConnectionState" where
  "set_connection_state st cs = cs\<lparr>cs_conn := (cs_conn cs)\<lparr>state := st\<rparr>\<rparr>"

text \<open>\<open>socket_->close()\<close> of a connection.\<close>

definition close_socket :: "'k syscalls \<Rightarrow> ConnectionId \<Rightarrow> ('k, 'u) worker \<Rightarrow> ('k, 'u) worker" where
  "close_socket sys cid w = (case connections w cid of
     None \<Rightarrow> w
   | Some cs \<Rightarrow> let (sk, s) = sk_close sys (cs_socket cs) (w_os w)
       in w\<lparr>connections := (connections w)(cid := Some (cs\<lparr>cs_socket := sk\<rparr>)), w_os := s\<rparr>)"

text \<open>Erasing an entry of the map destroys its socket, whose destructor closes it.\<close>

definition erase_conn :: "'k syscalls \<Rightarrow> ConnectionId \<Rightarrow> ('k, 'u) worker \<Rightarrow> ('k, 'u) worker" where
  "erase_conn sys cid w = (let w = close_socket sys cid w in w\<lparr>connections := (connections w)(cid := None)\<rparr>)"

text \<open>\<open>proc_.reset(); connIO_.reset();\<close>\<close>

definition reset_process :: "'u ConnectionState \<Rightarrow> 'u ConnectionState" where
  "reset_process cs = cs\<lparr>cs_proc := None, cs_io := None\<rparr>"

text \<open>Setting the value of a promise twice throws, which ends the program in \<open>noexcept\<close> code.\<close>

definition set_error :: "nat \<Rightarrow> error_code \<Rightarrow> ('k, 'u) worker \<Rightarrow> ('k, 'u) worker" where
  "set_error i err w = (case results w i of
     None \<Rightarrow> w\<lparr>results := (results w)(i := Some err)\<rparr>
   | Some _ \<Rightarrow> w\<lparr>aborted := True\<rparr>)"

definition cmd_ready :: "nat \<Rightarrow> ('k, 'u) worker \<Rightarrow> bool" where
  "cmd_ready i w \<longleftrightarrow> results w i \<noteq> None"

text \<open>\<open>BaseCommand::successed\<close> and \<open>BaseCommand::error\<close>: nothing while the command is pending.\<close>

definition successed :: "nat \<Rightarrow> ('k, 'u) worker \<Rightarrow> bool option" where
  "successed i w = map_option (\<lambda>e. \<not> failed e) (results w i)"

definition assert_that :: "bool \<Rightarrow> ('k, 'u) worker \<Rightarrow> ('k, 'u) worker" where
  "assert_that b w = (if b then w else w\<lparr>aborted := True\<rparr>)"

text \<open>
  Calling a virtual function of a connection's process: the function works on the process in
  place, and on the worker.
\<close>

definition with_proc :: "ConnectionId \<Rightarrow> ('k, 'u) callback \<Rightarrow> error_code \<Rightarrow> ('k, 'u) worker \<Rightarrow> error_code \<times> ('k, 'u) worker" where
  "with_proc cid f err w = (case connections w cid of
     None \<Rightarrow> (err, w)
   | Some cs \<Rightarrow> (case cs_proc cs of
       None \<Rightarrow> (err, w)
     | Some p \<Rightarrow> (case f p w err of (p, w, err) \<Rightarrow>
         (err, upd_conn cid (\<lambda>cs. cs\<lparr>cs_proc := Some p\<rparr>) w))))"

end
