(* ===== verification/Abstract_Worker.thy ===== *)
theory Abstract_Worker
  imports Worker_State
begin

text \<open>
  \<open>AbstractWorker\<close> (\<open>abstractworker.h\<close>, \<open>abstractworker.cpp\<close>), \<open>ConnectionHandle\<close>'s operations
  (\<open>connectionhandle.cpp\<close>) and the processes' library part (\<open>abstractprocess.h\<close>,
  \<open>abstractprocess.cpp\<close>). A member function takes the system calls, its arguments and the
  worker, and returns its result, the error code and the worker.
\<close>

section \<open>Queues and waking\<close>

definition wake_event :: "'k syscalls \<Rightarrow> ('k, 'u) worker \<Rightarrow> ('k, 'u) worker" where
  "wake_event sys w = w\<lparr>w_os := interrupt sys (mpx w) (w_os w)\<rparr>"

definition enqueue :: "'u Command \<Rightarrow> ('k, 'u) worker \<Rightarrow> ('k, 'u) worker" where
  "enqueue c w = w\<lparr>cmds := cmds w @ [(next_cmd w, c)], next_cmd := next_cmd w + 1\<rparr>"

definition push_command :: "'k syscalls \<Rightarrow> 'u Command \<Rightarrow> ('k, 'u) worker \<Rightarrow> ('k, 'u) worker" where
  "push_command sys c w = wake_event sys (enqueue c w)"

definition push_commands :: "'k syscalls \<Rightarrow> 'u Command list \<Rightarrow> ('k, 'u) worker \<Rightarrow> ('k, 'u) worker" where
  "push_commands sys cs w = (if cs = [] then w else wake_event sys (fold enqueue cs w))"

definition extract_command :: "('k, 'u) worker \<Rightarrow> (nat \<times> 'u Command) option \<times> ('k, 'u) worker" where
  "extract_command w = (case cmds w of
     [] \<Rightarrow> (None, w) | c # rest \<Rightarrow> (Some c, w\<lparr>cmds := rest\<rparr>))"

definition command_worker :: "'k syscalls \<Rightarrow> WorkerCommand \<Rightarrow> ('k, 'u) worker \<Rightarrow> ('k, 'u) worker" where
  "command_worker sys c w = wake_event sys (w\<lparr>w_cmds := w_cmds w @ [c]\<rparr>)"

section \<open>Tracking events\<close>

definition remove_tracking_event :: "'k syscalls \<Rightarrow> int \<Rightarrow> error_code \<Rightarrow> ('k, 'u) worker \<Rightarrow> bool \<times> error_code \<times> ('k, 'u) worker" where
  "remove_tracking_event sys fd err w = on_os2 (remove sys (mpx w) fd err) w"

definition add_tracking_event :: "'k syscalls \<Rightarrow> int \<Rightarrow> EventHandle \<Rightarrow> error_code \<Rightarrow> ('k, 'u) worker \<Rightarrow> bool \<times> error_code \<times> ('k, 'u) worker" where
  "add_tracking_event sys fd ev err w = on_os2 (add_handle sys (mpx w) fd ev err) w"

definition modify_tracking_event :: "'k syscalls \<Rightarrow> int \<Rightarrow> EventHandle \<Rightarrow> error_code \<Rightarrow> ('k, 'u) worker \<Rightarrow> bool \<times> error_code \<times> ('k, 'u) worker" where
  "modify_tracking_event sys fd ev err w = on_os2 (modify_handle sys (mpx w) fd ev err) w"

text \<open>The handle that the code makes of a connection's identifier; see \<open>EventHandle_u32\<close>.\<close>

definition handle_for :: "'k syscalls \<Rightarrow> ConnectionId \<Rightarrow> Event \<Rightarrow> ('k, 'u) worker \<Rightarrow> EventHandle" where
  "handle_for sys cid events w = EventHandle_u32 (sc_stack sys (kern (w_os w))) cid events"

text \<open>
  Switching one event on or off. The recorded events follow only when the error code is clear
  after the call, which \<open>modify\<close> does not see to.
\<close>

definition switch_event :: "'k syscalls \<Rightarrow> ConnectionId \<Rightarrow> Event \<Rightarrow> error_code \<Rightarrow> ('k, 'u) worker \<Rightarrow> bool \<times> error_code \<times> ('k, 'u) worker" where
  "switch_event sys cid new_events err w = (case connections w cid of
     None \<Rightarrow> (False, err, w)
   | Some cs \<Rightarrow>
       let ev = handle_for sys cid new_events w;
           (res, err, w) = modify_tracking_event sys (native (cs_socket cs)) ev err w
       in (res, err, if err = Cleared then upd_conn cid (\<lambda>cs. cs\<lparr>events_handled := new_events\<rparr>) w else w))"

definition enable_event :: "'k syscalls \<Rightarrow> Event \<Rightarrow> ConnectionHandle \<Rightarrow> bool \<Rightarrow> error_code \<Rightarrow> ('k, 'u) worker \<Rightarrow> bool \<times> error_code \<times> ('k, 'u) worker" where
  "enable_event sys e hconn enable err w = (case connections w (conn_id hconn) of
     None \<Rightarrow> (False, Generic ENODEV, w)
   | Some cs \<Rightarrow>
       if enable \<and> \<not> has_event (events_handled cs) e
       then switch_event sys (conn_id hconn) (event_or (events_handled cs) e) err w
       else if \<not> enable \<and> has_event (events_handled cs) e
       then switch_event sys (conn_id hconn) (event_and (events_handled cs) (event_not e)) err w
       else (False, err, w))"

definition enable_writing where "enable_writing sys = enable_event sys Event_Out"
definition enable_readable where "enable_readable sys = enable_event sys Event_In"

section \<open>Socket options\<close>

definition set_options :: "'k syscalls \<Rightarrow> ConnectionHandle \<Rightarrow> SocketOption option list \<Rightarrow> error_code \<Rightarrow> ('k, 'u) worker \<Rightarrow> bool \<times> error_code \<times> ('k, 'u) worker" where
  "set_options sys hconn options err w = (case connections w (conn_id hconn) of
     None \<Rightarrow> (False, Generic ENODEV, w)
   | Some cs \<Rightarrow>
       if state (cs_conn cs) \<noteq> Active \<and> state (cs_conn cs) \<noteq> Connecting then (False, Generic ENOTCONN, w)
       else let (_, err, w) = on_os2 (sk_set_options sys (cs_socket cs) options err) w in (True, err, w))"

definition set_option :: "'k syscalls \<Rightarrow> ConnectionHandle \<Rightarrow> SocketOption option \<Rightarrow> error_code \<Rightarrow> ('k, 'u) worker \<Rightarrow> bool \<times> error_code \<times> ('k, 'u) worker" where
  "set_option sys hconn option err w = (case connections w (conn_id hconn) of
     None \<Rightarrow> (False, Generic ENODEV, w)
   | Some cs \<Rightarrow>
       if state (cs_conn cs) \<noteq> Active \<and> state (cs_conn cs) \<noteq> Connecting then (False, Generic ENOTCONN, w)
       else let (_, err, w) = on_os2 (sk_set_option sys (cs_socket cs) option err) w in (True, err, w))"

definition contains_connection :: "ConnectionHandle \<Rightarrow> ('k, 'u) worker \<Rightarrow> bool" where
  "contains_connection hconn w \<longleftrightarrow> connections w (conn_id hconn) \<noteq> None"

section \<open>Processes\<close>

text \<open>\<open>Process::request_stop\<close>; the default of the virtual \<open>handle_event\<close>.\<close>

definition request_stop :: "('k, 'u) process_ops \<Rightarrow> int \<Rightarrow> ('k, 'u) callback" where
  "request_stop ops timeout_sec p w err =
    (if has_task p then task_request_stop ops timeout_sec p w Cleared else (p, w, Generic ESRCH))"

definition when_event :: "Event \<Rightarrow> Event \<Rightarrow> ('k, 'u) callback \<Rightarrow> ('k, 'u) callback" where
  "when_event event e f p w err = (if has_event event e then f p w err else (p, w, err))"

definition then_do :: "('k, 'u) callback \<Rightarrow> ('k, 'u) callback \<Rightarrow> ('k, 'u) callback" where
  "then_do f g p w err = (case f p w err of (p, w, err) \<Rightarrow> g p w err)"

definition handle_event :: "('k, 'u) process_ops \<Rightarrow> Event \<Rightarrow> ('k, 'u) callback" where
  "handle_event ops event =
     then_do (when_event event Event_In (on_read ops))
    (then_do (when_event event Event_Out (on_write ops))
    (then_do (when_event event Event_EvTaskDone (on_task_done ops))
             (when_event event Event_EvStopRequested (on_stop_requested ops))))"

text \<open>The request queue of a requestable process.\<close>

definition is_active_request :: "'u process \<Rightarrow> ('k, 'u) worker \<Rightarrow> bool" where
  "is_active_request p w \<longleftrightarrow> (\<exists>i. active_request p = Some i \<and> \<not> cmd_ready i w)"

definition complete_current_request :: "error_code \<Rightarrow> 'u process \<Rightarrow> ('k, 'u) worker \<Rightarrow> 'u process \<times> ('k, 'u) worker" where
  "complete_current_request err p w =
    (p\<lparr>active_request := None\<rparr>,
     case active_request p of None \<Rightarrow> w | Some i \<Rightarrow> set_error i err w)"

definition reset_requests :: "('k, 'u) callback" where
  "reset_requests p w err =
    (let p = p\<lparr>requests := []\<rparr>; (p, w) = complete_current_request (Generic EINTR) p w
     in (p\<lparr>active_request := None\<rparr>, w, Cleared))"

fun pop_requests :: "nat option list \<Rightarrow> nat option \<Rightarrow> nat option list \<times> nat option" where
  "pop_requests [] active = ([], active)"
| "pop_requests (None # rs) active = pop_requests rs None"
| "pop_requests (Some i # rs) active = (rs, Some i)"

definition next_request :: "'u process \<Rightarrow> ('k, 'u) worker \<Rightarrow> bool \<times> 'u process" where
  "next_request p w =
    (if is_active_request p w then (False, p)
     else case pop_requests (requests p) (active_request p) of (rs, active) \<Rightarrow>
       (active \<noteq> None, p\<lparr>requests := rs, active_request := active\<rparr>))"

definition on_push_request :: "('k, 'u) process_ops \<Rightarrow> ('k, 'u) callback" where
  "on_push_request ops p w err = on_write ops p w Cleared"

definition push_request :: "('k, 'u) process_ops \<Rightarrow> nat \<Rightarrow> ('k, 'u) callback" where
  "push_request ops i p w err = on_push_request ops (p\<lparr>requests := requests p @ [Some i]\<rparr>) w err"

section \<open>Operations on one connection\<close>

definition stop_process :: "('k, 'u) process_ops \<Rightarrow> ConnectionHandle \<Rightarrow> int \<Rightarrow> error_code \<Rightarrow> ('k, 'u) worker \<Rightarrow> bool \<times> error_code \<times> ('k, 'u) worker" where
  "stop_process ops hconn timeout_sec err w = (case connections w (conn_id hconn) of
     None \<Rightarrow> (False, Generic ENODEV, w)
   | Some cs \<Rightarrow>
       if cs_proc cs \<noteq> None
       then let (err, w) = with_proc (conn_id hconn) (request_stop ops timeout_sec) err w in (err = Cleared, err, w)
       else (False, Generic ESRCH, w))"

definition shutdown_connection :: "'k syscalls \<Rightarrow> ConnectionHandle \<Rightarrow> error_code \<Rightarrow> ('k, 'u) worker \<Rightarrow> bool \<times> error_code \<times> ('k, 'u) worker" where
  "shutdown_connection sys hconn err w = (case connections w (conn_id hconn) of
     None \<Rightarrow> (False, Generic ENODEV, w)
   | Some cs \<Rightarrow>
       on_os2 (shutdown_all sys (cs_socket cs) err) (upd_conn (conn_id hconn) (set_connection_state Shutdowned) w))"

definition close_connection :: "'k syscalls \<Rightarrow> ConnectionHandle \<Rightarrow> error_code \<Rightarrow> ('k, 'u) worker \<Rightarrow> bool \<times> error_code \<times> ('k, 'u) worker" where
  "close_connection sys hconn err w = (case connections w (conn_id hconn) of
     None \<Rightarrow> (False, Generic ENODEV, w)
   | Some cs \<Rightarrow>
       let w = upd_conn (conn_id hconn) (set_connection_state Closed) w;
           (_, err, w) = on_os2 (remove sys (mpx w) (native (cs_socket cs)) err) w;
           w = close_socket sys (conn_id hconn) w
       in (True, err, erase_conn sys (conn_id hconn) w))"

text \<open>
  \<open>make_connectionIO\<close> and the constructor of \<open>ConnectionIO\<close>, which reports a bad descriptor when
  the socket is valid.
\<close>

definition make_connectionIO :: "Socket \<Rightarrow> ConnectionHandle \<Rightarrow> nat \<Rightarrow> ('k, 'u) worker \<Rightarrow> nat \<times> error_code \<times> ('k, 'u) worker" where
  "make_connectionIO sk hconn recv_buf_sz w =
    (recv_buf_sz, if sk_valid sk then Generic EBADF else Cleared, assert_that (is_valid_handler hconn) w)"

section \<open>Handles\<close>

definition execute_command :: "'k syscalls \<Rightarrow> 'u Command \<Rightarrow> ConnectionHandle \<Rightarrow> error_code \<Rightarrow> ('k, 'u) worker \<Rightarrow> bool \<times> error_code \<times> ('k, 'u) worker" where
  "execute_command sys c h err w =
    (if is_valid_handler h then (True, err, push_command sys c w) else (False, Generic ENODEV, w))"

definition execute_commands :: "'k syscalls \<Rightarrow> 'u Command list \<Rightarrow> ConnectionHandle \<Rightarrow> error_code \<Rightarrow> ('k, 'u) worker \<Rightarrow> bool \<times> error_code \<times> ('k, 'u) worker" where
  "execute_commands sys cs h err w =
    (if is_valid_handler h then (True, err, push_commands sys cs w) else (False, Generic ENODEV, w))"

definition handle_shutdown :: "'k syscalls \<Rightarrow> ConnectionHandle \<Rightarrow> error_code \<Rightarrow> ('k, 'u) worker \<Rightarrow> bool \<times> error_code \<times> ('k, 'u) worker" where
  "handle_shutdown sys h err w =
    (if owner h \<noteq> None then shutdown_connection sys h err w else (False, Generic ENODEV, w))"

definition handle_close :: "'k syscalls \<Rightarrow> ConnectionHandle \<Rightarrow> error_code \<Rightarrow> ('k, 'u) worker \<Rightarrow> bool \<times> error_code \<times> ('k, 'u) worker" where
  "handle_close sys h err w =
    (if owner h \<noteq> None then close_connection sys h err w else (False, Generic ENODEV, w))"

definition add_process :: "'k syscalls \<Rightarrow> 'u process \<Rightarrow> ConnectionHandle \<Rightarrow> error_code \<Rightarrow> ('k, 'u) worker \<Rightarrow> bool \<times> error_code \<times> ('k, 'u) worker" where
  "add_process sys p h err w =
    (if is_valid_handler h then (True, err, push_command sys (AttachProcess h p) w) else (False, Generic ENODEV, w))"

definition connection_handle :: "ConnectionId \<Rightarrow> ('k, 'u) worker \<Rightarrow> ConnectionHandle" where
  "connection_handle cid w = \<lparr>conn_id = cid, owner = Some (w_self w)\<rparr>"

section \<open>All connections\<close>

text \<open>
  The loops over the \<open>unordered_map\<close> visit the connections in an order that the map determines:
  it is the first argument.
\<close>

definition for_each_handle :: "'k syscalls \<Rightarrow> (ConnectionHandle \<Rightarrow> 'u Command) \<Rightarrow> ConnectionId list \<Rightarrow> error_code \<Rightarrow> ('k, 'u) worker \<Rightarrow> error_code \<times> ('k, 'u) worker" where
  "for_each_handle sys c order err w =
     fold (\<lambda>cid (err, w). let h = connection_handle cid w; (_, err, w) = execute_command sys (c h) h err w
                          in (err, w)) order (err, w)"

definition stop_all where "stop_all sys order timeout_sec = for_each_handle sys (\<lambda>h. RequestStop h timeout_sec) order"
definition shutdown_each where "shutdown_each sys order = for_each_handle sys ShutDownConnection order"
definition remove_all where "remove_all sys order = for_each_handle sys (\<lambda>h. RemoveConnection h 0) order"

text \<open>\<open>stop\<close> asks the processes to stop, requests the thread to stop and wakes it.\<close>

definition stop :: "'k syscalls \<Rightarrow> ('k, 'u) process_ops \<Rightarrow> ConnectionId list \<Rightarrow> int \<Rightarrow> ('k, 'u) worker \<Rightarrow> ('k, 'u) worker" where
  "stop sys ops order timeout_sec w =
    (let (_, w) = fold (\<lambda>cid (err, w). with_proc cid (request_stop ops timeout_sec) err w) order (Cleared, w)
     in wake_event sys (w\<lparr>stop_requested := True\<rparr>))"

definition handle_worker_commands :: "'k syscalls \<Rightarrow> ('k, 'u) process_ops \<Rightarrow> ConnectionId list \<Rightarrow> ('k, 'u) worker \<Rightarrow> ('k, 'u) worker" where
  "handle_worker_commands sys ops order w = (case w_cmds w of
     [] \<Rightarrow> w
   | c # rest \<Rightarrow> let w = w\<lparr>w_cmds := rest\<rparr> in if c = Stop then stop sys ops order 0 w else w)"

text \<open>\<open>connection_properties\<close>: the address and state of a connection, or default values.\<close>

definition connection_properties :: "ConnectionHandle \<Rightarrow> ('k, 'u) worker \<Rightarrow> address \<times> State" where
  "connection_properties h w = (case connections w (conn_id h) of
     Some cs \<Rightarrow> (storage (cs_conn cs), state (cs_conn cs)) | None \<Rightarrow> ([], Closed))"

section \<open>Events that end a connection\<close>

definition drop_connection :: "'k syscalls \<Rightarrow> ConnectionHandle \<Rightarrow> error_code \<Rightarrow> ('k, 'u) worker \<Rightarrow> ('k, 'u) worker" where
  "drop_connection sys h err w =
    (let w = upd_conn (conn_id h) (set_connection_state Closed) w;
         w = close_socket sys (conn_id h) w;
         w = upd_conn (conn_id h) reset_process w;
         w = push_command sys (RemoveConnection h 0) w
     in if failed err then erase_conn sys (conn_id h) w else w)"

definition handle_events :: "'k syscalls \<Rightarrow> ('k, 'u) process_ops \<Rightarrow> ConnectionHandle \<Rightarrow> Event \<Rightarrow> error_code \<Rightarrow> ('k, 'u) worker \<Rightarrow> bool \<times> error_code \<times> ('k, 'u) worker" where
  "handle_events sys ops hconn events err w =
    (if has_event events Event_CanReadButHangUp
     then let (err, w) = with_proc (conn_id hconn) (on_read ops) err w
          in (False, err, drop_connection sys hconn err w)
     else if has_event events Event_Error \<or> has_event events Event_HangUp
     then (False, err, drop_connection sys hconn err w)
     else (True, err, w))"

end
