(* ===== verification/Connection_IO.thy ===== *)
theory Connection_IO
  imports Socket_Transfer Serialization_Resume Abstract_Worker
begin

text \<open>
  \<open>ConnectionIO\<close> (\<open>network/connectionIO.h\<close>, \<open>network/connectionIO.cpp\<close>): the buffers of a connection and
  the stream that reads the received bytes, with the error handling of a connection's process
  (\<open>network/abstractprocess.h\<close>). The stream's views are pointers into the array of the receive buffer:
  the object keeps them as spans, and whoever reads through the views loads the array's bytes.
\<close>

section \<open>State\<close>

record connectionIO =
  send_buffer :: vecbuf
  recv_buffer :: "byte ring"
  serializer :: stream
  spans :: "iovec list"
  io_hconn :: ConnectionHandle

definition new_ConnectionIO :: "ConnectionHandle \<Rightarrow> nat \<Rightarrow> connectionIO" where
  "new_ConnectionIO hconn recv_buf_sz = \<lparr>send_buffer = VectorizedBuffer, recv_buffer = RingBuffer 0 recv_buf_sz,
     serializer = StreamSerializer, spans = [], io_hconn = hconn\<rparr>"

definition and_then :: "'a access \<Rightarrow> ('a \<Rightarrow> 'b access) \<Rightarrow> 'b access" where
  "and_then a f = (case a of OutOfBounds \<Rightarrow> OutOfBounds | Defined x \<Rightarrow> f x)"

lemma and_then_simps [simp]: "and_then (Defined x) f = f x" "and_then OutOfBounds f = OutOfBounds"
  by (simp_all add: and_then_def)

text \<open>The values of \<open>std::errc\<close> as they come out of an error code.\<close>

abbreviation EBADMSG :: nat where "EBADMSG \<equiv> 74"

fun errc_value :: "errc \<Rightarrow> nat" where
  "errc_value no_buffer_space = ENOBUFS"
| "errc_value invalid_argument = EINVAL"
| "errc_value resource_unavailable_try_again = EAGAIN"
| "errc_value operation_in_progress = EINPROGRESS"
| "errc_value connection_reset = 104"
| "errc_value (errno_value n) = n"

definition would_block :: "error_code \<Rightarrow> bool" where
  "would_block err \<longleftrightarrow> err_value err = EAGAIN \<or> err_value err = EINPROGRESS"

section \<open>Queries and clearing\<close>

definition io_has_to_write :: "connectionIO \<Rightarrow> bool" where
  "io_has_to_write io \<longleftrightarrow> has_to_write (send_buffer io)"

definition has_to_read :: "connectionIO \<Rightarrow> bool" where
  "has_to_read io \<longleftrightarrow> ring_size (recv_buffer io) \<noteq> 0"

definition free_space :: "connectionIO \<Rightarrow> nat" where
  "free_space io = usub64 (capacity (recv_buffer io)) (ring_size (recv_buffer io))"

definition in_recv_buffer :: "connectionIO \<Rightarrow> nat" where
  "in_recv_buffer io = ring_size (recv_buffer io)"

definition in_send_buffer :: "connectionIO \<Rightarrow> nat" where
  "in_send_buffer io = ring_size (recv_buffer io)"

definition receive_buffer_size :: "connectionIO \<Rightarrow> nat" where
  "receive_buffer_size io = ring_size (recv_buffer io)"

definition clear_recv_buffer :: "connectionIO \<Rightarrow> connectionIO" where
  "clear_recv_buffer io = io\<lparr>recv_buffer := ring_clear (recv_buffer io), serializer := reset_all (serializer io), spans := []\<rparr>"

definition clear_send_buffer :: "connectionIO \<Rightarrow> connectionIO" where
  "clear_send_buffer io = io\<lparr>send_buffer := compact (send_buffer io)\<rparr>"

definition clear_buffers :: "connectionIO \<Rightarrow> connectionIO" where
  "clear_buffers io = io\<lparr>send_buffer := compact (send_buffer io), recv_buffer := ring_clear (recv_buffer io)\<rparr>"

section \<open>The views of the received bytes\<close>

text \<open>The two spans of \<open>RingBuffer::data\<close>, as positions in the array.\<close>

definition ring_spans :: "'a ring \<Rightarrow> iovec \<times> iovec" where
  "ring_spans r =
     (let everything = \<lparr>iov_base = Some 0, iov_len = capacity r\<rparr>
      in if ring_empty r then (everything, everything)
         else if head r < tail r
         then (\<lparr>iov_base = Some (head r), iov_len = tail r - head r\<rparr>, \<lparr>iov_base = Some 0, iov_len = 0\<rparr>)
         else (\<lparr>iov_base = Some (head r), iov_len = capacity r - head r\<rparr>, \<lparr>iov_base = Some 0, iov_len = tail r\<rparr>))"

definition push_span :: "iovec \<Rightarrow> connectionIO \<Rightarrow> connectionIO" where
  "push_span s io = (if iov_len s \<noteq> 0
     then io\<lparr>serializer := push_view (iov_load (buf (recv_buffer io)) s) (serializer io), spans := spans io @ [s]\<rparr>
     else io)"

text \<open>What the views show is what the array holds when they are read.\<close>

definition load_views :: "connectionIO \<Rightarrow> stream" where
  "load_views io = (serializer io)\<lparr>view := (view (serializer io))\<lparr>buffers := map (iov_load (buf (recv_buffer io))) (spans io)\<rparr>\<rparr>"

text \<open>Flushing drops views at the front and cuts the first one that is left: the spans follow.\<close>

definition cut_span :: "iovec \<Rightarrow> byte list \<Rightarrow> iovec" where
  "cut_span s b = \<lparr>iov_base = map_option (\<lambda>base. base + (iov_len s - length b)) (iov_base s), iov_len = length b\<rparr>"

definition set_stream :: "stream \<Rightarrow> connectionIO \<Rightarrow> connectionIO" where
  "set_stream st io =
     (let bs = buffers (view st)
      in io\<lparr>serializer := st, spans := map2 cut_span (drop (length (spans io) - length bs) (spans io)) bs\<rparr>)"

definition commit_received :: "nat \<Rightarrow> connectionIO \<Rightarrow> connectionIO access" where
  "commit_received n io = map_access (\<lambda>r. io\<lparr>recv_buffer := r\<rparr>) (commit_read n (recv_buffer io))"

text \<open>\<open>recv_buffer_.commit_read(serializer_.flush())\<close>.\<close>

definition commit_flushed :: "connectionIO \<Rightarrow> connectionIO access" where
  "commit_flushed io = and_then (flush (serializer io)) (\<lambda>(n, st). commit_received n (set_stream st io))"

definition push_data :: "connectionIO \<Rightarrow> connectionIO" where
  "push_data io = (case ring_spans (recv_buffer io) of (s1, s2) \<Rightarrow> push_span s2 (push_span s1 io))"

section \<open>Deserializing\<close>

type_synonym 'v io_deserializer = "'v \<Rightarrow> connectionIO \<Rightarrow> (SerializationEC \<times> 'v \<times> connectionIO) access"

definition io_deserialize :: "host \<Rightarrow> ty \<Rightarrow> val io_deserializer" where
  "io_deserialize h t old io =
     (let io = push_data io
      in case deserialize_network h t old (load_views io) of
           (Abnormal, v, st) \<Rightarrow> OutOfBounds
         | (Code ser_res, v, st) \<Rightarrow>
             let io = set_stream st io
             in if ser_res = NONE then map_access (\<lambda>io. (ser_res, v, io)) (commit_received (Serial_size t v) io)
                else if ser_res = BUFFER_SIZE_LESSER then map_access (\<lambda>io. (ser_res, v, io)) (commit_flushed io)
                else Defined (ser_res, v, clear_recv_buffer io))"

definition io_deserialize_all :: "host \<Rightarrow> ty list \<Rightarrow> val list io_deserializer" where
  "io_deserialize_all h ts olds io =
     (let io = push_data io
      in case deserialize_fields (map (deserialize_network h) ts) olds (load_views io) of
           (Abnormal, vs, st) \<Rightarrow> OutOfBounds
         | (Code err, vs, st) \<Rightarrow>
             let io = set_stream st io
             in if err = NONE \<or> err = BUFFER_SIZE_LESSER then map_access (\<lambda>io. (err, vs, io)) (commit_flushed io)
                else Defined (err, vs, clear_recv_buffer io))"

section \<open>Sending and receiving\<close>

text \<open>The events of the connection are switched through the handle's owner.\<close>

definition io_enable_writable :: "'k syscalls \<Rightarrow> connectionIO \<Rightarrow> bool \<Rightarrow> error_code \<Rightarrow> ('k, 'u) worker \<Rightarrow> error_code \<times> ('k, 'u) worker" where
  "io_enable_writable sys io enable err w = snd (enable_writing sys (io_hconn io) enable err w)"

definition io_enable_readable :: "'k syscalls \<Rightarrow> connectionIO \<Rightarrow> bool \<Rightarrow> error_code \<Rightarrow> ('k, 'u) worker \<Rightarrow> error_code \<times> ('k, 'u) worker" where
  "io_enable_readable sys io enable err w = snd (enable_readable sys (io_hconn io) enable err w)"

text \<open>
  \<open>send_vectorized\<close> leaves the error code alone when nothing was taken, and otherwise clears or sets
  it; -1 is a negative result.
\<close>

definition code_after_send :: "nat \<Rightarrow> errc option \<Rightarrow> error_code \<Rightarrow> error_code" where
  "code_after_send res e err = (case e of
     Some e \<Rightarrow> Generic (errc_value e) | None \<Rightarrow> if res = 0 then err else Cleared)"

definition send_internal :: "'k syscalls \<Rightarrow> (byte list \<Rightarrow> io_out) \<Rightarrow> Socket \<Rightarrow> error_code \<Rightarrow> connectionIO \<Rightarrow> ('k, 'u) worker \<Rightarrow> (int \<times> error_code \<times> connectionIO \<times> ('k, 'u) worker) access" where
  "send_internal sys writev sk err io w =
     (if \<not> sk_valid sk then Defined (-1, Generic EBADF, io, w)
      else if \<not> has_to_write (send_buffer io)
      then let (err, w) = io_enable_writable sys io False err w in Defined (0, err, io, w)
      else let (err, w) = io_enable_writable sys io True err w
        in and_then (send_vectorized writev False None (send_buffer io)) (\<lambda>(res, e, b).
          let err = code_after_send res e err; io = io\<lparr>send_buffer := b\<rparr>
          in if err \<noteq> Cleared
             then if would_block err then Defined (int res, Cleared, io, w)
                  else if err_value err = ENOBUFS
                  then let (err, w) = io_enable_writable sys io False err w in Defined (int res, err, io, w)
                  else let (_, w) = io_enable_writable sys io False err w
                       in Defined (-1, err, clear_send_buffer io, w)
             else if \<not> has_to_write b
             then let (err, w) = io_enable_writable sys io False err w
                  in Defined (int res, err, clear_send_buffer io, w)
             else Defined (int res, err, io, w)))"

definition recv_internal :: "'k syscalls \<Rightarrow> (nat \<Rightarrow> io_in) \<Rightarrow> Socket \<Rightarrow> error_code \<Rightarrow> connectionIO \<Rightarrow> ('k, 'u) worker \<Rightarrow> (int \<times> error_code \<times> connectionIO \<times> ('k, 'u) worker) access" where
  "recv_internal sys readv sk err io w =
     (if \<not> sk_valid sk then Defined (-1, Generic EBADF, clear_recv_buffer io, w)
      else if free_space io = 0
      then let (err, w) = io_enable_readable sys io False (Generic ENOBUFS) w in Defined (0, err, io, w)
      else and_then (receive_to_ring_buffer readv (recv_buffer io)) (\<lambda>(res, e, r).
        let io = io\<lparr>recv_buffer := r\<rparr>
        in case e of
             None \<Rightarrow> Defined (int res, Cleared, io, w)
           | Some e \<Rightarrow>
               let err = Generic (errc_value e)
               in if would_block err then Defined (int res, err, io, w)
                  else if err_value err = ENOBUFS
                  then let (err, w) = io_enable_readable sys io False err w in Defined (int res, err, io, w)
                  else Defined (-1, err, io, w)))"

text \<open>
  \<open>send\<close>: \<open>serialize\<close> is \<open>vec_serialize\<close> or \<open>vec_serialize_all\<close>. The callback is given the last vector of
  the deque, which has to exist, and only reads it.
\<close>

definition io_send :: "'k syscalls \<Rightarrow> (byte list \<Rightarrow> io_out) \<Rightarrow> Socket \<Rightarrow> (vecbuf \<Rightarrow> SerializationEC \<times> vecbuf) \<Rightarrow> error_code \<Rightarrow> connectionIO \<Rightarrow> ('k, 'u) worker \<Rightarrow> (int \<times> error_code \<times> connectionIO \<times> ('k, 'u) worker) access" where
  "io_send sys writev sk serialize err io w =
     (case serialize (send_buffer io) of (ser_res, b) \<Rightarrow>
        let io = io\<lparr>send_buffer := b\<rparr>
        in if ser_res \<noteq> NONE
           then let (_, w) = io_enable_writable sys io False err w
                in Defined (-1, Generic ECANCELED, clear_send_buffer io, w)
           else if vec_data b = [] then OutOfBounds
           else send_internal sys writev sk err io w)"

definition send_rest :: "'k syscalls \<Rightarrow> (byte list \<Rightarrow> io_out) \<Rightarrow> Socket \<Rightarrow> error_code \<Rightarrow> connectionIO \<Rightarrow> ('k, 'u) worker \<Rightarrow> (int \<times> error_code \<times> connectionIO \<times> ('k, 'u) worker) access" where
  "send_rest sys writev sk err io w =
     (if has_to_write (send_buffer io) then send_internal sys writev sk err io w else Defined (0, err, io, w))"

definition io_receive :: "'k syscalls \<Rightarrow> (nat \<Rightarrow> io_in) \<Rightarrow> Socket \<Rightarrow> 'v io_deserializer \<Rightarrow> 'v \<Rightarrow> error_code \<Rightarrow> connectionIO \<Rightarrow> ('k, 'u) worker \<Rightarrow> (int \<times> error_code \<times> 'v \<times> connectionIO \<times> ('k, 'u) worker) access" where
  "io_receive sys readv sk deserialize old err io w =
     (let w = assert_that (0 < capacity (recv_buffer io)) w
      in and_then (recv_internal sys readv sk err io w) (\<lambda>(recv_res, err, io, w).
        if recv_res = -1 then Defined (-1, err, old, io, w)
        else and_then (deserialize old io) (\<lambda>(ser_res, v, io).
          if ser_res = NONE
          then map_access (\<lambda>io. (recv_res, err, v, io, w)) (commit_flushed io)
          else if ser_res = BUFFER_SIZE_LESSER
          then map_access (\<lambda>io. (recv_res, Generic EAGAIN, v, io, w)) (commit_flushed io)
          else Defined (-1, Generic EBADMSG, v, clear_recv_buffer io, w))))"

section \<open>Error handling of a connection's process\<close>

text \<open>The default \<open>at_fatal_error\<close>, and the one of a requestable process.\<close>

definition at_fatal_error :: "error_code \<Rightarrow> connectionIO \<Rightarrow> error_code \<times> connectionIO" where
  "at_fatal_error err io = (Cleared, clear_buffers io)"

definition request_fatal_error :: "error_code \<Rightarrow> 'u process \<Rightarrow> connectionIO \<Rightarrow> ('k, 'u) worker \<Rightarrow> error_code \<times> 'u process \<times> connectionIO \<times> ('k, 'u) worker" where
  "request_fatal_error err p io w =
     (case complete_current_request err p w of (p, w) \<Rightarrow> (Cleared, p, clear_buffers io, w))"

text \<open>
  \<open>handle_sending_error\<close>, which is also the text of \<open>handle_receive_error\<close>: true when the
  connection can go on. The virtual \<open>at_fatal_error\<close> is the function \<open>fatal\<close>.
\<close>

definition handle_io_error :: "'k syscalls \<Rightarrow> (error_code \<Rightarrow> 'u process \<Rightarrow> connectionIO \<Rightarrow> ('k, 'u) worker \<Rightarrow> error_code \<times> 'u process \<times> connectionIO \<times> ('k, 'u) worker) \<Rightarrow> error_code \<Rightarrow> 'u process \<Rightarrow> connectionIO \<Rightarrow> ('k, 'u) worker \<Rightarrow> bool \<times> error_code \<times> 'u process \<times> connectionIO \<times> ('k, 'u) worker" where
  "handle_io_error sys fatal err p io w =
     (if failed err
      then if would_block err then (True, Cleared, p, io, w)
           else if err_value err = ENOBUFS
           then let (_, w) = io_enable_writable sys io False err w in (True, Cleared, p, io, w)
           else (False, fatal err p io w)
      else (True, err, p, io, w))"

definition plain_fatal_error where
  "plain_fatal_error err p io w = (case at_fatal_error err io of (err, io) \<Rightarrow> (err, p, io, w))"

definition handle_sending_error where "handle_sending_error sys = handle_io_error sys plain_fatal_error"
definition handle_receive_error where "handle_receive_error sys = handle_io_error sys plain_fatal_error"
definition request_handle_sending_error where "request_handle_sending_error sys = handle_io_error sys request_fatal_error"

definition request_handle_receive_error :: "error_code \<Rightarrow> 'u process \<Rightarrow> connectionIO \<Rightarrow> ('k, 'u) worker \<Rightarrow> bool \<times> error_code \<times> 'u process \<times> connectionIO \<times> ('k, 'u) worker" where
  "request_handle_receive_error err p io w =
     (if failed err
      then if would_block err \<or> err_value err = ENOBUFS then (True, Cleared, p, io, w)
           else (False, request_fatal_error err p io w)
      else (True, err, p, io, w))"

end
