(* ===== verification/Thread_Pool.thy ===== *)
theory Thread_Pool
  imports Abstract_Worker
begin

text \<open>
  \<open>Worker\<close>, the commands' execution and \<open>ThreadPool\<close> (\<open>threadpool.h\<close>, \<open>threadpool.cpp\<close>,
  \<open>worker/command.cpp\<close>): what a worker thread does for each kind of command, for each event and in
  each turn of its loop. The hooks \<open>after_...\<close> of \<open>Worker\<close> have empty bodies and \<open>ServerWorker\<close>
  does not override them, so they do not appear; output to \<open>std::cout\<close> is left out.
\<close>

section \<open>Construction\<close>

text \<open>
  The constructor of a worker makes its multiplexor and then clears the error code, also of a
  failure.
\<close>

definition new_worker :: "'k syscalls \<Rightarrow> nat \<Rightarrow> string \<Rightarrow> nat \<Rightarrow> error_code \<Rightarrow> 'k os \<Rightarrow> ('k, 'u) worker \<times> error_code" where
  "new_worker sys self name order_length err s =
    (let (m, err, s) = Multiplexor sys order_length err s
     in (\<lparr>w_self = self, w_name = name, stop_requested = False, connections = Map.empty, cmds = [], w_cmds = [],
          mpx = m, results = Map.empty, next_cmd = 0, aborted = False, w_os = s\<rparr>, Cleared))"

section \<open>Adding connections\<close>

text \<open>
  A local \<open>ConnectionState\<close> that is destroyed at a return closes its socket, as does one that is
  moved into a pair the map does not take.
\<close>

definition destroy_socket :: "'k syscalls \<Rightarrow> Socket \<Rightarrow> ('k, 'u) worker \<Rightarrow> ('k, 'u) worker" where
  "destroy_socket sys sk w = w\<lparr>w_os := snd (sk_close sys sk (w_os w))\<rparr>"

definition insert_conn :: "'k syscalls \<Rightarrow> ConnectionId \<Rightarrow> 'u ConnectionState \<Rightarrow> ('k, 'u) worker \<Rightarrow> bool \<times> ('k, 'u) worker" where
  "insert_conn sys cid cs w =
    (if connections w cid = None then (True, w\<lparr>connections := (connections w)(cid := Some cs)\<rparr>)
     else (False, destroy_socket sys (cs_socket cs) w))"

definition events_connected :: Event where
  "events_connected = event_or (event_or Event_In Event_HangUp) Event_Error"

definition events_connecting :: Event where
  "events_connecting = event_or (event_or Event_Out Event_Error) Event_HangUp"

definition events_attached :: Event where
  "events_attached = event_or Event_Error Event_HangUp"

text \<open>
  The part of \<open>connectInternal\<close> behind a successful registration. The socket is closed with every
  failure: by the local state that owns it, or by the caller's variable when it was not moved.
\<close>

definition finish_connect :: "'k syscalls \<Rightarrow> ConnectionId \<Rightarrow> 'u ConnectionState \<Rightarrow> error_code \<Rightarrow> ('k, 'u) worker \<Rightarrow> bool \<times> error_code \<times> ('k, 'u) worker" where
  "finish_connect sys cid cs err w =
    (let (conn_res, w) = on_os (do_call (\<lambda>k. sc_connect sys k (native (cs_socket cs)) (storage (cs_conn cs)))) w
     in if conn_res
        then let (inserted, w) = insert_conn sys cid cs w
             in if \<not> inserted then (False, Generic EISCONN, w)
                else (True, err, wake_event sys (upd_conn cid (set_connection_state Active) w))
        else if errno (w_os w) = EINPROGRESS
        then let cs = cs\<lparr>events_handled := events_connecting\<rparr>;
                 ev = handle_for sys cid events_connecting w;
                 (modified, err, w) = modify_tracking_event sys (native (cs_socket cs)) ev err w
             in if \<not> modified then (False, err, destroy_socket sys (cs_socket cs) w)
                else let (inserted, w) = insert_conn sys cid cs w
                     in if \<not> inserted then (False, Generic EISCONN, w)
                        else (True, err, wake_event sys (upd_conn cid (set_connection_state Connecting) w))
        else (False, err, destroy_socket sys (cs_socket cs) w))"

definition connectInternal :: "'k syscalls \<Rightarrow> ConnectionHandle \<Rightarrow> Connection \<Rightarrow> Socket \<Rightarrow> error_code \<Rightarrow> ('k, 'u) worker \<Rightarrow> bool \<times> error_code \<times> ('k, 'u) worker" where
  "connectInternal sys hconn conn socket err w =
    (if \<not> stop_requested w \<and> is_valid_handler hconn
     then let (io, err, w) = make_connectionIO socket hconn (1024 * 8) w;
              cs = \<lparr>cs_conn = conn, cs_proc = None, cs_io = Some io, cs_socket = socket, events_handled = events_connected\<rparr>;
              (unblocked, err, w) = on_os2 (set_no_block sys socket True err) w
          in if \<not> unblocked then (False, err, destroy_socket sys socket w)
             else let ev = handle_for sys (conn_id hconn) events_connected w;
                      (added, err, w) = add_tracking_event sys (native socket) ev err w
                  in if \<not> added then (False, err, destroy_socket sys socket w)
                     else finish_connect sys (conn_id hconn) cs err w
     else (False, err, destroy_socket sys socket w))"

text \<open>
  Attaching tests the error code and not the result of the registration. The descriptor stays
  with the command when the function fails before moving the socket.
\<close>

definition attachConnectionInternal :: "'k syscalls \<Rightarrow> ConnectionHandle \<Rightarrow> Connection \<Rightarrow> nat \<Rightarrow> Socket \<Rightarrow> error_code \<Rightarrow> ('k, 'u) worker \<Rightarrow> bool \<times> error_code \<times> ('k, 'u) worker" where
  "attachConnectionInternal sys hconn conn buffer_size socket err w =
    (if connections w (conn_id hconn) = None
     then let ev = handle_for sys (conn_id hconn) events_attached w;
              (_, err, w) = add_tracking_event sys (native socket) ev err w
          in if failed err then (False, err, w)
             else let cs = \<lparr>cs_conn = conn, cs_proc = None, cs_io = None, cs_socket = socket, events_handled = events_attached\<rparr>;
                      (inserted, w) = insert_conn sys (conn_id hconn) cs w
                  in if \<not> inserted then (False, Generic EISCONN, w)
                     else let (io, err, w) = make_connectionIO socket hconn buffer_size w;
                              w = upd_conn (conn_id hconn) (\<lambda>cs. set_connection_state Active (cs\<lparr>cs_io := Some io\<rparr>)) w;
                              (non_block, err, w) = on_os2 (is_non_block sys socket err) w
                          in (True, Cleared, assert_that non_block w)
     else (False, Generic EISCONN, w))"

section \<open>Changing and removing connections\<close>

definition removeConnectionInternal :: "'k syscalls \<Rightarrow> ConnectionHandle \<Rightarrow> error_code \<Rightarrow> ('k, 'u) worker \<Rightarrow> bool \<times> error_code \<times> ('k, 'u) worker" where
  "removeConnectionInternal sys hconn err w = (case connections w (conn_id hconn) of
     None \<Rightarrow> (False, Generic ENODEV, w)
   | Some cs \<Rightarrow>
       let (_, err, w) = on_os2 (shutdown_all sys (cs_socket cs) err) w
       in if failed err then (False, err, erase_conn sys (conn_id hconn) w)
          else let (res, err, w) = remove_tracking_event sys (native (cs_socket cs)) err w;
                   w = close_socket sys (conn_id hconn) w
               in (res, err, erase_conn sys (conn_id hconn) w))"

definition modifyConnectionInternal :: "'k syscalls \<Rightarrow> ConnectionHandle \<Rightarrow> SocketOption option list \<Rightarrow> error_code \<Rightarrow> ('k, 'u) worker \<Rightarrow> bool \<times> error_code \<times> ('k, 'u) worker" where
  "modifyConnectionInternal sys hconn options err w = (case connections w (conn_id hconn) of
     None \<Rightarrow> (False, Generic ENODEV, w)
   | Some cs \<Rightarrow> let (_, err, w) = on_os2 (sk_set_options sys (cs_socket cs) options err) w in (True, err, w))"

text \<open>
  Attaching a process switches reading on and writing off; the recorded events change before the
  registration does. A failing \<open>on_init_connection\<close> closes the socket and queues the removal.
\<close>

definition fail_process :: "'k syscalls \<Rightarrow> ConnectionId \<Rightarrow> ('k, 'u) worker \<Rightarrow> ('k, 'u) worker" where
  "fail_process sys cid w =
    push_command sys (RemoveConnection (connection_handle cid w) 0)
      (upd_conn cid reset_process (close_socket sys cid w))"

definition addConnectionProcessInternal :: "'k syscalls \<Rightarrow> ('k, 'u) process_ops \<Rightarrow> ConnectionHandle \<Rightarrow> 'u process \<Rightarrow> error_code \<Rightarrow> ('k, 'u) worker \<Rightarrow> bool \<times> error_code \<times> ('k, 'u) worker" where
  "addConnectionProcessInternal sys ops hconn proc err w =
    (if stop_requested w then (False, err, w)
     else case connections w (conn_id hconn) of
       None \<Rightarrow> (False, Generic ENOTCONN, w)
     | Some cs \<Rightarrow>
         if state (cs_conn cs) = Active \<or> state (cs_conn cs) = Connecting
         then let events = event_or (event_and (events_handled cs) (event_not Event_Out)) Event_In;
                  w = upd_conn (conn_id hconn)
                        (\<lambda>cs. cs\<lparr>cs_proc := Some (proc\<lparr>io_set := cs_io cs \<noteq> None\<rparr>), events_handled := events\<rparr>) w;
                  ev = handle_for sys (conn_id hconn) events w;
                  (modified, err, w) = modify_tracking_event sys (native (cs_socket cs)) ev err w
              in if \<not> modified then (False, err, w)
                 else let (err, w) = with_proc (conn_id hconn) (on_init_connection ops) Cleared w
                      in if failed err then (False, err, fail_process sys (get_as_32 ev) w)
                         else (True, err, w)
         else (False, Generic ENOTCONN, w))"

definition removeConnectionProcessInternal :: "'k syscalls \<Rightarrow> ConnectionHandle \<Rightarrow> error_code \<Rightarrow> ('k, 'u) worker \<Rightarrow> bool \<times> error_code \<times> ('k, 'u) worker" where
  "removeConnectionProcessInternal sys hconn err w = (case connections w (conn_id hconn) of
     None \<Rightarrow> (False, Generic ENOTCONN, w)
   | Some cs \<Rightarrow>
       let w = upd_conn (conn_id hconn) (\<lambda>cs. cs\<lparr>cs_proc := None\<rparr>) w;
           ev = handle_for sys (conn_id hconn) (event_xor (events_handled cs) Event_In) w;
           (modified, err, w) = modify_tracking_event sys (native (cs_socket cs)) ev err w
       in if \<not> modified then (False, err, w)
          else if failed err then (False, err, w)
          else (True, err, upd_conn (conn_id hconn) (\<lambda>cs. cs\<lparr>events_handled := ev_events ev\<rparr>) w))"

section \<open>Commands\<close>

text \<open>
  \<open>emplace_request_to_process\<close>: the request goes to the connection's process, if that takes
  requests; \<open>push_request\<close> has called \<open>on_push_request\<close> when it is called again.
\<close>

definition emplace_request_to_process :: "('k, 'u) process_ops \<Rightarrow> nat \<Rightarrow> ConnectionHandle \<Rightarrow> ('k, 'u) worker \<Rightarrow> error_code \<times> ('k, 'u) worker" where
  "emplace_request_to_process ops i hconn w = (case connections w (conn_id hconn) of
     None \<Rightarrow> (Generic ENODEV, w)
   | Some cs \<Rightarrow> (case cs_proc cs of
       None \<Rightarrow> (Generic ESRCH, w)
     | Some p \<Rightarrow>
         if requestable p
         then let (err, w) = with_proc (conn_id hconn) (push_request ops i) Cleared w
              in if failed err then (err, w)
                 else with_proc (conn_id hconn) (on_push_request ops) err w
         else (Generic EOPNOTSUPP, w)))"

definition execute_add :: "'k syscalls \<Rightarrow> nat \<Rightarrow> ConnectionHandle \<Rightarrow> string \<Rightarrow> 16 word \<Rightarrow> int \<Rightarrow> int \<Rightarrow> ('k, 'u) worker \<Rightarrow> ('k, 'u) worker" where
  "execute_add sys i hconn host port type proto w =
    (if \<not> is_valid_handler hconn \<or> \<not> same_owner (w_self w) hconn then set_error i (Generic EINVAL) w
     else let (addr, err) = make_address sys host port Cleared
          in if err = Cleared
             then let (sock, err, w) = on_os2 (make_socket sys addr type proto err) w
                  in if \<not> failed err
                     then let (addr, err) = make_address sys host port err
                          in if \<not> failed err
                             then let (_, err, w) = connectInternal sys hconn (new_Connection addr) sock err w
                                  in set_error i err w
                             else destroy_socket sys sock w
                     else set_error i err w
             else set_error i err w)"

definition execute_task_done :: "('k, 'u) process_ops \<Rightarrow> nat \<Rightarrow> ConnectionHandle \<Rightarrow> ('k, 'u) worker \<Rightarrow> ('k, 'u) worker" where
  "execute_task_done ops i hconn w = (case Option.bind (connections w (conn_id hconn)) cs_proc of
     None \<Rightarrow> set_error i (Generic ESRCH) w
   | Some p \<Rightarrow>
       if has_task p
       then let (rdy, err) = task_is_ready ops p Cleared; w = assert_that rdy w
            in if \<not> failed err
               then let (err, w) = with_proc (conn_id hconn) (handle_event ops Event_EvTaskDone) err w in set_error i err w
               else set_error i (Generic ECANCELED) w
       else set_error i (Generic ESRCH) w)"

text \<open>
  \<open>execute_internal\<close> of each kind of command; \<open>i\<close> is the command. Those that report the error
  of one function of the worker share \<open>report\<close>.
\<close>

definition report :: "nat \<Rightarrow> bool \<times> error_code \<times> ('k, 'u) worker \<Rightarrow> ('k, 'u) worker" where
  "report i r = (case r of (_, err, w) \<Rightarrow> set_error i err w)"

fun execute :: "'k syscalls \<Rightarrow> ('k, 'u) process_ops \<Rightarrow> nat \<Rightarrow> 'u Command \<Rightarrow> ('k, 'u) worker \<Rightarrow> ('k, 'u) worker" where
  "execute sys ops i (AddConnection h host port type proto) w = execute_add sys i h host port type proto w"
| "execute sys ops i (AttachConnection h conn buf sk) w = report i (attachConnectionInternal sys h conn buf sk Cleared w)"
| "execute sys ops i (RemoveConnection h timeout) w = report i (removeConnectionInternal sys h Cleared w)"
| "execute sys ops i (ModifyConnection h options) w = report i (modifyConnectionInternal sys h options Cleared w)"
| "execute sys ops i (AttachProcess h p) w = report i (addConnectionProcessInternal sys ops h p Cleared w)"
| "execute sys ops i (RemoveProcess h timeout) w = report i (removeConnectionProcessInternal sys h Cleared w)"
| "execute sys ops i (RequestStop h timeout) w = report i (stop_process ops h timeout Cleared w)"
| "execute sys ops i (ShutDownConnection h) w = report i (shutdown_connection sys h Cleared w)"
| "execute sys ops i (RequestData h) w =
     (case emplace_request_to_process ops i h w of (err, w) \<Rightarrow> if failed err then set_error i err w else w)"
| "execute sys ops i (TaskDone h) w = execute_task_done ops i h w"

section \<open>The thread\<close>

text \<open>
  \<open>handle_pending\<close> empties the queue into a list and then executes the list; what the commands
  queue in turn waits for the next call.
\<close>

function extract_all :: "('k, 'u) worker \<Rightarrow> (nat \<times> 'u Command) list \<times> ('k, 'u) worker" where
  "extract_all w = (case extract_command w of
     (None, w) \<Rightarrow> ([], w)
   | (Some c, w) \<Rightarrow> (case extract_all w of (cs, w) \<Rightarrow> (c # cs, w)))"
  by pat_completeness auto
termination
  by (relation "measure (\<lambda>w. length (cmds w))") (auto simp: extract_command_def split: list.splits)

declare extract_all.simps [simp del]

fun execute_list :: "'k syscalls \<Rightarrow> ('k, 'u) process_ops \<Rightarrow> (nat \<times> 'u Command) list \<Rightarrow> ('k, 'u) worker \<Rightarrow> ('k, 'u) worker" where
  "execute_list sys ops [] w = w"
| "execute_list sys ops ((i, c) # cs) w = execute_list sys ops cs (execute sys ops i c w)"

definition handle_pending :: "'k syscalls \<Rightarrow> ('k, 'u) process_ops \<Rightarrow> ('k, 'u) worker \<Rightarrow> ('k, 'u) worker" where
  "handle_pending sys ops w = (case extract_all w of (cs, w) \<Rightarrow> execute_list sys ops cs w)"

text \<open>
  \<open>run\<close> for one event. A connection that was being established becomes active when the socket
  reports no error; then the process is initialised, and, since the braces of the condition are
  missing, discarded whether or not that failed.
\<close>

definition server_asserts :: "'u ConnectionState \<Rightarrow> ('k, 'u) worker \<Rightarrow> ('k, 'u) worker" where
  "server_asserts cs w =
    (if w_name w = ''server 0''
     then if cs_proc cs \<noteq> None
          then assert_that (\<not> has_event (events_handled cs) Event_EdgeTrigger \<and> has_event (events_handled cs) Event_In) w
          else assert_that (\<not> has_event (events_handled cs) Event_In \<or> \<not> has_event (events_handled cs) Event_Out) w
     else w)"

definition establish :: "'k syscalls \<Rightarrow> ('k, 'u) process_ops \<Rightarrow> EventHandle \<Rightarrow> ConnectionId \<Rightarrow> 'u ConnectionState \<Rightarrow> error_code \<Rightarrow> ('k, 'u) worker \<Rightarrow> error_code \<times> ('k, 'u) worker" where
  "establish sys ops ev cid cs err w =
    (let w = upd_conn cid (set_connection_state Active) w;
         ev_tmp = set_events (event_or Event_HangUp Event_Error) ev;
         (modified, err, w) = modify_tracking_event sys (native (cs_socket cs)) ev_tmp err w
     in if \<not> modified then (err, push_command sys (RemoveConnection (connection_handle cid w) 0) w)
        else let w = upd_conn cid (\<lambda>cs. cs\<lparr>events_handled := ev_events ev_tmp\<rparr>) w
             in if cs_proc cs \<noteq> None
                then let (err, w) = with_proc cid (on_init_connection ops) err w;
                         w = (if failed err then close_socket sys cid w else w);
                         w = upd_conn cid reset_process w
                     in (err, push_command sys (RemoveConnection (connection_handle cid w) 0) w)
                else (err, w))"

definition dispatch :: "'k syscalls \<Rightarrow> ('k, 'u) process_ops \<Rightarrow> Event \<Rightarrow> ConnectionId \<Rightarrow> ('k, 'u) worker \<Rightarrow> ('k, 'u) worker" where
  "dispatch sys ops e cid w = (case Option.bind (connections w cid) cs_proc of
     None \<Rightarrow> w
   | Some p \<Rightarrow>
       let (err, w) = with_proc cid (handle_event ops e) Cleared w
       in if failed err \<and> err_value err \<notin> {EINPROGRESS, ENOBUFS, EAGAIN} then fail_process sys cid w else w)"

definition run :: "'k syscalls \<Rightarrow> ('k, 'u) process_ops \<Rightarrow> EventHandle \<Rightarrow> error_code \<Rightarrow> ('k, 'u) worker \<Rightarrow> error_code \<times> ('k, 'u) worker" where
  "run sys ops ev err w =
    (let e = ev_events ev; cid = get_as_32 ev
     in case connections w cid of
       None \<Rightarrow> (Generic ENODEV, w)
     | Some cs \<Rightarrow> (case handle_events sys ops (connection_handle cid w) e err w of
         (False, err, w) \<Rightarrow> (err, w)
       | (True, err, w) \<Rightarrow>
           let w = server_asserts cs w
           in if state (cs_conn cs) = Connecting \<and> has_event e Event_Out
              then case on_os2 (sk_error sys (cs_socket cs) err) w of (sock_error, err, w) \<Rightarrow>
                if sock_error = Cleared
                then case establish sys ops ev cid cs err w of (err, w) \<Rightarrow> (err, dispatch sys ops e cid w)
                else (err, push_commands sys [RemoveConnection (connection_handle cid w) 0] w)
              else (err, dispatch sys ops e cid w)))"

fun run_events :: "'k syscalls \<Rightarrow> ('k, 'u) process_ops \<Rightarrow> EventHandle list \<Rightarrow> error_code \<Rightarrow> ('k, 'u) worker \<Rightarrow> error_code \<times> ('k, 'u) worker" where
  "run_events sys ops [] err w = (err, w)"
| "run_events sys ops (ev # evs) err w = (case run sys ops ev err w of (err, w) \<Rightarrow> run_events sys ops evs err w)"

text \<open>
  One turn of the loop of \<open>__thread_launch__\<close>; the result tells whether the loop goes on. Waiting
  may not return, and may end the program.
\<close>

definition thread_turn :: "'k syscalls \<Rightarrow> ('k, 'u) process_ops \<Rightarrow> ConnectionId list \<Rightarrow> error_code \<Rightarrow> ('k, 'u) worker \<Rightarrow> (bool \<times> error_code \<times> ('k, 'u) worker) option" where
  "thread_turn sys ops order err w = (case wait sys (mpx w) err 3000 (w_os w) of
     None \<Rightarrow> None
   | Some (r, m, err, s) \<Rightarrow>
       let w = w\<lparr>mpx := m, w_os := s\<rparr>
       in case r of
         Ready events \<Rightarrow>
           let w = handle_worker_commands sys ops order w
           in if stop_requested w then Some (False, err, w)
              else case run_events sys ops events err (handle_pending sys ops w) of (err, w) \<Rightarrow> Some (True, err, w)
       | _ \<Rightarrow> Some (False, err, w\<lparr>aborted := True\<rparr>))"

section \<open>The pool\<close>

text \<open>
  The pool's workers, the counter that chooses the next one (an atomic \<open>size_t\<close>), and the global
  counter of connection identifiers.
\<close>

record ('k, 'u) ThreadPool =
  workers :: "('k, 'u) worker list"
  next_worker :: nat
  id_counter :: "32 word"

text \<open>
  The constructor of the pool: workers \<open>server 0\<close>, \<open>server 1\<close>, ... until one reports an error; \<open>digits\<close>
  stands for \<open>std::to_string\<close>. Every thread has an \<open>errno\<close> of its own, all make their calls on one
  system; the model gives each worker the state of the system in which it was made.
\<close>

fun new_workers :: "'k syscalls \<Rightarrow> (nat \<Rightarrow> string) \<Rightarrow> nat \<Rightarrow> nat \<Rightarrow> 'k os \<Rightarrow> ('k, 'u) worker list \<times> error_code" where
  "new_workers sys digits 0 i s = ([], Cleared)"
| "new_workers sys digits (Suc n) i s =
    (case new_worker sys i (''server '' @ digits i) 24 Cleared s of (w, err) \<Rightarrow>
       if failed err then ([], err)
       else case new_workers sys digits n (Suc i) (w_os w) of (ws, err) \<Rightarrow>
         if failed err then ([], err) else (w # ws, err))"

text \<open>With no worker the index is a remainder by zero: \<open>None\<close>.\<close>

definition attach_connection :: "'k syscalls \<Rightarrow> address \<Rightarrow> nat \<Rightarrow> Socket \<Rightarrow> ('k, 'u) ThreadPool \<Rightarrow> (ConnectionHandle \<times> ('k, 'u) ThreadPool) option" where
  "attach_connection sys addr buffer_size socket p =
    (if workers p = [] then None
     else let index = next_worker p mod length (workers p);
              w = workers p ! index;
              (hconn, counter) = new_ConnectionHandle (Some (w_self w)) (id_counter p);
              (_, _, w) = execute_command sys (AttachConnection hconn (new_Connection addr) buffer_size socket) hconn Cleared w
          in Some (hconn, p\<lparr>workers := (workers p)[index := w], next_worker := uadd64 (next_worker p) 1,
                           id_counter := counter\<rparr>))"

definition modifyConnection :: "'k syscalls \<Rightarrow> ConnectionHandle \<Rightarrow> SocketOption option list \<Rightarrow> error_code \<Rightarrow> ('k, 'u) worker \<Rightarrow> bool \<times> error_code \<times> ('k, 'u) worker" where
  "modifyConnection sys hconn options err w = execute_command sys (ModifyConnection hconn options) hconn err w"

definition stopConnections :: "'k syscalls \<Rightarrow> (('k, 'u) worker \<Rightarrow> ConnectionId list) \<Rightarrow> int \<Rightarrow> error_code \<Rightarrow> ('k, 'u) ThreadPool \<Rightarrow> ('k, 'u) ThreadPool" where
  "stopConnections sys order timeout_sec err p =
    p\<lparr>workers := map (\<lambda>w. snd (stop_all sys (order w) timeout_sec err w)) (workers p)\<rparr>"

definition stop_pool :: "'k syscalls \<Rightarrow> ('k, 'u) ThreadPool \<Rightarrow> ('k, 'u) ThreadPool" where
  "stop_pool sys p = p\<lparr>workers := map (command_worker sys Stop) (workers p)\<rparr>"

text \<open>
  \<open>ServerWorker::set_processes\<close>: one process for each connection, made by a constructor that may
  report an error, in which case the connection is skipped and the error stays set.
\<close>

definition set_processes :: "'k syscalls \<Rightarrow> (ConnectionHandle \<Rightarrow> error_code \<Rightarrow> 'u process \<times> error_code) \<Rightarrow> ConnectionId list \<Rightarrow> error_code \<Rightarrow> ('k, 'u) worker \<Rightarrow> error_code \<times> ('k, 'u) worker" where
  "set_processes sys build order err w =
     fold (\<lambda>cid (err, w). let h = connection_handle cid w; (p, err) = build h err
                          in if failed err then (err, w)
                             else let (_, err, w) = execute_command sys (AttachProcess h p) h err w in (err, w))
       order (err, w)"

end
