(* ===== verification/Worker_Registration.thy ===== *)
theory Worker_Registration
  imports Thread_Pool
begin

text \<open>
  The abstract view of a worker: which descriptor and which events it records for every
  connection, and what the system has registered. Every operation of the worker is a sequence of
  a few abstract steps on this view (a refinement), and an invariant of the steps says that
  events reach the connection they belong to.
\<close>

section \<open>The abstract machine\<close>

type_synonym conn_map = "ConnectionId \<Rightarrow> (int \<times> Event) option"
type_synonym reg_map = "int \<Rightarrow> EventHandle option"

text \<open>A descriptor that the system can hand out: nothing refers to it.\<close>

definition free_fd :: "int option \<Rightarrow> int \<Rightarrow> conn_map \<Rightarrow> reg_map \<Rightarrow> int \<Rightarrow> bool" where
  "free_fd ifd ep V R fd \<longleftrightarrow> 0 \<le> fd \<and> R fd = None \<and> Some fd \<noteq> ifd \<and> fd \<noteq> ep \<and> (\<forall>c e. V c \<noteq> Some (fd, e))"

text \<open>
  The steps, for the interruptor \<open>ifd\<close> and the epoll descriptor \<open>ep\<close>. With \<open>exact\<close> the system
  has resources for every registration and the recorded events follow the registered ones;
  without it a registration may be refused and they may drift apart.
\<close>

inductive reg_step :: "bool \<Rightarrow> int option \<Rightarrow> int \<Rightarrow> conn_map \<times> reg_map \<Rightarrow> conn_map \<times> reg_map \<Rightarrow> bool"
  for exact ifd ep where
  close: "V c = Some (fd, e) \<Longrightarrow> 0 \<le> fd \<Longrightarrow> reg_step exact ifd ep (V, R) (V(c \<mapsto> (-1, e)), R(fd := None))"
| erase: "V c = Some (fd, e) \<Longrightarrow> fd < 0 \<Longrightarrow> reg_step exact ifd ep (V, R) (V(c := None), R)"
| insert: "V c = None \<Longrightarrow> free_fd ifd ep V R fd \<Longrightarrow> get_as_32 ev = c \<Longrightarrow> (exact \<Longrightarrow> ev_events ev = e) \<Longrightarrow>
    reg_step exact ifd ep (V, R) (V(c \<mapsto> (fd, e)), R(fd \<mapsto> ev))"
| insert_unregistered: "V c = None \<Longrightarrow> free_fd ifd ep V R fd \<Longrightarrow> \<not> exact \<Longrightarrow>
    reg_step exact ifd ep (V, R) (V(c \<mapsto> (fd, e)), R)"
| modify: "V c = Some (fd, e) \<Longrightarrow> R fd \<noteq> None \<Longrightarrow> 0 \<le> fd \<Longrightarrow> get_as_32 ev = c \<Longrightarrow> (exact \<Longrightarrow> ev_events ev = e') \<Longrightarrow>
    reg_step exact ifd ep (V, R) (V(c \<mapsto> (fd, e')), R(fd \<mapsto> ev))"
| drift: "V c = Some (fd, e) \<Longrightarrow> \<not> exact \<or> fd < 0 \<Longrightarrow> reg_step exact ifd ep (V, R) (V(c \<mapsto> (fd, e')), R)"

text \<open>
  The invariant: a registered descriptor, the interruptor apart, belongs to the connection that
  its event names; no two connections share an open descriptor, and none has the interruptor's
  or the multiplexor's own; the interruptor stays registered. With \<open>exact\<close>, every open
  connection is registered, under its identifier and for the events that it records.
\<close>

definition reg_inv :: "bool \<Rightarrow> int option \<Rightarrow> int \<Rightarrow> conn_map \<times> reg_map \<Rightarrow> bool" where
  "reg_inv exact ifd ep VR \<longleftrightarrow> (case VR of (V, R) \<Rightarrow>
     (\<forall>fd ev. R fd = Some ev \<and> Some fd \<noteq> ifd \<longrightarrow> 0 \<le> fd \<and> (\<exists>e. V (get_as_32 ev) = Some (fd, e))) \<and>
     (\<forall>a b fd ea eb. V a = Some (fd, ea) \<and> V b = Some (fd, eb) \<and> 0 \<le> fd \<longrightarrow> a = b) \<and>
     (\<forall>a fd e. V a = Some (fd, e) \<and> 0 \<le> fd \<longrightarrow> Some fd \<noteq> ifd \<and> fd \<noteq> ep) \<and>
     (\<forall>f. ifd = Some f \<longrightarrow> (\<exists>ev. R f = Some ev \<and> get_as_64 ev = si_ctrl)) \<and>
     (exact \<longrightarrow> (\<forall>a fd e. V a = Some (fd, e) \<and> 0 \<le> fd \<longrightarrow>
        (\<exists>ev. R fd = Some ev \<and> get_as_32 ev = a \<and> ev_events ev = e))))"

lemma reg_invI:
  assumes "\<And>fd ev. R fd = Some ev \<Longrightarrow> Some fd \<noteq> ifd \<Longrightarrow> 0 \<le> fd \<and> (\<exists>e. V (get_as_32 ev) = Some (fd, e))"
    and "\<And>a b fd ea eb. V a = Some (fd, ea) \<Longrightarrow> V b = Some (fd, eb) \<Longrightarrow> 0 \<le> fd \<Longrightarrow> a = b"
    and "\<And>a fd e. V a = Some (fd, e) \<Longrightarrow> 0 \<le> fd \<Longrightarrow> Some fd \<noteq> ifd \<and> fd \<noteq> ep"
    and "\<And>f. ifd = Some f \<Longrightarrow> \<exists>ev. R f = Some ev \<and> get_as_64 ev = si_ctrl"
    and "\<And>a fd e. exact \<Longrightarrow> V a = Some (fd, e) \<Longrightarrow> 0 \<le> fd \<Longrightarrow> \<exists>ev. R fd = Some ev \<and> get_as_32 ev = a \<and> ev_events ev = e"
  shows "reg_inv exact ifd ep (V, R)"
  using assms unfolding reg_inv_def by blast

lemma reg_invD:
  assumes "reg_inv exact ifd ep (V, R)"
  shows "R fd = Some ev \<Longrightarrow> Some fd \<noteq> ifd \<Longrightarrow> 0 \<le> fd \<and> (\<exists>e. V (get_as_32 ev) = Some (fd, e))"
    and "V a = Some (fd, ea) \<Longrightarrow> V b = Some (fd, eb) \<Longrightarrow> 0 \<le> fd \<Longrightarrow> a = b"
    and "V a = Some (fd, e) \<Longrightarrow> 0 \<le> fd \<Longrightarrow> Some fd \<noteq> ifd \<and> fd \<noteq> ep"
    and "ifd = Some f \<Longrightarrow> \<exists>ev. R f = Some ev \<and> get_as_64 ev = si_ctrl"
    and "exact \<Longrightarrow> V a = Some (fd, e) \<Longrightarrow> 0 \<le> fd \<Longrightarrow> \<exists>ev. R fd = Some ev \<and> get_as_32 ev = a \<and> ev_events ev = e"
  using assms unfolding reg_inv_def by blast+

lemma reg_step_inv_close:
  assumes I: "reg_inv exact ifd ep (V, R)" and c: "V c = Some (fd, e)" "0 \<le> fd"
  shows "reg_inv exact ifd ep (V(c \<mapsto> (-1, e)), R(fd := None))"
proof (rule reg_invI)
  show "0 \<le> fd' \<and> (\<exists>e'. (V(c \<mapsto> (-1, e))) (get_as_32 ev) = Some (fd', e'))"
    if "(R(fd := None)) fd' = Some ev" "Some fd' \<noteq> ifd" for fd' ev
    using that reg_invD(1)[OF I, of fd' ev] c by (auto split: if_splits)
  show "a = b" if "(V(c \<mapsto> (-1, e))) a = Some (fd', ea)" "(V(c \<mapsto> (-1, e))) b = Some (fd', eb)" "0 \<le> fd'" for a b fd' ea eb
    using that reg_invD(2)[OF I, of a fd' ea b eb] by (auto split: if_splits)
  show "Some fd' \<noteq> ifd \<and> fd' \<noteq> ep" if "(V(c \<mapsto> (-1, e))) a = Some (fd', e')" "0 \<le> fd'" for a fd' e'
    using that reg_invD(3)[OF I, of a fd' e'] by (auto split: if_splits)
  show "\<exists>ev. (R(fd := None)) f = Some ev \<and> get_as_64 ev = si_ctrl" if "ifd = Some f" for f
    using reg_invD(4)[OF I that] reg_invD(3)[OF I c] that by auto
  show "\<exists>ev. (R(fd := None)) fd' = Some ev \<and> get_as_32 ev = a \<and> ev_events ev = e'"
    if "exact" "(V(c \<mapsto> (-1, e))) a = Some (fd', e')" "0 \<le> fd'" for a fd' e'
  proof -
    have V: "V a = Some (fd', e')" and ne: "a \<noteq> c" using that by (auto split: if_splits)
    with reg_invD(2)[OF I V] that(3) c have "fd' \<noteq> fd" by metis
    with reg_invD(5)[OF I that(1) V that(3)] show ?thesis by simp
  qed
qed

lemma reg_step_inv_erase:
  assumes I: "reg_inv exact ifd ep (V, R)" and c: "V c = Some (fd, e)" "fd < 0"
  shows "reg_inv exact ifd ep (V(c := None), R)"
proof (rule reg_invI)
  show "0 \<le> fd' \<and> (\<exists>e'. (V(c := None)) (get_as_32 ev) = Some (fd', e'))"
    if "R fd' = Some ev" "Some fd' \<noteq> ifd" for fd' ev
    using that reg_invD(1)[OF I, of fd' ev] c by (auto split: if_splits)
  show "a = b" if "(V(c := None)) a = Some (fd', ea)" "(V(c := None)) b = Some (fd', eb)" "0 \<le> fd'" for a b fd' ea eb
    using that reg_invD(2)[OF I, of a fd' ea b eb] by (auto split: if_splits)
qed (use reg_invD(3-5)[OF I] in \<open>auto split: if_splits\<close>)

lemma reg_step_inv_insert:
  assumes I: "reg_inv exact ifd ep (V, R)" and c: "V c = None" "free_fd ifd ep V R fd"
    and R': "R' = R \<and> \<not> exact \<or> R' = R(fd \<mapsto> ev) \<and> get_as_32 ev = c \<and> (exact \<longrightarrow> ev_events ev = e)"
  shows "reg_inv exact ifd ep (V(c \<mapsto> (fd, e)), R')"
proof (rule reg_invI)
  show "0 \<le> fd' \<and> (\<exists>e'. (V(c \<mapsto> (fd, e))) (get_as_32 ev') = Some (fd', e'))"
    if "R' fd' = Some ev'" "Some fd' \<noteq> ifd" for fd' ev'
  proof (cases "R fd' = Some ev'")
    case True
    with reg_invD(1)[OF I True that(2)] c show ?thesis by (auto simp: free_fd_def)
  next
    case False
    with that R' have "fd' = fd" "get_as_32 ev' = c" by (auto split: if_splits)
    then show ?thesis using c(2) by (simp add: free_fd_def)
  qed
  show "a = b" if "(V(c \<mapsto> (fd, e))) a = Some (fd', ea)" "(V(c \<mapsto> (fd, e))) b = Some (fd', eb)" "0 \<le> fd'" for a b fd' ea eb
    using that reg_invD(2)[OF I, of a fd' ea b eb] c by (auto simp: free_fd_def split: if_splits)
  show "Some fd' \<noteq> ifd \<and> fd' \<noteq> ep" if "(V(c \<mapsto> (fd, e))) a = Some (fd', e')" "0 \<le> fd'" for a fd' e'
    using that reg_invD(3)[OF I, of a fd' e'] c by (auto simp: free_fd_def split: if_splits)
  show "\<exists>ev. R' f = Some ev \<and> get_as_64 ev = si_ctrl" if "ifd = Some f" for f
    using reg_invD(4)[OF I that] c(2) that R' by (auto simp: free_fd_def)
  show "\<exists>ev. R' fd' = Some ev \<and> get_as_32 ev = a \<and> ev_events ev = e'"
    if "exact" "(V(c \<mapsto> (fd, e))) a = Some (fd', e')" "0 \<le> fd'" for a fd' e'
    using that reg_invD(5)[OF I, of a fd' e'] c R' by (auto simp: free_fd_def split: if_splits)
qed

lemma reg_step_inv_change:
  assumes I: "reg_inv exact ifd ep (V, R)" and c: "V c = Some (fd, e)"
    and R': "R' = R \<and> (\<not> exact \<or> fd < 0) \<or>
      R' = R(fd \<mapsto> ev) \<and> 0 \<le> fd \<and> get_as_32 ev = c \<and> (exact \<longrightarrow> ev_events ev = e')"
  shows "reg_inv exact ifd ep (V(c \<mapsto> (fd, e')), R')"
proof (rule reg_invI)
  show "0 \<le> fd' \<and> (\<exists>e2. (V(c \<mapsto> (fd, e'))) (get_as_32 ev') = Some (fd', e2))"
    if "R' fd' = Some ev'" "Some fd' \<noteq> ifd" for fd' ev'
  proof (cases "R fd' = Some ev'")
    case True
    with reg_invD(1)[OF I True that(2)] c show ?thesis by (cases "get_as_32 ev' = c") auto
  next
    case False
    with that R' have "fd' = fd" "get_as_32 ev' = c" "0 \<le> fd" by (auto split: if_splits)
    then show ?thesis by simp
  qed
  show "a = b" if "(V(c \<mapsto> (fd, e'))) a = Some (fd', ea)" "(V(c \<mapsto> (fd, e'))) b = Some (fd', eb)" "0 \<le> fd'" for a b fd' ea eb
    using that reg_invD(2)[OF I, of a fd' _ b] c by (auto split: if_splits)
  show "Some fd' \<noteq> ifd \<and> fd' \<noteq> ep" if "(V(c \<mapsto> (fd, e'))) a = Some (fd', e2)" "0 \<le> fd'" for a fd' e2
    using that reg_invD(3)[OF I, of a fd'] c by (auto split: if_splits)
  show "\<exists>ev. R' f = Some ev \<and> get_as_64 ev = si_ctrl" if "ifd = Some f" for f
    using reg_invD(4)[OF I that] reg_invD(3)[OF I c] that R' by auto
  show "\<exists>ev. R' fd' = Some ev \<and> get_as_32 ev = a \<and> ev_events ev = e2"
    if "exact" "(V(c \<mapsto> (fd, e'))) a = Some (fd', e2)" "0 \<le> fd'" for a fd' e2
  proof (cases "a = c")
    case True
    then show ?thesis using that R' by auto
  next
    case False
    then have V: "V a = Some (fd', e2)" using that by simp
    with reg_invD(2)[OF I V] that(3) c False have "fd' \<noteq> fd" by metis
    with reg_invD(5)[OF I that(1) V that(3)] R' show ?thesis by auto
  qed
qed

lemma reg_step_inv:
  assumes "reg_step exact ifd ep X Y" and "reg_inv exact ifd ep X"
  shows "reg_inv exact ifd ep Y"
  using assms
proof (cases rule: reg_step.cases)
  case (insert V c R fd ev e)
  then show ?thesis using assms(2) by (auto intro: reg_step_inv_insert)
next
  case (insert_unregistered V c R fd e)
  then show ?thesis using assms(2) by (auto intro: reg_step_inv_insert)
next
  case (modify V c fd e R ev e')
  then show ?thesis using assms(2) by (auto intro: reg_step_inv_change)
next
  case (drift V c fd e R e')
  then show ?thesis using assms(2) by (auto intro: reg_step_inv_change)
qed (auto intro: reg_step_inv_close reg_step_inv_erase)

section \<open>The view of a worker\<close>

definition conn_view :: "('k, 'u) worker \<Rightarrow> conn_map" where
  "conn_view w = (\<lambda>c. map_option (\<lambda>cs. (sk_fd (cs_socket cs), events_handled cs)) (connections w c))"

definition reg_view :: "'k interest_of \<Rightarrow> ('k, 'u) worker \<Rightarrow> conn_map \<times> reg_map" where
  "reg_view interest w = (conn_view w, registered interest (mpx w) (w_os w))"

definition worker_inv :: "bool \<Rightarrow> 'k interest_of \<Rightarrow> ('k, 'u) worker \<Rightarrow> bool" where
  "worker_inv exact interest w \<longleftrightarrow> epollfd (mpx w) \<noteq> -1 \<and> (\<forall>f. interruptor (mpx w) = Some f \<longrightarrow> 0 \<le> f) \<and>
     reg_inv exact (interruptor (mpx w)) (epollfd (mpx w)) (reg_view interest w)"

text \<open>
  One worker state evolves into another by abstract steps, with the same interruptor and epoll
  instance.
\<close>

definition evolves :: "bool \<Rightarrow> 'k interest_of \<Rightarrow> ('k, 'u) worker \<Rightarrow> ('k, 'u) worker \<Rightarrow> bool" where
  "evolves exact interest w w' \<longleftrightarrow>
     interruptor (mpx w') = interruptor (mpx w) \<and> epollfd (mpx w') = epollfd (mpx w) \<and>
     rtranclp (reg_step exact (interruptor (mpx w)) (epollfd (mpx w))) (reg_view interest w) (reg_view interest w')"

lemma evolves_refl [simp, intro]: "evolves exact interest w w"
  by (simp add: evolves_def)

lemma evolves_trans [trans]:
  "evolves exact interest a b \<Longrightarrow> evolves exact interest b c \<Longrightarrow> evolves exact interest a c"
  by (auto simp: evolves_def)

lemma evolves_inv:
  assumes "evolves exact interest w w'" and "worker_inv exact interest w"
  shows "worker_inv exact interest w'"
proof -
  have "reg_inv exact ifd ep Y" if "rtranclp (reg_step exact ifd ep) X Y" "reg_inv exact ifd ep X" for ifd ep X Y
    using that by (induction rule: rtranclp_induct) (auto intro: reg_step_inv)
  from this[of "interruptor (mpx w)" "epollfd (mpx w)" "reg_view interest w" "reg_view interest w'"] show ?thesis
    using assms by (simp add: evolves_def worker_inv_def)
qed

lemma evolves_step:
  assumes "reg_step exact (interruptor (mpx w)) (epollfd (mpx w)) (reg_view interest w) (reg_view interest w')"
    and "interruptor (mpx w') = interruptor (mpx w)" and "epollfd (mpx w') = epollfd (mpx w)"
  shows "evolves exact interest w w'"
  using assms by (simp add: evolves_def r_into_rtranclp)

text \<open>Changes that the view does not show.\<close>

definition same_view :: "'k interest_of \<Rightarrow> ('k, 'u) worker \<Rightarrow> ('k, 'u) worker \<Rightarrow> bool" where
  "same_view interest w w' \<longleftrightarrow> conn_view w' = conn_view w \<and> interest (kern (w_os w')) = interest (kern (w_os w)) \<and>
     interruptor (mpx w') = interruptor (mpx w) \<and> epollfd (mpx w') = epollfd (mpx w)"

lemma same_view_evolves: "same_view interest w w' \<Longrightarrow> evolves exact interest w w'"
  by (simp add: evolves_def same_view_def reg_view_def registered_def)

lemma same_view_refl [simp]: "same_view interest w w"
  by (simp add: same_view_def)

lemma same_view_trans: "same_view interest a b \<Longrightarrow> same_view interest b c \<Longrightarrow> same_view interest a c"
  by (simp add: same_view_def)

lemma conn_view_eq: "connections w' = connections w \<Longrightarrow> conn_view w' = conn_view w"
  by (simp add: conn_view_def)

lemma same_view_frame:
  "connections w' = connections w \<Longrightarrow> w_os w' = w_os w \<Longrightarrow> mpx w' = mpx w \<Longrightarrow> same_view interest w w'"
  by (simp add: same_view_def conn_view_def)

lemma conn_view_upd:
  "conn_view (upd_conn c f w) = (conn_view w)(c := map_option (\<lambda>cs. (sk_fd (cs_socket (f cs)), events_handled (f cs))) (connections w c))"
  by (auto simp: conn_view_def upd_conn_def option.map_comp comp_def)

lemma same_view_upd:
  assumes "\<And>cs. connections w c = Some cs \<Longrightarrow> sk_fd (cs_socket (f cs)) = sk_fd (cs_socket cs) \<and> events_handled (f cs) = events_handled cs"
  shows "same_view interest w (upd_conn c f w)"
  using assms by (cases "connections w c") (auto simp: same_view_def conn_view_upd upd_conn_def conn_view_def fun_eq_iff)

lemma set_connection_state_simps [simp]:
  "cs_socket (set_connection_state st cs) = cs_socket cs" "events_handled (set_connection_state st cs) = events_handled cs"
  "cs_proc (set_connection_state st cs) = cs_proc cs"
  by (simp_all add: set_connection_state_def)

lemma reset_process_simps [simp]:
  "cs_socket (reset_process cs) = cs_socket cs" "events_handled (reset_process cs) = events_handled cs"
  by (simp_all add: reset_process_def)

text \<open>System calls that do not register.\<close>

lemma keeps_interest_call:
  "keeps_interest interest f \<Longrightarrow> interest (kern (snd (do_call f s))) = interest (kern s)"
  by (cases rule: do_call_cases[of f s]) (auto simp: keeps_interest_def dest!: spec[where x = "kern s"])

lemma keeps_interest_value:
  "keeps_interest interest f \<Longrightarrow> interest (kern (snd (do_value f s))) = interest (kern s)"
  by (cases rule: do_value_cases[of f s]) (auto simp: keeps_interest_def dest!: spec[where x = "kern s"])

lemma kernel_other:
  assumes "kernel_ok sys interest"
  shows "keeps_interest interest (\<lambda>k. sc_read sys k fd)" "keeps_interest interest (\<lambda>k. sc_write sys k fd)"
    "keeps_interest interest (\<lambda>k. sc_shutdown sys k fd how)" "keeps_interest interest (\<lambda>k. sc_connect sys k fd a)"
    "keeps_interest interest (\<lambda>k. sc_so_error sys k fd)" "keeps_interest interest (\<lambda>k. sc_setsockopt sys k fd opt)"
    "keeps_interest interest (\<lambda>k. sc_getfl sys k fd)" "keeps_interest interest (\<lambda>k. sc_setfl sys k fd fl)"
    "keeps_interest interest (\<lambda>k. sc_socket sys k x y z)" "keeps_interest interest (\<lambda>k. sc_epoll_wait sys k ep n t)"
    "keeps_interest interest (\<lambda>k. sc_getfd sys k fd)"
  using assms by (simp_all add: kernel_ok_def other_laws_def)

lemma call_interest:
  "keeps_interest interest f \<Longrightarrow> do_call f s = (r, s') \<Longrightarrow> interest (kern s') = interest (kern s)"
  using keeps_interest_call[of interest f s] by simp

lemma value_interest:
  "keeps_interest interest f \<Longrightarrow> do_value f s = (r, s') \<Longrightarrow> interest (kern s') = interest (kern s)"
  using keeps_interest_value[of interest f s] by simp

lemmas kernel_calls = call_interest[OF kernel_other(1)] call_interest[OF kernel_other(2)]
  call_interest[OF kernel_other(3)] call_interest[OF kernel_other(4)] call_interest[OF kernel_other(6)]
  call_interest[OF kernel_other(8)] value_interest[OF kernel_other(5)] value_interest[OF kernel_other(7)]
  value_interest[OF kernel_other(9)] value_interest[OF kernel_other(10)]
  call_interest[OF kernel_other(11)]

lemma take_errno_kern: "take_errno s = (e, s') \<Longrightarrow> kern s' = kern s"
  by (auto simp: take_errno_def)

lemma interrupt_interest:
  assumes "kernel_ok sys interest"
  shows "interest (kern (interrupt sys m s)) = interest (kern s)"
  by (simp add: interrupt_def keeps_interest_call[OF kernel_other(2)[OF assms]] split: option.split)

lemma shutdown_interest:
  assumes "kernel_ok sys interest" and "sk_shutdown sys how sk err s = (r, err', s')"
  shows "interest (kern s') = interest (kern s)"
  using assms(2) by (auto simp: sk_shutdown_def take_errno_def split: prod.splits if_splits dest: kernel_calls(3)[OF assms(1)])

lemma sk_error_interest:
  assumes "kernel_ok sys interest" and "sk_error sys sk err s = (r, err', s')"
  shows "interest (kern s') = interest (kern s)"
  using assms(2) by (auto simp: sk_error_def take_errno_def split: prod.splits option.splits if_splits dest: kernel_calls(7)[OF assms(1)])

lemma set_option_interest:
  assumes "kernel_ok sys interest" and "sk_set_option sys sk opt err s = (r, err', s')"
  shows "interest (kern s') = interest (kern s)"
  using assms(2) by (auto simp: sk_set_option_def Option_set_option_def take_errno_def split: prod.splits option.splits if_splits
    dest: kernel_calls(5)[OF assms(1)])

lemma set_options_interest:
  assumes "kernel_ok sys interest" and "sk_set_options sys sk opts err s = (r, err', s')"
  shows "interest (kern s') = interest (kern s)"
  using assms(2)
  by (induction opts arbitrary: err s) (auto split: prod.splits if_splits dest!: set_option_interest[OF assms(1)])

lemma set_no_block_interest:
  assumes "kernel_ok sys interest" and "set_no_block sys sk b err s = (r, err', s')"
  shows "interest (kern s') = interest (kern s)"
  using assms(2) by (auto simp: set_no_block_def take_errno_def Let_def split: prod.splits option.splits if_splits
    dest!: kernel_calls(6,8)[OF assms(1)])

lemma is_non_block_interest:
  assumes "kernel_ok sys interest" and "is_non_block sys sk err s = (r, err', s')"
  shows "interest (kern s') = interest (kern s)"
  using assms(2) by (auto simp: is_non_block_def take_errno_def Let_def split: prod.splits option.splits if_splits
    dest!: kernel_calls(6,8)[OF assms(1)])

lemma make_socket_interest:
  assumes "kernel_ok sys interest" and "make_socket sys a t pr err s = (r, err', s')"
  shows "interest (kern s') = interest (kern s)"
  using assms(2) by (auto simp: make_socket_def take_errno_def split: prod.splits option.splits if_splits
    dest!: kernel_calls(9)[OF assms(1)])

lemma same_view_os:
  "interest (kern s) = interest (kern (w_os w)) \<Longrightarrow> same_view interest w (w\<lparr>w_os := s\<rparr>)"
  by (simp add: same_view_def conn_view_def)

lemma same_view_on_os2:
  assumes "\<And>s a b s'. f s = (a, b, s') \<Longrightarrow> interest (kern s') = interest (kern s)" and "on_os2 f w = (a, b, w')"
  shows "same_view interest w w'"
  using assms by (auto simp: on_os2_def intro!: same_view_os split: prod.splits)

section \<open>Operations that keep the view\<close>

lemma same_view_wake: "kernel_ok sys interest \<Longrightarrow> same_view interest w (wake_event sys w)"
  by (simp add: wake_event_def same_view_os interrupt_interest)

lemma fold_enqueue_frame: "connections (fold enqueue cs w) = connections w \<and> w_os (fold enqueue cs w) = w_os w \<and>
    mpx (fold enqueue cs w) = mpx w"
  by (induction cs arbitrary: w) (simp_all add: enqueue_def)

lemma same_view_push:
  assumes "kernel_ok sys interest"
  shows "same_view interest w (push_command sys c w)" and "same_view interest w (push_commands sys cs w)"
proof -
  have "same_view interest w (enqueue c w)" by (rule same_view_frame) (simp_all add: enqueue_def)
  then show "same_view interest w (push_command sys c w)"
    unfolding push_command_def by (rule same_view_trans) (rule same_view_wake[OF assms])
  have "same_view interest w (fold enqueue cs w)" by (rule same_view_frame) (simp_all add: fold_enqueue_frame)
  then have "same_view interest w (wake_event sys (fold enqueue cs w))"
    by (rule same_view_trans) (rule same_view_wake[OF assms])
  then show "same_view interest w (push_commands sys cs w)" by (simp add: push_commands_def)
qed

lemma same_view_set_error: "same_view interest w (set_error i err w)"
  by (rule same_view_frame) (simp_all add: set_error_def split: option.split)

lemma same_view_assert: "same_view interest w (assert_that b w)"
  by (rule same_view_frame) (simp_all add: assert_that_def)

end
