(* ===== verification/Worker_Refinement.thy ===== *)
theory Worker_Refinement
  imports Worker_Registration
begin

text \<open>
  Every operation of the worker refines the abstract machine of \<open>Worker_Registration\<close>: the view
  evolves by its steps. The hypotheses are those of the system calls (\<open>kernel_ok\<close>, and with
  \<open>exact\<close> also \<open>kernel_reliable\<close>), of the user's processes (\<open>ops_ok\<close>) and of the descriptors that
  the system hands out (\<open>fresh_command\<close>).
\<close>

section \<open>Closing and erasing\<close>

lemma sk_close_effect:
  assumes "kernel_ok sys interest" and "sk_close sys sk s = (sk', s')" and "sk_fd sk \<noteq> epollfd m \<or> sk_fd sk < 0"
  shows "if 0 \<le> sk_fd sk then registered interest m s' = (registered interest m s)(sk_fd sk := None) \<and> sk_fd sk' = -1
         else sk' = sk \<and> s' = s"
proof (cases "0 \<le> sk_fd sk")
  case False
  then show ?thesis using assms(2) by (simp add: sk_close_def)
next
  case True
  let ?f = "\<lambda>k. sc_close sys k (sk_fd sk)"
  have "interest (snd (?f (kern s))) (epollfd m) = (interest (kern s) (epollfd m))(sk_fd sk := None)"
    using assms(1,3) True by (simp add: kernel_ok_def close_laws_def)
  moreover have "kern (snd (do_call ?f s)) = snd (?f (kern s))"
    by (cases rule: do_call_cases[of ?f s]) simp_all
  ultimately show ?thesis using True assms(2) by (auto simp: sk_close_def registered_def)
qed

lemma worker_invD:
  assumes "worker_inv exact interest w" and "connections w c = Some cs" and "0 \<le> sk_fd (cs_socket cs)"
  shows "Some (sk_fd (cs_socket cs)) \<noteq> interruptor (mpx w)" and "sk_fd (cs_socket cs) \<noteq> epollfd (mpx w)"
    and "exact \<Longrightarrow> \<exists>ev. registered interest (mpx w) (w_os w) (sk_fd (cs_socket cs)) = Some ev \<and>
           get_as_32 ev = c \<and> ev_events ev = events_handled cs"
proof -
  have I: "reg_inv exact (interruptor (mpx w)) (epollfd (mpx w)) (conn_view w, registered interest (mpx w) (w_os w))"
    using assms(1) by (simp add: worker_inv_def reg_view_def)
  have V: "conn_view w c = Some (sk_fd (cs_socket cs), events_handled cs)"
    using assms(2) by (simp add: conn_view_def)
  show "Some (sk_fd (cs_socket cs)) \<noteq> interruptor (mpx w)" "sk_fd (cs_socket cs) \<noteq> epollfd (mpx w)"
    using reg_invD(3)[OF I V assms(3)] by auto
  show "\<exists>ev. registered interest (mpx w) (w_os w) (sk_fd (cs_socket cs)) = Some ev \<and>
           get_as_32 ev = c \<and> ev_events ev = events_handled cs" if exact
    using reg_invD(5)[OF I that V assms(3)] .
qed

lemma close_socket_evolves:
  assumes "kernel_ok sys interest" and "worker_inv exact interest w"
  shows "evolves exact interest w (close_socket sys c w)"
proof (cases "connections w c")
  case None
  then show ?thesis by (simp add: close_socket_def)
next
  case (Some cs)
  obtain sk s where k: "sk_close sys (cs_socket cs) (w_os w) = (sk, s)" by fastforce
  let ?fd = "sk_fd (cs_socket cs)"
  have "?fd \<noteq> epollfd (mpx w) \<or> ?fd < 0" using worker_invD(2)[OF assms(2) Some] by linarith
  note e = sk_close_effect[OF assms(1) k this]
  show ?thesis
  proof (cases "0 \<le> ?fd")
    case False
    with e Some k have "close_socket sys c w = w\<lparr>connections := (connections w)(c \<mapsto> cs)\<rparr>"
      by (simp add: close_socket_def)
    with Some show ?thesis by (simp add: fun_upd_idem)
  next
    case True
    have V: "conn_view w c = Some (?fd, events_handled cs)" using Some by (simp add: conn_view_def)
    have "reg_view interest (close_socket sys c w) =
        ((conn_view w)(c \<mapsto> (-1, events_handled cs)), (registered interest (mpx w) (w_os w))(?fd := None))"
      using Some k e True by (auto simp: close_socket_def reg_view_def conn_view_def registered_def)
    then show ?thesis
      using reg_step.close[of "conn_view w" c, OF V True] Some k
      by (intro evolves_step) (simp_all add: reg_view_def close_socket_def)
  qed
qed

lemma close_socket_closed:
  assumes "kernel_ok sys interest" and "worker_inv exact interest w" and "connections (close_socket sys c w) c = Some cs"
  shows "sk_fd (cs_socket cs) < 0"
  using assms(3) by (auto simp: close_socket_def sk_close_def split: option.splits if_splits prod.splits)

lemma erase_conn_evolves:
  assumes "kernel_ok sys interest" and "worker_inv exact interest w"
  shows "evolves exact interest w (erase_conn sys c w)"
proof -
  let ?w = "close_socket sys c w"
  have e: "evolves exact interest w ?w" by (rule close_socket_evolves[OF assms])
  show ?thesis
  proof (cases "connections ?w c")
    case None
    then have "erase_conn sys c w = ?w" by (simp add: erase_conn_def Let_def fun_upd_idem)
    with e show ?thesis by simp
  next
    case (Some cs)
    have V: "conn_view ?w c = Some (sk_fd (cs_socket cs), events_handled cs)" using Some by (simp add: conn_view_def)
    have "reg_view interest (erase_conn sys c w) = ((conn_view ?w)(c := None), registered interest (mpx ?w) (w_os ?w))"
      by (auto simp: erase_conn_def Let_def reg_view_def conn_view_def)
    then have "evolves exact interest ?w (erase_conn sys c w)"
      using reg_step.erase[of "conn_view ?w" c, OF V close_socket_closed[OF assms Some]]
      by (intro evolves_step) (simp_all add: reg_view_def erase_conn_def Let_def)
    with e show ?thesis by (rule evolves_trans)
  qed
qed

section \<open>Registration\<close>

lemma modify_tracking_effect:
  assumes "kernel_ok sys interest" and "modify_tracking_event sys fd ev err w = (r, err', w')"
  shows "w' = w\<lparr>w_os := w_os w'\<rparr>"
    and "if r then registered interest (mpx w) (w_os w') = (registered interest (mpx w) (w_os w))(fd \<mapsto> ev) \<and>
              registered interest (mpx w) (w_os w) fd \<noteq> None \<and> err' = err \<and> 0 \<le> fd
         else registered interest (mpx w) (w_os w') = registered interest (mpx w) (w_os w) \<and> failed err'"
proof -
  obtain s where s: "modify_handle sys (mpx w) fd ev err (w_os w) = (r, err', s)" "w' = w\<lparr>w_os := s\<rparr>"
    using assms(2) by (auto simp: modify_tracking_event_def on_os2_def split: prod.splits)
  then show "w' = w\<lparr>w_os := w_os w'\<rparr>" by simp
  have "0 \<le> fd" if r using s(1) that by (auto simp: modify_handle_def split: if_splits)
  with modify_handle_effect[OF assms(1) s(1)] s(2)
  show "if r then registered interest (mpx w) (w_os w') = (registered interest (mpx w) (w_os w))(fd \<mapsto> ev) \<and>
              registered interest (mpx w) (w_os w) fd \<noteq> None \<and> err' = err \<and> 0 \<le> fd
         else registered interest (mpx w) (w_os w') = registered interest (mpx w) (w_os w) \<and> failed err'"
    by auto
qed

text \<open>With a reliable system, modifying a connection fails only when its socket is closed.\<close>

lemma modify_tracking_reliable:
  assumes "kernel_ok sys interest" and "kernel_reliable sys interest" and "worker_inv True interest w"
    and "connections w c = Some cs" and "modify_tracking_event sys (native (cs_socket cs)) ev err w = (r, err', w')"
    and "\<not> r"
  shows "sk_fd (cs_socket cs) < 0"
proof (rule ccontr)
  assume "\<not> ?thesis"
  then have fd: "0 \<le> sk_fd (cs_socket cs)" by simp
  obtain s where s: "modify_handle sys (mpx w) (sk_fd (cs_socket cs)) ev err (w_os w) = (r, err', s)"
    using assms(5) by (auto simp: modify_tracking_event_def on_os2_def native_def split: prod.splits)
  have "epollfd (mpx w) \<noteq> -1" using assms(3) by (simp add: worker_inv_def)
  with modify_handle_reliable[OF assms(1,2) _ fd _ s] worker_invD(3)[OF assms(3,4) fd] assms(6)
  show False by auto
qed

text \<open>
  The common shape: a connection's registration is modified and its recorded events become
  \<open>e'\<close>, with anything else that the view does not show.
\<close>

lemma modified_evolves:
  assumes "connections w c = Some cs" and "registered interest (mpx w) (w_os w) (sk_fd (cs_socket cs)) \<noteq> None"
    and "0 \<le> sk_fd (cs_socket cs)" and "get_as_32 ev = c" and "exact \<Longrightarrow> ev_events ev = e'"
    and "conn_view w' = (conn_view w)(c \<mapsto> (sk_fd (cs_socket cs), e'))"
    and "registered interest (mpx w) (w_os w') = (registered interest (mpx w) (w_os w))(sk_fd (cs_socket cs) \<mapsto> ev)"
    and "interruptor (mpx w') = interruptor (mpx w)" and "epollfd (mpx w') = epollfd (mpx w)"
  shows "evolves exact interest w w'"
proof -
  have "registered interest (mpx w') (w_os w') = registered interest (mpx w) (w_os w')"
    using assms(9) by (simp add: registered_def)
  moreover have "conn_view w c = Some (sk_fd (cs_socket cs), events_handled cs)" using assms(1) by (simp add: conn_view_def)
  ultimately show ?thesis
    using assms(2-) reg_step.modify[of "conn_view w" c "sk_fd (cs_socket cs)" "events_handled cs"
        "registered interest (mpx w) (w_os w)" ev exact e' "interruptor (mpx w)" "epollfd (mpx w)"]
    by (intro evolves_step) (auto simp: reg_view_def)
qed

lemma drifted_evolves:
  assumes "connections w c = Some cs" and "\<not> exact \<or> sk_fd (cs_socket cs) < 0"
    and "conn_view w' = (conn_view w)(c \<mapsto> (sk_fd (cs_socket cs), e'))"
    and "registered interest (mpx w) (w_os w') = registered interest (mpx w) (w_os w)"
    and "interruptor (mpx w') = interruptor (mpx w)" and "epollfd (mpx w') = epollfd (mpx w)"
  shows "evolves exact interest w w'"
proof -
  have "registered interest (mpx w') (w_os w') = registered interest (mpx w) (w_os w')"
    using assms(6) by (simp add: registered_def)
  moreover have "conn_view w c = Some (sk_fd (cs_socket cs), events_handled cs)" using assms(1) by (simp add: conn_view_def)
  ultimately show ?thesis
    using assms(2-) reg_step.drift[of "conn_view w" c "sk_fd (cs_socket cs)" "events_handled cs" exact
        "interruptor (mpx w)" "epollfd (mpx w)" "registered interest (mpx w) (w_os w)" e']
    by (intro evolves_step) (auto simp: reg_view_def)
qed

lemma unchanged_evolves:
  assumes "conn_view w' = conn_view w" and "registered interest (mpx w) (w_os w') = registered interest (mpx w) (w_os w)"
    and "interruptor (mpx w') = interruptor (mpx w)" and "epollfd (mpx w') = epollfd (mpx w)"
  shows "evolves exact interest w w'"
  using assms by (simp add: evolves_def reg_view_def registered_def)

section \<open>Switching events\<close>

lemma native_eq [simp]: "native sk = sk_fd sk"
  by (simp add: native_def)

lemma get_as_32_handle_for [simp]: "get_as_32 (handle_for sys c e w) = c"
  "ev_events (handle_for sys c e w) = e"
  by (simp_all add: handle_for_def)

lemma upd_conn_frame [simp]:
  "mpx (upd_conn c f w) = mpx w" "w_os (upd_conn c f w) = w_os w" "cmds (upd_conn c f w) = cmds w"
  "stop_requested (upd_conn c f w) = stop_requested w" "results (upd_conn c f w) = results w"
  by (simp_all add: upd_conn_def)

lemma connections_upd [simp]:
  "connections (upd_conn c f w) = (connections w)(c := map_option f (connections w c))"
  by (simp add: upd_conn_def)

lemma switch_event_evolves:
  assumes K: "kernel_ok sys interest" and "exact \<Longrightarrow> kernel_reliable sys interest" and "worker_inv exact interest w"
    and err: "\<not> exact \<or> err = Cleared" and s: "switch_event sys c e err w = (r, err', w')"
  shows "evolves exact interest w w'"
proof (cases "connections w c")
  case None
  then show ?thesis using s by (simp add: switch_event_def)
next
  case (Some cs)
  let ?fd = "sk_fd (cs_socket cs)" and ?ev = "handle_for sys c e w"
  obtain b e1 w1 where m: "modify_tracking_event sys ?fd ?ev err w = (b, e1, w1)"
    by (cases "modify_tracking_event sys ?fd ?ev err w")
  from s Some m have w': "w' = (if e1 = Cleared then upd_conn c (\<lambda>cs. cs\<lparr>events_handled := e\<rparr>) w1 else w1)"
    by (auto simp: switch_event_def)
  note w1 = modify_tracking_effect(1)[OF K m] and eff = modify_tracking_effect(2)[OF K m]
  have c1: "connections w1 = connections w" "mpx w1 = mpx w" by (subst w1, simp)+
  have v1: "conn_view w1 = conn_view w" by (rule conn_view_eq) (rule c1(1))
  show ?thesis
  proof (cases b)
    case False
    with eff have "e1 \<noteq> Cleared" by auto
    with eff False w' v1 c1 show ?thesis by (intro unchanged_evolves) simp_all
  next
    case True
    show ?thesis
    proof (cases "e1 = Cleared")
      case True
      then show ?thesis
        using eff \<open>b\<close> Some w' v1 c1
        by (intro modified_evolves[OF Some, where ev = ?ev and e' = e]) (simp_all add: conn_view_upd)
    next
      case False
      with eff \<open>b\<close> err have "\<not> exact" by simp
      then show ?thesis
        using eff \<open>b\<close> Some w' v1 c1 False
        by (intro modified_evolves[OF Some, where ev = ?ev and e' = "events_handled cs"])
          (simp_all add: conn_view_def fun_upd_idem)
    qed
  qed
qed

lemma enable_event_evolves:
  assumes "kernel_ok sys interest" and "exact \<Longrightarrow> kernel_reliable sys interest" and "worker_inv exact interest w"
    and "\<not> exact \<or> err = Cleared" and "enable_event sys e h b err w = (r, err', w')"
  shows "evolves exact interest w w'"
  using assms(5) switch_event_evolves[OF assms(1,2,3,4)]
  by (auto simp: enable_event_def split: option.splits if_splits)

lemma shutdown_connection_same_view:
  assumes "kernel_ok sys interest" and "shutdown_connection sys h err w = (r, err', w')"
  shows "same_view interest w w'"
proof (cases "connections w (conn_id h)")
  case None
  then show ?thesis using assms(2) by (simp add: shutdown_connection_def)
next
  case (Some cs)
  let ?w = "upd_conn (conn_id h) (set_connection_state Shutdowned) w"
  have "same_view interest ?w w'"
    using assms Some by (intro same_view_on_os2[where f = "shutdown_all sys (cs_socket cs) err"])
      (auto simp: shutdown_connection_def shutdown_all_def dest: shutdown_interest)
  with same_view_upd[of w "conn_id h" "set_connection_state Shutdowned" interest] show ?thesis
    by (auto intro: same_view_trans)
qed

section \<open>Processes\<close>

text \<open>
  What a process may do with the worker: send and receive, which registers nothing; switch the
  events of a connection through its I/O object, with a clear error code when \<open>exact\<close>; queue
  commands; shut a connection down; complete a request. It does not close connections itself: a
  connection's state is in use while its process runs.
\<close>

inductive proc_step :: "bool \<Rightarrow> 'k syscalls \<Rightarrow> 'k interest_of \<Rightarrow> ('k, 'u) worker \<Rightarrow> ('k, 'u) worker \<Rightarrow> bool"
  for exact sys interest where
  transfer: "interest (kern s) = interest (kern (w_os w)) \<Longrightarrow> proc_step exact sys interest w (w\<lparr>w_os := s\<rparr>)"
| switch: "\<not> exact \<or> err = Cleared \<Longrightarrow> enable_event sys e h b err w = (r, err', w') \<Longrightarrow> proc_step exact sys interest w w'"
| queue: "proc_step exact sys interest w (push_command sys c w)"
| queue_all: "proc_step exact sys interest w (push_commands sys cs w)"
| shutdown: "shutdown_connection sys h err w = (r, err', w') \<Longrightarrow> proc_step exact sys interest w w'"
| complete: "proc_step exact sys interest w (set_error i err w)"

definition callback_ok :: "bool \<Rightarrow> 'k syscalls \<Rightarrow> 'k interest_of \<Rightarrow> ('k, 'u) callback \<Rightarrow> bool" where
  "callback_ok exact sys interest f \<longleftrightarrow>
     (\<forall>p w err. rtranclp (proc_step exact sys interest) w (fst (snd (f p w err))))"

definition ops_ok :: "bool \<Rightarrow> 'k syscalls \<Rightarrow> 'k interest_of \<Rightarrow> ('k, 'u) process_ops \<Rightarrow> bool" where
  "ops_ok exact sys interest ops \<longleftrightarrow>
     callback_ok exact sys interest (on_read ops) \<and> callback_ok exact sys interest (on_write ops) \<and>
     callback_ok exact sys interest (on_task_done ops) \<and> callback_ok exact sys interest (on_stop_requested ops) \<and>
     callback_ok exact sys interest (on_init_connection ops) \<and>
     (\<forall>t. callback_ok exact sys interest (task_request_stop ops t))"

lemma proc_step_evolves:
  assumes "proc_step exact sys interest w w'" and "kernel_ok sys interest"
    and "exact \<Longrightarrow> kernel_reliable sys interest" and "worker_inv exact interest w"
  shows "evolves exact interest w w'"
  using assms
proof (cases rule: proc_step.cases)
  case (switch err e h b r err')
  then show ?thesis using enable_event_evolves[OF assms(2,3,4)] by blast
next
  case (shutdown h err r err')
  then show ?thesis by (auto intro: same_view_evolves shutdown_connection_same_view[OF assms(2)])
qed (auto intro!: same_view_evolves same_view_os same_view_push same_view_set_error)

lemma proc_steps_evolves:
  assumes "rtranclp (proc_step exact sys interest) w w'" and "kernel_ok sys interest"
    and "exact \<Longrightarrow> kernel_reliable sys interest" and "worker_inv exact interest w"
  shows "evolves exact interest w w'"
  using assms(1)
proof (induction rule: rtranclp_induct)
  case base
  then show ?case by simp
next
  case (step y z)
  have "evolves exact interest y z"
    by (rule proc_step_evolves[OF step(2) assms(2,3)]) (use evolves_inv[OF step(3) assms(4)] in auto)
  with step(3) show ?case by (rule evolves_trans)
qed

lemma callback_ok_cond: "callback_ok exact sys interest f \<Longrightarrow> callback_ok exact sys interest (when_event a b f)"
  by (simp add: callback_ok_def when_event_def)

lemma callback_ok_then:
  assumes "callback_ok exact sys interest f" and "callback_ok exact sys interest g"
  shows "callback_ok exact sys interest (then_do f g)"
  unfolding callback_ok_def
proof (intro allI)
  fix p w err
  obtain p1 w1 e1 where f: "f p w err = (p1, w1, e1)" by (cases "f p w err")
  have "rtranclp (proc_step exact sys interest) w w1" using assms(1) f unfolding callback_ok_def by (metis fst_conv snd_conv)
  moreover have "rtranclp (proc_step exact sys interest) w1 (fst (snd (g p1 w1 e1)))"
    using assms(2) by (simp add: callback_ok_def)
  ultimately show "rtranclp (proc_step exact sys interest) w (fst (snd (then_do f g p w err)))"
    by (simp add: then_do_def f)
qed

lemma ops_okD:
  assumes "ops_ok exact sys interest ops"
  shows "callback_ok exact sys interest (handle_event ops e)" "callback_ok exact sys interest (on_read ops)"
    "callback_ok exact sys interest (on_init_connection ops)" "callback_ok exact sys interest (request_stop ops t)"
    "callback_ok exact sys interest (push_request ops i)" "callback_ok exact sys interest (on_push_request ops)"
  using assms
  by (auto simp: ops_ok_def handle_event_def intro!: callback_ok_then callback_ok_cond)
     (auto simp: callback_ok_def request_stop_def push_request_def on_push_request_def)

lemma with_proc_evolves:
  assumes "callback_ok exact sys interest f" and "kernel_ok sys interest"
    and "exact \<Longrightarrow> kernel_reliable sys interest" and "worker_inv exact interest w" and "with_proc c f err w = (err', w')"
  shows "evolves exact interest w w'"
proof (cases "Option.bind (connections w c) cs_proc")
  case None
  then show ?thesis using assms(5) by (auto simp: with_proc_def split: option.splits)
next
  case (Some p)
  obtain p1 w1 e1 where f: "f p w err = (p1, w1, e1)" by (cases "f p w err")
  have "evolves exact interest w w1"
    using assms(1) f proc_steps_evolves[OF _ assms(2,3,4)] unfolding callback_ok_def by (metis fst_conv snd_conv)
  moreover have "w' = upd_conn c (\<lambda>cs. cs\<lparr>cs_proc := Some p1\<rparr>) w1"
    using assms(5) Some f by (auto simp: with_proc_def split: option.splits)
  then have "same_view interest w1 w'" by (simp add: same_view_upd)
  then have "evolves exact interest w1 w'" by (rule same_view_evolves)
  ultimately show ?thesis by (rule evolves_trans)
qed

end
