(* ===== verification/Worker_Steps.thy ===== *)
theory Worker_Steps
  imports Worker_Refinement
begin

text \<open>
  The refinement of the operations of \<open>Worker\<close>, of the commands and of the thread's turns, built
  from that of \<open>Worker_Refinement\<close>.
\<close>

section \<open>Chains\<close>

text \<open>Evolving under the invariant; it composes without carrying the invariant along.\<close>

definition leads :: "bool \<Rightarrow> 'k interest_of \<Rightarrow> ('k, 'u) worker \<Rightarrow> ('k, 'u) worker \<Rightarrow> bool" where
  "leads exact interest w w' \<longleftrightarrow> (worker_inv exact interest w \<longrightarrow> evolves exact interest w w')"

definition setting_ok :: "bool \<Rightarrow> 'k syscalls \<Rightarrow> 'k interest_of \<Rightarrow> ('k, 'u) process_ops \<Rightarrow> bool" where
  "setting_ok exact sys interest ops \<longleftrightarrow>
     kernel_ok sys interest \<and> (exact \<longrightarrow> kernel_reliable sys interest) \<and> ops_ok exact sys interest ops"

lemma leads_refl [simp]: "leads exact interest w w"
  by (simp add: leads_def)

lemma leads_trans [trans]: "leads exact interest a b \<Longrightarrow> leads exact interest b c \<Longrightarrow> leads exact interest a c"
  unfolding leads_def by (meson evolves_inv evolves_trans)

lemma leads_same: "same_view interest w w' \<Longrightarrow> leads exact interest w w'"
  by (simp add: leads_def same_view_evolves)

lemma leads_upd:
  assumes "\<And>cs. sk_fd (cs_socket (f cs)) = sk_fd (cs_socket cs) \<and> events_handled (f cs) = events_handled cs"
  shows "leads exact interest w (upd_conn c f w)"
  by (rule leads_same, rule same_view_upd) (rule assms)

lemma leads_set_error: "leads exact interest w (set_error i err w)"
  by (rule leads_same) (rule same_view_set_error)

lemma leads_assert: "leads exact interest w (assert_that b w)"
  by (rule leads_same) (rule same_view_assert)

lemma leads_push:
  assumes "kernel_ok sys interest"
  shows "leads exact interest w (push_command sys c w)" "leads exact interest w (push_commands sys cs w)"
    "leads exact interest w (wake_event sys w)"
  by (rule leads_same, rule same_view_push[OF assms] same_view_wake[OF assms])+

lemma leads_close: "kernel_ok sys interest \<Longrightarrow> leads exact interest w (close_socket sys c w)"
  by (simp add: leads_def close_socket_evolves)

lemma leads_erase: "kernel_ok sys interest \<Longrightarrow> leads exact interest w (erase_conn sys c w)"
  by (simp add: leads_def erase_conn_evolves)

lemma leads_with_proc:
  assumes "setting_ok exact sys interest ops" and "callback_ok exact sys interest f" and "with_proc c f err w = (err', w')"
  shows "leads exact interest w w'"
  using assms by (auto simp: leads_def setting_ok_def intro: with_proc_evolves)

lemma leads_fail_process: "kernel_ok sys interest \<Longrightarrow> leads exact interest w (fail_process sys c w)"
  unfolding fail_process_def
  by (rule leads_trans[OF leads_close[of sys interest exact w c] leads_trans[OF leads_upd[of reset_process] leads_push(1)]])
     simp_all

lemma leads_drop:
  assumes K: "kernel_ok sys interest"
  shows "leads exact interest w (drop_connection sys h err w)"
proof -
  let ?c = "conn_id h"
  let ?w1 = "upd_conn ?c (set_connection_state Closed) w"
  let ?w3 = "upd_conn ?c reset_process (close_socket sys ?c ?w1)"
  let ?w4 = "push_command sys (RemoveConnection h 0) ?w3"
  have "leads exact interest w ?w1" by (rule leads_upd) simp
  also have "leads exact interest ?w1 (close_socket sys ?c ?w1)" by (rule leads_close[OF K])
  also have "leads exact interest (close_socket sys ?c ?w1) ?w3" by (rule leads_upd) simp
  also have "leads exact interest ?w3 ?w4" by (rule leads_push(1)[OF K])
  also have "leads exact interest ?w4 (if failed err then erase_conn sys ?c ?w4 else ?w4)"
    by (simp add: leads_erase[OF K])
  finally show ?thesis by (simp add: drop_connection_def Let_def)
qed

lemma leads_handle_events:
  assumes S: "setting_ok exact sys interest ops" and "handle_events sys ops h e err w = (r, err', w')"
  shows "leads exact interest w w'"
proof -
  have K: "kernel_ok sys interest" and O: "ops_ok exact sys interest ops" using S by (simp_all add: setting_ok_def)
  obtain e1 w1 where p: "with_proc (conn_id h) (on_read ops) err w = (e1, w1)" by fastforce
  have "leads exact interest w w1" by (rule leads_with_proc[OF S ops_okD(2)[OF O] p])
  with assms(2) p show ?thesis
    by (auto simp: handle_events_def split: if_splits intro: leads_drop[OF K] leads_trans[OF _ leads_drop[OF K]])
qed

section \<open>New connections\<close>

definition fd_free :: "'k interest_of \<Rightarrow> ('k, 'u) worker \<Rightarrow> int \<Rightarrow> bool" where
  "fd_free interest w fd \<longleftrightarrow>
     free_fd (interruptor (mpx w)) (epollfd (mpx w)) (conn_view w) (registered interest (mpx w) (w_os w)) fd"

lemma destroy_effect:
  assumes "kernel_ok sys interest" and "sk_fd sk \<noteq> epollfd m" and "0 \<le> sk_fd sk"
  shows "registered interest m (w_os (destroy_socket sys sk w)) = (registered interest m (w_os w))(sk_fd sk := None)"
    and "connections (destroy_socket sys sk w) = connections w" and "mpx (destroy_socket sys sk w) = mpx w"
proof -
  obtain sk' s where k: "sk_close sys sk (w_os w) = (sk', s)" by fastforce
  from sk_close_effect[OF assms(1) k disjI1[OF assms(2)]] assms(3) k
  show "registered interest m (w_os (destroy_socket sys sk w)) = (registered interest m (w_os w))(sk_fd sk := None)"
    by (simp add: destroy_socket_def)
qed (simp_all add: destroy_socket_def)

lemma destroy_closed: "sk_fd sk < 0 \<Longrightarrow> destroy_socket sys sk w = w"
  by (simp add: destroy_socket_def sk_close_def)

text \<open>
  A state that differs from \<open>w\<close> only in the registration of one free descriptor: destroying the
  socket leads back, inserting the connection completes the step.
\<close>

definition tentative :: "'k interest_of \<Rightarrow> ('k, 'u) worker \<Rightarrow> int \<Rightarrow> ('k, 'u) worker \<Rightarrow> bool" where
  "tentative interest w fd w1 \<longleftrightarrow> connections w1 = connections w \<and> mpx w1 = mpx w \<and>
     (registered interest (mpx w) (w_os w1))(fd := None) = registered interest (mpx w) (w_os w)"

lemma tentative_destroyed:
  assumes "kernel_ok sys interest" and "fd_free interest w (sk_fd sk)" and "tentative interest w (sk_fd sk) w1"
  shows "leads exact interest w (destroy_socket sys sk w1)"
proof -
  have fd: "sk_fd sk \<noteq> epollfd (mpx w)" "0 \<le> sk_fd sk" using assms(2) by (simp_all add: fd_free_def free_fd_def)
  note D = destroy_effect[OF assms(1) fd, of w1]
  show ?thesis
    unfolding leads_def using D assms(3)
    by (auto simp: tentative_def intro!: unchanged_evolves conn_view_eq)
qed

lemma tentative_inserted:
  assumes "kernel_ok sys interest" and "fd_free interest w (sk_fd (cs_socket cs))"
    and "tentative interest w (sk_fd (cs_socket cs)) w1"
    and "registered interest (mpx w) (w_os w1) (sk_fd (cs_socket cs)) = Some ev" and "get_as_32 ev = c"
    and "exact \<Longrightarrow> ev_events ev = events_handled cs"
    and "insert_conn sys c cs w1 = (r, w2)"
  shows "leads exact interest w w2"
proof (cases "connections w1 c = None")
  case False
  then show ?thesis
    using assms(7) tentative_destroyed[OF assms(1-3)] by (auto simp: insert_conn_def)
next
  case True
  let ?fd = "sk_fd (cs_socket cs)" and ?R = "registered interest (mpx w) (w_os w)"
  have w2: "w2 = w1\<lparr>connections := (connections w1)(c \<mapsto> cs)\<rparr>" using assms(7) True by (simp add: insert_conn_def)
  have V: "conn_view w c = None" using True assms(3) by (simp add: conn_view_def tentative_def)
  have V2: "conn_view w2 = (conn_view w)(c \<mapsto> (?fd, events_handled cs))"
    using assms(3) w2 by (auto simp: conn_view_def tentative_def)
  have R2: "registered interest (mpx w2) (w_os w2) = ?R(?fd \<mapsto> ev)"
    using assms(3,4) w2 unfolding tentative_def by (metis (no_types) fun_upd_triv fun_upd_upd worker.select_convs(7,11) worker.surjective worker.update_convs(4))
  have "reg_step exact (interruptor (mpx w)) (epollfd (mpx w)) (reg_view interest w) (reg_view interest w2)"
    unfolding reg_view_def V2 R2
    by (rule reg_step.insert) (use V assms(2,5,6) in \<open>auto simp: fd_free_def\<close>)
  then show ?thesis
    using assms(3) w2 by (auto simp: leads_def tentative_def intro!: evolves_step)
qed

lemma unregistered_inserted:
  assumes "fd_free interest w (sk_fd (cs_socket cs))" and "connections w1 = connections w" and "mpx w1 = mpx w"
    and "registered interest (mpx w) (w_os w1) = registered interest (mpx w) (w_os w)" and "\<not> exact"
    and "connections w c = None" and "insert_conn sys c cs w1 = (r, w2)"
  shows "leads exact interest w w2"
proof -
  have w2: "w2 = w1\<lparr>connections := (connections w1)(c \<mapsto> cs)\<rparr>" using assms by (simp add: insert_conn_def)
  have V: "conn_view w c = None" using assms(6) by (simp add: conn_view_def)
  have V2: "conn_view w2 = (conn_view w)(c \<mapsto> (sk_fd (cs_socket cs), events_handled cs))"
    using assms(2) w2 by (auto simp: conn_view_def)
  have R2: "registered interest (mpx w2) (w_os w2) = registered interest (mpx w) (w_os w)"
    using assms(3,4) w2 by simp
  have "reg_step exact (interruptor (mpx w)) (epollfd (mpx w)) (reg_view interest w) (reg_view interest w2)"
    unfolding reg_view_def V2 R2
    by (rule reg_step.insert_unregistered) (use V assms(1,5) in \<open>auto simp: fd_free_def\<close>)
  then show ?thesis using assms(3) w2 by (auto simp: leads_def intro!: evolves_step)
qed

lemma tentative_same:
  "tentative interest w fd w1 \<Longrightarrow> connections w2 = connections w1 \<Longrightarrow> mpx w2 = mpx w1 \<Longrightarrow>
   registered interest (mpx w) (w_os w2) = registered interest (mpx w) (w_os w1) \<Longrightarrow> tentative interest w fd w2"
  by (simp add: tentative_def)

lemma registered_interest:
  "interest (kern s') = interest (kern s) \<Longrightarrow> registered interest m s' = registered interest m s"
  by (simp add: registered_def)

lemma leads_connected:
  assumes "kernel_ok sys interest" and "leads exact interest w w1"
  shows "leads exact interest w (wake_event sys (upd_conn c (set_connection_state st) w1))"
proof -
  have "leads exact interest w1 (upd_conn c (set_connection_state st) w1)" by (rule leads_upd) simp
  with assms(2) show ?thesis by (blast intro: leads_trans leads_push(3)[OF assms(1)])
qed

lemma finish_connect_leads:
  assumes K: "kernel_ok sys interest" and free: "fd_free interest w (sk_fd (cs_socket cs))"
    and t: "tentative interest w (sk_fd (cs_socket cs)) w1"
    and R: "registered interest (mpx w) (w_os w1) (sk_fd (cs_socket cs)) = Some ev" "get_as_32 ev = c"
      "ev_events ev = events_handled cs"
    and f: "finish_connect sys c cs err w1 = (r, err', w')"
  shows "leads exact interest w w'"
proof -
  let ?fd = "sk_fd (cs_socket cs)"
  obtain b w2 where con: "on_os (do_call (\<lambda>k. sc_connect sys k ?fd (storage (cs_conn cs)))) w1 = (b, w2)"
    by fastforce
  have w2: "connections w2 = connections w1" "mpx w2 = mpx w1"
      "registered interest (mpx w) (w_os w2) = registered interest (mpx w) (w_os w1)"
    using con by (auto simp: on_os_def split: prod.splits dest!: kernel_calls(4)[OF K] registered_interest)
  have t2: "tentative interest w ?fd w2" by (rule tentative_same[OF t w2])
  note gone = tentative_destroyed[OF K free, where exact = exact]
  show ?thesis
  proof (cases b)
    case True
    obtain i w3 where ins: "insert_conn sys c cs w2 = (i, w3)" by fastforce
    have "leads exact interest w w3"
      by (rule tentative_inserted[OF K free t2 _ R(2) _ ins]) (use R w2 in auto)
    then show ?thesis
      using f con True ins leads_connected[OF K] by (auto simp: finish_connect_def split: if_splits)
  next
    case False
    show ?thesis
    proof (cases "errno (w_os w2) = EINPROGRESS")
      case False
      then show ?thesis using f con \<open>\<not> b\<close> gone[OF t2] by (auto simp: finish_connect_def)
    next
      case True
      let ?cs = "cs\<lparr>events_handled := events_connecting\<rparr>" and ?ev = "handle_for sys c events_connecting w2"
      obtain md e3 w3 where m: "modify_tracking_event sys ?fd ?ev err w2 = (md, e3, w3)"
        by (cases "modify_tracking_event sys ?fd ?ev err w2")
      note w3 = modify_tracking_effect(1)[OF K m] and eff = modify_tracking_effect(2)[OF K m]
      have c3: "connections w3 = connections w2" "mpx w3 = mpx w2" by (subst w3, simp)+
      have mw: "mpx w2 = mpx w" using t2 by (simp add: tentative_def)
      have t3: "tentative interest w ?fd w3"
        using t2 c3 eff mw by (auto simp: tentative_def split: if_splits)
      show ?thesis
      proof (cases md)
        case False
        then show ?thesis using f con \<open>\<not> b\<close> True m gone[OF t3] by (auto simp: finish_connect_def)
      next
        case md: True
        obtain i w4 where ins: "insert_conn sys c ?cs w3 = (i, w4)" by fastforce
        have "leads exact interest w w4"
          by (rule tentative_inserted[OF K, of w ?cs w3 ?ev, OF _ _ _ _ _ ins])
             (use free t3 eff md mw in auto)
        then show ?thesis
          using f con \<open>\<not> b\<close> True m md ins leads_connected[OF K]
          by (auto simp: finish_connect_def split: if_splits)
      qed
    qed
  qed
qed

lemma add_tracking_effect:
  assumes "kernel_ok sys interest" and "add_tracking_event sys fd ev err w = (r, err', w')"
    and "registered interest (mpx w) (w_os w) fd = None"
  shows "connections w' = connections w" and "mpx w' = mpx w"
    and "if r then registered interest (mpx w) (w_os w') = (registered interest (mpx w) (w_os w))(fd \<mapsto> ev) \<and>
              err' = Cleared \<and> 0 \<le> fd
         else registered interest (mpx w) (w_os w') = registered interest (mpx w) (w_os w)"
proof -
  obtain s where s: "add_handle sys (mpx w) fd ev err (w_os w) = (r, err', s)" "w' = w\<lparr>w_os := s\<rparr>"
    using assms(2) by (auto simp: add_tracking_event_def on_os2_def split: prod.splits)
  then show "connections w' = connections w" "mpx w' = mpx w" by simp_all
  have "(registered interest (mpx w) (w_os w))(fd := None) = registered interest (mpx w) (w_os w)"
    using assms(3) by (simp add: fun_upd_idem)
  with add_handle_effect[OF assms(1) s(1)] s(2)
  show "if r then registered interest (mpx w) (w_os w') = (registered interest (mpx w) (w_os w))(fd \<mapsto> ev) \<and>
              err' = Cleared \<and> 0 \<le> fd
         else registered interest (mpx w) (w_os w') = registered interest (mpx w) (w_os w)"
    by (auto split: if_splits)
qed

lemma fd_free_same:
  assumes "same_view interest w w'" and "fd_free interest w fd"
  shows "fd_free interest w' fd"
  using assms by (simp add: same_view_def fd_free_def registered_def)

text \<open>\<open>connectInternal\<close> with an open socket: registered, connected and inserted, or closed again.\<close>

lemma connect_open_leads:
  assumes K: "kernel_ok sys interest" and free: "fd_free interest w (sk_fd (cs_socket cs))"
    and a: "add_tracking_event sys (sk_fd (cs_socket cs)) (handle_for sys c (events_handled cs) w) err w = (added, err1, w1)"
    and r: "(r, err', w') = (if \<not> added then (False, err1, destroy_socket sys (cs_socket cs) w1)
                            else finish_connect sys c cs err1 w1)"
  shows "leads exact interest w w'"
proof -
  let ?fd = "sk_fd (cs_socket cs)"
  have none: "registered interest (mpx w) (w_os w) ?fd = None" using free by (simp add: fd_free_def free_fd_def)
  note A = add_tracking_effect[OF K a none]
  have t: "tentative interest w ?fd w1"
    using A none by (auto simp: tentative_def fun_upd_idem split: if_splits)
  show ?thesis
  proof (cases added)
    case False
    then show ?thesis using r tentative_destroyed[OF K free t] by simp
  next
    case True
    then have f: "finish_connect sys c cs err1 w1 = (r, err', w')" using r by simp
    show ?thesis
      by (rule finish_connect_leads[OF K free t _ _ _ f, where ev = "handle_for sys c (events_handled cs) w"])
         (use A True in auto)
  qed
qed

lemma destroy_free_leads:
  assumes "kernel_ok sys interest" and "0 \<le> sk_fd sk \<Longrightarrow> fd_free interest w (sk_fd sk)"
  shows "leads exact interest w (destroy_socket sys sk w)"
proof (cases "0 \<le> sk_fd sk")
  case False
  then show ?thesis by (simp add: destroy_closed)
next
  case True
  have "tentative interest w (sk_fd sk) w"
    using assms(2)[OF True] by (auto simp: tentative_def fd_free_def free_fd_def fun_upd_idem)
  with tentative_destroyed[OF assms(1) assms(2)[OF True]] show ?thesis by blast
qed

lemma connectInternal_leads:
  assumes K: "kernel_ok sys interest" and free: "0 \<le> sk_fd sk \<Longrightarrow> fd_free interest w (sk_fd sk)"
    and r: "connectInternal sys h conn sk err w = (r, err', w')"
  shows "leads exact interest w w'"
proof (cases "\<not> stop_requested w \<and> is_valid_handler h")
  case False
  then show ?thesis using r destroy_free_leads[OF K free] by (auto simp: connectInternal_def)
next
  case True
  then have wio: "snd (snd (make_connectionIO sk h (1024 * 8) w)) = w"
    by (simp add: make_connectionIO_def assert_that_def)
  obtain io e0 where io: "make_connectionIO sk h (1024 * 8) w = (io, e0, w)"
    using wio by (cases "make_connectionIO sk h (1024 * 8) w") auto
  obtain ub e1 w1 where nb: "on_os2 (set_no_block sys sk True e0) w = (ub, e1, w1)"
    by (cases "on_os2 (set_no_block sys sk True e0) w")
  have sv: "same_view interest w w1"
    by (rule same_view_on_os2[OF _ nb]) (rule set_no_block_interest[OF K])
  have free1: "0 \<le> sk_fd sk \<Longrightarrow> fd_free interest w1 (sk_fd sk)" by (rule fd_free_same[OF sv free])
  show ?thesis
  proof (cases ub)
    case False
    then have "w' = destroy_socket sys sk w1" using r True io nb by (auto simp: connectInternal_def)
    with destroy_free_leads[OF K free1] leads_same[OF sv] show ?thesis by (blast intro: leads_trans)
  next
    case ub: True
    then have fd: "0 \<le> sk_fd sk"
      using nb by (auto simp: on_os2_def set_no_block_def split: prod.splits if_splits)
    let ?cs = "\<lparr>cs_conn = conn, cs_proc = None, cs_io = Some io, cs_socket = sk, events_handled = events_connected\<rparr>"
    obtain ad e2 w2 where a: "add_tracking_event sys (sk_fd sk) (handle_for sys (conn_id h) events_connected w1) e1 w1 = (ad, e2, w2)"
      by (cases "add_tracking_event sys (sk_fd sk) (handle_for sys (conn_id h) events_connected w1) e1 w1")
    have "leads exact interest w1 w'"
      using free1[OF fd] a r True io nb ub
      by (intro connect_open_leads[OF K, of w1 ?cs "conn_id h" e1 ad e2 w2 r err' w']) (auto simp: connectInternal_def Let_def)
    with leads_same[OF sv] show ?thesis by (rule leads_trans)
  qed
qed

lemma attachConnectionInternal_leads:
  assumes S: "setting_ok exact sys interest ops" and free: "0 \<le> sk_fd sk \<Longrightarrow> fd_free interest w (sk_fd sk)"
    and ep: "epollfd (mpx w) \<noteq> -1"
    and r: "attachConnectionInternal sys h conn buf sk Cleared w = (r, err', w')"
  shows "leads exact interest w w'"
proof (cases "connections w (conn_id h) = None")
  case False
  then show ?thesis using r by (auto simp: attachConnectionInternal_def)
next
  case new: True
  have K: "kernel_ok sys interest" and Rl: "exact \<Longrightarrow> kernel_reliable sys interest" using S by (auto simp: setting_ok_def)
  let ?c = "conn_id h" and ?fd = "sk_fd sk"
  let ?cs = "\<lparr>cs_conn = conn, cs_proc = None, cs_io = None, cs_socket = sk, events_handled = events_attached\<rparr>"
  let ?ev = "handle_for sys ?c events_attached w"
  obtain ad e1 w1 where a: "add_tracking_event sys ?fd ?ev Cleared w = (ad, e1, w1)"
    by (cases "add_tracking_event sys ?fd ?ev Cleared w")
  show ?thesis
  proof (cases "0 \<le> ?fd")
    case False
    then have "failed e1" "w1 = w"
      using a by (auto simp: add_tracking_event_def on_os2_def add_handle_def split: if_splits prod.splits)
    then show ?thesis using r new a by (auto simp: attachConnectionInternal_def)
  next
    case True
    note fr = free[OF True]
    have none: "registered interest (mpx w) (w_os w) ?fd = None" using fr by (simp add: fd_free_def free_fd_def)
    note A = add_tracking_effect[OF K a none]
    have t: "tentative interest w ?fd w1"
      using A none by (auto simp: tentative_def fun_upd_idem split: if_splits)
    obtain i w2 where ins: "insert_conn sys ?c ?cs w1 = (i, w2)" by fastforce
    have l2: "leads exact interest w w2"
    proof (cases ad)
      case True
      then show ?thesis
        using A fr t by (intro tentative_inserted[OF K _ _ _ _ _ ins, of w ?ev]) auto
    next
      case False
      have "\<not> exact"
      proof
        assume exact
        with add_handle_reliable[OF Rl ep True none] a False show False
          by (auto simp: add_tracking_event_def on_os2_def split: prod.splits)
      qed
      then show ?thesis
        using A False fr new by (intro unregistered_inserted[OF _ _ _ _ _ _ ins]) auto
    qed
    let ?w3 = "snd (snd (make_connectionIO sk h buf w2))" and ?io = "fst (make_connectionIO sk h buf w2)"
    let ?w4 = "upd_conn ?c (\<lambda>cs. set_connection_state Active (cs\<lparr>cs_io := Some ?io\<rparr>)) ?w3"
    obtain nb e5 w5 where b: "on_os2 (is_non_block sys sk (fst (snd (make_connectionIO sk h buf w2)))) ?w4 = (nb, e5, w5)"
      by (cases "on_os2 (is_non_block sys sk (fst (snd (make_connectionIO sk h buf w2)))) ?w4")
    have "leads exact interest w2 ?w3" by (simp add: make_connectionIO_def leads_assert)
    also have "leads exact interest ?w3 ?w4" by (rule leads_upd) simp
    also have "leads exact interest ?w4 w5" 
    by (rule leads_same, rule same_view_on_os2[OF _ b]) (rule is_non_block_interest[OF K])
    also have "leads exact interest w5 (assert_that nb w5)" by (rule leads_assert)
    finally have l: "leads exact interest w2 (assert_that nb w5)" .
    from r new a ins b have "w' = w1 \<and> failed e1 \<or> w' = w2 \<or> w' = assert_that nb w5"
      by (auto simp: attachConnectionInternal_def Let_def split: if_splits prod.splits)
    moreover have "leads exact interest w w1" if "failed e1"
    proof -
      from that A have "\<not> ad" by auto
      with A show ?thesis by (auto simp: leads_def intro!: unchanged_evolves conn_view_eq)
    qed
    ultimately show ?thesis using l2 l leads_trans by blast
  qed
qed

section \<open>Removing and changing connections\<close>

text \<open>Deregistering a connection's descriptor and closing it is one step of the view.\<close>

lemma remove_close_leads:
  assumes K: "kernel_ok sys interest" and cs: "connections w c = Some cs"
    and m: "on_os2 (remove sys (mpx w) (sk_fd (cs_socket cs)) err) w = (r, err', w1)"
  shows "leads exact interest w (close_socket sys c w1)"
  unfolding leads_def
proof
  assume I: "worker_inv exact interest w"
  let ?fd = "sk_fd (cs_socket cs)" and ?R = "registered interest (mpx w) (w_os w)"
  obtain s where s: "remove sys (mpx w) ?fd err (w_os w) = (r, err', s)" "w1 = w\<lparr>w_os := s\<rparr>"
    using m by (auto simp: on_os2_def split: prod.splits)
  note eff = remove_effect[OF K s(1)]
  obtain sk t where k: "sk_close sys (cs_socket cs) s = (sk, t)" by fastforce
  have w2: "close_socket sys c w1 = w\<lparr>connections := (connections w)(c \<mapsto> cs\<lparr>cs_socket := sk\<rparr>), w_os := t\<rparr>"
    using cs k s(2) by (simp add: close_socket_def)
  have ep: "?fd \<noteq> epollfd (mpx w) \<or> ?fd < 0" using worker_invD(2)[OF I cs] by linarith
  note cl = sk_close_effect[OF K k ep]
  show "evolves exact interest w (close_socket sys c w1)"
  proof (cases "0 \<le> ?fd")
    case True
    have V: "conn_view w c = Some (?fd, events_handled cs)" using cs by (simp add: conn_view_def)
    have "registered interest (mpx w) t = ?R(?fd := None)"
      using cl eff True by (auto split: if_splits)
    then have "reg_view interest (close_socket sys c w1) = ((conn_view w)(c \<mapsto> (-1, events_handled cs)), ?R(?fd := None))"
      using cl True by (auto simp: w2 reg_view_def conn_view_def)
    then show ?thesis
      using reg_step.close[of "conn_view w" c, OF V True]
      by (intro evolves_step) (simp_all add: reg_view_def w2)
  next
    case False
    have "?R ?fd = None"
    proof (rule ccontr)
      assume "?R ?fd \<noteq> None"
      then obtain ev where "?R ?fd = Some ev" by auto
      moreover have "Some ?fd \<noteq> interruptor (mpx w)" using I False by (auto simp: worker_inv_def)
      ultimately show False
        using I False reg_invD(1)[of exact "interruptor (mpx w)" "epollfd (mpx w)" "conn_view w" ?R ?fd ev]
        by (auto simp: worker_inv_def reg_view_def)
    qed
    then have "registered interest (mpx w) t = ?R" "sk = cs_socket cs" using cl eff False by (auto split: if_splits)
    then show ?thesis
      by (intro unchanged_evolves) (auto simp: w2 conn_view_def fun_eq_iff cs)
  qed
qed

lemma removeConnectionInternal_leads:
  assumes K: "kernel_ok sys interest" and r: "removeConnectionInternal sys h err w = (r, err', w')"
  shows "leads exact interest w w'"
proof (cases "connections w (conn_id h)")
  case None
  then show ?thesis using r by (simp add: removeConnectionInternal_def)
next
  case (Some cs)
  let ?c = "conn_id h"
  obtain b e1 w1 where sh: "on_os2 (shutdown_all sys (cs_socket cs) err) w = (b, e1, w1)"
    by (cases "on_os2 (shutdown_all sys (cs_socket cs) err) w")
  have sv: "same_view interest w w1"
    by (rule same_view_on_os2[OF _ sh]) (auto simp: shutdown_all_def dest: shutdown_interest[OF K])
  have cs1: "connections w1 ?c = Some cs" using sh Some by (auto simp: on_os2_def split: prod.splits)
  show ?thesis
  proof (cases "failed e1")
    case True
    then show ?thesis
      using r Some sh leads_trans[OF leads_same[OF sv] leads_erase[OF K]]
      by (auto simp: removeConnectionInternal_def)
  next
    case False
    obtain b2 e2 w2 where rm: "on_os2 (remove sys (mpx w1) (sk_fd (cs_socket cs)) e1) w1 = (b2, e2, w2)"
      by (cases "on_os2 (remove sys (mpx w1) (sk_fd (cs_socket cs)) e1) w1")
    have "leads exact interest w1 (close_socket sys ?c w2)" by (rule remove_close_leads[OF K cs1 rm])
    also have "leads exact interest (close_socket sys ?c w2) (erase_conn sys ?c (close_socket sys ?c w2))"
      by (rule leads_erase[OF K])
    finally have "leads exact interest w (erase_conn sys ?c (close_socket sys ?c w2))"
      by (rule leads_trans[OF leads_same[OF sv]])
    then show ?thesis
      using r Some sh False rm by (auto simp: removeConnectionInternal_def remove_tracking_event_def)
  qed
qed

lemma close_connection_leads:
  assumes K: "kernel_ok sys interest" and r: "close_connection sys h err w = (r, err', w')"
  shows "leads exact interest w w'"
proof (cases "connections w (conn_id h)")
  case None
  then show ?thesis using r by (simp add: close_connection_def)
next
  case (Some cs)
  let ?c = "conn_id h" and ?w1 = "upd_conn (conn_id h) (set_connection_state Closed) w"
  obtain b e2 w2 where rm: "on_os2 (remove sys (mpx ?w1) (sk_fd (cs_socket cs)) err) ?w1 = (b, e2, w2)"
    by (cases "on_os2 (remove sys (mpx ?w1) (sk_fd (cs_socket cs)) err) ?w1")
  have "leads exact interest w ?w1" by (rule leads_upd) simp
  also have "leads exact interest ?w1 (close_socket sys ?c w2)"
    using rm by (intro remove_close_leads[OF K, of ?w1 ?c "set_connection_state Closed cs"]) (simp_all add: Some)
  also have "leads exact interest (close_socket sys ?c w2) (erase_conn sys ?c (close_socket sys ?c w2))"
    by (rule leads_erase[OF K])
  finally show ?thesis using r Some rm by (auto simp: close_connection_def)
qed

lemma modifyConnectionInternal_leads:
  assumes K: "kernel_ok sys interest" and r: "modifyConnectionInternal sys h opts err w = (r, err', w')"
  shows "leads exact interest w w'"
proof (cases "connections w (conn_id h)")
  case None
  then show ?thesis using r by (simp add: modifyConnectionInternal_def)
next
  case (Some cs)
  obtain b e1 w1 where o: "on_os2 (sk_set_options sys (cs_socket cs) opts err) w = (b, e1, w1)"
    by (cases "on_os2 (sk_set_options sys (cs_socket cs) opts err) w")
  have "same_view interest w w1" by (rule same_view_on_os2[OF _ o]) (rule set_options_interest[OF K])
  then show ?thesis using r Some o by (auto simp: modifyConnectionInternal_def intro: leads_same)
qed

text \<open>
  Modifying the registration of a connection and then recording the events, in either order of
  the two assignments; \<open>f\<close> is what happens to the connection's state when it succeeds, \<open>g\<close>
  when it fails.
\<close>

lemma modify_leads:
  assumes K: "kernel_ok sys interest" and Rl: "exact \<Longrightarrow> kernel_reliable sys interest" and cs: "connections w c = Some cs"
    and m: "modify_tracking_event sys (sk_fd (cs_socket cs)) ev err w1 = (md, err1, w2)"
    and w1: "connections w1 = (connections w)(c \<mapsto> cs1)" "mpx w1 = mpx w" "w_os w1 = w_os w" "sk_fd (cs_socket cs1) = sk_fd (cs_socket cs)"
    and w3: "connections w3 = (connections w)(c \<mapsto> cs3)" "mpx w3 = mpx w" "w_os w3 = w_os w2" "sk_fd (cs_socket cs3) = sk_fd (cs_socket cs)"
    and ev: "get_as_32 ev = c" and fin: "md \<Longrightarrow> exact \<Longrightarrow> ev_events ev = events_handled cs3"
  shows "leads exact interest w w3"
  unfolding leads_def
proof
  assume I: "worker_inv exact interest w"
  note eff = modify_tracking_effect(2)[OF K m]
  have V: "conn_view w3 = (conn_view w)(c \<mapsto> (sk_fd (cs_socket cs), events_handled cs3))"
    using w3 by (auto simp: conn_view_def)
  show "evolves exact interest w w3"
  proof (cases md)
    case True
    with eff w1 w3 show ?thesis
      by (intro modified_evolves[OF cs _ _ ev _ V]) (auto dest: fin)
  next
    case False
    have "\<not> exact \<or> sk_fd (cs_socket cs) < 0"
    proof (rule ccontr)
      assume "\<not> ?thesis"
      then have ex: exact and fd: "0 \<le> sk_fd (cs_socket cs)" by auto
      obtain s where "modify_handle sys (mpx w) (sk_fd (cs_socket cs)) ev err (w_os w) = (md, err1, s)"
        using m w1 by (auto simp: modify_tracking_event_def on_os2_def split: prod.splits)
      moreover have "epollfd (mpx w) \<noteq> -1" using I by (simp add: worker_inv_def)
      ultimately show False
        using modify_handle_reliable[OF K Rl[OF ex] _ fd] worker_invD(3)[OF I cs fd ex] False by blast
    qed
    with eff False w1 w3 show ?thesis by (intro drifted_evolves[OF cs _ V]) auto
  qed
qed

section \<open>Attaching and detaching processes\<close>

lemma modify_tracking_frame:
  assumes "kernel_ok sys interest" and "modify_tracking_event sys fd ev err w = (r, err', w')"
  shows "connections w' = connections w" "mpx w' = mpx w"
  by (subst modify_tracking_effect(1)[OF assms], simp)+

lemma addConnectionProcessInternal_leads:
  assumes S: "setting_ok exact sys interest ops"
    and r: "addConnectionProcessInternal sys ops h p Cleared w = (r, err', w')"
  shows "leads exact interest w w'"
proof (cases "\<exists>cs. \<not> stop_requested w \<and> connections w (conn_id h) = Some cs \<and>
    (state (cs_conn cs) = Active \<or> state (cs_conn cs) = Connecting)")
  case False
  then show ?thesis using r by (auto simp: addConnectionProcessInternal_def split: option.splits if_splits)
next
  case True
  then obtain cs where cs: "connections w (conn_id h) = Some cs"
    and go: "\<not> stop_requested w" "state (cs_conn cs) = Active \<or> state (cs_conn cs) = Connecting" by blast
  have K: "kernel_ok sys interest" and Rl: "exact \<Longrightarrow> kernel_reliable sys interest"
    and O: "ops_ok exact sys interest ops" using S by (auto simp: setting_ok_def)
  let ?c = "conn_id h" and ?e = "event_or (event_and (events_handled cs) (event_not Event_Out)) Event_In"
  let ?f = "\<lambda>cs. cs\<lparr>cs_proc := Some (p\<lparr>io_set := cs_io cs \<noteq> None\<rparr>), events_handled := ?e\<rparr>"
  let ?w1 = "upd_conn ?c ?f w" and ?ev = "handle_for sys ?c ?e (upd_conn ?c ?f w)"
  obtain md e2 w2 where m: "modify_tracking_event sys (sk_fd (cs_socket cs)) ?ev Cleared ?w1 = (md, e2, w2)"
    by (cases "modify_tracking_event sys (sk_fd (cs_socket cs)) ?ev Cleared ?w1")
  have l2: "leads exact interest w w2"
    by (rule modify_leads[OF K Rl cs m, where ?cs1.0 = "?f cs" and ?cs3.0 = "?f cs"])
       (use cs modify_tracking_frame[OF K m] in simp_all)
  obtain e3 w3 where i: "with_proc ?c (on_init_connection ops) Cleared w2 = (e3, w3)" by fastforce
  have l3: "leads exact interest w2 w3" by (rule leads_with_proc[OF S ops_okD(3)[OF O] i])
  from r go cs m i have "w' = w2 \<or> w' = w3 \<or> w' = fail_process sys ?c w3"
    by (auto simp: addConnectionProcessInternal_def Let_def split: if_splits)
  then show ?thesis using l2 l3 leads_fail_process[OF K] leads_trans by blast
qed

lemma removeConnectionProcessInternal_leads:
  assumes K: "kernel_ok sys interest" and Rl: "exact \<Longrightarrow> kernel_reliable sys interest"
    and r: "removeConnectionProcessInternal sys h Cleared w = (r, err', w')"
  shows "leads exact interest w w'"
proof (cases "connections w (conn_id h)")
  case None
  then show ?thesis using r by (simp add: removeConnectionProcessInternal_def)
next
  case (Some cs)
  let ?c = "conn_id h" and ?f = "\<lambda>cs. cs\<lparr>cs_proc := None\<rparr>"
  let ?w1 = "upd_conn ?c ?f w"
  let ?ev = "handle_for sys ?c (event_xor (events_handled cs) Event_In) ?w1"
  obtain md e2 w2 where m: "modify_tracking_event sys (sk_fd (cs_socket cs)) ?ev Cleared ?w1 = (md, e2, w2)"
    by (cases "modify_tracking_event sys (sk_fd (cs_socket cs)) ?ev Cleared ?w1")
  let ?w3 = "if md then upd_conn ?c (\<lambda>cs. cs\<lparr>events_handled := ev_events ?ev\<rparr>) w2 else w2"
  let ?cs3 = "if md then (?f cs)\<lparr>events_handled := ev_events ?ev\<rparr> else ?f cs"
  have "leads exact interest w ?w3"
    by (rule modify_leads[OF K Rl Some m, where ?cs1.0 = "?f cs" and ?cs3.0 = ?cs3])
       (use Some modify_tracking_frame[OF K m] in simp_all)
  moreover have "e2 = Cleared" if md using modify_tracking_effect(2)[OF K m] that by simp
  then have "w' = ?w3"
    using r Some m by (auto simp: removeConnectionProcessInternal_def Let_def split: if_splits)
  ultimately show ?thesis by simp
qed

section \<open>Commands\<close>

lemma emplace_leads:
  assumes S: "setting_ok exact sys interest ops" and r: "emplace_request_to_process ops i h w = (err', w')"
  shows "leads exact interest w w'"
proof -
  have O: "ops_ok exact sys interest ops" using S by (simp add: setting_ok_def)
  obtain e1 w1 where p: "with_proc (conn_id h) (push_request ops i) Cleared w = (e1, w1)" by fastforce
  obtain e2 w2 where q: "with_proc (conn_id h) (on_push_request ops) e1 w1 = (e2, w2)" by fastforce
  have "leads exact interest w w1" by (rule leads_with_proc[OF S ops_okD(5)[OF O] p])
  moreover have "leads exact interest w1 w2" by (rule leads_with_proc[OF S ops_okD(6)[OF O] q])
  moreover have "w' = w \<or> w' = w1 \<or> w' = w2"
    using r p q by (auto simp: emplace_request_to_process_def split: option.splits if_splits)
  ultimately show ?thesis using leads_trans by (metis leads_refl)
qed

text \<open>
  The descriptor of an attached connection, and the one that \<open>socket\<close> returns, is not used
  otherwise.
\<close>

definition fresh_command :: "'k syscalls \<Rightarrow> 'k interest_of \<Rightarrow> 'u Command \<Rightarrow> ('k, 'u) worker \<Rightarrow> bool" where
  "fresh_command sys interest c w = (case c of
     AttachConnection h conn buf sk \<Rightarrow> 0 \<le> sk_fd sk \<longrightarrow> fd_free interest w (sk_fd sk)
   | AddConnection h host port type proto \<Rightarrow>
       (case make_socket sys (fst (make_address sys host port Cleared)) type proto Cleared (w_os w) of
          (sk, _, _) \<Rightarrow> 0 \<le> sk_fd sk \<longrightarrow> fd_free interest w (sk_fd sk))
   | _ \<Rightarrow> True)"

lemma execute_add_leads:
  assumes K: "kernel_ok sys interest" and fresh: "fresh_command sys interest (AddConnection h host port ty pr) w"
  shows "leads exact interest w (execute_add sys i h host port ty pr w)"
proof -
  obtain addr e0 where ma: "make_address sys host port Cleared = (addr, e0)" by fastforce
  obtain sk e1 w1 where ms: "on_os2 (make_socket sys addr ty pr e0) w = (sk, e1, w1)"
    by (cases "on_os2 (make_socket sys addr ty pr e0) w")
  have sv: "same_view interest w w1"
    by (rule same_view_on_os2[OF _ ms]) (rule make_socket_interest[OF K])
  have fr: "0 \<le> sk_fd sk \<Longrightarrow> fd_free interest w1 (sk_fd sk)" if "e0 = Cleared"
    using fresh that ma ms fd_free_same[OF sv]
    by (auto simp: fresh_command_def on_os2_def split: prod.splits)
  obtain addr2 e2 where ma2: "make_address sys host port e1 = (addr2, e2)" by fastforce
  obtain b e3 w3 where c: "connectInternal sys h (new_Connection addr2) sk e2 w1 = (b, e3, w3)"
    by (cases "connectInternal sys h (new_Connection addr2) sk e2 w1")
  have l1: "leads exact interest w w1" by (rule leads_same[OF sv])
  have "leads exact interest w w3" if "e0 = Cleared"
    by (rule leads_trans[OF l1 connectInternal_leads[OF K fr[OF that] c]])
  moreover have "leads exact interest w (destroy_socket sys sk w1)" if "e0 = Cleared"
    by (rule leads_trans[OF l1 destroy_free_leads[OF K fr[OF that]]])
  ultimately show ?thesis
    using ma ms ma2 c l1 leads_trans[OF _ leads_set_error] leads_set_error
    by (auto simp: execute_add_def Let_def)
qed

lemma execute_task_done_leads:
  assumes S: "setting_ok exact sys interest ops"
  shows "leads exact interest w (execute_task_done ops i h w)"
proof -
  have O: "ops_ok exact sys interest ops" using S by (simp add: setting_ok_def)
  have "leads exact interest w w2"
    if "with_proc c (handle_event ops Event_EvTaskDone) e (assert_that b w) = (e2, w2)" for b c e e2 w2
    by (rule leads_trans[OF leads_assert leads_with_proc[OF S ops_okD(1)[OF O] that]])
  then show ?thesis
    by (auto simp: execute_task_done_def Let_def leads_set_error split: option.split prod.split
        intro: leads_trans[OF _ leads_set_error] leads_trans[OF leads_assert leads_set_error])
qed

lemma leads_report:
  "(\<And>b e w'. r = (b, e, w') \<Longrightarrow> leads exact interest w w') \<Longrightarrow> leads exact interest w (report i r)"
  by (cases r) (auto simp: report_def intro: leads_trans[OF _ leads_set_error])

lemma stop_process_leads:
  assumes S: "setting_ok exact sys interest ops" and r: "stop_process ops h t err w = (r, err', w')"
  shows "leads exact interest w w'"
proof -
  have O: "ops_ok exact sys interest ops" using S by (simp add: setting_ok_def)
  obtain e1 w1 where p: "with_proc (conn_id h) (request_stop ops t) err w = (e1, w1)" by fastforce
  have "leads exact interest w w1" by (rule leads_with_proc[OF S ops_okD(4)[OF O] p])
  with r p show ?thesis by (auto simp: stop_process_def split: option.splits if_splits)
qed

lemma shutdown_connection_leads:
  "kernel_ok sys interest \<Longrightarrow> shutdown_connection sys h err w = (r, err', w') \<Longrightarrow> leads exact interest w w'"
  by (rule leads_same) (rule shutdown_connection_same_view)

lemma execute_leads:
  assumes S: "setting_ok exact sys interest ops" and fresh: "fresh_command sys interest c w"
    and ep: "epollfd (mpx w) \<noteq> -1"
  shows "leads exact interest w (execute sys ops i c w)"
proof -
  have K: "kernel_ok sys interest" and Rl: "exact \<Longrightarrow> kernel_reliable sys interest" using S by (auto simp: setting_ok_def)
  show ?thesis
  proof (cases c)
    case (AddConnection h host port ty pr)
    then show ?thesis using execute_add_leads[OF K] fresh by simp
  next
    case (AttachConnection h conn buf sk)
    then have "0 \<le> sk_fd sk \<Longrightarrow> fd_free interest w (sk_fd sk)" using fresh by (simp add: fresh_command_def)
    with AttachConnection show ?thesis by (auto intro!: leads_report attachConnectionInternal_leads[OF S _ ep])
  next
    case (RequestData h)
    then show ?thesis using emplace_leads[OF S]
      by (auto split: prod.split intro: leads_trans[OF _ leads_set_error])
  qed (auto intro!: leads_report execute_task_done_leads[OF S] intro: removeConnectionInternal_leads[OF K]
      modifyConnectionInternal_leads[OF K] addConnectionProcessInternal_leads[OF S]
      removeConnectionProcessInternal_leads[OF K Rl] stop_process_leads[OF S] shutdown_connection_leads[OF K])
qed

section \<open>Events\<close>

lemma leads_server_asserts: "leads exact interest w (server_asserts cs w)"
  by (simp add: server_asserts_def leads_assert)

lemma dispatch_leads:
  assumes S: "setting_ok exact sys interest ops"
  shows "leads exact interest w (dispatch sys ops e c w)"
proof (cases "Option.bind (connections w c) cs_proc")
  case None
  then show ?thesis by (simp add: dispatch_def)
next
  case (Some p)
  have K: "kernel_ok sys interest" and O: "ops_ok exact sys interest ops" using S by (auto simp: setting_ok_def)
  obtain e1 w1 where h: "with_proc c (handle_event ops e) Cleared w = (e1, w1)" by fastforce
  have "leads exact interest w w1" by (rule leads_with_proc[OF S ops_okD(1)[OF O] h])
  then show ?thesis
    using Some h leads_trans[OF _ leads_fail_process[OF K]] by (auto simp: dispatch_def)
qed

lemma establish_leads:
  assumes S: "setting_ok exact sys interest ops" and cs: "connections w c = Some cs"
    and ev: "get_as_32 ev = c" and r: "establish sys ops ev c cs err w = (err', w')"
  shows "leads exact interest w w'"
proof -
  have K: "kernel_ok sys interest" and Rl: "exact \<Longrightarrow> kernel_reliable sys interest"
    and O: "ops_ok exact sys interest ops" using S by (auto simp: setting_ok_def)
  let ?w1 = "upd_conn c (set_connection_state Active) w" and ?e = "event_or Event_HangUp Event_Error"
  let ?ev = "set_events ?e ev"
  obtain md e2 w2 where m: "modify_tracking_event sys (sk_fd (cs_socket cs)) ?ev err ?w1 = (md, e2, w2)"
    by (cases "modify_tracking_event sys (sk_fd (cs_socket cs)) ?ev err ?w1")
  let ?w3 = "if md then upd_conn c (\<lambda>cs. cs\<lparr>events_handled := ev_events ?ev\<rparr>) w2 else w2"
  let ?cs1 = "set_connection_state Active cs"
  let ?cs3 = "if md then ?cs1\<lparr>events_handled := ev_events ?ev\<rparr> else ?cs1"
  have l3: "leads exact interest w ?w3"
    by (rule modify_leads[OF K Rl cs m, where ?cs1.0 = ?cs1 and ?cs3.0 = ?cs3])
       (use cs ev modify_tracking_frame[OF K m] in simp_all)
  obtain e4 w4 where i: "with_proc c (on_init_connection ops) e2 ?w3 = (e4, w4)" by fastforce
  have l4: "leads exact interest ?w3 w4" by (rule leads_with_proc[OF S ops_okD(3)[OF O] i])
  let ?w5 = "if failed e4 then close_socket sys c w4 else w4"
  have "leads exact interest w4 ?w5" by (simp add: leads_close[OF K])
  also have "leads exact interest ?w5 (upd_conn c reset_process ?w5)" by (rule leads_upd) simp
  finally have l5: "leads exact interest w4 (upd_conn c reset_process ?w5)" .
  have A: "leads exact interest w (push_command sys x (upd_conn c reset_process ?w5))" for x
    by (rule leads_trans[OF leads_trans[OF leads_trans[OF l3 l4] l5] leads_push(1)[OF K]])
  have B: "leads exact interest w (push_command sys x ?w3)" for x
    by (rule leads_trans[OF l3 leads_push(1)[OF K]])
  show ?thesis
  proof (cases md)
    case True
    then have "w' = push_command sys (RemoveConnection (connection_handle c (upd_conn c reset_process ?w5)) 0)
          (upd_conn c reset_process ?w5) \<or> w' = ?w3"
      using r m i by (auto simp: establish_def Let_def split: if_splits)
    with A l3 show ?thesis by blast
  next
    case False
    then have "w' = push_command sys (RemoveConnection (connection_handle c w2) 0) ?w3"
      using r m by (simp add: establish_def)
    with B show ?thesis by blast
  qed
qed

lemma handle_events_continues:
  "handle_events sys ops h e err w = (True, err', w') \<Longrightarrow> w' = w \<and> err' = err"
  by (auto simp: handle_events_def split: if_splits prod.splits)

lemma run_leads:
  assumes S: "setting_ok exact sys interest ops" and r: "run sys ops ev err w = (err', w')"
  shows "leads exact interest w w'"
proof (cases "connections w (get_as_32 ev)")
  case None
  then show ?thesis using r by (simp add: run_def)
next
  case (Some cs)
  have K: "kernel_ok sys interest" using S by (simp add: setting_ok_def)
  let ?c = "get_as_32 ev"
  obtain go e1 w1 where he: "handle_events sys ops (connection_handle ?c w) (ev_events ev) err w = (go, e1, w1)"
    by (cases "handle_events sys ops (connection_handle ?c w) (ev_events ev) err w")
  show ?thesis
  proof (cases go)
    case False
    then show ?thesis using r Some he leads_handle_events[OF S he] by (simp add: run_def)
  next
    case True
    with handle_events_continues[of sys ops _ _ err w e1 w1] he have w1: "w1 = w" "e1 = err" by auto
    let ?w2 = "server_asserts cs w"
    have l2: "leads exact interest w ?w2" by (rule leads_server_asserts)
    obtain se e3 w3 where se: "on_os2 (sk_error sys (cs_socket cs) err) ?w2 = (se, e3, w3)"
      by (cases "on_os2 (sk_error sys (cs_socket cs) err) ?w2")
    have l3: "leads exact interest ?w2 w3"
      by (rule leads_same, rule same_view_on_os2[OF _ se]) (rule sk_error_interest[OF K])
    have "connections ?w2 = connections w" by (simp add: server_asserts_def assert_that_def)
    then have cs3: "connections w3 ?c = Some cs" using se Some by (auto simp: on_os2_def split: prod.splits)
    obtain e4 w4 where es: "establish sys ops ev ?c cs e3 w3 = (e4, w4)" by fastforce
    have l4: "leads exact interest w3 w4" by (rule establish_leads[OF S cs3 refl es])
    from r Some he True w1 se es have "w' = dispatch sys ops (ev_events ev) ?c ?w2 \<or>
        w' = dispatch sys ops (ev_events ev) ?c w4 \<or> (\<exists>x. w' = push_commands sys x w3)"
      by (auto simp: run_def Let_def split: if_splits)
    then show ?thesis
      using l2 l3 l4 dispatch_leads[OF S] leads_push(2)[OF K] leads_trans by metis
  qed
qed

section \<open>The thread's own operations\<close>

lemma handle_worker_commands_leads:
  assumes S: "setting_ok exact sys interest ops"
  shows "leads exact interest w (handle_worker_commands sys ops order w)"
proof -
  have K: "kernel_ok sys interest" and O: "ops_ok exact sys interest ops" using S by (auto simp: setting_ok_def)
  have "leads exact interest v (snd (fold (\<lambda>cid (err, w). with_proc cid (request_stop ops t) err w) order (err, v)))" for v err t
  proof (induction order arbitrary: err v)
    case Nil
    then show ?case by simp
  next
    case (Cons c order)
    obtain e1 v1 where p: "with_proc c (request_stop ops t) err v = (e1, v1)" by fastforce
    have "leads exact interest v v1" by (rule leads_with_proc[OF S ops_okD(4)[OF O] p])
    with Cons[of v1 e1] p show ?case by (auto intro: leads_trans)
  qed
  note processes = this
  have stopped: "leads exact interest v (stop sys ops order t v)" for v t
  proof -
    let ?v = "snd (fold (\<lambda>cid (err, w). with_proc cid (request_stop ops t) err w) order (Cleared, v))"
    have "leads exact interest v ?v" by (rule processes)
    also have "leads exact interest ?v (?v\<lparr>stop_requested := True\<rparr>)" by (rule leads_same, rule same_view_frame) simp_all
    also have "leads exact interest (?v\<lparr>stop_requested := True\<rparr>) (wake_event sys (?v\<lparr>stop_requested := True\<rparr>))"
      by (rule leads_push(3)[OF K])
    finally show ?thesis
      by (cases "fold (\<lambda>cid (err, w). with_proc cid (request_stop ops t) err w) order (Cleared, v)") (simp add: stop_def)
  qed
  show ?thesis
  proof (cases "w_cmds w")
    case Nil
    then show ?thesis by (simp add: handle_worker_commands_def)
  next
    case (Cons c rest)
    have "leads exact interest w (w\<lparr>w_cmds := rest\<rparr>)" by (rule leads_same, rule same_view_frame) simp_all
    from this leads_trans[OF this stopped] show ?thesis
      using Cons by (simp add: handle_worker_commands_def Let_def)
  qed
qed

end
