(* ===== verification/Worker_Properties.thy ===== *)
theory Worker_Properties
  imports Worker_Steps
begin

text \<open>
  The reachable states of a worker, the invariants that hold in all of them, and the completion
  of commands.
\<close>

section \<open>Waiting keeps the view\<close>

lemma drain_interest:
  assumes K: "kernel_ok sys interest" and "drain sys fd s = Some s'"
  shows "interest (kern s') = interest (kern s)"
proof -
  have "kernel_ok sys interest \<longrightarrow> interest (kern s') = interest (kern s)"
  proof (rule drain.raw_induct[OF _ assms(2)])
    fix d sys fd s s'
    assume IH: "\<And>sys fd s s'. d sys fd s = Some s' \<Longrightarrow> kernel_ok sys interest \<longrightarrow> interest (kern s') = interest (kern s)"
      and "(case do_call (\<lambda>k. sc_read sys k fd) s of (ok, s) \<Rightarrow> if ok then d sys fd s else Some s) = Some s'"
    then show "kernel_ok sys interest \<longrightarrow> interest (kern s') = interest (kern s)"
      by (auto split: prod.splits if_splits dest!: kernel_calls(1))
  qed
  with K show ?thesis by simp
qed

lemma epoll_wait_loop_interest:
  assumes K: "kernel_ok sys interest" and "epoll_wait_loop sys m t s = Some r"
  shows "interest (kern (snd r)) = interest (kern s)"
proof -
  have "kernel_ok sys interest \<longrightarrow> interest (kern (snd r)) = interest (kern s)"
  proof (rule epoll_wait_loop.raw_induct[OF _ assms(2)])
    fix d sys m t s r
    assume IH: "\<And>sys m t s r. d sys m t s = Some r \<Longrightarrow> kernel_ok sys interest \<longrightarrow> interest (kern (snd r)) = interest (kern s)"
      and body: "(case do_value (\<lambda>k. sc_epoll_wait sys k (epollfd m) (length (mpx_events m)) t) s of
         (None, s) \<Rightarrow> if errno s = EINTR then d sys m t s else Some (None, s) | (Some evs, s) \<Rightarrow> Some (Some evs, s)) = Some r"
    obtain v s1 where v: "do_value (\<lambda>k. sc_epoll_wait sys k (epollfd m) (length (mpx_events m)) t) s = (v, s1)"
      by fastforce
    show "kernel_ok sys interest \<longrightarrow> interest (kern (snd r)) = interest (kern s)"
    proof
      assume K: "kernel_ok sys interest"
      have s1: "interest (kern s1) = interest (kern s)" by (rule kernel_calls(10)[OF K v])
      show "interest (kern (snd r)) = interest (kern s)"
      proof (cases "v = None \<and> errno s1 = EINTR")
        case True
        with body v have "d sys m t s1 = Some r" by simp
        with IH K s1 show ?thesis by fastforce
      next
        case False
        with body v have "snd r = s1" by (cases v) auto
        with s1 show ?thesis by simp
      qed
    qed
  qed
  with K show ?thesis by simp
qed

lemma compact_events_interest:
  assumes "kernel_ok sys interest" and "compact_events n sys ifd i evs v s = (Some r, s')"
  shows "interest (kern s') = interest (kern s)"
  using assms(2)
  by (induction n arbitrary: i evs v s)
     (auto split: if_splits option.splits dest!: drain_interest[OF assms(1)])

lemma wait_same_view:
  assumes K: "kernel_ok sys interest" and "wait sys (mpx w) err t (w_os w) = Some (r, m, err', s)"
  shows "same_view interest w (w\<lparr>mpx := m, w_os := s\<rparr>)"
proof -
  have "interest (kern s) = interest (kern (w_os w)) \<and> interruptor m = interruptor (mpx w) \<and> epollfd m = epollfd (mpx w)"
    using assms(2)
    by (auto simp: wait_def Let_def take_errno_def epoll_wait_throw_def
        split: if_splits option.splits prod.splits sum.splits
        dest!: epoll_wait_loop_interest[OF K] compact_events_interest[OF K] kernel_calls(11)[OF K])
  then show ?thesis by (simp add: same_view_def conn_view_def)
qed

section \<open>Reachable states\<close>

text \<open>A worker as it is constructed: no connections, and only the interruptor is registered.\<close>

definition started :: "'k interest_of \<Rightarrow> ('k, 'u) worker \<Rightarrow> bool" where
  "started interest w \<longleftrightarrow> connections w = Map.empty \<and> epollfd (mpx w) \<noteq> -1 \<and>
     (\<exists>f. interruptor (mpx w) = Some f \<and> 0 \<le> f \<and>
       registered interest (mpx w) (w_os w) = [f \<mapsto> EventHandle_u64 si_ctrl Event_In])"

text \<open>
  The second component is the list of commands that \<open>handle_pending\<close> has taken and not yet
  executed, so that other threads may queue commands, switch events and close connections
  between any two of them. An event may be anything, also one that is out of date.
\<close>

inductive reachable :: "bool \<Rightarrow> 'k syscalls \<Rightarrow> 'k interest_of \<Rightarrow> ('k, 'u) process_ops \<Rightarrow>
    ('k, 'u) worker \<Rightarrow> (nat \<times> 'u Command) list \<Rightarrow> bool"
  for exact sys interest ops where
  start: "started interest w \<Longrightarrow> reachable exact sys interest ops w []"
| queue: "reachable exact sys interest ops w P \<Longrightarrow> reachable exact sys interest ops (push_command sys c w) P"
| order: "reachable exact sys interest ops w P \<Longrightarrow> reachable exact sys interest ops (command_worker sys c w) P"
| wake: "reachable exact sys interest ops w P \<Longrightarrow> wait sys (mpx w) err t (w_os w) = Some (r, m, err', s) \<Longrightarrow>
    reachable exact sys interest ops (w\<lparr>mpx := m, w_os := s\<rparr>) P"
| obey: "reachable exact sys interest ops w P \<Longrightarrow>
    reachable exact sys interest ops (handle_worker_commands sys ops ord w) P"
| take: "reachable exact sys interest ops w [] \<Longrightarrow> extract_all w = (P, w') \<Longrightarrow> reachable exact sys interest ops w' P"
| exec: "reachable exact sys interest ops w ((i, c) # P) \<Longrightarrow> fresh_command sys interest c w \<Longrightarrow>
    reachable exact sys interest ops (execute sys ops i c w) P"
| event: "reachable exact sys interest ops w P \<Longrightarrow> run sys ops ev err w = (err', w') \<Longrightarrow>
    reachable exact sys interest ops w' P"
| close: "reachable exact sys interest ops w P \<Longrightarrow> close_connection sys h err w = (r, err', w') \<Longrightarrow>
    reachable exact sys interest ops w' P"
| switch: "reachable exact sys interest ops w P \<Longrightarrow> \<not> exact \<or> err = Cleared \<Longrightarrow>
    enable_event sys e h b err w = (r, err', w') \<Longrightarrow> reachable exact sys interest ops w' P"

lemma started_inv: "started interest w \<Longrightarrow> worker_inv exact interest w"
  by (auto simp: started_def worker_inv_def reg_inv_def reg_view_def conn_view_def handle_defs split: if_splits)

lemma extract_all_frame:
  "extract_all w = (P, w') \<Longrightarrow> P = cmds w \<and> w' = w\<lparr>cmds := []\<rparr>"
proof (induction w arbitrary: P w' rule: extract_all.induct)
  case (1 w)
  show ?case
  proof (cases "cmds w")
    case Nil
    then show ?thesis using 1(2) by (simp add: extract_all.simps[of w] extract_command_def)
  next
    case (Cons c rest)
    then have e: "extract_command w = (Some c, w\<lparr>cmds := rest\<rparr>)" by (simp add: extract_command_def)
    obtain Q v where q: "extract_all (w\<lparr>cmds := rest\<rparr>) = (Q, v)" by fastforce
    from 1(1)[OF e[symmetric] refl q] 1(2) e q Cons show ?thesis by (simp add: extract_all.simps[of w])
  qed
qed

lemma reachable_inv:
  assumes S: "setting_ok exact sys interest ops" and "reachable exact sys interest ops w P"
  shows "worker_inv exact interest w"
  using assms(2)
proof (induction rule: reachable.induct)
  case (start w)
  then show ?case by (rule started_inv)
next
  case (queue w P c)
  then show ?case using S by (auto simp: setting_ok_def intro: evolves_inv same_view_evolves same_view_push)
next
  case (order w P c)
  have "same_view interest w (w\<lparr>w_cmds := w_cmds w @ [c]\<rparr>)" by (rule same_view_frame) simp_all
  then have "same_view interest w (command_worker sys c w)"
    using S unfolding command_worker_def by (auto simp: setting_ok_def intro: same_view_trans same_view_wake)
  then show ?case using order by (auto intro: evolves_inv same_view_evolves)
next
  case (wake w P err t r m err' s)
  then show ?case using S by (auto simp: setting_ok_def intro: evolves_inv same_view_evolves wait_same_view)
next
  case (obey w P ord)
  then show ?case using handle_worker_commands_leads[OF S, of w ord] by (auto simp: leads_def intro: evolves_inv)
next
  case (take w P w')
  then have "same_view interest w w'" by (auto dest!: extract_all_frame intro!: same_view_frame)
  then show ?case using take by (auto intro: evolves_inv same_view_evolves)
next
  case (exec w i c P)
  have "epollfd (mpx w) \<noteq> -1" using exec(3) by (simp add: worker_inv_def)
  then show ?case using execute_leads[OF S exec(2), of i] exec(3) by (auto simp: leads_def intro: evolves_inv)
next
  case (event w P ev err err' w')
  then show ?case using run_leads[OF S event(2)] by (auto simp: leads_def intro: evolves_inv)
next
  case (close w P h err r err' w')
  then show ?case using S close_connection_leads[OF _ close(2)] by (auto simp: setting_ok_def leads_def intro: evolves_inv)
next
  case (switch w P err e h b r err' w')
  then show ?case using S by (auto simp: setting_ok_def intro: evolves_inv enable_event_evolves)
qed

end
