(* ===== verification/Worker_Completion.thy ===== *)
theory Worker_Completion
  imports Worker_Properties
begin

text \<open>
  The promises of commands: a value once set never changes, and a turn of the thread gives a
  value to every command that was queued, in the order of the queue.
\<close>

section \<open>Results are kept\<close>

definition keeps_results :: "('k, 'u) worker \<Rightarrow> ('k, 'u) worker \<Rightarrow> bool" where
  "keeps_results w w' \<longleftrightarrow> (\<forall>i e. results w i = Some e \<longrightarrow> results w' i = Some e)"

lemma keeps_refl [simp]: "keeps_results w w"
  by (simp add: keeps_results_def)

lemma keeps_trans: "keeps_results a b \<Longrightarrow> keeps_results b c \<Longrightarrow> keeps_results a c"
  by (simp add: keeps_results_def)

lemma keeps_same: "results w' = results w \<Longrightarrow> keeps_results w w'"
  by (simp add: keeps_results_def)

lemma keeps_set_error: "keeps_results w (set_error i err w)"
  by (auto simp: keeps_results_def set_error_def split: option.splits)

lemma set_error_sets: "results (set_error i err w) i \<noteq> None"
  by (simp add: set_error_def split: option.splits)

named_theorems results_simps "operations that set no promise"

lemma results_frame [results_simps, simp]:
  "results (wake_event sys w) = results w" "results (enqueue c w) = results w"
  "results (push_command sys c w) = results w" "results (assert_that b w) = results w"
  "results (close_socket sys c2 w) = results w" "results (erase_conn sys c2 w) = results w"
  "results (destroy_socket sys sk w) = results w" "results (fail_process sys c2 w) = results w"
  "results (server_asserts cs w) = results w"
  by (simp_all add: wake_event_def enqueue_def push_command_def assert_that_def close_socket_def erase_conn_def
      destroy_socket_def fail_process_def server_asserts_def Let_def split: option.split prod.split)

lemma results_push_commands [results_simps, simp]: "results (push_commands sys cs w) = results w"
proof -
  have "results (fold enqueue cs w) = results w" by (induction cs arbitrary: w) simp_all
  then show ?thesis by (simp add: push_commands_def)
qed

lemma results_drop [results_simps, simp]: "results (drop_connection sys h err w) = results w"
  by (simp add: drop_connection_def Let_def)

lemma results_on_os:
  "on_os f w = (a, w') \<Longrightarrow> results w' = results w" "on_os2 g w = (a, b, w') \<Longrightarrow> results w' = results w"
  by (auto simp: on_os_def on_os2_def split: prod.splits)

lemma results_tracking:
  "modify_tracking_event sys fd ev err w = (r, err', w') \<Longrightarrow> results w' = results w"
  "add_tracking_event sys fd ev err w = (r, err', w') \<Longrightarrow> results w' = results w"
  "remove_tracking_event sys fd err w = (r, err', w') \<Longrightarrow> results w' = results w"
  by (auto simp: modify_tracking_event_def add_tracking_event_def remove_tracking_event_def dest: results_on_os)

lemma results_insert: "insert_conn sys c cs w = (r, w') \<Longrightarrow> results w' = results w"
  by (auto simp: insert_conn_def split: if_splits)

lemma results_io: "make_connectionIO sk h n w = (io, err, w') \<Longrightarrow> results w' = results w"
  by (auto simp: make_connectionIO_def)

lemma results_enable: "enable_event sys e h b err w = (r, err', w') \<Longrightarrow> results w' = results w"
  by (auto simp: enable_event_def switch_event_def Let_def split: option.splits if_splits prod.splits dest: results_tracking)

lemma results_shutdown: "shutdown_connection sys h err w = (r, err', w') \<Longrightarrow> results w' = results w"
  by (auto simp: shutdown_connection_def split: option.splits dest: results_on_os)

lemma results_connect:
  assumes "connectInternal sys h conn sk err w = (r, err', w')"
  shows "results w' = results w"
proof -
  have f: "results v' = results v" if "finish_connect sys c cs e v = (b, e', v')" for c cs e v b e' v'
    using that by (auto simp: finish_connect_def Let_def split: if_splits prod.splits
        dest!: results_on_os results_insert results_tracking)
  show ?thesis
    using assms by (auto simp: connectInternal_def Let_def split: if_splits prod.splits
        dest!: results_on_os results_io results_tracking f)
qed

lemma results_attach:
  "attachConnectionInternal sys h conn buf sk err w = (r, err', w') \<Longrightarrow> results w' = results w"
  by (auto simp: attachConnectionInternal_def Let_def split: if_splits prod.splits
      dest!: results_on_os results_io results_tracking results_insert)

lemma results_remove: "removeConnectionInternal sys h err w = (r, err', w') \<Longrightarrow> results w' = results w"
  by (auto simp: removeConnectionInternal_def Let_def split: option.splits if_splits prod.splits
      dest!: results_on_os results_tracking)

lemma results_modify: "modifyConnectionInternal sys h opts err w = (r, err', w') \<Longrightarrow> results w' = results w"
  by (auto simp: modifyConnectionInternal_def split: option.splits prod.splits dest!: results_on_os)

lemma results_remove_process: "removeConnectionProcessInternal sys h err w = (r, err', w') \<Longrightarrow> results w' = results w"
  by (auto simp: removeConnectionProcessInternal_def Let_def split: option.splits if_splits prod.splits dest!: results_tracking)

lemma proc_steps_keep: "rtranclp (proc_step exact sys interest) w w' \<Longrightarrow> keeps_results w w'"
proof (induction rule: rtranclp_induct)
  case base
  then show ?case by simp
next
  case (step y z)
  from step(2) have "keeps_results y z"
    by (cases rule: proc_step.cases) (auto intro!: keeps_set_error keeps_same dest: results_enable results_shutdown)
  with step(3) show ?case by (rule keeps_trans)
qed

lemma with_proc_keeps:
  assumes "callback_ok exact sys interest f" and "with_proc c f err w = (err', w')"
  shows "keeps_results w w'"
proof (cases "Option.bind (connections w c) cs_proc")
  case None
  then show ?thesis using assms(2) by (auto simp: with_proc_def split: option.splits)
next
  case (Some p)
  obtain p1 w1 e1 where f: "f p w err = (p1, w1, e1)" by (cases "f p w err")
  have "keeps_results w w1"
    using assms(1) f proc_steps_keep unfolding callback_ok_def by (metis fst_conv snd_conv)
  moreover have "results w' = results w1"
    using assms(2) Some f by (auto simp: with_proc_def split: option.splits)
  ultimately show ?thesis by (simp add: keeps_results_def)
qed

section \<open>Commands are completed\<close>

text \<open>
  The commands whose execution always sets their promise. \<open>RequestData\<close> is completed by the
  process that takes the request, and \<open>AddConnection\<close> sets nothing when \<open>make_connection\<close> fails.
\<close>

fun completes :: "'u Command \<Rightarrow> bool" where
  "completes (AddConnection _ _ _ _ _) = False"
| "completes (RequestData _) = False"
| "completes _ = True"

lemma report_completes:
  "(\<And>b e w'. r = (b, e, w') \<Longrightarrow> keeps_results w w') \<Longrightarrow>
   keeps_results w (report i r) \<and> results (report i r) i \<noteq> None"
  by (cases r) (auto simp: report_def set_error_sets[simplified] intro: keeps_trans[OF _ keeps_set_error])

lemma add_process_keeps:
  assumes O: "ops_ok exact sys interest ops" and r: "addConnectionProcessInternal sys ops h p err w = (r, err', w')"
  shows "keeps_results w w'"
proof -
  have k: "keeps_results v v'" if "with_proc c (on_init_connection ops) e v = (e', v')" for c e v e' v'
    by (rule with_proc_keeps[OF ops_okD(3)[OF O] that])
  show ?thesis
    using r by (auto simp: addConnectionProcessInternal_def Let_def keeps_results_def
        split: if_splits option.splits prod.splits dest!: results_tracking k)
qed

lemma execute_keeps:
  assumes O: "ops_ok exact sys interest ops"
  shows "keeps_results w (execute sys ops i c w) \<and> (completes c \<longrightarrow> results (execute sys ops i c w) i \<noteq> None)"
proof (cases c)
  case (AddConnection h host port ty pr)
  then show ?thesis
    by (auto simp: execute_add_def Let_def keeps_same split: prod.split dest!: results_on_os results_connect
        intro: keeps_trans[OF keeps_same keeps_set_error] keeps_set_error)
next
  case (RequestData h)
  have push: "keeps_results v v'" if "with_proc cc (push_request ops i) e v = (e', v')" for cc e v e' v'
    by (rule with_proc_keeps[OF ops_okD(5)[OF O] that])
  have on: "keeps_results v v'" if "with_proc cc (on_push_request ops) e v = (e', v')" for cc e v e' v'
    by (rule with_proc_keeps[OF ops_okD(6)[OF O] that])
  have "keeps_results w w'" if "emplace_request_to_process ops i h w = (e, w')" for e w'
  proof -
    obtain e1 w1 where p: "with_proc (conn_id h) (push_request ops i) Cleared w = (e1, w1)" by fastforce
    obtain e2 w2 where q: "with_proc (conn_id h) (on_push_request ops) e1 w1 = (e2, w2)" by fastforce
    have "w' = w \<or> w' = w1 \<or> w' = w2"
      using that p q by (auto simp: emplace_request_to_process_def split: option.splits if_splits)
    with push[OF p] on[OF q] show ?thesis by (auto intro: keeps_trans)
  qed
  with RequestData show ?thesis by (auto split: prod.split intro: keeps_trans[OF _ keeps_set_error])
next
  case (TaskDone h)
  have k: "keeps_results w (set_error j e2 v')" if "with_proc cc (handle_event ops ev) e (assert_that b w) = (e', v')"
    for cc ev e b e' v' j e2
    by (rule keeps_trans[OF _ keeps_set_error], rule keeps_trans[OF _ with_proc_keeps[OF ops_okD(1)[OF O] that]])
       (simp add: keeps_same)
  show ?thesis
    using TaskDone
    by (auto simp: execute_task_done_def Let_def set_error_sets[simplified] keeps_set_error
        split: option.split prod.split intro: keeps_trans[OF keeps_same keeps_set_error] k)
next
  case (RequestStop h t)
  have k: "keeps_results v v'" if "with_proc cc (request_stop ops tt) e v = (e', v')" for cc tt e v e' v'
    by (rule with_proc_keeps[OF ops_okD(4)[OF O] that])
  have "keeps_results w w'" if "stop_process ops h t Cleared w = (b, e, w')" for b e w'
    using that k by (auto simp: stop_process_def split: option.splits if_splits prod.splits)
  with RequestStop report_completes[of "stop_process ops h t Cleared w" w i] show ?thesis by simp
next
  case (AttachConnection h conn buf sk)
  have "keeps_results w (execute sys ops i c w) \<and> results (execute sys ops i c w) i \<noteq> None"
    unfolding AttachConnection execute.simps by (rule report_completes) (rule keeps_same, erule results_attach)
  then show ?thesis by simp
next
  case (RemoveConnection h t)
  have "keeps_results w (execute sys ops i c w) \<and> results (execute sys ops i c w) i \<noteq> None"
    unfolding RemoveConnection execute.simps by (rule report_completes) (rule keeps_same, erule results_remove)
  then show ?thesis by simp
next
  case (ModifyConnection h opts)
  have "keeps_results w (execute sys ops i c w) \<and> results (execute sys ops i c w) i \<noteq> None"
    unfolding ModifyConnection execute.simps by (rule report_completes) (rule keeps_same, erule results_modify)
  then show ?thesis by simp
next
  case (AttachProcess h p)
  have "keeps_results w (execute sys ops i c w) \<and> results (execute sys ops i c w) i \<noteq> None"
    unfolding AttachProcess execute.simps by (rule report_completes) (erule add_process_keeps[OF O])
  then show ?thesis by simp
next
  case (RemoveProcess h t)
  have "keeps_results w (execute sys ops i c w) \<and> results (execute sys ops i c w) i \<noteq> None"
    unfolding RemoveProcess execute.simps by (rule report_completes) (rule keeps_same, erule results_remove_process)
  then show ?thesis by simp
next
  case (ShutDownConnection h)
  have "keeps_results w (execute sys ops i c w) \<and> results (execute sys ops i c w) i \<noteq> None"
    unfolding ShutDownConnection execute.simps by (rule report_completes) (rule keeps_same, erule results_shutdown)
  then show ?thesis by simp
qed

lemma execute_list_keeps:
  assumes O: "ops_ok exact sys interest ops"
  shows "keeps_results w (execute_list sys ops cs w) \<and>
    (\<forall>(i, c) \<in> set cs. completes c \<longrightarrow> results (execute_list sys ops cs w) i \<noteq> None)"
proof (induction cs arbitrary: w)
  case Nil
  then show ?case by simp
next
  case (Cons ic cs)
  obtain i c where ic: "ic = (i, c)" by fastforce
  note e = execute_keeps[OF O, of w i c] and r = Cons[of "execute sys ops i c w"]
  then have "completes c \<longrightarrow> results (execute_list sys ops cs (execute sys ops i c w)) i \<noteq> None"
    by (auto simp: keeps_results_def)
  with e r ic show ?case by (auto intro: keeps_trans)
qed

end
