(* ===== verification/Worker_Findings.thy ===== *)
theory Worker_Findings
  imports Worker_Completion
begin

text \<open>
  The properties of the worker and of the pool, with runs on the reference system as their
  witnesses, and the places where the code does something else than its surroundings expect.
\<close>

section \<open>A run on the reference system\<close>

abbreviation demo_sys :: "ref_kernel syscalls" where
  "demo_sys \<equiv> ref_sys (\<lambda>_. 0)"

definition idle_ops :: "(ref_kernel, unit) process_ops" where
  "idle_ops = \<lparr>on_read = (\<lambda>p w err. (p, w, err)), on_write = (\<lambda>p w err. (p, w, err)),
     on_task_done = (\<lambda>p w err. (p, w, err)), on_stop_requested = (\<lambda>p w err. (p, w, err)),
     on_init_connection = (\<lambda>p w err. (p, w, err)), task_is_ready = (\<lambda>p err. (True, err)),
     task_request_stop = (\<lambda>t p w err. (p, w, err))\<rparr>"

definition demo_worker :: "(ref_kernel, unit) worker" where
  "demo_worker = fst (new_worker demo_sys 1 ''server 0'' 2 Cleared \<lparr>errno = 0, kern = ref_start\<rparr>)"

definition demo_handle :: ConnectionHandle where
  "demo_handle = \<lparr>conn_id = 1, owner = Some 1\<rparr>"

definition demo_command :: "unit Command" where
  "demo_command = AttachConnection demo_handle (new_Connection []) 1024 (new_Socket 7)"

definition demo_queued :: "(ref_kernel, unit) worker" where
  "demo_queued = push_command demo_sys demo_command demo_worker"

definition demo_attached :: "(ref_kernel, unit) worker" where
  "demo_attached = execute demo_sys idle_ops 0 demo_command (demo_queued\<lparr>cmds := []\<rparr>)"

lemmas demo_defs = demo_worker_def demo_handle_def demo_command_def demo_queued_def demo_attached_def
  new_worker_def Multiplexor_def set_interruptor_def ref_sys_def ref_start_def ref_ctl_def ctl_effect_def
  do_value_def do_call_def epoll_ctl_def push_command_def enqueue_def wake_event_def interrupt_def

lemmas attach_defs = attachConnectionInternal_def add_tracking_event_def add_handle_def on_os2_def
  insert_conn_def make_connectionIO_def is_non_block_def new_Socket_def new_Connection_def
  set_connection_state_def report_def set_error_def assert_that_def handle_for_def upd_conn_def
  sk_valid_def is_valid_handler_def Let_def

lemma idle_ops_ok: "ops_ok exact sys interest idle_ops"
  by (simp add: ops_ok_def callback_ok_def idle_ops_def)

lemma demo_started: "started rk_interest demo_worker"
  by (auto simp: demo_defs started_def registered_def fun_upd_def)

lemma demo_registered:
  "registered rk_interest (mpx demo_attached) (w_os demo_attached) 7 =
     Some (EventHandle_u32 0xDEADBEEF00000000 1 events_attached)"
  by (simp add: demo_defs attach_defs registered_def)

lemma demo_connection:
  "\<exists>cs. connections demo_attached 1 = Some cs \<and> sk_fd (cs_socket cs) = 7 \<and> events_handled cs = events_attached"
  by (simp add: demo_defs attach_defs)

lemma demo_interruptor: "interruptor (mpx demo_attached) = Some 4"
  by (simp add: demo_defs attach_defs)

lemma demo_fresh: "fresh_command demo_sys rk_interest demo_command (demo_queued\<lparr>cmds := []\<rparr>)"
  by (simp add: demo_defs fresh_command_def fd_free_def free_fd_def conn_view_def registered_def new_Socket_def)

lemma demo_reachable: "reachable exact demo_sys rk_interest idle_ops demo_attached []"
proof -
  have q: "reachable exact demo_sys rk_interest idle_ops demo_queued []"
    unfolding demo_queued_def by (intro reachable.queue reachable.start demo_started)
  obtain P w where e: "extract_all demo_queued = (P, w)" by fastforce
  have c: "cmds demo_queued = [(0, demo_command)]"
    by (simp add: demo_queued_def push_command_def enqueue_def wake_event_def demo_worker_def new_worker_def
        split: prod.split)
  from extract_all_frame[OF e] c have "P = [(0, demo_command)]" "w = demo_queued\<lparr>cmds := []\<rparr>" by simp_all
  with reachable.take[OF q e] have "reachable exact demo_sys rk_interest idle_ops (demo_queued\<lparr>cmds := []\<rparr>) [(0, demo_command)]"
    by simp
  from reachable.exec[OF this demo_fresh] show ?thesis by (simp add: demo_attached_def)
qed

section \<open>Events reach their connection\<close>

text \<open>
  C6. In every reachable state of a worker, whatever the system refuses and whatever the
  processes do with the worker's interface, a descriptor that the multiplexor has registered,
  the interruptor apart, is the descriptor of exactly one connection, the one whose identifier
  is in the registered event: no event is delivered to a removed connection or to another one.
\<close>

theorem worker_routes_events:
  assumes "kernel_ok sys interest" and "ops_ok False sys interest ops" and "reachable False sys interest ops w pending"
    and "registered interest (mpx w) (w_os w) fd = Some ev" and "Some fd \<noteq> interruptor (mpx w)"
  shows "\<exists>cs. connections w (get_as_32 ev) = Some cs \<and> sk_fd (cs_socket cs) = fd \<and>
     (\<forall>c cs'. connections w c = Some cs' \<and> sk_fd (cs_socket cs') = fd \<longrightarrow> c = get_as_32 ev)"
proof -
  have S: "setting_ok False sys interest ops" using assms(1,2) by (simp add: setting_ok_def)
  let ?V = "conn_view w" and ?R = "registered interest (mpx w) (w_os w)"
  have I: "reg_inv False (interruptor (mpx w)) (epollfd (mpx w)) (?V, ?R)"
    using reachable_inv[OF S assms(3)] by (simp add: worker_inv_def reg_view_def)
  from reg_invD(1)[OF I assms(4,5)] obtain e where fd: "0 \<le> fd" and V: "?V (get_as_32 ev) = Some (fd, e)" by auto
  have "c = get_as_32 ev" if "connections w c = Some cs'" "sk_fd (cs_socket cs') = fd" for c cs'
    using reg_invD(2)[OF I _ V fd, of c "events_handled cs'"] that by (simp add: conn_view_def)
  with V show ?thesis by (auto simp: conn_view_def)
qed

theorem worker_routes_events_witness:
  "\<exists>cs. connections demo_attached 1 = Some cs \<and> sk_fd (cs_socket cs) = 7"
proof -
  have "Some 7 \<noteq> interruptor (mpx demo_attached)" by (simp add: demo_interruptor)
  from worker_routes_events[OF ref_kernel_ok idle_ops_ok demo_reachable demo_registered this]
  show ?thesis by auto
qed



section \<open>Commands complete\<close>



section \<open>Where the code surprises\<close>

definition full_sys :: "ref_kernel syscalls" where
  "full_sys = ref_sys (\<lambda>fd. if fd = 7 then 28 else 0)"

lemmas full_defs = full_sys_def demo_defs attach_defs remove_def throw_defs

text \<open>
  A registration refused with \<open>ENOSPC\<close>: the error that \<open>add\<close> stores has the value 0, and attaching
  looks at nothing else. The connection is active and will never see an event.
\<close>

lemma attach_ignores_refusal:
  "\<exists>w cs. attachConnectionInternal full_sys demo_handle (new_Connection []) 1024 (new_Socket 7) Cleared demo_worker = (True, Cleared, w) \<and>
     connections w 1 = Some cs \<and> state (cs_conn cs) = Active \<and> sk_fd (cs_socket cs) = 7 \<and>
     registered rk_interest (mpx w) (w_os w) 7 = None"
  by (simp add: full_defs)

text \<open>
  \<open>handle_sending_error\<close> switches writing off while the error code still holds
  \<open>no_buffer_space\<close>: the registration loses the event, the record keeps it, and switching writing
  on again does nothing.
\<close>

definition writing_worker :: "(ref_kernel, unit) worker" where
  "writing_worker = snd (snd (enable_writing demo_sys demo_handle True Cleared demo_attached))"

definition stalled_worker :: "(ref_kernel, unit) worker" where
  "stalled_worker = snd (snd (enable_writing demo_sys demo_handle False (Generic ENOBUFS) writing_worker))"

lemmas enable_defs = enable_writing_def enable_event_def switch_event_def modify_tracking_event_def
  modify_handle_def native_def event_ops events_attached_def event_defs

definition registered_events :: "(ref_kernel, unit) worker \<Rightarrow> int \<Rightarrow> Event option" where
  "registered_events w fd = map_option ev_events (registered rk_interest (mpx w) (w_os w) fd)"

lemma stalled_writer:
  "registered_events writing_worker 7 = Some 0x1C \<and> registered_events stalled_worker 7 = Some 0x18 \<and>
   enable_writing demo_sys demo_handle True Cleared stalled_worker = (False, Cleared, stalled_worker)"
  by (simp add: stalled_worker_def writing_worker_def demo_defs attach_defs enable_defs registered_def
      registered_events_def)

text \<open>
  A connection that \<open>connect\<close> refuses at once: the error goes to a variable that hides the
  parameter, and the command reports success.
\<close>

definition refusing_worker :: "(ref_kernel, unit) worker" where
  "refusing_worker = fst (new_worker demo_sys 1 ''client'' 2 Cleared \<lparr>errno = 0, kern = ref_start\<lparr>rk_connect := 111\<rparr>\<rparr>)"

lemmas connect_defs = connectInternal_def finish_connect_def set_no_block_def on_os_def destroy_socket_def
  sk_close_def native_def

lemma refused_connect_reports_success:
  "\<exists>w. execute demo_sys idle_ops 0 (AddConnection demo_handle ''127.0.0.1'' 80 1 6) refusing_worker = w \<and>
     connections w 1 = None \<and> results w 0 = Some Cleared"
  by (simp add: refusing_worker_def execute_add_def demo_defs attach_defs connect_defs same_owner_def make_address_def
      Address_def sockaddr_in_def le16_def htons_def family_of_def make_socket_def addr_valid_def)

text \<open>
  \<open>shutdown_all\<close> takes an old \<open>errno\<close> for its own: after \<open>wait\<close> has drained the interruptor it is
  \<open>EAGAIN\<close>, and a removal that works reports that error.
\<close>

lemma removal_reports_stale_errno:
  "\<exists>w. execute demo_sys idle_ops 1 (RemoveConnection demo_handle 0)
       (demo_attached\<lparr>w_os := (w_os demo_attached)\<lparr>errno := EAGAIN\<rparr>\<rparr>) = w \<and>
     connections w 1 = None \<and> results w 1 = Some (Generic EAGAIN)"
  by (simp add: demo_defs attach_defs removeConnectionInternal_def shutdown_all_def sk_shutdown_def take_errno_def
      erase_conn_def close_socket_def sk_close_def)

text \<open>A worker whose multiplexor could not be made reports no error.\<close>

lemma new_worker_hides_failure:
  "fst (snd (Multiplexor (demo_sys\<lparr>sc_epoll_create := (\<lambda>k n. (Inl 24, k))\<rparr>) 24 Cleared \<lparr>errno = 0, kern = ref_start\<rparr>)) = Generic 24 \<and>
   snd (new_worker (demo_sys\<lparr>sc_epoll_create := (\<lambda>k n. (Inl 24, k))\<rparr>) 0 ''server 0'' 24 Cleared \<lparr>errno = 0, kern = ref_start\<rparr>
     :: (ref_kernel, unit) worker \<times> error_code) = Cleared"
  by (simp add: Multiplexor_def new_worker_def do_value_def take_errno_def split: prod.split)

text \<open>
  Removing the process of a connection that is not tracked for reading switches reading on: the
  code inverts the event instead of clearing it.
\<close>

lemma remove_process_enables_reading:
  "registered_events demo_attached 7 = Some 0x18 \<and>
   registered_events (execute demo_sys idle_ops 1 (RemoveProcess demo_handle 0) demo_attached) 7 = Some 0x19"
  by (simp add: demo_defs attach_defs removeConnectionProcessInternal_def enable_defs registered_def registered_events_def)

text \<open>When the counter of identifiers wraps around, two connections in a row get the same one.\<close>

lemma identifiers_repeat:
  "fst (new_ConnectionHandle own 0) = fst (new_ConnectionHandle own (snd (new_ConnectionHandle own 0)))"
  by (simp add: new_ConnectionHandle_def)

text \<open>
  A connection that becomes established: its process is discarded and its removal queued although
  the initialisation has not failed.
\<close>

definition waiting_process :: "unit process" where
  "waiting_process = \<lparr>has_task = False, requestable = False, requests = [], active_request = None, io_set = True, user = ()\<rparr>"

definition connecting_worker :: "(ref_kernel, unit) worker" where
  "connecting_worker = upd_conn 1 (\<lambda>cs. set_connection_state Connecting (cs\<lparr>cs_proc := Some waiting_process\<rparr>)) demo_attached\<lparr>w_name := ''client''\<rparr>"

lemma established_process_dropped:
  "\<exists>e w cs. run demo_sys idle_ops (EventHandle_u32 0 1 Event_Out) Cleared connecting_worker = (e, w) \<and> e = Cleared \<and>
     connections w 1 = Some cs \<and> cs_proc cs = None \<and> state (cs_conn cs) = Active \<and>
     map snd (cmds w) = [RemoveConnection \<lparr>conn_id = 1, owner = Some 1\<rparr> 0]"
  by (simp add: connecting_worker_def waiting_process_def demo_defs attach_defs run_def handle_events_def enable_defs
      server_asserts_def sk_error_def establish_def with_proc_def reset_process_def connection_handle_def dispatch_def
      idle_ops_def set_events_def EventHandle_u32_def get_as_32_def with_low32_def)

text \<open>A request is announced to the process twice.\<close>

definition counting_ops :: "(ref_kernel, nat) process_ops" where
  "counting_ops = \<lparr>on_read = (\<lambda>p w err. (p, w, err)), on_write = (\<lambda>p w err. (p\<lparr>user := user p + 1\<rparr>, w, err)),
     on_task_done = (\<lambda>p w err. (p, w, err)), on_stop_requested = (\<lambda>p w err. (p, w, err)),
     on_init_connection = (\<lambda>p w err. (p, w, err)), task_is_ready = (\<lambda>p err. (True, err)),
     task_request_stop = (\<lambda>t p w err. (p, w, err))\<rparr>"

lemma request_announced_twice:
  assumes "connections w (conn_id h) = Some cs" and "cs_proc cs = Some p" and "requestable p" and "user p = 0"
  shows "\<exists>w' cs' p'. emplace_request_to_process counting_ops i h w = (Cleared, w') \<and>
     connections w' (conn_id h) = Some cs' \<and> cs_proc cs' = Some p' \<and> requests p' = requests p @ [Some i] \<and> user p' = 2"
  using assms by (simp add: emplace_request_to_process_def with_proc_def push_request_def on_push_request_def counting_ops_def)

end
