(* ===== verification/Connection_Properties.thy ===== *)
theory Connection_Properties
  imports Connection_IO Serialization_Properties Worker_Findings
begin

text \<open>
  What the two ends of a connection promise each other. Between two messages the receiving end is
  \<open>io_ready\<close>: nothing received is left, neither in the ring nor in the stream. A message that arrives
  as a whole is then delivered, and the end is ready again; what happens otherwise is shown in
  \<open>Connection_Findings\<close>. The sending end hands the messages over in order and keeps the event
  \<open>Out\<close> switched on exactly as long as something is unsent.
\<close>

section \<open>Reading at level 0\<close>

text \<open>
  An object that is read from an idle stream leaves it idle: everything registered is forgotten,
  and the views hold exactly the bytes that follow.
\<close>

definition at_start :: "mbview \<Rightarrow> bool" where
  "at_start m \<longleftrightarrow> span_idx m = 0 \<and> offset m = 0"

lemma at_start_simps: "at_start m \<Longrightarrow> mb_inv m" "at_start m \<Longrightarrow> position m = 0" "at_start m \<Longrightarrow> pending m = concat (buffers m)"
  by (auto simp: at_start_def mb_inv_def position_def pending_def)

lemma flush_at_start: "flush_deserialized m = Defined (n, m') \<Longrightarrow> at_start m'"
  by (auto simp: flush_deserialized_def at_start_def split: access.splits)

lemma flush_nothing: "at_start m \<Longrightarrow> flush_deserialized m = Defined (0, m)"
  by (cases "buffers m") (auto simp: at_start_def flush_deserialized_def)

context functor_codec
begin

lemma object_idle:
  assumes "wt v" and "cln old" and "idle st" and "avail st = enc v @ rest"
  shows "\<exists>st'. deserialize_object F old st = (Code NONE, v, st') \<and> idle st' \<and> at_start (view st')
      \<and> avail st' = rest"
proof -
  let ?st = "st\<lparr>level := 1\<rparr>"
  have "entered ?st" using entered_enter [of st] assms(3) idle_ready [of st] by (simp add: idle_def)
  with F_decode [OF assms(1,2), of ?st rest] assms(4)
  obtain st1 where F: "F old ?st = (Code NONE, v, st1)" "ready st1" "avail st1 = rest" "level st1 = 1"
    by (auto simp: kept_below_def)
  obtain m where m: "flush_deserialized (view st1) = Defined (position (view st1), m)" "pending m = rest"
    using flush_ok [of "view st1"] F(2,3) by (auto simp: ready_def)
  from flush_at_start [OF m(1)] F m assms(3) show ?thesis
    by (auto simp: deserialize_object_def finish_success_def idle_def at_start_simps)
qed

end

section \<open>The receiving end\<close>

definition io_ready :: "connectionIO \<Rightarrow> bool" where
  "io_ready io \<longleftrightarrow> ring_inv (recv_buffer io) \<and> contents (recv_buffer io) = []
     \<and> idle (serializer io) \<and> at_start (view (serializer io))
     \<and> (\<forall>b \<in> set (buffers (view (serializer io))). b = []) \<and> (\<forall>s \<in> set (spans io). iov_len s = 0)"

lemma new_io_ready: "n < 2 ^ 63 \<Longrightarrow> io_ready (new_ConnectionIO h n)"
  using set_capacity_contents [of n "0 :: byte" "\<lparr>buf = [], head = 0, tail = 0, full = False\<rparr>"]
  using idle_StreamSerializer
  by (simp add: io_ready_def new_ConnectionIO_def RingBuffer_def)
    (simp add: at_start_def StreamSerializer_def MultiBufferView_def)

lemma iov_load_empty: "iov_len s = 0 \<Longrightarrow> iov_load xs s = []"
  by (simp add: iov_load_def split: option.split)

lemma ring_spans_contents:
  assumes "ring_inv r" and "contents r \<noteq> []"
  shows "iov_load (buf r) (fst (ring_spans r)) @ iov_load (buf r) (snd (ring_spans r)) = contents r"
proof -
  have "iov_load (buf r) (fst (ring_spans r)) = fst (ring_data r)"
      "iov_load (buf r) (snd (ring_spans r)) = snd (ring_data r)"
    by (simp_all add: ring_spans_def ring_data_def iov_load_def capacity_def Let_def)
  with data_contents [OF assms] show ?thesis by simp
qed

lemma push_span_simps [simp]:
  "recv_buffer (push_span s io) = recv_buffer io" "send_buffer (push_span s io) = send_buffer io"
  "io_hconn (push_span s io) = io_hconn io"
  by (simp_all add: push_span_def)

lemma push_span_idle:
  "idle (serializer io) \<Longrightarrow> at_start (view (serializer io)) \<Longrightarrow>
   idle (serializer (push_span s io)) \<and> at_start (view (serializer (push_span s io)))
   \<and> concat (map (iov_load xs) (spans (push_span s io))) = concat (map (iov_load xs) (spans io)) @ iov_load xs s"
  using push_view_idle [of "serializer io"]
  by (auto simp: push_span_def push_view_def reset_iterator_def push_def at_start_def iov_load_empty)

lemma loaded_views:
  assumes "io_ready io" and "ring_inv r" and "contents r \<noteq> []"
  shows "idle (load_views (push_data (io\<lparr>recv_buffer := r\<rparr>))) \<and> avail (load_views (push_data (io\<lparr>recv_buffer := r\<rparr>))) = contents r
    \<and> recv_buffer (push_data (io\<lparr>recv_buffer := r\<rparr>)) = r"
proof -
  obtain s1 s2 where s: "ring_spans r = (s1, s2)" by fastforce
  let ?io = "io\<lparr>recv_buffer := r\<rparr>" and ?load = "\<lambda>io. concat (map (iov_load (buf r)) (spans io))"
  have i: "idle (serializer ?io)" "at_start (view (serializer ?io))" "?load ?io = []"
    using assms(1) by (auto simp: io_ready_def iov_load_empty)
  note p1 = push_span_idle [OF i(1,2), of s1 "buf r"]
  note p2 = push_span_idle [of "push_span s1 ?io" s2 "buf r"]
  have "?load (push_span s2 (push_span s1 ?io)) = contents r"
    using p1 p2 i(3) ring_spans_contents [OF assms(2,3)] s by simp
  with p1 p2 s show ?thesis
    by (auto simp: push_data_def load_views_def idle_def at_start_def mb_inv_def pending_def)
qed

lemma cut_spans_empty:
  "\<forall>b \<in> set bs. b = [] \<Longrightarrow> \<forall>s \<in> set (map2 cut_span ss bs). iov_len s = 0"
  by (auto simp: cut_span_def dest: set_zip_rightD)

lemma set_stream_simps [simp]:
  "recv_buffer (set_stream st io) = recv_buffer io" "serializer (set_stream st io) = st"
  "io_hconn (set_stream st io) = io_hconn io" "send_buffer (set_stream st io) = send_buffer io"
  by (simp_all add: set_stream_def Let_def)

lemma set_stream_ready:
  assumes "ring_inv (recv_buffer io)" and "contents (recv_buffer io) = []"
    and "idle st" and "at_start (view st)" and "avail st = []"
  shows "io_ready (set_stream st io)"
proof -
  have "\<forall>b \<in> set (buffers (view st)). b = []" using assms(4,5) by (simp add: at_start_simps)
  with assms cut_spans_empty [OF this] show ?thesis
    by (auto simp: io_ready_def set_stream_def Let_def)
qed

lemma commit_received_0: "commit_received 0 io = Defined io"
  by (cases io) (simp add: commit_received_def commit_read_def)

lemma commit_flushed_ready:
  assumes "io_ready io"
  shows "\<exists>io'. commit_flushed io = Defined io' \<and> io_ready io' \<and> recv_buffer io' = recv_buffer io"
proof -
  have "flush (serializer io) = Defined (0, serializer io)"
    using assms flush_nothing [of "view (serializer io)"] by (simp add: flush_def io_ready_def)
  moreover have "io_ready (set_stream (serializer io) io)"
    using assms by (intro set_stream_ready) (auto simp: io_ready_def at_start_simps)
  ultimately show ?thesis by (simp add: commit_flushed_def commit_received_0)
qed

text \<open>A whole message, and nothing else, in the ring.\<close>

lemma io_deserialize_message:
  assumes "wf_ty t" and "deserializable t" and "size_ok t" and "\<not> number_ty t" and "has_ty t v" and "clean t old"
    and "io_ready io" and "ring_inv r" and "contents r = encode True h t v" and "contents r \<noteq> []"
  shows "\<exists>io'. io_deserialize h t old (io\<lparr>recv_buffer := r\<rparr>) = Defined (NONE, v, io') \<and> io_ready io'
      \<and> capacity (recv_buffer io') = capacity r"
proof -
  let ?io = "push_data (io\<lparr>recv_buffer := r\<rparr>)"
  note l = loaded_views [OF assms(7,8,10)]
  have g: "good_order True h" by (simp add: good_order_def)
  have "ring_size r < 2 ^ 63" by (rule ring_size_bound [OF assms(8)])
  moreover have "0 < ring_size r" using assms(10) length_contents [of r] by (metis gr0I length_0_conv)
  moreover have "ring_size r = length (encode True h t v)" using assms(9) length_contents [of r] by simp
  ultimately have n: "ring_size r = length (encode True h t v)" "ring_size r < 2 ^ 63" "0 < ring_size r" by blast+
  then have sz: "Serial_size t v = ring_size r"
    using Serial_size_agrees [OF assms(1,3,5), of True h] by (simp add: sizes_agree_def SIZE_MAX_def)
  have cap: "0 < capacity r" using n(3) ring_inv_facts(1) [OF assms(8)] by linarith
  obtain st where st: "deserialize_network h t old (load_views ?io) = (Code NONE, v, st)" "idle st"
      "at_start (view st)" "avail st = []"
    using functor_codec.object_idle [OF stream_functor [OF assms(1,2) g assms(4)] assms(5,6), of "load_views ?io" "[]"]
      l assms(9) stream_deserialize_object [OF assms(4,2)]
    by (auto simp: deserialize_network_def)
  obtain r' where r': "commit_read (ring_size r) r = Defined r'" "ring_inv r'" "capacity r' = capacity r"
      "contents r' = []"
    using commit_read_contents [OF assms(8) cap, of "ring_size r"] by auto
  have "io_ready (set_stream st (?io\<lparr>recv_buffer := r'\<rparr>))"
    using st r' by (intro set_stream_ready) simp_all
  moreover have "set_stream st (?io\<lparr>recv_buffer := r'\<rparr>) = set_stream st ?io\<lparr>recv_buffer := r'\<rparr>"
    by (simp add: set_stream_def Let_def)
  ultimately show ?thesis
    using st(1) l r' sz by (simp add: io_deserialize_def commit_received_def)
qed

lemma io_receive_message:
  assumes "wf_ty t" and "deserializable t" and "size_ok t" and "\<not> number_ty t" and "has_ty t v" and "clean t old"
    and "io_ready io" and "sk_valid sk" and "encode True h t v \<noteq> []"
    and "length (encode True h t v) \<le> capacity (recv_buffer io)"
    and "readv (capacity (recv_buffer io)) = Received (encode True h t v)"
  shows "\<exists>io'. io_receive sys readv sk (io_deserialize h t) old err io w
        = Defined (int (length (encode True h t v)), Cleared, v, io', w)
      \<and> io_ready io' \<and> capacity (recv_buffer io') = capacity (recv_buffer io)"
proof -
  let ?r = "recv_buffer io" and ?e = "encode True h t v"
  have inv: "ring_inv ?r" "contents ?r = []" using assms(7) by (simp_all add: io_ready_def)
  then have sz: "ring_size ?r = 0" using length_contents [of ?r] by simp
  have cap: "0 < capacity ?r" using assms(9,10) by (cases ?e) auto
  have "capacity ?r < 2 ^ 63" using inv(1) by (simp add: ring_inv_def)
  with sz have free: "free_space io = capacity ?r" by (simp add: free_space_def)
  obtain r where r: "receive_to_ring_buffer readv ?r = Defined (length ?e, None, r)" "ring_inv r"
      "capacity r = capacity ?r" "contents r = ?e"
    using receive_data [where readv = readv and r = ?r and data = ?e] inv sz assms(9-11) by auto
  have rc: "recv_internal sys readv sk err io w = Defined (int (length ?e), Cleared, io\<lparr>recv_buffer := r\<rparr>, w)"
    using assms(8) free cap r(1) by (simp add: recv_internal_def)
  obtain io1 where io1: "io_deserialize h t old (io\<lparr>recv_buffer := r\<rparr>) = Defined (NONE, v, io1)" "io_ready io1"
      "capacity (recv_buffer io1) = capacity r"
    using io_deserialize_message [OF assms(1-7) r(2,4)] r(4) assms(9) by auto
  from commit_flushed_ready [OF io1(2)] show ?thesis
    using rc io1 cap r(3) by (auto simp: io_receive_def assert_that_def)
qed

section \<open>The sending end\<close>

text \<open>What \<open>send_internal\<close> does when \<open>writev\<close> takes some of the unsent bytes.\<close>

lemma send_internal_takes:
  assumes "vec_inv (send_buffer io)" and "length (vbuf (send_buffer io)) < 2 ^ 32" and "unsent (send_buffer io) \<noteq> []"
    and "sk_valid sk" and "writev (unsent (send_buffer io)) = Taken n" and "0 < n"
    and on: "io_enable_writable sys io True err w = (e1, w1)"
    and off: "io_enable_writable sys io False Cleared w1 = (e2, w2)"
  shows "\<exists>b. send_internal sys writev sk err io w
        = Defined (int n, if unsent b = [] then (e2, io\<lparr>send_buffer := b\<rparr>, w2) else (Cleared, io\<lparr>send_buffer := b\<rparr>, w1))
      \<and> vec_inv b \<and> unsent b = drop n (unsent (send_buffer io)) \<and> (unsent b = [] \<longrightarrow> vbuf b = [])
      \<and> length (vbuf b) \<le> length (vbuf (send_buffer io))"
proof -
  let ?b = "send_buffer io"
  obtain b1 where "consume n ?b = Some b1" "vec_inv b1" "unsent b1 = drop n (unsent ?b)"
      "length (vbuf b1) = length (vbuf ?b)"
    using consume_unsent [OF assms(1,2)] by blast
  with compact_unsent [of b1] obtain b where b: "consume_then False n ?b = Defined b" "vec_inv b"
      "unsent b = drop n (unsent ?b)" "active_el b = 0" "length (vbuf b) \<le> length (vbuf ?b)" "compact b = b"
    by (auto simp: consume_then_def) (metis compact_def less_numeral_extra(3))
  have h: "has_to_write ?b" "has_to_write b \<longleftrightarrow> unsent b \<noteq> []"
    using has_to_write_unsent [OF assms(1)] has_to_write_unsent [OF b(2)] assms(3) by simp_all
  have e: "unsent b = [] \<longrightarrow> vbuf b = []" using h(2) b(4) by (auto simp: has_to_write_def)
  have v: "send_vectorized writev False None ?b = Defined (n, None, b)"
    using vec_gather_unsent [OF assms(1,2)] h(1) assms(5,6) b(1)
    by (simp add: send_vectorized_def remaining_def has_to_write_def)
  have "send_internal sys writev sk err io w
      = Defined (int n, if unsent b = [] then (e2, io\<lparr>send_buffer := b\<rparr>, w2) else (Cleared, io\<lparr>send_buffer := b\<rparr>, w1))"
    using assms(4,6) h v on off b(6)
    by (simp add: send_internal_def code_after_send_def io_enable_writable_def clear_send_buffer_def)
  with b e show ?thesis by blast
qed

text \<open>Between two messages nothing is unsent.\<close>

definition sent_out :: "connectionIO \<Rightarrow> bool" where
  "sent_out io \<longleftrightarrow> vec_inv (send_buffer io) \<and> vbuf (send_buffer io) = []"

lemma new_sent_out: "sent_out (new_ConnectionIO h n)"
  by (simp add: sent_out_def new_ConnectionIO_def VectorizedBuffer_def vec_inv_def)

definition wire_bytes :: "(vecbuf \<Rightarrow> SerializationEC \<times> vecbuf) \<Rightarrow> vecbuf \<Rightarrow> byte list" where
  "wire_bytes serialize b = (case vec_gather (snd (serialize b)) of Defined bytes \<Rightarrow> bytes | OutOfBounds \<Rightarrow> [])"

lemma io_send_message:
  assumes "wf_ty t" and "has_ty t v" and "sent_out io" and "sk_valid sk" and "encode True h' t v \<noteq> []"
  shows "(\<exists>e io' w'. io_send sys (\<lambda>bytes. Taken (length bytes)) sk (vec_serialize h t v) err io w
        = Defined (int (length (encode True h' t v)), e, io', w') \<and> sent_out io')
     \<and> wire_bytes (vec_serialize h t v) (send_buffer io) = encode True h' t v"
proof -
  let ?e = "encode True h' t v" and ?b = "push_buffer (encode True h' t v) (send_buffer io)"
  have b0: "vec_inv (send_buffer io)" "unsent (send_buffer io) = []" "length (vbuf (send_buffer io)) = 0"
    using assms(3) by (auto simp: sent_out_def unsent_def)
  have ser: "vec_serialize h t v (send_buffer io) = (NONE, ?b)"
    by (simp add: vec_serialize_def serialize_network_encode [OF assms(1,2), of h "[]" h'])
  have b: "vec_inv ?b" "unsent ?b = ?e" "length (vbuf ?b) \<le> 1"
    using push_buffer_unsent [OF b0(1), of ?e] b0(2,3) by auto
  then have lt: "length (vbuf ?b) < 2 ^ 32" by simp
  have d: "vec_data ?b \<noteq> []" using assms(5) by (simp add: vec_data_def push_buffer_def)
  let ?io = "io\<lparr>send_buffer := ?b\<rparr>"
  obtain e1 w1 where on: "io_enable_writable sys ?io True err w = (e1, w1)" by fastforce
  obtain e2 w2 where off: "io_enable_writable sys ?io False Cleared w1 = (e2, w2)" by fastforce
  obtain b2 where "send_internal sys (\<lambda>bytes. Taken (length bytes)) sk err ?io w
        = Defined (int (length ?e), e2, ?io\<lparr>send_buffer := b2\<rparr>, w2)" "vec_inv b2" "vbuf b2 = []"
    using send_internal_takes [where io = ?io and writev = "\<lambda>bytes. Taken (length bytes)" and n = "length ?e",
        OF _ _ _ assms(4) _ _ on off] b lt assms(5) by auto
  then show ?thesis
    using ser d vec_gather_unsent [OF b(1) lt] b(2)
    by (simp add: io_send_def sent_out_def wire_bytes_def)
qed

section \<open>A conversation\<close>

text \<open>
  One end sends messages, each is taken by its system in one piece and arrives at the other end
  in one piece before the next one is sent. The results of an exchange are, per message, the
  numbers that \<open>send\<close> and \<open>receive\<close> return, the error code of \<open>receive\<close>, and the value.
\<close>

fun exchange :: "'k syscalls \<Rightarrow> host \<Rightarrow> Socket \<Rightarrow> 'l syscalls \<Rightarrow> host \<Rightarrow> Socket \<Rightarrow> (ty \<times> val \<times> val) list
    \<Rightarrow> connectionIO \<times> ('k, 'u) worker \<Rightarrow> connectionIO \<times> ('l, 'v) worker \<Rightarrow> (int \<times> int \<times> error_code \<times> val) list access" where
  "exchange sys h sk sys' h' sk' [] a b = Defined []"
| "exchange sys h sk sys' h' sk' ((t, v, old) # ms) a b =
     and_then (io_send sys (\<lambda>bytes. Taken (length bytes)) sk (vec_serialize h t v) Cleared (fst a) (snd a))
       (\<lambda>(n, e, a'). and_then (io_receive sys'
           (\<lambda>room. Received (take room (wire_bytes (vec_serialize h t v) (send_buffer (fst a)))))
           sk' (io_deserialize h' t) old Cleared (fst b) (snd b))
       (\<lambda>(m, e', x, b'). map_access (Cons (n, m, e', x)) (exchange sys h sk sys' h' sk' ms a' b')))"

definition message_ok :: "nat \<Rightarrow> ty \<times> val \<times> val \<Rightarrow> bool" where
  "message_ok room = (\<lambda>(t, v, old). wf_ty t \<and> deserializable t \<and> size_ok t \<and> \<not> number_ty t \<and> has_ty t v \<and> clean t old
     \<and> encode True LittleHost t v \<noteq> [] \<and> length (encode True LittleHost t v) \<le> room)"


abbreviation open_socket :: Socket where
  "open_socket \<equiv> \<lparr>sk_fd = 7, sk_closed = False\<rparr>"


section \<open>The worker\<close>

text \<open>
  Towards the worker sending and receiving only switch events: a process whose functions use its
  \<open>ConnectionIO\<close> keeps to the interface that \<open>ops_ok\<close> asks for, so that the invariant of the worker
  also holds with such processes.
\<close>

lemma io_switch_step:
  "io_enable_writable sys io b err w = (e, w') \<Longrightarrow> proc_step False sys interest w w'"
  "io_enable_readable sys io b err w = (e, w') \<Longrightarrow> proc_step False sys interest w w'"
  unfolding io_enable_writable_def io_enable_readable_def enable_writing_def enable_readable_def
  by (metis proc_step.switch prod.collapse snd_conv)+

lemma io_switch_steps:
  "io_enable_writable sys io b err w = (e, w') \<Longrightarrow> rtranclp (proc_step False sys interest) w w'"
  "io_enable_readable sys io b err w = (e, w') \<Longrightarrow> rtranclp (proc_step False sys interest) w w'"
  "io_enable_writable sys io b err w = (e, w1) \<Longrightarrow> io_enable_writable sys io' b' err' w1 = (e', w') \<Longrightarrow>
   rtranclp (proc_step False sys interest) w w'"
  using io_switch_step by (meson r_into_rtranclp rtranclp_trans)+

lemma and_then_eq_Defined: "and_then a f = Defined y \<longleftrightarrow> (\<exists>x. a = Defined x \<and> f x = Defined y)"
  by (cases a) simp_all

lemma send_internal_steps:
  "send_internal sys writev sk err io w = Defined (n, e, io', w') \<Longrightarrow> rtranclp (proc_step False sys interest) w w'"
  by (auto simp: send_internal_def and_then_eq_Defined Let_def split: if_splits prod.splits intro: io_switch_steps)

lemma recv_internal_steps:
  "recv_internal sys readv sk err io w = Defined (n, e, io', w') \<Longrightarrow> rtranclp (proc_step False sys interest) w w'"
  by (auto simp: recv_internal_def and_then_eq_Defined Let_def split: if_splits prod.splits option.splits intro: io_switch_steps)

lemma io_send_steps:
  "io_send sys writev sk ser err io w = Defined (n, e, io', w') \<Longrightarrow> rtranclp (proc_step False sys interest) w w'"
  by (auto simp: io_send_def Let_def split: if_splits prod.splits intro: io_switch_steps send_internal_steps)

lemma io_receive_steps:
  "io_receive sys readv sk D old err io w = Defined (n, e, v, io', w') \<Longrightarrow> 0 < capacity (recv_buffer io) \<Longrightarrow>
   rtranclp (proc_step False sys interest) w w'"
  by (auto simp: io_receive_def and_then_eq_Defined assert_that_def split: if_splits prod.splits dest: recv_internal_steps)

text \<open>
  A reading function of a process that receives values, with what it does with them; the user's part
  of the process holds the object.
\<close>

lemma receiving_callback_ok:
  assumes "\<And>p. 0 < capacity (recv_buffer (get_io p))"
  shows "callback_ok False sys interest (\<lambda>p w err.
     case io_receive sys readv sk D old err (get_io p) w of
       OutOfBounds \<Rightarrow> (p, w, err) | Defined (n, e, v, io, w) \<Rightarrow> (use n e v io p, w, e))"
  unfolding callback_ok_def
proof (intro allI)
  fix p w err
  show "rtranclp (proc_step False sys interest) w (fst (snd (case io_receive sys readv sk D old err (get_io p) w of
     OutOfBounds \<Rightarrow> (p, w, err) | Defined (n, e, v, io, w) \<Rightarrow> (use n e v io p, w, e))))"
  proof (cases "io_receive sys readv sk D old err (get_io p) w")
    case (Defined r)
    obtain n e v io w' where "r = (n, e, v, io, w')" by (cases r)
    with Defined io_receive_steps [OF _ assms] show ?thesis by simp
  qed simp
qed

section \<open>The event \<open>Out\<close>\<close>

text \<open>On a system that refuses nothing an event is on or off after it has been switched.\<close>

lemma switch_event_reliable:
  assumes K: "kernel_ok sys interest" and R: "kernel_reliable sys interest" and I: "worker_inv True interest w"
    and cs: "connections w c = Some cs" and fd: "0 \<le> sk_fd (cs_socket cs)"
    and s: "switch_event sys c e Cleared w = (r, err', w')"
  shows "err' = Cleared \<and> mpx w' = mpx w \<and> connections w' c = Some (cs\<lparr>events_handled := e\<rparr>)"
proof -
  obtain b e1 w1 where m: "modify_tracking_event sys (native (cs_socket cs)) (handle_for sys c e w) Cleared w = (b, e1, w1)"
    by (cases "modify_tracking_event sys (native (cs_socket cs)) (handle_for sys c e w) Cleared w")
  have b using modify_tracking_reliable [OF K R I cs m] fd by auto
  with modify_tracking_effect(2) [OF K m] have e1: "e1 = Cleared" by simp
  have "connections w1 = connections w" "mpx w1 = mpx w" by (subst modify_tracking_effect(1) [OF K m], simp)+
  with s cs m e1 show ?thesis by (auto simp: switch_event_def upd_conn_def)
qed

lemma enable_event_reliable:
  assumes K: "kernel_ok sys interest" and R: "kernel_reliable sys interest" and I: "worker_inv True interest w"
    and cs: "connections w c = Some cs" and fd: "0 \<le> sk_fd (cs_socket cs)" and h: "conn_id h = c" and e: "e \<noteq> 0"
    and s: "enable_event sys e h b Cleared w = (r, err', w')"
  shows "err' = Cleared \<and> mpx w' = mpx w \<and> worker_inv True interest w'
    \<and> (\<exists>cs'. connections w' c = Some cs' \<and> cs_socket cs' = cs_socket cs \<and> has_event (events_handled cs') e = b)"
proof (cases "has_event (events_handled cs) e = b")
  case True
  with s cs h I show ?thesis by (auto simp: enable_event_def)
next
  case False
  define e' where "e' = (if b then event_or (events_handled cs) e else event_and (events_handled cs) (event_not e))"
  have "switch_event sys c e' Cleared w = (r, err', w')" using s cs h False by (auto simp: enable_event_def e'_def)
  from switch_event_reliable [OF K R I cs fd this] enable_event_evolves [OF K R I _ s] evolves_inv [OF _ I]
  show ?thesis using has_event_self [OF e]
    by (auto simp: e'_def has_event_or has_event_clear_same)
qed

lemma Event_Out_nonzero: "Event_Out \<noteq> 0"
  by (simp add: Event_Out_def)


text \<open>A connection with three unsent bytes.\<close>

abbreviation three_unsent :: connectionIO where
  "three_unsent \<equiv> (new_ConnectionIO demo_handle 8)\<lparr>send_buffer := push_buffer [1, 2, 3] VectorizedBuffer\<rparr>"

lemma three_unsent_facts:
  "vec_inv (send_buffer three_unsent)" "length (vbuf (send_buffer three_unsent)) < 2 ^ 32"
  "unsent (send_buffer three_unsent) = [1, 2, 3]"
  by (simp_all add: vec_inv_def push_buffer_def VectorizedBuffer_def points_def unsent_def)


end
