(* ===== verification/Connection_Findings.thy ===== *)
theory Connection_Findings
  imports Connection_Properties
begin

text \<open>
  What \<open>ConnectionIO\<close> does when messages do not arrive one by one as a whole, and on its error paths:
  runs of the model on concrete input.
\<close>

section \<open>Receiving\<close>

text \<open>
  A class with one byte, or one number of two bytes. Each call of \<open>receive\<close> finds the next piece of
  the input; an empty piece is a call that would block.
\<close>

abbreviation byte_message :: ty where "byte_message \<equiv> TStruct [TInt 1]"
abbreviation word_message :: ty where "word_message \<equiv> TStruct [TInt 2]"

abbreviation arriving :: "byte list \<Rightarrow> nat \<Rightarrow> io_in" where
  "arriving piece room \<equiv> (if piece = [] then InFailed resource_unavailable_try_again else Received (take room piece))"

fun receive_each :: "'v io_deserializer \<Rightarrow> 'v \<Rightarrow> byte list list \<Rightarrow> connectionIO \<times> (ref_kernel, unit) worker
    \<Rightarrow> ((int \<times> error_code \<times> 'v) list \<times> nat) access" where
  "receive_each deserialize old [] a = Defined ([], in_recv_buffer (fst a))"
| "receive_each deserialize old (piece # pieces) a =
     and_then (io_receive demo_sys (arriving piece) open_socket deserialize old Cleared (fst a) (snd a))
       (\<lambda>(n, e, v, a'). map_access (map_prod (Cons (n, e, v)) (\<lambda>left. left)) (receive_each deserialize old pieces a'))"

abbreviation new_io :: connectionIO where "new_io \<equiv> new_ConnectionIO demo_handle 8"

text \<open>
  \<open>deserialize\<close> pushes all received bytes to the stream in every call, also those that the stream
  still has from the last call. Of two messages that arrive together the second is read twice, and
  the third, the byte 3, is not delivered in its turn.
\<close>

lemma message_read_twice:
  "receive_each (io_deserialize LittleHost byte_message) (VStruct [VInt 0]) [[1, 2], [3], [4]] (new_io, demo_attached)
   = Defined ([(2, Cleared, VStruct [VInt 1]), (1, Cleared, VStruct [VInt 2]), (1, Cleared, VStruct [VInt 2])], 1)"
  by code_simp

text \<open>A number of two bytes that arrives in two pieces: the first byte, which the stream has kept, is read again.\<close>

lemma split_number_misread:
  "receive_each (io_deserialize LittleHost word_message) (VStruct [VInt 0]) [[1], [2]] (new_io, demo_attached)
   = Defined ([(1, Generic EAGAIN, VStruct [VInt 0]), (1, Cleared, VStruct [VInt 257])], 0)"
  by code_simp

text \<open>A value of a number type is taken from the ring twice: the second message is gone.\<close>

lemma number_consumed_twice:
  "receive_each (io_deserialize LittleHost (TInt 1)) (VInt 0) [[1, 2]] (new_io, demo_attached)
   = Defined ([(2, Cleared, VInt 1)], 0)"
  by code_simp

text \<open>
  The overload with several values commits what the stream flushes at the end, but every class has been
  flushed by then: the bytes stay in the ring.
\<close>

lemma variadic_not_consumed:
  "receive_each (io_deserialize_all LittleHost [byte_message, byte_message]) [VStruct [VInt 0], VStruct [VInt 0]]
     [[1, 2]] (new_io, demo_attached)
   = Defined ([(2, Cleared, [VStruct [VInt 1], VStruct [VInt 2]])], 2)"
  by code_simp

text \<open>
  A call that would block on an empty buffer: \<open>receive_to_ring_buffer\<close> reports no error and \<open>data\<close> shows
  the whole array, so that the old bytes are delivered as a message.
\<close>

lemma old_bytes_received_again:
  "receive_each (io_deserialize LittleHost byte_message) (VStruct [VInt 0]) [[5], []] (new_io, demo_attached)
   = Defined ([(1, Cleared, VStruct [VInt 5]), (0, Cleared, VStruct [VInt 5])], 0)"
  by code_simp

section \<open>Full buffers\<close>

text \<open>
  When the ring is full, reading is switched off with the error code set: the system no longer reports
  the descriptor as readable but the worker still records the event, and switching it on again does
  nothing.
\<close>

definition full_io :: connectionIO where
  "full_io = (new_ConnectionIO demo_handle 1)\<lparr>recv_buffer := \<lparr>buf = [9], head = 0, tail = 0, full = True\<rparr>\<rparr>"

definition reading_worker :: "(ref_kernel, unit) worker" where
  "reading_worker = snd (snd (enable_readable demo_sys demo_handle True Cleared demo_attached))"

definition muted_worker :: "(ref_kernel, unit) worker" where
  "muted_worker = (case recv_internal demo_sys (arriving [1]) open_socket Cleared full_io reading_worker of
     Defined (n, e, io, w) \<Rightarrow> w | OutOfBounds \<Rightarrow> reading_worker)"

lemma muted_worker_switch:
  "muted_worker = snd (snd (enable_readable demo_sys demo_handle False (Generic ENOBUFS) reading_worker))"
  by (simp add: muted_worker_def full_io_def recv_internal_def sk_valid_def free_space_def capacity_def ring_size_def
      new_ConnectionIO_def io_enable_readable_def split: prod.split)

lemma full_buffer_mutes_connection:
  "registered_events reading_worker 7 = Some 0x19 \<and> registered_events muted_worker 7 = Some 0x18 \<and>
   enable_readable demo_sys demo_handle True Cleared muted_worker = (False, Cleared, muted_worker)"
  by (simp add: muted_worker_switch reading_worker_def demo_defs attach_defs enable_defs enable_readable_def
      registered_def registered_events_def)

section \<open>Sending\<close>

text \<open>
  A send that would block: \<open>send_vectorized\<close> drops the message, the error code is cleared and the result
  is 0. An error of the connection is reported with -1, but \<open>clear_send_buffer\<close> only compacts: the message stays.
\<close>

lemmas send_eval = io_send_def vec_serialize_def serialize_network_def Serialize_integral_def Serialize_struct_def
  new_ConnectionIO_def VectorizedBuffer_def push_buffer_def vec_data_def send_internal_def sk_valid_def has_to_write_def
  send_vectorized_def remaining_def vec_gather_def native_iovecs_def iov_bytes_def consume_then_def consume_def
  consume_loop.simps compact_def code_after_send_def would_block_def unsent_def clear_send_buffer_def SIZE_MAX_def

lemma would_block_loses_message:
  "map_access (\<lambda>(n, e, io, w). (n, e, unsent (send_buffer io)))
     (io_send sys (\<lambda>bytes. OutFailed resource_unavailable_try_again) open_socket
        (vec_serialize LittleHost byte_message (VStruct [VInt 5])) err new_io w)
   = Defined (0, Cleared, [])"
  by (simp add: send_eval buf_defs codec_defs split: prod.split)

lemma failed_send_keeps_message:
  "map_access (\<lambda>(n, e, io, w). (n, e, unsent (send_buffer io)))
     (io_send sys (\<lambda>bytes. OutFailed connection_reset) open_socket
        (vec_serialize LittleHost byte_message (VStruct [VInt 5])) err new_io w)
   = Defined (-1, Generic 104, [5])"
  by (simp add: send_eval buf_defs codec_defs split: prod.split)

text \<open>\<open>in_send_buffer\<close> counts the received bytes; an empty message makes \<open>send\<close> read the last element of an empty deque.\<close>

lemma in_send_buffer_counts_received: "in_send_buffer three_unsent = 0 \<and> in_send_buffer full_io = 1"
  by (simp add: in_send_buffer_def full_io_def new_ConnectionIO_def RingBuffer_def set_capacity_def ring_size_def capacity_def)

lemma empty_message_out_of_bounds:
  "io_send demo_sys writev open_socket (vec_serialize LittleHost TEmpty VEmpty) Cleared new_io demo_attached = OutOfBounds"
  by (simp add: io_send_def vec_serialize_def new_ConnectionIO_def VectorizedBuffer_def push_buffer_def
      vec_data_def serialize_network_def)

end
