(* ===== verification/Tasks.thy ===== *)
theory Tasks
  imports Events
begin

text \<open>
  The tasks of processes (\<open>network/abstractprocess.h\<close>): a handler owns a shared future and, in thread
  mode, the thread that fulfils it; \<open>Process\<close> owns a handler. The states of \<open>std::shared_future\<close>,
  \<open>std::promise\<close> and \<open>std::jthread\<close> are those of the standard. What the task's function does, to return a
  value or to throw, is fixed when the task is made; when its thread gets on is the scheduler's choice.
  The callable types and their arguments do not appear.
\<close>

section \<open>State\<close>

datatype TaskMode = Sync | Thread

datatype 'r body = Returns 'r | Throws

text \<open>\<open>Deferred\<close>: \<open>std::async(std::launch::deferred, ...)\<close>; its function runs in the thread that calls \<open>get\<close>.\<close>

datatype 'r future = Invalid | Deferred "'r body" | NotReady | Value 'r | Failed

text \<open>The thread of a task: its function, then \<open>set_value\<close>, then the callback.\<close>

datatype 'r phase = NoThread | Running "'r body" | Delivered | Finished

record 'r task =
  task_mode :: TaskMode
  task_result :: "'r future"
  task_thread :: "'r phase"
  stop_token :: bool
  called_back :: nat

text \<open>
  A call returns, or ends the program (an exception in a \<open>noexcept\<close> function or in the function of a
  thread), or its behaviour is undefined.
\<close>

datatype 'a call = Returned 'a | ProgramEnds | Undefined

definition call_then :: "'a call \<Rightarrow> ('a \<Rightarrow> 'b call) \<Rightarrow> 'b call" where
  "call_then c f = (case c of Returned x \<Rightarrow> f x | ProgramEnds \<Rightarrow> ProgramEnds | Undefined \<Rightarrow> Undefined)"

lemma call_then_simps [simp]:
  "call_then (Returned x) f = f x" "call_then ProgramEnds f = ProgramEnds" "call_then Undefined f = Undefined"
  by (simp_all add: call_then_def)

lemma call_then_Returned: "call_then c f = Returned y \<longleftrightarrow> (\<exists>x. c = Returned x \<and> f x = Returned y)"
  by (cases c) simp_all

abbreviation EIO :: nat where "EIO \<equiv> 5"
abbreviation ETIMEDOUT :: nat where "ETIMEDOUT \<equiv> 110"

definition joinable :: "'r task \<Rightarrow> bool" where
  "joinable t \<longleftrightarrow> task_thread t \<noteq> NoThread"

section \<open>Making a task\<close>

definition TaskHandler :: "'r body \<Rightarrow> 'r task" where
  "TaskHandler function = \<lparr>task_mode = Sync, task_result = Deferred function, task_thread = NoThread,
     stop_token = False, called_back = 0\<rparr>"

definition set_thread :: "'r body \<Rightarrow> 'r task \<Rightarrow> 'r task" where
  "set_thread function t = t\<lparr>task_result := NotReady, task_thread := Running function\<rparr>"

definition ThreadedTaskHandler :: "'r body \<Rightarrow> 'r task" where
  "ThreadedTaskHandler function = set_thread function
     \<lparr>task_mode = Thread, task_result = Invalid, task_thread = NoThread, stop_token = False, called_back = 0\<rparr>"

text \<open>The handler whose function is called on an object: the object is captured with the arguments.\<close>

definition BindedThreadedTaskHandler :: "'r body \<Rightarrow> 'r task" where
  "BindedThreadedTaskHandler function = set_thread function
     \<lparr>task_mode = Thread, task_result = Invalid, task_thread = NoThread, stop_token = False, called_back = 0\<rparr>"

section \<open>The thread\<close>

text \<open>Its function returns and the promise gets the value, or it throws; then the callback is called.\<close>

definition thread_delivers :: "'r task \<Rightarrow> 'r task call" where
  "thread_delivers t = (case task_thread t of
     Running (Returns v) \<Rightarrow> Returned (t\<lparr>task_result := Value v, task_thread := Delivered\<rparr>)
   | Running Throws \<Rightarrow> ProgramEnds
   | _ \<Rightarrow> Returned t)"

definition thread_calls_back :: "'r task \<Rightarrow> 'r task" where
  "thread_calls_back t = (if task_thread t = Delivered
     then t\<lparr>task_thread := Finished, called_back := called_back t + 1\<rparr> else t)"

text \<open>The destructor of the thread: \<open>request_stop\<close> and \<open>join\<close>.\<close>

definition join_thread :: "'r task \<Rightarrow> 'r task call" where
  "join_thread t = call_then (thread_delivers (t\<lparr>stop_token := True\<rparr>)) (\<lambda>t. Returned (thread_calls_back t))"

section \<open>The future\<close>

datatype future_status = ready_status | timeout_status | deferred_status

text \<open>\<open>in_time\<close>: the thread's function returns before the waiting time is over.\<close>

definition wait_for :: "bool \<Rightarrow> int \<Rightarrow> 'r task \<Rightarrow> (future_status \<times> 'r task) call" where
  "wait_for in_time timeout t = (case task_result t of
     Invalid \<Rightarrow> Undefined
   | Deferred f \<Rightarrow> Returned (deferred_status, t)
   | NotReady \<Rightarrow>
       if in_time \<and> 0 < timeout then call_then (thread_delivers t) (\<lambda>t. Returned (ready_status, t))
       else Returned (timeout_status, t)
   | _ \<Rightarrow> Returned (ready_status, t))"

text \<open>\<open>get\<close> waits for a thread and runs a deferred function; \<open>None\<close> is an exception.\<close>

definition future_get :: "'r task \<Rightarrow> ('r option \<times> 'r task) call" where
  "future_get t = (case task_result t of
     Invalid \<Rightarrow> Undefined
   | Deferred (Returns v) \<Rightarrow> Returned (Some v, t\<lparr>task_result := Value v\<rparr>)
   | Deferred Throws \<Rightarrow> Returned (None, t\<lparr>task_result := Failed\<rparr>)
   | NotReady \<Rightarrow> call_then (thread_delivers t) (\<lambda>t. Returned (case task_result t of Value v \<Rightarrow> Some v | _ \<Rightarrow> None, t))
   | Value v \<Rightarrow> Returned (Some v, t)
   | Failed \<Rightarrow> Returned (None, t))"

section \<open>Synchronous handlers\<close>

definition sync_is_ready :: "error_code \<Rightarrow> 'r task \<Rightarrow> (bool \<times> error_code \<times> 'r task) call" where
  "sync_is_ready err t =
     (if task_result t = Invalid then Returned (False, Generic ESRCH, t)
      else call_then (wait_for False 0 t) (\<lambda>(status, t). Returned (status = ready_status, err, t)))"

definition sync_request_stop :: "int \<Rightarrow> error_code \<Rightarrow> 'r task \<Rightarrow> (bool \<times> error_code \<times> 'r task) call" where
  "sync_request_stop timeout_sec err t = Returned (False, Generic EOPNOTSUPP, t)"

text \<open>
  \<open>elapsed\<close> is the time, in nanoseconds, that a deferred function takes. A pointer to the value is the value,
  \<open>nullptr\<close> is \<open>None\<close>. The \<open>return nullptr\<close> of the deferred branch is not part of its \<open>if\<close>.
\<close>

definition sync_get_result_timeout :: "bool \<Rightarrow> int \<Rightarrow> int \<Rightarrow> error_code \<Rightarrow> 'r task \<Rightarrow> ('r option \<times> error_code \<times> 'r task) call" where
  "sync_get_result_timeout in_time elapsed timeout_sec err t =
     (if task_result t = Invalid then Returned (None, Generic ESRCH, t)
      else call_then (wait_for in_time timeout_sec t) (\<lambda>(status, t).
        if status = ready_status
        then call_then (future_get t) (\<lambda>(value, t). case value of
               Some v \<Rightarrow> Returned (Some v, Cleared, t) | None \<Rightarrow> Returned (None, Generic EIO, t))
        else if status = deferred_status
        then call_then (future_get t) (\<lambda>(value, t). case value of
               None \<Rightarrow> ProgramEnds
             | Some v \<Rightarrow> Returned (None, if elapsed > timeout_sec * 10 ^ 9 then Generic ETIMEDOUT else err, t))
        else Returned (None, Generic ETIMEDOUT, t)))"

definition sync_get_result :: "int \<Rightarrow> error_code \<Rightarrow> 'r task \<Rightarrow> ('r option \<times> error_code \<times> 'r task) call" where
  "sync_get_result elapsed err t = sync_get_result_timeout False elapsed (-1) err t"

text \<open>\<open>get_result\<close> of a task without a result.\<close>

definition sync_get_void :: "error_code \<Rightarrow> 'r task \<Rightarrow> (error_code \<times> 'r task) call" where
  "sync_get_void err t =
     (if task_result t = Invalid then Returned (Generic ESRCH, t)
      else call_then (wait_for False 0 t) (\<lambda>(status, t).
        if status = ready_status \<or> status = deferred_status
        then call_then (future_get t) (\<lambda>(value, t). Returned (if value = None then Generic EIO else Cleared, t))
        else Returned (Generic ETIMEDOUT, t)))"

section \<open>Handlers with a thread\<close>

definition thread_is_ready :: "error_code \<Rightarrow> 'r task \<Rightarrow> (bool \<times> error_code \<times> 'r task) call" where
  "thread_is_ready err t =
     (if task_result t = Invalid then Returned (False, Generic ESRCH, t)
      else call_then (wait_for False 0 t) (\<lambda>(status, t). Returned (status = ready_status, Cleared, t)))"

text \<open>\<open>jthread::request_stop\<close> returns whether this call has made the request.\<close>

definition thread_request_stop :: "bool \<Rightarrow> int \<Rightarrow> error_code \<Rightarrow> 'r task \<Rightarrow> (bool \<times> error_code \<times> 'r task) call" where
  "thread_request_stop in_time timeout_sec err t =
     (if joinable t
      then if timeout_sec > 0 \<and> task_result t \<noteq> Invalid
           then call_then (wait_for in_time timeout_sec t) (\<lambda>(status, t).
             if status = ready_status then Returned (True, Cleared, t)
             else Returned (False, Generic ETIMEDOUT, t\<lparr>stop_token := True\<rparr>))
           else Returned (\<not> stop_token t, Cleared, t\<lparr>stop_token := True\<rparr>)
      else Returned (False, Generic ESRCH, t))"

definition pointer_when_ready :: "(bool \<times> error_code \<times> 'r task) call \<Rightarrow> ('r option \<times> error_code \<times> 'r task) call" where
  "pointer_when_ready c = call_then c (\<lambda>(rdy, err, t).
     if rdy then call_then (future_get t) (\<lambda>(value, t). case value of
       None \<Rightarrow> ProgramEnds | Some v \<Rightarrow> Returned (Some v, err, t))
     else Returned (None, err, t))"

definition sync_get_pointer_result :: "error_code \<Rightarrow> 'r task \<Rightarrow> ('r option \<times> error_code \<times> 'r task) call" where
  "sync_get_pointer_result err t = pointer_when_ready (sync_is_ready err t)"

definition thread_get_pointer_result :: "error_code \<Rightarrow> 'r task \<Rightarrow> ('r option \<times> error_code \<times> 'r task) call" where
  "thread_get_pointer_result err t = pointer_when_ready (thread_is_ready err t)"

definition thread_get_result_timeout :: "bool \<Rightarrow> int \<Rightarrow> error_code \<Rightarrow> 'r task \<Rightarrow> ('r option \<times> error_code \<times> 'r task) call" where
  "thread_get_result_timeout in_time timeout_sec err t =
     (if task_result t = Invalid \<or> \<not> joinable t then Returned (None, Generic ESRCH, t)
      else call_then (wait_for in_time timeout_sec t) (\<lambda>(status, t).
        if status = ready_status then thread_get_pointer_result Cleared t
        else Returned (None, Generic ETIMEDOUT, t)))"

definition thread_get_result :: "error_code \<Rightarrow> 'r task \<Rightarrow> ('r option \<times> error_code \<times> 'r task) call" where
  "thread_get_result err t = thread_get_result_timeout False (-1) err t"

definition thread_get_void :: "error_code \<Rightarrow> 'r task \<Rightarrow> (error_code \<times> 'r task) call" where
  "thread_get_void err t =
     (if task_result t = Invalid \<or> \<not> joinable t then Returned (Generic ESRCH, t)
      else call_then (wait_for False 0 t) (\<lambda>(status, t).
        Returned (if status = ready_status then Cleared else Generic ETIMEDOUT, t)))"

section \<open>Virtual functions\<close>

definition handler_is_ready :: "error_code \<Rightarrow> 'r task \<Rightarrow> (bool \<times> error_code \<times> 'r task) call" where
  "handler_is_ready err t = (if task_mode t = Sync then sync_is_ready err t else thread_is_ready err t)"

definition handler_is_busy :: "error_code \<Rightarrow> 'r task \<Rightarrow> (bool \<times> error_code \<times> 'r task) call" where
  "handler_is_busy err t = call_then (handler_is_ready err t) (\<lambda>(rdy, err, t). Returned (\<not> rdy, err, t))"

definition handler_request_stop :: "bool \<Rightarrow> int \<Rightarrow> error_code \<Rightarrow> 'r task \<Rightarrow> (bool \<times> error_code \<times> 'r task) call" where
  "handler_request_stop in_time timeout_sec err t =
     (if task_mode t = Sync then sync_request_stop timeout_sec err t else thread_request_stop in_time timeout_sec err t)"

definition is_stoppable :: "'r task \<Rightarrow> bool" where
  "is_stoppable t \<longleftrightarrow> task_mode t = Thread \<and> joinable t"

text \<open>
  \<open>get_as\<close> and \<open>get_as_ptr\<close> cast the handler to one with a result of the type that is asked for; \<open>same_type\<close>
  is whether that is the type of its result. \<open>else nullptr;\<close> in \<open>get_as_ptr\<close> returns nothing: the function
  ends without a return statement.
\<close>

definition get_as :: "bool \<Rightarrow> int \<Rightarrow> error_code \<Rightarrow> 'r task \<Rightarrow> ('r option \<times> error_code \<times> 'r task) call" where
  "get_as same_type elapsed err t =
     (if \<not> same_type then Returned (None, err, t)
      else if task_mode t = Sync then sync_get_result elapsed err t else thread_get_result err t)"

definition get_as_ptr :: "bool \<Rightarrow> error_code \<Rightarrow> 'r task \<Rightarrow> ('r option \<times> error_code \<times> 'r task) call" where
  "get_as_ptr same_type err t =
     (if task_mode t = Sync
      then if same_type then sync_get_pointer_result err t else Undefined
      else if same_type then thread_get_pointer_result err t else Returned (None, err, t))"

section \<open>Processes\<close>

text \<open>The library's \<open>Process\<close>: a handler or none.\<close>

definition process_has_task :: "'r task option \<Rightarrow> bool" where
  "process_has_task p \<longleftrightarrow> p \<noteq> None"

definition with_task :: "(error_code \<Rightarrow> 'r task \<Rightarrow> ('a \<times> error_code \<times> 'r task) call) \<Rightarrow> 'a \<times> error_code \<Rightarrow> error_code
    \<Rightarrow> 'r task option \<Rightarrow> ('a \<times> error_code \<times> 'r task option) call" where
  "with_task f otherwise err p = (case p of
     None \<Rightarrow> Returned (fst otherwise, snd otherwise, None)
   | Some t \<Rightarrow> call_then (f err t) (\<lambda>(x, err, t). Returned (x, err, Some t)))"

definition process_is_ready :: "error_code \<Rightarrow> 'r task option \<Rightarrow> (bool \<times> error_code \<times> 'r task option) call" where
  "process_is_ready err p = with_task handler_is_ready (True, err) err p"

definition process_is_busy :: "error_code \<Rightarrow> 'r task option \<Rightarrow> (bool \<times> error_code \<times> 'r task option) call" where
  "process_is_busy err p = with_task handler_is_busy (False, err) err p"

definition process_request_stop :: "bool \<Rightarrow> int \<Rightarrow> error_code \<Rightarrow> 'r task option \<Rightarrow> (bool \<times> error_code \<times> 'r task option) call" where
  "process_request_stop in_time timeout_sec err p =
     with_task (handler_request_stop in_time timeout_sec) (False, Generic ESRCH) Cleared p"

text \<open>Destroying a handler joins its thread; \<open>emplace_task\<close> destroys the old handler after the new one is made.\<close>

definition reset_task :: "'r task option \<Rightarrow> 'r task option call" where
  "reset_task p = (case p of
     None \<Rightarrow> Returned None | Some t \<Rightarrow> call_then (join_thread t) (\<lambda>t. Returned (Some t)))"

definition emplace_task :: "TaskMode \<Rightarrow> 'r body \<Rightarrow> 'r task option \<Rightarrow> 'r task option call" where
  "emplace_task mode function p =
     call_then (reset_task p) (\<lambda>old. Returned (Some (if mode = Sync then TaskHandler function else ThreadedTaskHandler function)))"

definition emplace_binded_task :: "TaskMode \<Rightarrow> 'r body \<Rightarrow> 'r task option \<Rightarrow> 'r task option call" where
  "emplace_binded_task mode function p =
     call_then (reset_task p) (\<lambda>old. Returned (Some (if mode = Sync then TaskHandler function else BindedThreadedTaskHandler function)))"

definition holds :: "bool \<Rightarrow> 'r task option \<Rightarrow> bool" where
  "holds same_type p \<longleftrightarrow> p \<noteq> None \<and> same_type"

end
