(* ===== verification/Task_Properties.thy ===== *)
theory Task_Properties
  imports Tasks Worker_Findings
begin

text \<open>
  A task in a thread, under every interleaving of its thread with the calls that other threads make on
  the handler: the result becomes ready once, before the callback, and stays; and the command that a
  callback queues finds the task ready. Then what synchronous tasks do instead.
\<close>

section \<open>Interleavings\<close>

inductive task_step :: "'r task \<Rightarrow> 'r task \<Rightarrow> bool" where
  deliver: "thread_delivers t = Returned t' \<Longrightarrow> task_step t t'"
| call_back: "task_step t (thread_calls_back t)"
| is_ready: "handler_is_ready err t = Returned (r, e, t') \<Longrightarrow> task_step t t'"
| is_busy: "handler_is_busy err t = Returned (r, e, t') \<Longrightarrow> task_step t t'"
| stop: "handler_request_stop in_time timeout err t = Returned (r, e, t') \<Longrightarrow> task_step t t'"
| get: "get_as same_type elapsed err t = Returned (value, e, t') \<Longrightarrow> task_step t t'"
| get_pointer: "get_as_ptr same_type err t = Returned (value, e, t') \<Longrightarrow> task_step t t'"
| get_timeout: "task_mode t = Thread \<Longrightarrow> thread_get_result_timeout in_time timeout err t = Returned (value, e, t') \<Longrightarrow> task_step t t'"

definition thread_inv :: "'r body \<Rightarrow> 'r task \<Rightarrow> bool" where
  "thread_inv f t \<longleftrightarrow> task_mode t = Thread \<and> (case task_thread t of
     NoThread \<Rightarrow> False
   | Running g \<Rightarrow> g = f \<and> task_result t = NotReady \<and> called_back t = 0
   | Delivered \<Rightarrow> (\<exists>v. f = Returns v \<and> task_result t = Value v \<and> called_back t = 0)
   | Finished \<Rightarrow> (\<exists>v. f = Returns v \<and> task_result t = Value v \<and> called_back t = 1))"

lemma thread_inv_cases:
  assumes "thread_inv f t"
  obtains "task_mode t = Thread" "task_thread t = Running f" "task_result t = NotReady" "called_back t = 0"
  | v where "task_mode t = Thread" "f = Returns v" "task_thread t = Delivered" "task_result t = Value v" "called_back t = 0"
  | v where "task_mode t = Thread" "f = Returns v" "task_thread t = Finished" "task_result t = Value v" "called_back t = 1"
  using assms by (auto simp: thread_inv_def split: phase.splits)

lemmas thread_ops = handler_is_ready_def handler_is_busy_def thread_is_ready_def handler_request_stop_def
  thread_request_stop_def get_as_def get_as_ptr_def thread_get_result_def thread_get_result_timeout_def
  thread_get_pointer_result_def pointer_when_ready_def joinable_def wait_for_def future_get_def thread_delivers_def
  call_then_Returned

lemma thread_inv_start: "thread_inv f (ThreadedTaskHandler f)"
  by (simp add: thread_inv_def ThreadedTaskHandler_def set_thread_def)

lemma thread_inv_step:
  assumes "task_step t t'" and "thread_inv f t"
  shows "thread_inv f t'"
  using assms(2)
proof (cases rule: thread_inv_cases)
  case 1
  with assms(1) show ?thesis
    by (cases f; cases rule: task_step.cases)
      (auto simp: thread_ops thread_inv_def thread_calls_back_def split: if_splits)
next
  case (2 v)
  with assms(1) show ?thesis
    by (cases rule: task_step.cases)
      (auto simp: thread_ops thread_inv_def thread_calls_back_def split: if_splits)
next
  case (3 v)
  with assms(1) show ?thesis
    by (cases rule: task_step.cases)
      (auto simp: thread_ops thread_inv_def thread_calls_back_def split: if_splits)
qed

lemma thread_inv_reachable: "rtranclp task_step (ThreadedTaskHandler f) t \<Longrightarrow> thread_inv f t"
  by (induction rule: rtranclp_induct) (auto intro: thread_inv_start thread_inv_step)

section \<open>Results and callbacks\<close>

lemma called_back_once: "thread_inv f t \<Longrightarrow> called_back t \<le> 1"
  by (erule thread_inv_cases) simp_all

lemma called_back_ready:
  assumes "thread_inv (Returns v) t" and "called_back t = 1"
  shows "handler_is_ready err t = Returned (True, Cleared, t)" and "thread_get_result err t = Returned (Some v, Cleared, t)"
proof -
  have t: "task_mode t = Thread" "task_thread t = Finished" "task_result t = Value v"
    using assms by (cases rule: thread_inv_cases; simp)+
  then show "handler_is_ready err t = Returned (True, Cleared, t)"
    by (simp add: handler_is_ready_def thread_is_ready_def wait_for_def)
  from t show "thread_get_result err t = Returned (Some v, Cleared, t)"
    by (simp add: thread_get_result_def thread_get_result_timeout_def thread_get_pointer_result_def
        pointer_when_ready_def thread_is_ready_def joinable_def wait_for_def future_get_def)
qed

lemma thread_result_or_timeout:
  assumes "thread_inv (Returns v) t"
  shows "thread_get_result_timeout in_time timeout err t = Returned (None, Generic ETIMEDOUT, t)
     \<or> (\<exists>t'. thread_get_result_timeout in_time timeout err t = Returned (Some v, Cleared, t') \<and> task_result t' = Value v)"
  using assms
proof (cases rule: thread_inv_cases)
  case 1
  then show ?thesis
    by (cases "in_time \<and> 0 < timeout")
      (simp_all add: thread_get_result_timeout_def thread_get_pointer_result_def pointer_when_ready_def thread_is_ready_def
        joinable_def wait_for_def future_get_def thread_delivers_def)
qed (simp_all add: thread_get_result_timeout_def thread_get_pointer_result_def pointer_when_ready_def thread_is_ready_def
  joinable_def wait_for_def future_get_def)

lemma join_calls_back:
  assumes "thread_inv (Returns v) t"
  shows "\<exists>t'. join_thread t = Returned t' \<and> called_back t' = 1"
  using assms
  by (cases rule: thread_inv_cases) (simp_all add: join_thread_def thread_delivers_def thread_calls_back_def)

text \<open>
  C13. A task in a thread, whose function returns a value, under any interleaving of its thread with
  calls on its handler: the callback is called at most once, and when it has been called the task is ready
  and its result is the value; asking for the result, with any waiting time, yields the value or times out,
  and never anything else; and the thread comes to its end with the callback called.
\<close>

theorem callback_after_result:
  assumes "rtranclp task_step (ThreadedTaskHandler (Returns v)) t"
  shows "called_back t \<le> 1
     \<and> (called_back t = 1 \<longrightarrow> handler_is_ready err t = Returned (True, Cleared, t)
           \<and> thread_get_result err t = Returned (Some v, Cleared, t))
     \<and> (thread_get_result_timeout in_time timeout err t = Returned (None, Generic ETIMEDOUT, t)
         \<or> (\<exists>t'. thread_get_result_timeout in_time timeout err t = Returned (Some v, Cleared, t') \<and> task_result t' = Value v))
     \<and> (\<exists>t'. join_thread t = Returned t' \<and> called_back t' = 1)"
proof -
  note i = thread_inv_reachable [OF assms]
  show ?thesis
    using called_back_once [OF i] called_back_ready [OF i] thread_result_or_timeout [OF i] join_calls_back [OF i]
    by (intro conjI impI) simp_all
qed

abbreviation task_at_work :: "nat task" where
  "task_at_work \<equiv> thread_calls_back ((ThreadedTaskHandler (Returns 5))\<lparr>task_result := Value 5, task_thread := Delivered\<rparr>)"

lemma task_at_work_reachable: "rtranclp task_step (ThreadedTaskHandler (Returns 5)) task_at_work"
proof -
  have "task_step (ThreadedTaskHandler (Returns 5))
      ((ThreadedTaskHandler (Returns 5))\<lparr>task_result := Value 5, task_thread := Delivered\<rparr>)"
    by (rule task_step.deliver) (simp add: thread_delivers_def ThreadedTaskHandler_def set_thread_def)
  then show ?thesis
    by (rule rtranclp.rtrancl_into_rtrancl [OF r_into_rtranclp]) (rule task_step.call_back)
qed

theorem callback_after_result_witness:
  "called_back task_at_work = 1 \<and> thread_get_result Cleared task_at_work = Returned (Some 5, Cleared, task_at_work)"
proof -
  have "called_back task_at_work = 1"
    by (simp add: thread_calls_back_def ThreadedTaskHandler_def set_thread_def)
  with callback_after_result [OF task_at_work_reachable, of Cleared] show ?thesis by blast
qed

section \<open>The command \<open>TaskDone\<close>\<close>

text \<open>The processes of a worker whose user part holds the task.\<close>

definition task_ops :: "('u \<Rightarrow> 'r task) \<Rightarrow> ('k, 'u) process_ops \<Rightarrow> ('k, 'u) process_ops" where
  "task_ops get_task ops = ops\<lparr>task_is_ready := (\<lambda>p err. case handler_is_ready err (get_task (user p)) of
     Returned (rdy, err, t) \<Rightarrow> (rdy, err) | _ \<Rightarrow> (False, err))\<rparr>"

text \<open>
  The command that a task's callback queues reaches the process: whenever the worker executes
  \<open>TaskDone\<close> for a connection whose task has called back, the task is ready, the assertion of the command
  holds, and the process gets the event, whose error code becomes the command's result.
\<close>

lemma task_done_delivered:
  assumes "rtranclp task_step (ThreadedTaskHandler (Returns v)) (get_task (user p))" and "called_back (get_task (user p)) = 1"
    and "connections w (conn_id h) = Some cs" and "cs_proc cs = Some p" and "has_task p"
  shows "execute sys (task_ops get_task ops) i (TaskDone h) w
     = (case with_proc (conn_id h) (handle_event (task_ops get_task ops) Event_EvTaskDone) Cleared w of
          (err, w) \<Rightarrow> set_error i err w)"
proof -
  have "handler_is_ready Cleared (get_task (user p)) = Returned (True, Cleared, get_task (user p))"
    by (rule called_back_ready(1) [OF thread_inv_reachable [OF assms(1)] assms(2)])
  with assms(3-5) show ?thesis
    by (simp add: execute_task_done_def task_ops_def assert_that_def)
qed

text \<open>A connection whose process has the task above, which has called back.\<close>

abbreviation task_process :: "unit process" where
  "task_process \<equiv> \<lparr>has_task = True, requestable = False, requests = [], active_request = None, io_set = True, user = ()\<rparr>"

abbreviation task_connection :: "unit ConnectionState" where
  "task_connection \<equiv> \<lparr>cs_conn = \<lparr>storage = [], state = Active\<rparr>, cs_proc = Some task_process, cs_io = None,
     cs_socket = \<lparr>sk_fd = 7, sk_closed = False\<rparr>, events_handled = 0\<rparr>"

abbreviation task_worker :: "(ref_kernel, unit) worker" where
  "task_worker \<equiv> demo_attached\<lparr>connections := [1 \<mapsto> task_connection]\<rparr>"

section \<open>Synchronous tasks\<close>

lemmas sync_ops = TaskHandler_def handler_is_ready_def sync_is_ready_def sync_get_result_def sync_get_result_timeout_def
  wait_for_def future_get_def

text \<open>
  A deferred function runs in the first call of \<open>get_result\<close>, which returns nothing and reports a time-out;
  the value comes with the second call. Until then the task is never ready.
\<close>

lemma sync_first_result_lost:
  assumes "- (10 ^ 9) < elapsed"
  shows "sync_get_result elapsed err (TaskHandler (Returns v))
       = Returned (None, Generic ETIMEDOUT, (TaskHandler (Returns v))\<lparr>task_result := Value v\<rparr>)"
    and "sync_get_result elapsed err ((TaskHandler (Returns v))\<lparr>task_result := Value v\<rparr>)
       = Returned (Some v, Cleared, (TaskHandler (Returns v))\<lparr>task_result := Value v\<rparr>)"
  using assms by (simp_all add: sync_ops)

lemma sync_never_ready: "handler_is_ready err (TaskHandler f) = Returned (False, err, TaskHandler f)"
  by (simp add: sync_ops)

text \<open>No call on a synchronous handler calls its callback.\<close>

lemma sync_not_called_back:
  assumes "rtranclp task_step (TaskHandler f) t"
  shows "task_mode t = Sync \<and> task_thread t = NoThread \<and> called_back t = 0"
  using assms
proof (induction rule: rtranclp_induct)
  case base
  then show ?case by (simp add: TaskHandler_def)
next
  case (step t t')
  from step(2,3) show ?case
    by (cases rule: task_step.cases)
      (auto simp: sync_ops thread_ops thread_calls_back_def sync_request_stop_def sync_get_pointer_result_def
        split: if_splits future.splits body.splits option.splits)
qed

text \<open>An exception of the function ends the program, in the first \<open>get_result\<close> and in a thread.\<close>

lemma exceptions_terminate:
  "sync_get_result elapsed err (TaskHandler Throws) = ProgramEnds"
  "thread_delivers (ThreadedTaskHandler Throws) = ProgramEnds"
  by (simp_all add: sync_ops thread_delivers_def ThreadedTaskHandler_def set_thread_def)

lemma get_as_ptr_without_return: "get_as_ptr False err (TaskHandler f) = Undefined"
  by (simp add: get_as_ptr_def TaskHandler_def)

end
