(* ===== verification/Pool_Properties.thy ===== *)
theory Pool_Properties
  imports Thread_Pool
begin

text \<open>
  The distribution of connections over the pool: \<open>attach_connection\<close> takes the workers in turn.
\<close>

section \<open>Attaching a sequence of connections\<close>

text \<open>Repeated calls of \<open>attach_connection\<close>, for the handles in the order of the calls.\<close>

fun attach_each :: "'k syscalls \<Rightarrow> (address \<times> nat \<times> Socket) list \<Rightarrow> ('k, 'u) ThreadPool \<Rightarrow>
    (ConnectionHandle list \<times> ('k, 'u) ThreadPool) option" where
  "attach_each sys [] p = Some ([], p)"
| "attach_each sys ((addr, buf, sk) # xs) p = (case attach_connection sys addr buf sk p of
     None \<Rightarrow> None
   | Some (h, p) \<Rightarrow> (case attach_each sys xs p of None \<Rightarrow> None | Some (hs, p) \<Rightarrow> Some (h # hs, p)))"

text \<open>How many of \<open>k\<close> turns, from the counter \<open>a\<close>, fall on worker \<open>j\<close> of \<open>n\<close>.\<close>

fun turns :: "nat \<Rightarrow> nat \<Rightarrow> nat \<Rightarrow> nat \<Rightarrow> nat" where
  "turns a 0 n j = 0"
| "turns a (Suc k) n j = (if a mod n = j then 1 else 0) + turns (Suc a) k n j"

lemma shifted_mod:
  fixes x n j :: nat
  assumes "j < n"
  shows "(x + (n - j)) mod n = 0 \<longleftrightarrow> x mod n = j"
proof -
  have r: "x mod n < n" using assms by (intro mod_less_divisor) linarith
  have s: "(x + (n - j)) mod n = (x mod n + (n - j)) mod n" by (simp add: mod_add_left_eq)
  consider "x mod n < j" | "x mod n = j" | "j < x mod n" by linarith
  then show ?thesis
  proof cases
    case 1
    then have "x mod n + (n - j) < n" "0 < x mod n + (n - j)" using assms by linarith+
    with 1 s assms show ?thesis by simp
  next
    case 2
    with s assms show ?thesis by simp
  next
    case 3
    then have "x mod n + (n - j) = n + (x mod n - j)" "x mod n - j < n" using assms r by linarith+
    then have "(x mod n + (n - j)) mod n = x mod n - j" by (metis mod_add_self1 mod_less)
    with 3 s show ?thesis by simp
  qed
qed

lemma turns_closed: "j < n \<Longrightarrow> turns a k n j + (a + (n - 1 - j)) div n = (a + k + (n - 1 - j)) div n"
proof (induction k arbitrary: a)
  case 0
  then show ?case by simp
next
  case (Suc k)
  define d where "d = n - 1 - j"
  have eq: "Suc (a + d) = a + (n - j)" using Suc.prems by (simp add: d_def)
  have "Suc (a + d) mod n = 0 \<longleftrightarrow> a mod n = j" unfolding eq by (rule shifted_mod[OF Suc.prems])
  then have "Suc (a + d) div n = (a + d) div n + (if a mod n = j then 1 else 0)" by (simp add: div_Suc)
  with Suc.IH[OF Suc.prems, of "Suc a"] show ?case unfolding d_def[symmetric] by simp
qed

lemma turns_fair:
  assumes "j < n"
  shows "turns a k n j = k div n \<or> turns a k n j = k div n + 1"
proof -
  let ?A = "a + (n - 1 - j)"
  have "(?A + k) div n = ?A div n + k div n + (?A mod n + k mod n) div n" by (rule div_add1_eq)
  moreover have "?A mod n < n" "k mod n < n" using assms by (intro mod_less_divisor; linarith)+
  then have "?A mod n + k mod n < 2 * n" by linarith
  then have "(?A mod n + k mod n) div n < 2" by (rule less_mult_imp_div_less)
  ultimately show ?thesis using turns_closed[OF assms, of a k] by (simp add: ac_simps) linarith
qed

lemma attach_connection_effect:
  assumes "attach_connection sys addr buf sk p = Some (h, p')" and "next_worker p + 1 < 2 ^ 64"
  shows "length (workers p') = length (workers p) \<and> workers p \<noteq> [] \<and> next_worker p' = next_worker p + 1 \<and>
    id_counter p' = id_counter p + 1 \<and> conn_id h = (if id_counter p = 0 then 1 else id_counter p) \<and>
    (\<forall>j < length (workers p). length (cmds (workers p' ! j)) =
       length (cmds (workers p ! j)) + (if next_worker p mod length (workers p) = j then 1 else 0))"
  using assms
  by (auto simp: attach_connection_def new_ConnectionHandle_def execute_command_def is_valid_handler_def
      push_command_def enqueue_def wake_event_def uadd64_small nth_list_update Let_def split: if_splits)

lemma attach_each_effect:
  assumes "attach_each sys xs p = Some (hs, p')" and "next_worker p + length xs < 2 ^ 64" and "j < length (workers p)"
  shows "length (workers p') = length (workers p) \<and>
    length (cmds (workers p' ! j)) = length (cmds (workers p ! j)) + turns (next_worker p) (length xs) (length (workers p)) j"
  using assms
proof (induction xs arbitrary: p hs)
  case Nil
  then show ?case by simp
next
  case (Cons x xs)
  obtain addr buf sk where x: "x = (addr, buf, sk)" by (cases x)
  from Cons.prems(1) x obtain h p1 gs where a: "attach_connection sys addr buf sk p = Some (h, p1)"
    and r: "attach_each sys xs p1 = Some (gs, p')"
    by (auto split: option.splits prod.splits)
  have e: "length (workers p1) = length (workers p)" "next_worker p1 = next_worker p + 1"
    "length (cmds (workers p1 ! j)) = length (cmds (workers p ! j)) + (if next_worker p mod length (workers p) = j then 1 else 0)"
    using attach_connection_effect[OF a] Cons.prems by simp_all
  with Cons.IH[OF r] Cons.prems show ?case by simp
qed

text \<open>
  \<open>attach_connection\<close> distributes connections evenly: after any number of calls that does not
  exhaust the counter, every worker's queue has grown by the quotient of the number of calls and
  the number of workers, or by one more.
\<close>

lemma attach_connection_fair:
  assumes "attach_each sys xs p = Some (hs, p')" and "next_worker p + length xs < 2 ^ 64" and "j < length (workers p)"
  shows "length (cmds (workers p' ! j)) \<in>
    {length (cmds (workers p ! j)) + length xs div length (workers p),
     length (cmds (workers p ! j)) + length xs div length (workers p) + 1}"
  using attach_each_effect[OF assms] turns_fair[OF assms(3), of "next_worker p" "length xs"] by auto

definition demo_pool :: "(ref_kernel, unit) ThreadPool" where
  "demo_pool = \<lparr>workers = map (\<lambda>i. fst (new_worker (ref_sys (\<lambda>_. 0)) i ''server'' 24 Cleared \<lparr>errno = 0, kern = ref_start\<rparr>)) [0, 1],
     next_worker = 0, id_counter = 1\<rparr>"

definition demo_clients :: "(address \<times> nat \<times> Socket) list" where
  "demo_clients = [([], 64, new_Socket 7), ([], 64, new_Socket 8), ([], 64, new_Socket 9)]"

lemma demo_pool_workers: "length (workers demo_pool) = 2" "cmds (workers demo_pool ! 1) = []"
  by (simp_all add: demo_pool_def new_worker_def split: prod.split)

end
