(* ===== verification/Acceptor.thy ===== *)
theory Acceptor
  imports Thread_Pool
begin

text \<open>
  The acceptor of a server (\<open>connection.h\<close>, \<open>connection.cpp\<close>): it opens a listening socket, registers it with a
  multiplexor of its own, accepts connections in a thread and hands them to the server's pool. The two system
  calls that only the acceptor uses are a second parameter.
\<close>

section \<open>State\<close>

text \<open>
  \<open>sc_accept\<close> answers with the new descriptor and the bytes of the peer's address. The factory of processes is the
  constructor of the user's class, which may report an error.
\<close>

record 'k acceptor_calls =
  sc_listen :: "'k \<Rightarrow> int \<Rightarrow> nat \<Rightarrow> nat \<times> 'k"
  sc_accept :: "'k \<Rightarrow> int \<Rightarrow> (nat + int \<times> byte list) \<times> 'k"

type_synonym 'u fabrique = "ConnectionHandle \<Rightarrow> error_code \<Rightarrow> 'u process \<times> error_code"

record ('k, 'u) ConnectionAcceptor =
  ac_socket :: "Socket option"
  ac_mpx :: multiplexor
  acceptor_options :: "SocketOption option list"
  accepted_options :: "SocketOption option list"
  sock_type :: int
  used_protocol :: int
  ac_addr :: address
  number_listened :: nat
  process_fabrique :: "'u fabrique option"
  ac_os :: "'k os"

definition new_acceptor :: "'k syscalls \<Rightarrow> address \<Rightarrow> SocketOption option list \<Rightarrow> SocketOption option list \<Rightarrow>
    nat \<Rightarrow> error_code \<Rightarrow> 'k os \<Rightarrow> ('k, 'u) ConnectionAcceptor \<times> error_code" where
  "new_acceptor sys addr options accepted accept_queue err s =
    (let (m, err, s) = Multiplexor sys accept_queue err s
     in (\<lparr>ac_socket = None, ac_mpx = m, acceptor_options = options, accepted_options = accepted, sock_type = 1,
          used_protocol = 6, ac_addr = addr, number_listened = 0, process_fabrique = None, ac_os = s\<rparr>, err))"

text \<open>The type and the protocol that \<open>make_connection_acceptor\<close> gets are not used.\<close>

definition make_connection_acceptor :: "'k syscalls \<Rightarrow> string \<Rightarrow> 16 word \<Rightarrow> nat \<Rightarrow> SocketOption option list \<Rightarrow>
    SocketOption option list \<Rightarrow> error_code \<Rightarrow> 'k os \<Rightarrow> ('k, 'u) ConnectionAcceptor \<times> error_code" where
  "make_connection_acceptor sys host port max_accept_queue options accepted err s =
    (let (addr, err) = make_address sys host port err
     in new_acceptor sys addr options accepted max_accept_queue err s)"

definition set_processes_at_connections :: "'u fabrique \<Rightarrow> ('k, 'u) ConnectionAcceptor \<Rightarrow> ('k, 'u) ConnectionAcceptor" where
  "set_processes_at_connections f a = a\<lparr>process_fabrique := Some f\<rparr>"

definition set_listened_backlog :: "nat \<Rightarrow> ('k, 'u) ConnectionAcceptor \<Rightarrow> ('k, 'u) ConnectionAcceptor" where
  "set_listened_backlog backlog a = a\<lparr>number_listened := backlog\<rparr>"

section \<open>The listening socket\<close>

text \<open>
  A local socket that is not returned is closed. When \<open>socket\<close> or an option has failed the error is read from
  \<open>errno\<close>, which the failed operation has already reset.
\<close>

definition acceptor_make_socket :: "'k syscalls \<Rightarrow> ('k, 'u) ConnectionAcceptor \<Rightarrow> error_code \<Rightarrow> 'k os \<Rightarrow>
    Socket option \<times> error_code \<times> 'k os" where
  "acceptor_make_socket sys a err s =
    (let (sock, err, s) = make_socket sys (ac_addr a) (sock_type a) (used_protocol a) err s
     in if native sock = -1 then (None, Generic (errno s), s)
        else let (ok, err, s) = sk_set_options sys sock (acceptor_options a) err s
             in if ok
                then let (_, err, s) = sk_bind sys sock (ac_addr a) err s
                     in if failed err then (None, err, snd (sk_close sys sock s)) else (Some sock, Cleared, s)
                else (None, Generic (errno s), snd (sk_close sys sock s)))"

text \<open>The error of a failed \<open>listen\<close> goes to a local variable that hides the parameter.\<close>

definition acceptor_listen :: "'k acceptor_calls \<Rightarrow> ('k, 'u) ConnectionAcceptor \<Rightarrow> error_code \<Rightarrow>
    error_code \<times> ('k, 'u) ConnectionAcceptor" where
  "acceptor_listen calls a err = (case ac_socket a of
     None \<Rightarrow> (Generic ENODEV, a)
   | Some sk \<Rightarrow> let (ok, s) = do_call (\<lambda>k. sc_listen calls k (native sk) (number_listened a)) (ac_os a)
               in if \<not> ok then (err, a\<lparr>ac_os := s\<lparr>errno := 0\<rparr>\<rparr>) else (err, a\<lparr>ac_os := s\<rparr>))"

text \<open>Assigning the pointer destroys the socket that it held.\<close>

definition assign_socket :: "'k syscalls \<Rightarrow> Socket option \<Rightarrow> ('k, 'u) ConnectionAcceptor \<Rightarrow> ('k, 'u) ConnectionAcceptor" where
  "assign_socket sys sk a = (case ac_socket a of
     None \<Rightarrow> a\<lparr>ac_socket := sk\<rparr>
   | Some old \<Rightarrow> a\<lparr>ac_socket := sk, ac_os := snd (sk_close sys old (ac_os a))\<rparr>)"

section \<open>Accepting\<close>

text \<open>The error of a failed \<open>accept\<close> is printed.\<close>

definition accept_error_handling :: "'k os \<Rightarrow> error_code \<times> 'k os" where
  "accept_error_handling s = take_errno s"

text \<open>A command for the worker that a handle names: \<open>ConnectionHandle::execute_command\<close> seen from the pool.\<close>

definition command_owner :: "'k syscalls \<Rightarrow> 'u Command \<Rightarrow> ConnectionHandle \<Rightarrow> error_code \<Rightarrow> ('k, 'u) ThreadPool \<Rightarrow>
    bool \<times> error_code \<times> ('k, 'u) ThreadPool" where
  "command_owner sys c h err p =
    (if is_valid_handler h
     then (True, err, p\<lparr>workers := map (\<lambda>w. if same_owner (w_self w) h then push_command sys c w else w) (workers p)\<rparr>)
     else (False, Generic ENODEV, p))"

text \<open>
  One connection: the body of the loop for an event of the listening socket. With no worker in the pool the
  server's \<open>attach_connection\<close> divides by zero: \<open>None\<close>.
\<close>

definition accept_connection :: "'k syscalls \<Rightarrow> 'k acceptor_calls \<Rightarrow> Socket \<Rightarrow> nat \<Rightarrow> error_code \<Rightarrow>
    ('k, 'u) ConnectionAcceptor \<Rightarrow> ('k, 'u) ThreadPool \<Rightarrow>
    (error_code \<times> ('k, 'u) ConnectionAcceptor \<times> ('k, 'u) ThreadPool) option" where
  "accept_connection sys calls sk buffer_size err a p =
    (case do_value (\<lambda>k. sc_accept calls k (native sk)) (ac_os a) of
       (None, s) \<Rightarrow> let (err, s) = accept_error_handling s in Some (err, a\<lparr>ac_os := s\<rparr>, p)
     | (Some (raw_sock, peer), s) \<Rightarrow>
         let (addr, err) = Address peer err;
             socket = new_Socket raw_sock;
             (_, err, s) = set_no_block sys socket True err s;
             (_, err, s) = sk_set_options sys socket (accepted_options a) err s
         in if failed err then Some (err, a\<lparr>ac_os := snd (sk_close sys socket s)\<rparr>, p)
            else case attach_connection sys addr buffer_size socket p of
              None \<Rightarrow> None
            | Some (hconn, p) \<Rightarrow>
                (case process_fabrique a of
                   None \<Rightarrow> Some (err, a\<lparr>ac_os := s\<rparr>, p)
                 | Some make_process \<Rightarrow>
                     let (process, err) = make_process hconn err;
                         (_, err, p) = command_owner sys (AttachProcess hconn process) hconn err p
                     in Some (err, a\<lparr>ac_os := s\<rparr>, p)))"

text \<open>
  The loops. \<open>stop_at\<close> is what \<open>stop_requested\<close> answers when it is asked for the \<open>n\<close>-th time. The loop over the events
  gives the way in which the function has ended, if it has.
\<close>

datatype accept_end = Accept_stopped | Accept_crashed

fun accept_events :: "'k syscalls \<Rightarrow> 'k acceptor_calls \<Rightarrow> Socket \<Rightarrow> nat \<Rightarrow> (nat \<Rightarrow> bool) \<Rightarrow> nat \<Rightarrow> EventHandle list \<Rightarrow>
    error_code \<Rightarrow> ('k, 'u) ConnectionAcceptor \<Rightarrow> ('k, 'u) ThreadPool \<Rightarrow>
    accept_end option \<times> nat \<times> error_code \<times> ('k, 'u) ConnectionAcceptor \<times> ('k, 'u) ThreadPool" where
  "accept_events sys calls sk buffer_size stop_at n [] err a p = (None, n, err, a, p)"
| "accept_events sys calls sk buffer_size stop_at n (event # events) err a p =
    (if stop_at n then (Some Accept_stopped, Suc n, err, a, p)
     else if get_as_fd event = native sk
     then (case accept_connection sys calls sk buffer_size err a p of
             None \<Rightarrow> (Some Accept_crashed, Suc n, err, a, p)
           | Some (err, a, p) \<Rightarrow> accept_events sys calls sk buffer_size stop_at (Suc n) events err a p)
     else accept_events sys calls sk buffer_size stop_at (Suc n) events err a p)"

partial_function (option) accept_loop :: "'k syscalls \<Rightarrow> 'k acceptor_calls \<Rightarrow> Socket \<Rightarrow> nat \<Rightarrow> (nat \<Rightarrow> bool) \<Rightarrow> nat \<Rightarrow>
    error_code \<Rightarrow> ('k, 'u) ConnectionAcceptor \<Rightarrow> ('k, 'u) ThreadPool \<Rightarrow>
    (accept_end \<times> error_code \<times> ('k, 'u) ConnectionAcceptor \<times> ('k, 'u) ThreadPool) option" where
  "accept_loop sys calls sk buffer_size stop_at n err a p =
    (if stop_at n then Some (Accept_stopped, err, a, p)
     else case wait sys (ac_mpx a) err (-1) (ac_os a) of
       None \<Rightarrow> None
     | Some (result, m, err, s) \<Rightarrow>
         (case result of
            Ready events \<Rightarrow>
              (case accept_events sys calls sk buffer_size stop_at (Suc n) events err (a\<lparr>ac_mpx := m, ac_os := s\<rparr>) p of
                 (ended, n, err, a, p) \<Rightarrow>
                   (case ended of
                      Some r \<Rightarrow> Some (r, err, a, p)
                    | None \<Rightarrow> accept_loop sys calls sk buffer_size stop_at n err a p))
          | _ \<Rightarrow> Some (Accept_crashed, err, a\<lparr>ac_mpx := m, ac_os := s\<rparr>, p)))"

section \<open>The thread\<close>

text \<open>
  The function of the thread. When the registration is refused it calls \<open>graceful_close\<close>, which joins the thread
  that it runs in: the exception of \<open>join\<close> leaves a \<open>noexcept\<close> function and ends the program.
\<close>

datatype thread_end = Not_opened | Self_joined | Accepting accept_end

definition acceptor_thread :: "'k syscalls \<Rightarrow> 'k acceptor_calls \<Rightarrow> nat \<Rightarrow> (nat \<Rightarrow> bool) \<Rightarrow>
    ('k, 'u) ConnectionAcceptor \<Rightarrow> ('k, 'u) ThreadPool \<Rightarrow>
    (thread_end \<times> error_code \<times> ('k, 'u) ConnectionAcceptor \<times> ('k, 'u) ThreadPool) option" where
  "acceptor_thread sys calls buffer_size stop_at a p =
    (let (made, err, s) = acceptor_make_socket sys a Cleared (ac_os a);
         a = assign_socket sys made (a\<lparr>ac_os := s\<rparr>)
     in case made of
          None \<Rightarrow> Some (Not_opened, Generic EBADF, a, p)
        | Some sk \<Rightarrow>
            if failed err then Some (Not_opened, err, a, p)
            else let (ok, err, s) = add_event sys (ac_mpx a) (native sk) (event_or Event_In Event_EdgeTrigger) err (ac_os a);
                     a = a\<lparr>ac_os := s\<rparr>
                 in if \<not> ok then Some (Self_joined, err, a, p)
                    else let (err, a) = acceptor_listen calls a err
                         in map_option (\<lambda>(r, err, a, p). (Accepting r, err, a, p))
                              (accept_loop sys calls sk buffer_size stop_at 0 err a p))"

text \<open>
  \<open>graceful_close\<close> and \<open>stop\<close> from another thread. What they do before and after the thread has ended is a function
  each; between them \<open>acceptor_thread\<close> returns. \<open>joinable\<close> tells whether there is a thread.
\<close>

definition interrupt_acceptor :: "'k syscalls \<Rightarrow> bool \<Rightarrow> ('k, 'u) ConnectionAcceptor \<Rightarrow> ('k, 'u) ConnectionAcceptor" where
  "interrupt_acceptor sys joinable a = (if joinable then a\<lparr>ac_os := interrupt sys (ac_mpx a) (ac_os a)\<rparr> else a)"

definition close_acceptor :: "'k syscalls \<Rightarrow> error_code \<Rightarrow> ('k, 'u) ConnectionAcceptor \<Rightarrow> error_code \<times> ('k, 'u) ConnectionAcceptor" where
  "close_acceptor sys err a = (case ac_socket a of
     None \<Rightarrow> (err, a)
   | Some sk \<Rightarrow>
       let (_, err, s) = shutdown_all sys sk err (ac_os a);
           (_, err, s) = remove sys (ac_mpx a) (native sk) err s
       in (err, assign_socket sys None (a\<lparr>ac_os := s\<rparr>)))"

definition acceptor_shutdown :: "'k syscalls \<Rightarrow> shutdown_how \<Rightarrow> error_code \<Rightarrow> ('k, 'u) ConnectionAcceptor \<Rightarrow>
    bool \<times> error_code \<times> ('k, 'u) ConnectionAcceptor" where
  "acceptor_shutdown sys how err a = (case ac_socket a of
     None \<Rightarrow> (False, Generic ENODEV, a)
   | Some sk \<Rightarrow> let (ok, err, s) = sk_shutdown sys how sk err (ac_os a) in (ok, err, a\<lparr>ac_os := s\<rparr>))"

definition acceptor_set_options :: "'k syscalls \<Rightarrow> SocketOption option list \<Rightarrow> error_code \<Rightarrow> ('k, 'u) ConnectionAcceptor \<Rightarrow>
    bool \<times> error_code \<times> ('k, 'u) ConnectionAcceptor" where
  "acceptor_set_options sys options err a = (case ac_socket a of
     None \<Rightarrow> (False, Generic ENODEV, a)
   | Some sk \<Rightarrow> let (ok, err, s) = sk_set_options sys sk options err (ac_os a) in (ok, err, a\<lparr>ac_os := s\<rparr>))"

section \<open>Mutual exclusion\<close>

text \<open>
  \<open>stop\<close> and \<open>graceful_close\<close> hold the acceptor's mutex while they wait for the thread to end; the thread needs the same
  mutex for every accepted connection, to look at the factory. The places in which the two threads can be:
\<close>

datatype accepting_place = At_check | Has_connection | In_factory | Thread_ended
datatype stopping_place = Not_called | Joining | Stop_returned

record stopping =
  thread :: accepting_place
  stopper :: stopping_place
  requested :: bool
  mutex_free :: bool

definition stopping_start :: stopping where
  "stopping_start = \<lparr>thread = At_check, stopper = Not_called, requested = False, mutex_free = True\<rparr>"

inductive stopping_step :: "stopping \<Rightarrow> stopping \<Rightarrow> bool" where
  check_stops: "thread t = At_check \<Longrightarrow> requested t \<Longrightarrow> stopping_step t (t\<lparr>thread := Thread_ended\<rparr>)"
| check_goes_on: "thread t = At_check \<Longrightarrow> \<not> requested t \<Longrightarrow> stopping_step t (t\<lparr>thread := Has_connection\<rparr>)"
| check_skips: "thread t = At_check \<Longrightarrow> \<not> requested t \<Longrightarrow> stopping_step t t"
| locks_factory: "thread t = Has_connection \<Longrightarrow> mutex_free t \<Longrightarrow>
    stopping_step t (t\<lparr>thread := In_factory, mutex_free := False\<rparr>)"
| unlocks_factory: "thread t = In_factory \<Longrightarrow> stopping_step t (t\<lparr>thread := At_check, mutex_free := True\<rparr>)"
| stop_locks: "stopper t = Not_called \<Longrightarrow> mutex_free t \<Longrightarrow>
    stopping_step t (t\<lparr>stopper := Joining, requested := True, mutex_free := False\<rparr>)"
| stop_joins: "stopper t = Joining \<Longrightarrow> thread t = Thread_ended \<Longrightarrow>
    stopping_step t (t\<lparr>stopper := Stop_returned, mutex_free := True\<rparr>)"

inductive_simps stopping_step_iff: "stopping_step t t'"

end
