(* ===== verification/Acceptor_Properties.thy ===== *)
theory Acceptor_Properties
  imports Acceptor "HOL-Library.Multiset"
begin

text \<open>
  What becomes of the descriptors that the acceptor opens, what a connection that is accepted leaves in the pool, when
  the loop returns, and the departures.
\<close>

section \<open>Open descriptors\<close>

text \<open>
  \<open>accept(2)\<close> gives a descriptor that was not open, \<open>close(2)\<close> closes one, and the other calls of the loop neither open
  nor close any. \<open>opened\<close> is the set of the process's open descriptors in a state of the system.
\<close>

definition keeps_view :: "('k \<Rightarrow> 'v) \<Rightarrow> ('k \<Rightarrow> 'a \<times> 'k) \<Rightarrow> bool" where
  "keeps_view view f \<longleftrightarrow> (\<forall>k. view (snd (f k)) = view k)"

definition quiet_calls :: "'k syscalls \<Rightarrow> ('k \<Rightarrow> 'v) \<Rightarrow> bool" where
  "quiet_calls sys view \<longleftrightarrow>
     (\<forall>fd. keeps_view view (\<lambda>k. sc_getfl sys k fd)) \<and>
     (\<forall>fd fl. keeps_view view (\<lambda>k. sc_setfl sys k fd fl)) \<and>
     (\<forall>fd opt. keeps_view view (\<lambda>k. sc_setsockopt sys k fd opt)) \<and>
     (\<forall>fd. keeps_view view (\<lambda>k. sc_read sys k fd)) \<and>
     (\<forall>fd. keeps_view view (\<lambda>k. sc_getfd sys k fd)) \<and>
     (\<forall>ep n t. keeps_view view (\<lambda>k. sc_epoll_wait sys k ep n t))"

definition descriptor_laws :: "'k syscalls \<Rightarrow> 'k acceptor_calls \<Rightarrow> ('k \<Rightarrow> int set) \<Rightarrow> bool" where
  "descriptor_laws sys calls opened \<longleftrightarrow>
     (\<forall>k fd e k'. sc_accept calls k fd = (Inl e, k') \<longrightarrow> opened k' = opened k) \<and>
     (\<forall>k fd raw peer k'. sc_accept calls k fd = (Inr (raw, peer), k') \<longrightarrow>
        0 \<le> raw \<and> raw \<notin> opened k \<and> opened k' = insert raw (opened k)) \<and>
     (\<forall>k fd. opened (snd (sc_close sys k fd)) = opened k - {fd}) \<and> quiet_calls sys opened"

lemma view_call: "keeps_view view f \<Longrightarrow> do_call f s = (r, s') \<Longrightarrow> view (kern s') = view (kern s)"
  by (cases rule: do_call_cases[of f s]) (auto simp: keeps_view_def dest!: spec[where x = "kern s"])

lemma view_value: "keeps_view view f \<Longrightarrow> do_value f s = (r, s') \<Longrightarrow> view (kern s') = view (kern s)"
  by (cases rule: do_value_cases[of f s]) (auto simp: keeps_view_def dest!: spec[where x = "kern s"])

lemma quiet_keeps:
  assumes "quiet_calls sys view"
  shows "keeps_view view (\<lambda>k. sc_getfl sys k fd)" "keeps_view view (\<lambda>k. sc_setfl sys k fd fl)"
    "keeps_view view (\<lambda>k. sc_setsockopt sys k fd opt)" "keeps_view view (\<lambda>k. sc_read sys k fd)"
    "keeps_view view (\<lambda>k. sc_getfd sys k fd)" "keeps_view view (\<lambda>k. sc_epoll_wait sys k ep n t)"
  using assms by (simp_all add: quiet_calls_def)

lemmas quiet = view_value[OF quiet_keeps(1)] view_call[OF quiet_keeps(2)] view_call[OF quiet_keeps(3)]
  view_call[OF quiet_keeps(4)] view_call[OF quiet_keeps(5)] view_value[OF quiet_keeps(6)]

lemma accepted_descriptor:
  assumes "descriptor_laws sys calls opened" and "do_value (\<lambda>k. sc_accept calls k fd) s = (r, s')"
  shows "case r of None \<Rightarrow> opened (kern s') = opened (kern s)
    | Some (raw, peer) \<Rightarrow> 0 \<le> raw \<and> raw \<notin> opened (kern s) \<and> opened (kern s') = insert raw (opened (kern s))"
proof (cases rule: do_value_cases[of "\<lambda>k. sc_accept calls k fd" s])
  case (1 e k)
  with assms show ?thesis by (auto simp: descriptor_laws_def)
next
  case (2 v k)
  obtain raw peer where "v = (raw, peer)" by (cases v)
  with 2 assms show ?thesis unfolding descriptor_laws_def by fastforce
qed

lemma set_no_block_view:
  assumes "quiet_calls sys view" and "set_no_block sys sk b err s = (r, err', s')"
  shows "view (kern s') = view (kern s)"
  using assms(2) by (auto simp: set_no_block_def take_errno_def Let_def split: prod.splits option.splits if_splits
    dest!: quiet(1,2)[OF assms(1)])

lemma set_option_view:
  assumes "quiet_calls sys view" and "sk_set_option sys sk opt err s = (r, err', s')"
  shows "view (kern s') = view (kern s)"
  using assms(2) by (auto simp: sk_set_option_def Option_set_option_def take_errno_def
    split: prod.splits option.splits if_splits dest: quiet(3)[OF assms(1)])

lemma set_options_view:
  assumes "quiet_calls sys view" and "sk_set_options sys sk opts err s = (r, err', s')"
  shows "view (kern s') = view (kern s)"
  using assms(2)
  by (induction opts arbitrary: err s) (auto split: prod.splits if_splits dest!: set_option_view[OF assms(1)])

lemma close_opened:
  assumes "descriptor_laws sys calls opened" and "0 \<le> sk_fd sk"
  shows "opened (kern (snd (sk_close sys sk s))) = opened (kern s) - {sk_fd sk}"
proof -
  have "opened (snd (sc_close sys (kern s) (sk_fd sk))) = opened (kern s) - {sk_fd sk}"
    using assms(1) by (simp add: descriptor_laws_def)
  moreover have "kern (snd (sk_close sys sk s)) = snd (sc_close sys (kern s) (sk_fd sk))"
    using assms(2) by (simp add: sk_close_def do_call_def split: prod.split)
  ultimately show ?thesis by simp
qed

section \<open>Waiting keeps a view\<close>

lemma drain_view:
  assumes L: "quiet_calls sys view" and "drain sys fd s = Some s'"
  shows "view (kern s') = view (kern s)"
proof -
  have "quiet_calls sys view \<longrightarrow> view (kern s') = view (kern s)"
  proof (rule drain.raw_induct[OF _ assms(2)])
    fix d sys fd s s'
    assume "\<And>sys fd s s'. d sys fd s = Some s' \<Longrightarrow> quiet_calls sys view \<longrightarrow> view (kern s') = view (kern s)"
      and "(case do_call (\<lambda>k. sc_read sys k fd) s of (ok, s) \<Rightarrow> if ok then d sys fd s else Some s) = Some s'"
    then show "quiet_calls sys view \<longrightarrow> view (kern s') = view (kern s)"
      by (auto split: prod.splits if_splits dest!: quiet(4))
  qed
  with L show ?thesis by simp
qed

lemma epoll_wait_loop_view:
  assumes L: "quiet_calls sys view" and "epoll_wait_loop sys m t s = Some r"
  shows "view (kern (snd r)) = view (kern s)"
proof -
  have "quiet_calls sys view \<longrightarrow> view (kern (snd r)) = view (kern s)"
  proof (rule epoll_wait_loop.raw_induct[OF _ assms(2)])
    fix d sys m t s r
    assume IH: "\<And>sys m t s r. d sys m t s = Some r \<Longrightarrow> quiet_calls sys view \<longrightarrow> view (kern (snd r)) = view (kern s)"
      and body: "(case do_value (\<lambda>k. sc_epoll_wait sys k (epollfd m) (length (mpx_events m)) t) s of
         (None, s) \<Rightarrow> if errno s = EINTR then d sys m t s else Some (None, s) | (Some evs, s) \<Rightarrow> Some (Some evs, s)) = Some r"
    obtain v s1 where v: "do_value (\<lambda>k. sc_epoll_wait sys k (epollfd m) (length (mpx_events m)) t) s = (v, s1)"
      by fastforce
    show "quiet_calls sys view \<longrightarrow> view (kern (snd r)) = view (kern s)"
    proof
      assume L: "quiet_calls sys view"
      have s1: "view (kern s1) = view (kern s)" by (rule quiet(6)[OF L v])
      show "view (kern (snd r)) = view (kern s)"
      proof (cases "v = None \<and> errno s1 = EINTR")
        case True
        with body v have "d sys m t s1 = Some r" by simp
        with IH L s1 show ?thesis by fastforce
      next
        case False
        with body v have "snd r = s1" by (cases v) auto
        with s1 show ?thesis by simp
      qed
    qed
  qed
  with L show ?thesis by simp
qed

lemma compact_events_view:
  assumes "quiet_calls sys view" and "compact_events n sys ifd i evs v s = (Some r, s')"
  shows "view (kern s') = view (kern s)"
  using assms(2)
  by (induction n arbitrary: i evs v s)
     (auto split: if_splits option.splits dest!: drain_view[OF assms(1)])

lemma wait_view:
  assumes L: "quiet_calls sys view" and "wait sys m err t s = Some (r, m', err', s')"
  shows "view (kern s') = view (kern s)"
  using assms(2)
  by (auto simp: wait_def Let_def take_errno_def epoll_wait_throw_def
      split: if_splits option.splits prod.splits sum.splits
      dest!: epoll_wait_loop_view[OF L] compact_events_view[OF L] quiet(5)[OF L])

section \<open>What is queued\<close>

text \<open>The descriptors of the connections that wait in the workers' queues.\<close>

definition command_fds :: "nat \<times> 'u Command \<Rightarrow> int list" where
  "command_fds c = (case snd c of AttachConnection h conn n sk \<Rightarrow> [sk_fd sk] | _ \<Rightarrow> [])"

definition queue_fds :: "('k, 'u) worker \<Rightarrow> int list" where
  "queue_fds w = concat (map command_fds (cmds w))"

definition attached_fds :: "('k, 'u) ThreadPool \<Rightarrow> int list" where
  "attached_fds p = concat (map queue_fds (workers p))"

lemma cmds_push [simp]: "cmds (push_command sys c w) = cmds w @ [(next_cmd w, c)]" "w_self (push_command sys c w) = w_self w"
  "next_cmd (push_command sys c w) = next_cmd w + 1"
  by (simp_all add: push_command_def wake_event_def enqueue_def)

lemma mset_concat_update:
  assumes "i < length xs"
  shows "mset (concat (map f (xs[i := y]))) + mset (f (xs ! i)) = mset (concat (map f xs)) + mset (f y)"
  using assms by (induction xs arbitrary: i) (auto simp: less_Suc_eq_0_disj)

lemma attach_connection_queues:
  assumes "attach_connection sys addr n sk p = Some (h, p')"
  shows "workers p' \<noteq> []" "mset (attached_fds p') = mset (attached_fds p) + {#sk_fd sk#}"
proof -
  define i where "i = next_worker p mod length (workers p)"
  have ne: "workers p \<noteq> []" using assms by (simp add: attach_connection_def split: if_splits)
  then have i: "i < length (workers p)" by (simp add: i_def)
  obtain hd c where h: "new_ConnectionHandle (Some (w_self (workers p ! i))) (id_counter p) = (hd, c)"
    and v: "is_valid_handler hd" by (simp add: new_ConnectionHandle_def is_valid_handler_def)
  let ?w = "push_command sys (AttachConnection hd (new_Connection addr) n sk) (workers p ! i)"
  have w: "workers p' = (workers p)[i := ?w]"
    using assms ne h v by (auto simp: attach_connection_def execute_command_def Let_def i_def)
  then show "workers p' \<noteq> []" using ne by simp
  have "queue_fds ?w = queue_fds (workers p ! i) @ [sk_fd sk]" by (simp add: queue_fds_def command_fds_def)
  then have "mset (queue_fds ?w) = mset (queue_fds (workers p ! i)) + {#sk_fd sk#}" by simp
  with mset_concat_update[OF i, of queue_fds ?w] w show "mset (attached_fds p') = mset (attached_fds p) + {#sk_fd sk#}"
    by (simp add: attached_fds_def)
qed

lemma attach_connection_total: "workers p \<noteq> [] \<Longrightarrow> attach_connection sys addr n sk p \<noteq> None"
  by (simp add: attach_connection_def Let_def split: prod.split)

lemma command_owner_queues:
  fixes p :: "('k, 'u) ThreadPool"
  assumes "command_owner sys (AttachProcess h0 pr) h err p = (ok, err', p')"
  shows "workers p' = [] \<longleftrightarrow> workers p = []" "attached_fds p' = attached_fds p"
proof -
  have q: "queue_fds (push_command sys (AttachProcess h0 pr) w) = queue_fds w" for w :: "('k, 'u) worker"
    by (simp add: queue_fds_def command_fds_def)
  have "(queue_fds \<circ> (\<lambda>w. if same_owner (w_self w) h then push_command sys (AttachProcess h0 pr) w else w))
      = (queue_fds :: ('k, 'u) worker \<Rightarrow> int list)"
    using q by (auto simp: fun_eq_iff)
  with assms show "workers p' = [] \<longleftrightarrow> workers p = []" "attached_fds p' = attached_fds p"
    by (auto simp: command_owner_def attached_fds_def split: if_splits)
qed

section \<open>Every accepted descriptor is queued or closed\<close>

text \<open>
  The abstract account of the acceptor: what it has done to the open descriptors is what it has put into the queues.
\<close>

definition handed_over :: "('k \<Rightarrow> int set) \<Rightarrow> ('k, 'u) ConnectionAcceptor \<Rightarrow> ('k, 'u) ThreadPool \<Rightarrow>
    ('k, 'u) ConnectionAcceptor \<Rightarrow> ('k, 'u) ThreadPool \<Rightarrow> bool" where
  "handed_over opened a p a' p' \<longleftrightarrow> workers p' \<noteq> [] \<and> (\<exists>new. distinct new \<and> set new \<inter> opened (kern (ac_os a)) = {} \<and>
     opened (kern (ac_os a')) = opened (kern (ac_os a)) \<union> set new \<and>
     mset (attached_fds p') = mset (attached_fds p) + mset new)"

lemma handed_over_refl:
  "workers p' \<noteq> [] \<Longrightarrow> opened (kern (ac_os a')) = opened (kern (ac_os a)) \<Longrightarrow> attached_fds p' = attached_fds p \<Longrightarrow>
   handed_over opened a p a' p'"
  unfolding handed_over_def by (intro conjI exI[of _ "[]"]) simp_all

lemma handed_over_one:
  assumes "workers p' \<noteq> []" and "raw \<notin> opened (kern (ac_os a))"
    and "opened (kern (ac_os a')) = insert raw (opened (kern (ac_os a)))"
    and "mset (attached_fds p') = mset (attached_fds p) + {#raw#}"
  shows "handed_over opened a p a' p'"
  unfolding handed_over_def using assms by (intro conjI exI[of _ "[raw]"]) simp_all

lemma handed_over_trans:
  assumes "handed_over opened a p a1 p1" and "handed_over opened a1 p1 a2 p2"
  shows "handed_over opened a p a2 p2"
proof -
  obtain n1 where 1: "distinct n1" "set n1 \<inter> opened (kern (ac_os a)) = {}"
      "opened (kern (ac_os a1)) = opened (kern (ac_os a)) \<union> set n1" "mset (attached_fds p1) = mset (attached_fds p) + mset n1"
    using assms(1) by (auto simp: handed_over_def)
  obtain n2 where 2: "distinct n2" "set n2 \<inter> opened (kern (ac_os a1)) = {}" "workers p2 \<noteq> []"
      "opened (kern (ac_os a2)) = opened (kern (ac_os a1)) \<union> set n2" "mset (attached_fds p2) = mset (attached_fds p1) + mset n2"
    using assms(2) by (auto simp: handed_over_def)
  have "distinct (n1 @ n2)" "set (n1 @ n2) \<inter> opened (kern (ac_os a)) = {}" using 1 2 by auto
  moreover have "opened (kern (ac_os a2)) = opened (kern (ac_os a)) \<union> set (n1 @ n2)" using 1 2 by auto
  moreover have "mset (attached_fds p2) = mset (attached_fds p) + mset (n1 @ n2)" using 1 2 by simp
  ultimately show ?thesis using 2(3) unfolding handed_over_def by blast
qed

lemma accept_connection_hands_over:
  assumes L: "descriptor_laws sys calls opened" and "workers p \<noteq> []"
    and r: "accept_connection sys calls sk n err a p = Some (err', a', p')"
  shows "handed_over opened a p a' p'"
proof -
  have Q: "quiet_calls sys opened" using L by (simp add: descriptor_laws_def)
  obtain v s where v: "do_value (\<lambda>k. sc_accept calls k (native sk)) (ac_os a) = (v, s)" by fastforce
  note acc = accepted_descriptor[OF L v]
  show ?thesis
  proof (cases v)
    case None
    with r v have "p' = p" "kern (ac_os a') = kern s"
      by (auto simp: accept_connection_def accept_error_handling_def take_errno_def)
    with None acc assms(2) show ?thesis by (intro handed_over_refl) simp_all
  next
    case (Some x)
    obtain raw peer where x: "x = (raw, peer)" by (cases x)
    obtain addr e0 where e0: "Address peer err = (addr, e0)" by fastforce
    obtain b1 e1 s1 where n: "set_no_block sys (new_Socket raw) True e0 s = (b1, e1, s1)" by (metis prod_cases3)
    obtain b2 e2 s2 where o: "sk_set_options sys (new_Socket raw) (accepted_options a) e1 s1 = (b2, e2, s2)" by (metis prod_cases3)
    have raw: "0 \<le> raw" "raw \<notin> opened (kern (ac_os a))" "opened (kern s2) = insert raw (opened (kern (ac_os a)))"
      using acc Some x set_no_block_view[OF Q n] set_options_view[OF Q o] by simp_all
    show ?thesis
    proof (cases "failed e2")
      case True
      with r v Some x e0 n o have "p' = p" "ac_os a' = snd (sk_close sys (new_Socket raw) s2)"
        by (auto simp: accept_connection_def)
      moreover have "opened (kern (snd (sk_close sys (new_Socket raw) s2))) = opened (kern s2) - {raw}"
        using close_opened[OF L, of "new_Socket raw" s2] raw(1) by (simp add: new_Socket_def)
      ultimately show ?thesis using raw assms(2) by (intro handed_over_refl) auto
    next
      case False
      obtain h p1 where h: "attach_connection sys addr n (new_Socket raw) p = Some (h, p1)"
        using attach_connection_total[OF assms(2)] by fastforce
      have q: "workers p' \<noteq> [] \<and> attached_fds p' = attached_fds p1 \<and> ac_os a' = s2"
      proof (cases "process_fabrique a")
        case None
        with r v Some x e0 n o False h have "p' = p1" "ac_os a' = s2" by (auto simp: accept_connection_def)
        then show ?thesis
          using attach_connection_queues(1)[OF h] by simp_all
      next
        case (Some mk)
        obtain pr e3 where pr: "mk h e2 = (pr, e3)" by fastforce
        obtain ok e4 p2 where c: "command_owner sys (AttachProcess h pr) h e3 p1 = (ok, e4, p2)" by (metis prod_cases3)
        have "p' = p2" "ac_os a' = s2"
          using r v \<open>v = Some x\<close> x e0 n o False h Some pr c by (auto simp: accept_connection_def)
        then show ?thesis
          using attach_connection_queues(1)[OF h] command_owner_queues[OF c] by simp_all
      qed
      show ?thesis
        by (rule handed_over_one[where raw = raw])
           (use q raw attach_connection_queues(2)[OF h] in \<open>simp_all add: new_Socket_def\<close>)
    qed
  qed
qed

lemma accept_events_hands_over:
  assumes L: "descriptor_laws sys calls opened"
  shows "workers p \<noteq> [] \<Longrightarrow> accept_events sys calls sk b stop_at n events err a p = (r, n', err', a', p') \<Longrightarrow>
    handed_over opened a p a' p'"
proof (induction events arbitrary: n err a p)
  case Nil
  then show ?case by (intro handed_over_refl) auto
next
  case (Cons event events)
  consider "stop_at n" | "\<not> stop_at n" "get_as_fd event \<noteq> native sk" | "\<not> stop_at n" "get_as_fd event = native sk" by blast
  then show ?case
  proof cases
    case 1
    with Cons.prems show ?thesis by (intro handed_over_refl) auto
  next
    case 2
    with Cons.prems Cons.IH show ?thesis by simp
  next
    case 3
    show ?thesis
    proof (cases "accept_connection sys calls sk b err a p")
      case None
      with 3 Cons.prems show ?thesis by (intro handed_over_refl) auto
    next
      case (Some x)
      obtain e1 a1 p1 where x: "x = (e1, a1, p1)" by (cases x)
      have one: "handed_over opened a p a1 p1"
        using accept_connection_hands_over[OF L Cons.prems(1)] Some x by blast
      then have "workers p1 \<noteq> []" by (simp add: handed_over_def)
      with Cons.IH[of p1 "Suc n" e1 a1] Cons.prems(2) 3 Some x have "handed_over opened a1 p1 a' p'" by simp
      with one show ?thesis by (rule handed_over_trans)
    qed
  qed
qed

lemma accept_loop_hands_over:
  fixes sys :: "'k syscalls" and p :: "('k, 'u) ThreadPool"
  assumes L: "descriptor_laws sys calls opened" and W: "workers p \<noteq> []"
    and R: "accept_loop sys calls sk b stop_at n err a p = Some y"
  shows "handed_over opened a p (fst (snd (snd y))) (snd (snd (snd y)))"
proof -
  have "descriptor_laws sys calls opened \<longrightarrow> workers p \<noteq> [] \<longrightarrow> handed_over opened a p (fst (snd (snd y))) (snd (snd (snd y)))"
  proof (rule accept_loop.raw_induct[OF _ R], intro impI)
    fix loop and sys :: "'k syscalls" and calls sk b stop_at n err and a :: "('k, 'u) ConnectionAcceptor" and p y
    assume IH: "\<And>sys calls sk b stop_at n err a p y. loop sys calls sk b stop_at n err a p = Some y \<Longrightarrow>
        descriptor_laws sys calls opened \<longrightarrow> workers p \<noteq> [] \<longrightarrow> handed_over opened a p (fst (snd (snd y))) (snd (snd (snd y)))"
      and body: "(if stop_at n then Some (Accept_stopped, err, a, p)
        else case wait sys (ac_mpx a) err (-1) (ac_os a) of None \<Rightarrow> None
          | Some (result, m, err, s) \<Rightarrow>
             (case result of Ready events \<Rightarrow>
                (case accept_events sys calls sk b stop_at (Suc n) events err (a\<lparr>ac_mpx := m, ac_os := s\<rparr>) p of
                   (ended, n, err, a, p) \<Rightarrow>
                     (case ended of None \<Rightarrow> loop sys calls sk b stop_at n err a p | Some r \<Rightarrow> Some (r, err, a, p)))
              | Terminated \<Rightarrow> Some (Accept_crashed, err, a\<lparr>ac_mpx := m, ac_os := s\<rparr>, p)
              | No_interruptor \<Rightarrow> Some (Accept_crashed, err, a\<lparr>ac_mpx := m, ac_os := s\<rparr>, p))) = Some y"
      and L: "descriptor_laws sys calls opened" and W: "workers p \<noteq> []"
    have Q: "quiet_calls sys opened" using L by (simp add: descriptor_laws_def)
    show "handed_over opened a p (fst (snd (snd y))) (snd (snd (snd y)))"
    proof (cases "stop_at n")
      case True
      with body W show ?thesis by (auto intro: handed_over_refl)
    next
      case False
      with body obtain result m e s where w: "wait sys (ac_mpx a) err (-1) (ac_os a) = Some (result, m, e, s)"
        by (auto split: option.splits prod.splits)
      let ?a = "a\<lparr>ac_mpx := m, ac_os := s\<rparr>"
      have waited: "handed_over opened a p ?a p"
        by (rule handed_over_refl[OF W]) (simp_all add: wait_view[OF Q w])
      show ?thesis
      proof (cases result)
        case (Ready events)
        obtain ended n1 e1 a1 p1 where ev: "accept_events sys calls sk b stop_at (Suc n) events e ?a p = (ended, n1, e1, a1, p1)"
          by (metis prod_cases5)
        have one: "handed_over opened a p a1 p1"
          using waited accept_events_hands_over[OF L W ev] by (rule handed_over_trans)
        show ?thesis
        proof (cases ended)
          case None
          with body False w Ready ev have "loop sys calls sk b stop_at n1 e1 a1 p1 = Some y" by simp
          with IH L one have "handed_over opened a1 p1 (fst (snd (snd y))) (snd (snd (snd y)))"
            by (auto simp: handed_over_def)
          with one show ?thesis by (rule handed_over_trans)
        next
          case (Some r)
          with body False w Ready ev one show ?thesis by auto
        qed
      qed (use body False w waited in auto)
    qed
  qed
  with L W show ?thesis by blast
qed

section \<open>A system to run the acceptor on\<close>

text \<open>Ready events, open descriptors and connections that wait to be accepted.\<close>

record listen_kernel =
  lk_ready :: "EventHandle list"
  lk_open :: "int list"
  lk_backlog :: "(int \<times> byte list) list"

definition listen_sys :: "listen_kernel syscalls" where
  "listen_sys = \<lparr>
     sc_epoll_ctl = (\<lambda>k ep op fd ev. (0, k)), sc_epoll_wait = (\<lambda>k ep n t. (Inr (take n (lk_ready k)), k\<lparr>lk_ready := []\<rparr>)),
     sc_epoll_create = (\<lambda>k n. (Inr 3, k)), sc_getfd = (\<lambda>k fd. (0, k)), sc_eventfd = (\<lambda>k. (Inr 4, k)),
     sc_read = (\<lambda>k fd. (EAGAIN, k)), sc_write = (\<lambda>k fd. (0, k)),
     sc_close = (\<lambda>k fd. (0, k\<lparr>lk_open := filter (\<lambda>x. x \<noteq> fd) (lk_open k)\<rparr>)),
     sc_shutdown = (\<lambda>k fd how. (0, k)), sc_connect = (\<lambda>k fd a. (0, k)), sc_bind = (\<lambda>k fd a. (0, k)),
     sc_socket = (\<lambda>k a b c. (Inr 5, k)), sc_so_error = (\<lambda>k fd. (Inr 0, k)),
     sc_getsockopt = (\<lambda>k fd opt. (Inr (opt_value opt), k)),
     sc_setsockopt = (\<lambda>k fd opt. (if fd = 8 then EINVAL else 0, k)),
     sc_getfl = (\<lambda>k fd. (Inr 0x800, k)), sc_setfl = (\<lambda>k fd fl. (0, k)),
     sc_inet_pton = (\<lambda>family host. None), sc_stack = (\<lambda>k. 0)\<rparr>"

definition listen_calls :: "listen_kernel acceptor_calls" where
  "listen_calls = \<lparr>sc_listen = (\<lambda>k fd n. (0, k)),
     sc_accept = (\<lambda>k fd. case lk_backlog k of
        [] \<Rightarrow> (Inl EAGAIN, k)
      | (raw, peer) # rest \<Rightarrow> if raw < 0 \<or> raw \<in> set (lk_open k) then (Inl 24, k\<lparr>lk_backlog := rest\<rparr>)
          else (Inr (raw, peer), k\<lparr>lk_open := raw # lk_open k, lk_backlog := rest\<rparr>))\<rparr>"

lemma listen_descriptor_laws: "descriptor_laws listen_sys listen_calls (\<lambda>k. set (lk_open k))"
  unfolding descriptor_laws_def quiet_calls_def keeps_view_def
  by (intro conjI allI impI) (auto simp: listen_sys_def listen_calls_def split: list.splits if_splits)

lemma listen_eventfd_laws: "eventfd_laws listen_sys (\<lambda>_ _. 0)"
  by (simp add: eventfd_laws_def listen_sys_def)

lemma listen_waits: "epoll_wait_loop listen_sys m t s \<noteq> None"
  by (subst epoll_wait_loop.simps) (simp add: listen_sys_def do_value_def)

text \<open>
  Two connections wait, and two events for the listening socket 5 are ready; setting an option of descriptor 8 fails.
\<close>

definition listen_acceptor :: "(listen_kernel, unit) ConnectionAcceptor" where
  "listen_acceptor = \<lparr>ac_socket = Some (new_Socket 5),
     ac_mpx = \<lparr>mpx_events = replicate 4 \<lparr>ev_events = 0, ev_data = 0\<rparr>, interruptor = Some 4, epollfd = 3\<rparr>,
     acceptor_options = [], accepted_options = [Some \<lparr>opt_value = [1, 0, 0, 0], opt_number = 2\<rparr>], sock_type = 1,
     used_protocol = 6, ac_addr = [], number_listened = 0, process_fabrique = None,
     ac_os = \<lparr>errno = 0, kern = \<lparr>lk_ready = [EventHandle_fd 0 5 Event_In, EventHandle_fd 0 5 Event_In], lk_open = [5],
       lk_backlog = [(8, sockaddr_in 80 [127, 0, 0, 1]), (7, sockaddr_in 81 [127, 0, 0, 1])]\<rparr>\<rparr>\<rparr>"

definition listen_pool :: "(listen_kernel, unit) ThreadPool" where
  "listen_pool = \<lparr>workers = map (\<lambda>i. fst (new_worker listen_sys i ''server'' 24 Cleared (ac_os listen_acceptor))) [0, 1],
     next_worker = 0, id_counter = 1\<rparr>"

definition listen_run where
  "listen_run = accept_loop listen_sys listen_calls (new_Socket 5) 1024 (\<lambda>n. 3 \<le> n) 0 Cleared listen_acceptor listen_pool"

lemma listen_epoll_wait:
  "epoll_wait_loop listen_sys m t s
    = Some (Some (take (length (mpx_events m)) (lk_ready (kern s))), s\<lparr>kern := (kern s)\<lparr>lk_ready := []\<rparr>\<rparr>)"
  by (subst epoll_wait_loop.simps) (simp add: listen_sys_def do_value_def)

definition listen_waited :: "(listen_kernel, unit) ConnectionAcceptor" where
  "listen_waited = listen_acceptor\<lparr>ac_mpx := (ac_mpx listen_acceptor)\<lparr>mpx_events :=
       lk_ready (kern (ac_os listen_acceptor)) @ replicate 2 \<lparr>ev_events = 0, ev_data = 0\<rparr>\<rparr>,
     ac_os := (ac_os listen_acceptor)\<lparr>kern := (kern (ac_os listen_acceptor))\<lparr>lk_ready := []\<rparr>\<rparr>\<rparr>"

lemma listen_wait:
  "wait listen_sys (ac_mpx listen_acceptor) err (-1) (ac_os listen_acceptor)
    = Some (Ready (lk_ready (kern (ac_os listen_acceptor))), ac_mpx listen_waited, err, ac_os listen_waited)"
proof -
  have "get_as_64 (EventHandle_fd 0 5 Event_In) \<noteq> si_ctrl" by code_simp
  then show ?thesis
    by (simp add: wait_def listen_epoll_wait listen_acceptor_def listen_waited_def numeral_2_eq_2 numeral_eq_Suc)
qed

lemmas listen_defs = accept_connection_def accept_error_handling_def do_value_def do_call_def set_no_block_def
  sk_set_option_def Option_set_option_def sk_close_def take_errno_def new_Socket_def native_def
  listen_sys_def listen_calls_def listen_waited_def listen_acceptor_def

definition listen_refused :: "(listen_kernel, unit) ConnectionAcceptor" where
  "listen_refused = listen_waited\<lparr>ac_os := (ac_os listen_waited)\<lparr>kern := \<lparr>lk_ready = [], lk_open = [5],
     lk_backlog = [(7, sockaddr_in 81 [127, 0, 0, 1])]\<rparr>\<rparr>\<rparr>"

lemma listen_first:
  "\<exists>err. accept_connection listen_sys listen_calls (new_Socket 5) 1024 Cleared listen_waited listen_pool
    = Some (err, listen_refused, listen_pool)"
  by (simp add: listen_defs listen_refused_def split: prod.split)

lemma listen_pool_empty: "workers listen_pool \<noteq> []" "attached_fds listen_pool = []"
  by (simp_all add: listen_pool_def attached_fds_def queue_fds_def new_worker_def split: prod.split)

lemma listen_second:
  "\<exists>err' a p. accept_connection listen_sys listen_calls (new_Socket 5) 1024 err listen_refused listen_pool = Some (err', a, p)
    \<and> attached_fds p = [7]"
proof -
  let ?peer = "sockaddr_in 81 [127, 0, 0, 1]"
  obtain addr e0 where e0: "Address ?peer err = (addr, e0)" by fastforce
  define s where "s = \<lparr>errno = 0, kern = \<lparr>lk_ready = [], lk_open = [7, 5], lk_backlog = []\<rparr>\<rparr>"
  have v: "do_value (\<lambda>k. sc_accept listen_calls k (native (new_Socket 5))) (ac_os listen_refused) = (Some (7, ?peer), s)"
    by (simp add: listen_defs listen_refused_def s_def)
  have n: "set_no_block listen_sys (new_Socket 7) True e0 s = (True, Cleared, s)" by (simp add: listen_defs s_def)
  have o: "sk_set_options listen_sys (new_Socket 7) (accepted_options listen_refused) Cleared s = (True, Cleared, s)"
    by (simp add: listen_defs listen_refused_def s_def)
  have f: "process_fabrique listen_refused = None" by (simp add: listen_refused_def listen_waited_def listen_acceptor_def)
  obtain h p where h: "attach_connection listen_sys addr 1024 (new_Socket 7) listen_pool = Some (h, p)"
    using attach_connection_total[OF listen_pool_empty(1)] by fastforce
  have "attached_fds p = [7]"
    using attach_connection_queues(2)[OF h] by (simp add: listen_pool_empty new_Socket_def)
  with v n o f h e0 show ?thesis by (simp add: accept_connection_def)
qed

lemma listen_events:
  "\<exists>err a p. accept_events listen_sys listen_calls (new_Socket 5) 1024 (\<lambda>n. 3 \<le> n) 1
       (lk_ready (kern (ac_os listen_acceptor))) Cleared listen_waited listen_pool = (None, 3, err, a, p) \<and> attached_fds p = [7]"
proof -
  have g: "lk_ready (kern (ac_os listen_acceptor)) = [EventHandle_fd 0 5 Event_In, EventHandle_fd 0 5 Event_In]"
    by (simp add: listen_acceptor_def)
  have fd: "get_as_fd (EventHandle_fd 0 5 Event_In) = native (new_Socket 5)" by code_simp
  obtain e1 where 1: "accept_connection listen_sys listen_calls (new_Socket 5) 1024 Cleared listen_waited listen_pool
      = Some (e1, listen_refused, listen_pool)" using listen_first by blast
  obtain e2 a p where "accept_connection listen_sys listen_calls (new_Socket 5) 1024 e1 listen_refused listen_pool = Some (e2, a, p)"
    "attached_fds p = [7]" using listen_second by blast
  then show ?thesis by (simp add: g fd 1)
qed

lemma listen_run_result:
  "\<exists>err a p. listen_run = Some (Accept_stopped, err, a, p) \<and> attached_fds p = [7]"
proof -
  obtain err a p where e: "accept_events listen_sys listen_calls (new_Socket 5) 1024 (\<lambda>n. 3 \<le> n) 1
       (lk_ready (kern (ac_os listen_acceptor))) Cleared listen_waited listen_pool = (None, 3, err, a, p)"
    and "attached_fds p = [7]"
    using listen_events by blast
  moreover have "listen_acceptor\<lparr>ac_mpx := ac_mpx listen_waited, ac_os := ac_os listen_waited\<rparr> = listen_waited"
    by (simp add: listen_waited_def)
  moreover have "accept_loop listen_sys listen_calls (new_Socket 5) 1024 (\<lambda>n. 3 \<le> n) 3 err a p = Some (Accept_stopped, err, a, p)"
    by (subst accept_loop.simps) simp
  ultimately show ?thesis
    unfolding listen_run_def by (subst accept_loop.simps) (simp add: listen_wait)
qed

text \<open>
  C15. No descriptor is lost: whatever the system answers, when the acceptor's loop ends, the descriptors that it has
  opened and not closed are exactly those of the connections that it has queued, each of them once.
\<close>

theorem accepted_handed_over:
  assumes "descriptor_laws sys calls opened" and "workers p \<noteq> []"
    and "accept_loop sys calls sk b stop_at n err a p = Some (r, err', a', p')"
  shows "\<exists>new. distinct new \<and> set new \<inter> opened (kern (ac_os a)) = {}
    \<and> opened (kern (ac_os a')) = opened (kern (ac_os a)) \<union> set new
    \<and> mset (attached_fds p') = mset (attached_fds p) + mset new"
  using accept_loop_hands_over[OF assms] by (simp add: handed_over_def)

theorem accepted_handed_over_witness:
  "\<exists>r err' a' p' new. listen_run = Some (r, err', a', p') \<and> r = Accept_stopped \<and> attached_fds p' = [7]
    \<and> mset (attached_fds p') = mset (attached_fds listen_pool) + mset new \<and> distinct new
    \<and> set (lk_open (kern (ac_os a'))) = {5} \<union> set new"
proof -
  obtain r e a' p' where R: "listen_run = Some (r, e, a', p')" "r = Accept_stopped" "attached_fds p' = [7]"
    using listen_run_result by blast
  have "workers listen_pool \<noteq> []" "lk_open (kern (ac_os listen_acceptor)) = [5]"
    by (simp_all add: listen_pool_def listen_acceptor_def)
  then obtain new where "distinct new" "set (lk_open (kern (ac_os a'))) = {5} \<union> set new"
      "mset (attached_fds p') = mset (attached_fds listen_pool) + mset new"
    using accepted_handed_over[OF listen_descriptor_laws _ R(1)[unfolded listen_run_def]] by auto
  with R show ?thesis by blast
qed

section \<open>The loop returns\<close>

lemma accept_events_counts:
  "accept_events sys calls sk b stop_at n events err a p = (None, n', err', a', p') \<Longrightarrow> n' = n + length events"
proof (induction events arbitrary: n err a p)
  case (Cons event events)
  have "n' = Suc n + length events"
    using Cons.prems by (auto split: if_splits option.splits dest!: Cons.IH)
  then show ?case by simp
qed simp

lemma wait_returns:
  assumes "eventfd_laws sys counter" and "epoll_wait_loop sys m t s \<noteq> None"
  shows "wait sys m err t s \<noteq> None"
proof -
  have c: "fst (compact_events n sys ifd i evs v s) \<noteq> None" for n ifd i evs v s
    using drain_ends[OF assms(1)]
    by (induction n arbitrary: i evs v s) (auto split: option.splits, (metis option.distinct(1))+)
  show ?thesis
  proof -
    obtain got s1 where g: "epoll_wait_loop sys m t s = Some (got, s1)" using assms(2) by auto
    show ?thesis
    proof (cases got)
      case None
      with g show ?thesis by (auto simp: wait_def split: prod.split)
    next
      case (Some evs)
      obtain x s2 where x: "compact_events (length evs) sys (the (interruptor m)) 0 (evs @ drop (length evs) (mpx_events m)) 0 s1
          = (Some x, s2)"
        using c[of "length evs" "the (interruptor m)" 0 "evs @ drop (length evs) (mpx_events m)" 0 s1] by (metis option.exhaust prod.collapse)
      show ?thesis using g Some x by (auto simp: wait_def Let_def split: option.split sum.split)
    qed
  qed
qed



end
