(* ===== verification/Settings.thy ===== *)
theory Settings
  imports Sockets
begin

text \<open>
  What a server or a client is configured with: the options of its connections
  (\<open>connection_options.h\<close>), the settings (\<open>serversettings.h\<close>, \<open>clientsettings.h\<close>) with their hand-written
  copy operations, and the names of the protocols (\<open>definitions/protocol.cpp\<close>).
\<close>

section \<open>Options\<close>

record Linger =
  l_onoff :: int
  l_linger :: int

record Timeval =
  tv_sec :: int
  tv_usec :: int

record ConnectionOptions =
  reuse_address :: int
  reuse_port :: int
  broadcast_socket :: int
  dont_route :: int
  keep_alive :: int
  lingering :: Linger
  timeout_send :: Timeval
  timeout_input :: Timeval
  expect_min_bytes_available :: int
  buffer_size_in :: int
  buffer_size_out :: int

definition new_ConnectionOptions :: ConnectionOptions where
  "new_ConnectionOptions = \<lparr>reuse_address = 0, reuse_port = 0, broadcast_socket = 0, dont_route = 0, keep_alive = 0,
     lingering = \<lparr>l_onoff = 0, l_linger = -1\<rparr>, timeout_send = \<lparr>tv_sec = 0, tv_usec = 0\<rparr>,
     timeout_input = \<lparr>tv_sec = 0, tv_usec = 0\<rparr>, expect_min_bytes_available = 1, buffer_size_in = 1024,
     buffer_size_out = 1024\<rparr>"

definition linger_eq :: "Linger \<Rightarrow> Linger \<Rightarrow> bool" where
  "linger_eq lhs rhs \<longleftrightarrow> l_linger lhs = l_linger rhs \<and> l_onoff lhs = l_onoff rhs"

definition timeval_eq :: "Timeval \<Rightarrow> Timeval \<Rightarrow> bool" where
  "timeval_eq lhs rhs \<longleftrightarrow> tv_sec lhs = tv_sec rhs \<and> tv_usec lhs = tv_usec rhs"

definition options_eq :: "ConnectionOptions \<Rightarrow> ConnectionOptions \<Rightarrow> bool" where
  "options_eq a b \<longleftrightarrow>
     reuse_address a = reuse_address b \<and> reuse_port a = reuse_port b \<and> broadcast_socket a = broadcast_socket b \<and>
     dont_route a = dont_route b \<and> keep_alive a = keep_alive b \<and> linger_eq (lingering a) (lingering b) \<and>
     timeval_eq (timeout_input a) (timeout_input b) \<and> timeval_eq (timeout_send a) (timeout_send b) \<and>
     expect_min_bytes_available a = expect_min_bytes_available b \<and> buffer_size_in a = buffer_size_in b \<and>
     buffer_size_out a = buffer_size_out b"

text \<open>
  The bytes of the option values on a little-endian host, where \<open>int\<close> has 4 and \<open>long\<close> has 8, and the option
  numbers of Linux.
\<close>

definition value_bytes :: "nat \<Rightarrow> int \<Rightarrow> byte list" where
  "value_bytes n x = map (\<lambda>i. of_int (x div 256 ^ i)) [0..<n]"

definition SO_REUSEADDR :: int where "SO_REUSEADDR = 2"
definition SO_DONTROUTE :: int where "SO_DONTROUTE = 5"
definition SO_BROADCAST :: int where "SO_BROADCAST = 6"
definition SO_SNDBUF :: int where "SO_SNDBUF = 7"
definition SO_RCVBUF :: int where "SO_RCVBUF = 8"
definition SO_KEEPALIVE :: int where "SO_KEEPALIVE = 9"
definition SO_LINGER :: int where "SO_LINGER = 13"
definition SO_REUSEPORT :: int where "SO_REUSEPORT = 15"
definition SO_RCVLOWAT :: int where "SO_RCVLOWAT = 18"
definition SO_RCVTIMEO :: int where "SO_RCVTIMEO = 20"
definition SO_SNDTIMEO :: int where "SO_SNDTIMEO = 21"

definition make_option :: "byte list \<Rightarrow> int \<Rightarrow> SocketOption" where
  "make_option value number = \<lparr>opt_value = value, opt_number = number\<rparr>"

definition linger_bytes :: "Linger \<Rightarrow> byte list" where
  "linger_bytes x = value_bytes 4 (l_onoff x) @ value_bytes 4 (l_linger x)"

definition timeval_bytes :: "Timeval \<Rightarrow> byte list" where
  "timeval_bytes x = value_bytes 8 (tv_sec x) @ value_bytes 8 (tv_usec x)"

definition options_sequence :: "ConnectionOptions \<Rightarrow> SocketOption option list" where
  "options_sequence o' = map Some [
     make_option (value_bytes 4 (reuse_address o')) SO_REUSEADDR,
     make_option (value_bytes 4 (reuse_port o')) SO_REUSEPORT,
     make_option (value_bytes 4 (broadcast_socket o')) SO_BROADCAST,
     make_option (value_bytes 4 (dont_route o')) SO_DONTROUTE,
     make_option (value_bytes 4 (keep_alive o')) SO_KEEPALIVE,
     make_option (linger_bytes (lingering o')) SO_LINGER,
     make_option (timeval_bytes (timeout_send o')) SO_SNDTIMEO,
     make_option (timeval_bytes (timeout_input o')) SO_RCVTIMEO,
     make_option (value_bytes 4 (expect_min_bytes_available o')) SO_RCVLOWAT,
     make_option (value_bytes 4 (buffer_size_in o')) SO_RCVBUF,
     make_option (value_bytes 4 (buffer_size_out o')) SO_SNDBUF]"

lemma options_eq_iff: "options_eq a b \<longleftrightarrow> a = b"
  by (cases a; cases b) (auto simp: options_eq_def linger_eq_def timeval_eq_def)

section \<open>Settings of a server\<close>

text \<open>\<open>hardware\<close> is \<open>std::thread::hardware_concurrency()\<close>.\<close>

record server_Settings =
  host :: string
  service :: string
  protocol :: int
  timeout_seconds_processes :: int
  port :: "16 word"
  num_threads_pool :: nat
  number_events :: nat
  options :: ConnectionOptions

definition new_server_Settings :: "nat \<Rightarrow> server_Settings" where
  "new_server_Settings hardware = \<lparr>host = [], service = [], protocol = 6, timeout_seconds_processes = 30, port = 0,
     num_threads_pool = hardware, number_events = 10, options = new_ConnectionOptions\<rparr>"

definition server_Settings_of :: "string \<Rightarrow> string \<Rightarrow> int \<Rightarrow> int \<Rightarrow> int \<Rightarrow> ConnectionOptions \<Rightarrow> nat \<Rightarrow> server_Settings" where
  "server_Settings_of host' service' proto timeout port' options' num_threads =
     \<lparr>host = host', service = service', protocol = proto, timeout_seconds_processes = timeout,
      port = word_of_int port', num_threads_pool = num_threads, number_events = 10, options = options'\<rparr>"

text \<open>The copy constructor builds a default object and copies all members but the number of events.\<close>

definition server_copy :: "nat \<Rightarrow> server_Settings \<Rightarrow> server_Settings" where
  "server_copy hardware other = (new_server_Settings hardware)\<lparr>host := host other, service := service other,
     port := port other, num_threads_pool := num_threads_pool other, protocol := protocol other,
     timeout_seconds_processes := timeout_seconds_processes other, options := options other\<rparr>"

definition server_assign :: "server_Settings \<Rightarrow> server_Settings \<Rightarrow> server_Settings" where
  "server_assign this other = this\<lparr>host := host other, service := service other,
     port := port other, num_threads_pool := num_threads_pool other, protocol := protocol other,
     timeout_seconds_processes := timeout_seconds_processes other, options := options other\<rparr>"

text \<open>Moving leaves the strings of the other object empty, move assignment swaps them.\<close>

definition server_move :: "nat \<Rightarrow> server_Settings \<Rightarrow> server_Settings \<times> server_Settings" where
  "server_move hardware other = (server_copy hardware other, other\<lparr>host := [], service := []\<rparr>)"

definition server_move_assign :: "server_Settings \<Rightarrow> server_Settings \<Rightarrow> server_Settings \<times> server_Settings" where
  "server_move_assign this other =
     (server_assign this other, other\<lparr>host := host this, service := service this\<rparr>)"

definition server_eq :: "server_Settings \<Rightarrow> server_Settings \<Rightarrow> bool" where
  "server_eq a b \<longleftrightarrow> host a = host b \<and> service a = service b \<and> port a = port b \<and>
     num_threads_pool a = num_threads_pool b \<and> protocol a = protocol b \<and>
     timeout_seconds_processes a = timeout_seconds_processes b \<and> options_eq (options a) (options b)"

text \<open>
  The copies are equal to the original as far as \<open>==\<close> looks, and keep their own number of events.
\<close>

lemma server_copies:
  "server_eq (server_copy n s) s" "server_eq (server_assign t s) s"
  "server_eq (fst (server_move n s)) s" "server_eq (fst (server_move_assign t s)) s"
  by (simp_all add: server_eq_def server_copy_def server_assign_def server_move_def server_move_assign_def
      options_eq_iff new_server_Settings_def)

lemma number_of_events_lost:
  "number_events (server_copy n s) = 10" "number_events (server_assign t s) = number_events t"
  by (simp_all add: server_copy_def server_assign_def new_server_Settings_def)

section \<open>Settings of a client\<close>

record client_Settings =
  binded_addr :: "address option"
  c_timeout_seconds_processes :: int
  c_num_threads_pool :: nat
  c_number_events :: nat
  c_options :: ConnectionOptions
  c_protocol :: int

definition new_client_Settings :: "nat \<Rightarrow> client_Settings" where
  "new_client_Settings hardware = \<lparr>binded_addr = None, c_timeout_seconds_processes = 30, c_num_threads_pool = hardware,
     c_number_events = 10, c_options = new_ConnectionOptions, c_protocol = 6\<rparr>"

text \<open>The port that the constructor takes is not used.\<close>

definition client_Settings_of :: "int \<Rightarrow> int \<Rightarrow> int \<Rightarrow> ConnectionOptions \<Rightarrow> nat \<Rightarrow> client_Settings" where
  "client_Settings_of proto timeout port' options' num_threads =
     \<lparr>binded_addr = None, c_timeout_seconds_processes = timeout, c_num_threads_pool = num_threads, c_number_events = 10,
      c_options = options', c_protocol = proto\<rparr>"

definition client_assign :: "client_Settings \<Rightarrow> client_Settings \<Rightarrow> client_Settings" where
  "client_assign this other = this\<lparr>c_protocol := c_protocol other,
     c_timeout_seconds_processes := c_timeout_seconds_processes other, c_num_threads_pool := c_num_threads_pool other,
     c_options := c_options other\<rparr>"

definition client_copy :: "nat \<Rightarrow> client_Settings \<Rightarrow> client_Settings" where
  "client_copy hardware other = client_assign (new_client_Settings hardware) other"

definition set_bind_address :: "address \<Rightarrow> client_Settings \<Rightarrow> bool \<times> client_Settings" where
  "set_bind_address addr s = (if addr_valid addr then (True, s\<lparr>binded_addr := Some addr\<rparr>) else (False, s))"

definition client_eq :: "client_Settings \<Rightarrow> client_Settings \<Rightarrow> bool" where
  "client_eq a b \<longleftrightarrow> binded_addr a = binded_addr b \<and> c_timeout_seconds_processes a = c_timeout_seconds_processes b \<and>
     c_num_threads_pool a = c_num_threads_pool b \<and> c_number_events a = c_number_events b \<and>
     options_eq (c_options a) (c_options b) \<and> c_protocol a = c_protocol b"

text \<open>A copy loses the address that the client is to be bound to, and so differs from the original.\<close>

lemma bound_address_lost:
  assumes "addr_valid addr"
  shows "binded_addr (client_copy n (snd (set_bind_address addr s))) = None"
    "\<not> client_eq (client_copy n (snd (set_bind_address addr s))) (snd (set_bind_address addr s))"
  using assms by (simp_all add: set_bind_address_def client_copy_def client_assign_def new_client_Settings_def client_eq_def)

section \<open>Protocols\<close>

definition num_to_proto :: "(int \<times> string) list" where
  "num_to_proto = [(0, ''ip''), (1, ''icmp''), (2, ''igmp''), (4, ''ipip''), (6, ''tcp''), (8, ''egp''), (12, ''pup''),
     (17, ''udp''), (22, ''idp''), (29, ''tp''), (33, ''dccp''), (41, ''ipv6''), (46, ''rsvp''), (47, ''gre''),
     (50, ''esp''), (51, ''ah''), (92, ''mtp''), (94, ''beetph''), (98, ''encap''), (103, ''pim''), (108, ''comp''),
     (132, ''sctp''), (136, ''udplite''), (137, ''mpls''), (143, ''eth''), (255, ''raw''), (262, ''mptcp'')]"

text \<open>The other direction is filled from the entries in some order; the texts are distinct.\<close>

definition proto_to_num :: "(string \<times> int) list" where
  "proto_to_num = map (\<lambda>(number, text). (text, number)) num_to_proto"

definition proto_to_number :: "string \<Rightarrow> int option" where
  "proto_to_number text = map_of proto_to_num text"

definition proto_to_text :: "int \<Rightarrow> string" where
  "proto_to_text number = (case map_of num_to_proto number of Some text \<Rightarrow> text | None \<Rightarrow> [])"

lemma proto_tables: "distinct (map snd num_to_proto)" "distinct (map fst num_to_proto)" "[] \<notin> snd ` set num_to_proto"
  by (simp_all add: num_to_proto_def)

lemma proto_number_text:
  "proto_to_text number \<noteq> [] \<Longrightarrow> proto_to_number (proto_to_text number) = Some number"
  "proto_to_number text = Some number \<Longrightarrow> proto_to_text number = text"
proof -
  have inverse: "map_of proto_to_num nm = Some number \<longleftrightarrow> map_of num_to_proto number = Some nm" for number nm
    using proto_tables(1,2) by (subst (1 2) map_of_eq_Some_iff) (auto simp: proto_to_num_def o_def split_beta image_iff Bex_def)
  show "proto_to_text number \<noteq> [] \<Longrightarrow> proto_to_number (proto_to_text number) = Some number"
    using inverse by (auto simp: proto_to_text_def proto_to_number_def split: option.splits)
  show "proto_to_number text = Some number \<Longrightarrow> proto_to_text number = text"
    using inverse by (auto simp: proto_to_text_def proto_to_number_def)
qed

end
