(* ===== verification/Server_Client.thy ===== *)
theory Server_Client
  imports Acceptor Settings
begin

text \<open>
  The server and the client (\<open>abstractserver.h\<close>, \<open>abstractserver.cpp\<close>, \<open>abstractclient.h\<close>): a server owns an acceptor
  and a pool of workers, a client one worker. Their virtual functions do nothing unless a derived class
  overrides them.
\<close>

section \<open>The server\<close>

record ('k, 'u) AbstractServer =
  accepter :: "('k, 'u) ConnectionAcceptor option"
  processes_pool :: "('k, 'u) ThreadPool option"
  settings :: server_Settings

abbreviation EALREADY :: nat where "EALREADY \<equiv> 114"

definition new_server :: "nat \<Rightarrow> ('k, 'u) AbstractServer" where
  "new_server hardware = \<lparr>accepter = None, processes_pool = None, settings = new_server_Settings hardware\<rparr>"

definition is_launched :: "('k, 'u) AbstractServer \<Rightarrow> bool" where
  "is_launched srv \<longleftrightarrow> accepter srv \<noteq> None"

text \<open>
  The constructor of the pool leaves the error code as it is when there is no thread to make. \<open>counter\<close> is the
  program's counter of connection identifiers.
\<close>

definition new_pool :: "'k syscalls \<Rightarrow> (nat \<Rightarrow> string) \<Rightarrow> nat \<Rightarrow> 32 word \<Rightarrow> error_code \<Rightarrow> 'k os \<Rightarrow>
    ('k, 'u) ThreadPool \<times> error_code" where
  "new_pool sys digits num_threads counter err s =
    (let (ws, made) = new_workers sys digits num_threads 0 s
     in (\<lparr>workers = ws, next_worker = 0, id_counter = counter\<rparr>, if num_threads = 0 then err else made))"

definition configure :: "'k syscalls \<Rightarrow> (nat \<Rightarrow> string) \<Rightarrow> 32 word \<Rightarrow> server_Settings \<Rightarrow> error_code \<Rightarrow> 'k os \<Rightarrow>
    ('k, 'u) AbstractServer \<Rightarrow> error_code \<times> ('k, 'u) AbstractServer" where
  "configure sys digits counter new_settings err s srv =
    (let set = server_assign (settings srv) new_settings;
         srv = srv\<lparr>settings := set\<rparr>
     in if \<not> is_launched srv
        then let (pool, err) = new_pool sys digits (num_threads_pool set) counter err s
             in if failed err then (err, srv\<lparr>processes_pool := None\<rparr>)
                else let (a, err) = make_connection_acceptor sys (host set) (port set) (number_events set)
                           (options_sequence (options set)) (options_sequence (options set)) err s
                     in (err, srv\<lparr>processes_pool := Some pool, accepter := Some a\<rparr>)
        else (Generic EALREADY, srv))"

text \<open>The size of a connection's buffer is converted to \<open>size_t\<close>.\<close>

definition server_buffer_size :: "('k, 'u) AbstractServer \<Rightarrow> nat" where
  "server_buffer_size srv = nat (buffer_size_in (options (settings srv)) mod 2 ^ 64)"

text \<open>
  The error 1 is \<open>operation_not_permitted\<close>.
  \<open>launch\<close> reports whether there is a thread to start; the thread itself works on the server's acceptor and pool.
\<close>

definition server_launch :: "error_code \<Rightarrow> ('k, 'u) AbstractServer \<Rightarrow> bool \<times> error_code" where
  "server_launch err srv = (if accepter srv = None then (False, Generic 1) else (True, err))"

definition server_thread :: "'k syscalls \<Rightarrow> 'k acceptor_calls \<Rightarrow> (nat \<Rightarrow> bool) \<Rightarrow> ('k, 'u) AbstractServer \<Rightarrow>
    (thread_end \<times> error_code \<times> ('k, 'u) AbstractServer) option" where
  "server_thread sys calls stop_at srv = (case (accepter srv, processes_pool srv) of
     (Some a, Some p) \<Rightarrow> map_option (\<lambda>(r, err, a, p). (r, err, srv\<lparr>accepter := Some a, processes_pool := Some p\<rparr>))
       (acceptor_thread sys calls (server_buffer_size srv) stop_at a p)
   | _ \<Rightarrow> None)"

definition server_attach :: "'k syscalls \<Rightarrow> address \<Rightarrow> Socket \<Rightarrow> ('k, 'u) AbstractServer \<Rightarrow>
    (ConnectionHandle \<times> ('k, 'u) AbstractServer) option" where
  "server_attach sys addr socket srv = (case processes_pool srv of
     None \<Rightarrow> None
   | Some p \<Rightarrow> map_option (\<lambda>(h, p). (h, srv\<lparr>processes_pool := Some p\<rparr>))
       (attach_connection sys addr (server_buffer_size srv) socket p))"

text \<open>Commands for a connection go to the worker of its handle, which need not be one of the server's pool.\<close>

definition server_remove :: "'k syscalls \<Rightarrow> ConnectionHandle \<Rightarrow> int \<Rightarrow> error_code \<Rightarrow> ('k, 'u) ThreadPool \<Rightarrow>
    bool \<times> error_code \<times> ('k, 'u) ThreadPool" where
  "server_remove sys h timeout_sec err p = command_owner sys (RemoveConnection h timeout_sec) h err p"

definition server_modify :: "'k syscalls \<Rightarrow> ConnectionHandle \<Rightarrow> SocketOption option list \<Rightarrow> error_code \<Rightarrow> ('k, 'u) ThreadPool \<Rightarrow>
    bool \<times> error_code \<times> ('k, 'u) ThreadPool" where
  "server_modify sys h conn_options err p = command_owner sys (ModifyConnection h conn_options) h err p"

text \<open>\<open>ThreadPool::setProcesses\<close>: every worker in turn, with one error code.\<close>

fun set_all_processes :: "'k syscalls \<Rightarrow> (ConnectionHandle \<Rightarrow> error_code \<Rightarrow> 'u process \<times> error_code) \<Rightarrow>
    (('k, 'u) worker \<Rightarrow> ConnectionId list) \<Rightarrow> error_code \<Rightarrow> ('k, 'u) worker list \<Rightarrow> error_code \<times> ('k, 'u) worker list" where
  "set_all_processes sys build order err [] = (err, [])"
| "set_all_processes sys build order err (w # ws) =
    (let (err, w) = set_processes sys build (order w) err w;
         (err, ws) = set_all_processes sys build order err ws
     in (err, w # ws))"

definition setProcesses :: "'k syscalls \<Rightarrow> (ConnectionHandle \<Rightarrow> error_code \<Rightarrow> 'u process \<times> error_code) \<Rightarrow>
    (('k, 'u) worker \<Rightarrow> ConnectionId list) \<Rightarrow> error_code \<Rightarrow> ('k, 'u) ThreadPool \<Rightarrow> bool \<times> error_code \<times> ('k, 'u) ThreadPool" where
  "setProcesses sys build order err p =
    (let (err, ws) = set_all_processes sys build order err (workers p)
     in (\<not> failed err, err, p\<lparr>workers := ws\<rparr>))"

text \<open>
  \<open>close\<close> stops the acceptor, whose destructor then closes its socket, and destroys the pool, whose destructor tells the
  workers to stop; the acceptor and the pool as they are left come with the result. \<open>joinable\<close> tells whether the
  acceptor has a thread, which ends in between.
\<close>

definition server_close :: "'k syscalls \<Rightarrow> bool \<Rightarrow> ('k, 'u) AbstractServer \<Rightarrow>
    ('k, 'u) ConnectionAcceptor option \<times> ('k, 'u) ThreadPool option \<times> ('k, 'u) AbstractServer" where
  "server_close sys joinable srv =
    (map_option (\<lambda>a. snd (close_acceptor sys Cleared (interrupt_acceptor sys joinable a))) (accepter srv),
     map_option (stop_pool sys) (processes_pool srv),
     srv\<lparr>accepter := None, processes_pool := None\<rparr>)"

definition server_collapse :: "'k syscalls \<Rightarrow> (('k, 'u) worker \<Rightarrow> ConnectionId list) \<Rightarrow> int \<Rightarrow> ('k, 'u) AbstractServer \<Rightarrow>
    ('k, 'u) AbstractServer" where
  "server_collapse sys order timeout_sec srv =
     srv\<lparr>processes_pool := map_option (stopConnections sys order timeout_sec Cleared) (processes_pool srv)\<rparr>"

section \<open>The client\<close>

text \<open>The client's worker is null when its construction has reported an error.\<close>

type_synonym ('k, 'u) AbstractClient = "('k, 'u) worker option"

definition new_client :: "'k syscalls \<Rightarrow> nat \<Rightarrow> nat \<Rightarrow> error_code \<Rightarrow> 'k os \<Rightarrow> ('k, 'u) AbstractClient \<times> error_code" where
  "new_client sys self events_in_order err s =
    (let (w, err) = new_worker sys self ''client'' events_in_order err s
     in if failed err then (None, err) else (Some w, err))"

text \<open>\<open>disconnect\<close> uses the pointer without a test: \<open>None\<close>. The command is named by its number.\<close>

definition disconnect :: "'k syscalls \<Rightarrow> ConnectionHandle \<Rightarrow> ('k, 'u) AbstractClient \<Rightarrow> (nat \<times> ('k, 'u) AbstractClient) option" where
  "disconnect sys h client = (case client of
     None \<Rightarrow> None
   | Some w \<Rightarrow> Some (next_cmd w, Some (push_command sys (RemoveConnection h 0) w)))"

text \<open>
  \<open>connect\<close> queues a command and waits, at most for the given time, for the worker to complete it; \<open>meanwhile\<close> is what
  the worker's thread does in that time. The condition \<open>if(cmd->successed())\<close> converts an
  \<open>optional<bool>\<close> to \<open>bool\<close>: it asks whether there is a value, not what it is.
\<close>

definition connect :: "'k syscalls \<Rightarrow> string \<Rightarrow> 16 word \<Rightarrow> int \<Rightarrow> int \<Rightarrow> (('k, 'u) worker \<Rightarrow> ('k, 'u) worker) \<Rightarrow>
    32 word \<Rightarrow> error_code \<Rightarrow> ('k, 'u) AbstractClient \<Rightarrow> ConnectionHandle \<times> error_code \<times> 32 word \<times> ('k, 'u) AbstractClient" where
  "connect sys host' port' type proto meanwhile counter err client = (case client of
     None \<Rightarrow> let (h, counter) = new_ConnectionHandle None counter in (h, err, counter, None)
   | Some w \<Rightarrow>
       let (hconn, counter) = new_ConnectionHandle (Some (w_self w)) counter;
           cmd = next_cmd w;
           w = meanwhile (push_command sys (AddConnection hconn host' port' type proto) w)
       in if successed cmd w \<noteq> None then (hconn, Cleared, counter, Some w)
          else let err = (case results w cmd of Some e \<Rightarrow> e | None \<Rightarrow> Generic ENOTCONN);
                   (h, counter) = new_ConnectionHandle None counter
               in (h, err, counter, Some w))"

definition request :: "'k syscalls \<Rightarrow> ConnectionHandle \<Rightarrow> ('k, 'u) AbstractClient \<Rightarrow> (nat \<times> ('k, 'u) AbstractClient) option" where
  "request sys h client = (case client of
     None \<Rightarrow> None
   | Some w \<Rightarrow> Some (next_cmd w, Some (push_command sys (RequestData h) w)))"

end
