(* ===== verification/Server_Properties.thy ===== *)
theory Server_Properties
  imports Acceptor_Properties Server_Client Pool_Properties Worker_Findings
begin

text \<open>
  A connection on its way from the acceptor to its process: what the acceptor queues, what the worker makes of it, and
  where server, acceptor and client do something else than their surroundings expect.
\<close>

section \<open>What an accepted connection leaves in the queue\<close>

definition next_handle :: "nat \<Rightarrow> ('k, 'u) ThreadPool \<Rightarrow> ConnectionHandle" where
  "next_handle i p = \<lparr>conn_id = (if id_counter p = 0 then 1 else id_counter p), owner = Some i\<rparr>"

lemma next_handle_valid: "is_valid_handler (next_handle i p)"
  by (simp add: next_handle_def is_valid_handler_def)

text \<open>The worker of the next connection, with the two commands in its queue.\<close>

definition with_connection :: "'k syscalls \<Rightarrow> ConnectionHandle \<Rightarrow> address \<Rightarrow> nat \<Rightarrow> int \<Rightarrow> 'u process \<Rightarrow> ('k, 'u) worker \<Rightarrow> ('k, 'u) worker" where
  "with_connection sys h addr n raw pr w =
     push_command sys (AttachProcess h pr) (push_command sys (AttachConnection h (new_Connection addr) n (new_Socket raw)) w)"

lemma attach_connection_at:
  assumes "workers p \<noteq> []" and "\<forall>j < length (workers p). w_self (workers p ! j) = j"
    and "i = next_worker p mod length (workers p)"
  shows "\<exists>p'. attach_connection sys addr n sk p = Some (next_handle i p, p') \<and>
    workers p' = (workers p)[i := push_command sys (AttachConnection (next_handle i p) (new_Connection addr) n sk) (workers p ! i)]"
proof -
  have i: "i < length (workers p)" using assms by simp
  then have "w_self (workers p ! i) = i" using assms(2) by simp
  then have "new_ConnectionHandle (Some (w_self (workers p ! i))) (id_counter p) = (next_handle i p, id_counter p + 1)"
    by (simp add: new_ConnectionHandle_def next_handle_def)
  then show ?thesis using assms(1,3) next_handle_valid[of i p]
    by (simp add: attach_connection_def execute_command_def Let_def)
qed

lemma command_owner_at:
  assumes "is_valid_handler h" and "owner h = Some i" and "i < length ws"
    and "\<forall>j < length ws. w_self (ws ! j) = j" and "workers p = ws"
  shows "\<exists>p'. command_owner sys c h err p = (True, err, p') \<and> workers p' = ws[i := push_command sys c (ws ! i)]"
proof -
  have "map (\<lambda>w. if same_owner (w_self w) h then push_command sys c w else w) ws = ws[i := push_command sys c (ws ! i)]"
    by (rule nth_equalityI) (use assms in \<open>auto simp: same_owner_def nth_list_update\<close>)
  then show ?thesis using assms(1,5) by (simp add: command_owner_def)
qed

lemma options_clear: "sk_set_options sys sk opts err s = (True, err', s') \<Longrightarrow> err' = Cleared"
  by (induction opts arbitrary: err s) (auto split: prod.splits if_splits)

lemma accept_connection_queues:
  assumes "workers p \<noteq> []" and ids: "\<forall>j < length (workers p). w_self (workers p ! j) = j"
    and i: "i = next_worker p mod length (workers p)"
    and acc: "do_value (\<lambda>k. sc_accept calls k (native sk)) (ac_os a) = (Some (raw, peer), s)"
    and nb: "set_no_block sys (new_Socket raw) True (snd (Address peer err)) s = (b, e1, s1)"
    and opt: "sk_set_options sys (new_Socket raw) (accepted_options a) e1 s1 = (True, e2, s2)"
    and f: "process_fabrique a = Some mk"
  shows "\<exists>err' p'. accept_connection sys calls sk n err a p = Some (err', a\<lparr>ac_os := s2\<rparr>, p')
    \<and> workers p' = (workers p)[i := with_connection sys (next_handle i p) (fst (Address peer err)) n raw
        (fst (mk (next_handle i p) e2)) (workers p ! i)]"
proof -
  let ?h = "next_handle i p" and ?addr = "fst (Address peer err)"
  have il: "i < length (workers p)" using assms(1) i by simp
  obtain p1 where p1: "attach_connection sys ?addr n (new_Socket raw) p = Some (?h, p1)"
      "workers p1 = (workers p)[i := push_command sys (AttachConnection ?h (new_Connection ?addr) n (new_Socket raw)) (workers p ! i)]"
    using attach_connection_at[OF assms(1) ids i] by blast
  have "\<forall>j < length (workers p1). w_self (workers p1 ! j) = j" using ids il p1(2) by (auto simp: nth_list_update)
  moreover have "i < length (workers p1)" "owner ?h = Some i" using il p1(2) by (simp_all add: next_handle_def)
  ultimately obtain p2 where p2: "command_owner sys (AttachProcess ?h (fst (mk ?h e2))) ?h (snd (mk ?h e2)) p1 = (True, snd (mk ?h e2), p2)"
      "workers p2 = (workers p1)[i := push_command sys (AttachProcess ?h (fst (mk ?h e2))) (workers p1 ! i)]"
    using command_owner_at[OF next_handle_valid, of i p i "workers p1" p1 sys _ "snd (mk ?h e2)"] by blast
  have "e2 = Cleared" using opt by (rule options_clear)
  then have ok: "\<not> failed e2" by simp
  have "accept_connection sys calls sk n err a p = Some (snd (mk ?h e2), a\<lparr>ac_os := s2\<rparr>, p2)"
    unfolding accept_connection_def acc using nb opt f p1(1) p2(1) ok
    by (cases "Address peer err"; cases "mk ?h e2") simp
  moreover have "workers p2 = (workers p)[i := with_connection sys ?h ?addr n raw (fst (mk ?h e2)) (workers p ! i)]"
    using p1(2) p2(2) il by (simp add: with_connection_def)
  ultimately show ?thesis by blast
qed

section \<open>What the worker makes of it\<close>

text \<open>A descriptor that the system shows as non-blocking.\<close>

definition non_blocking :: "'k syscalls \<Rightarrow> int \<Rightarrow> bool" where
  "non_blocking sys fd \<longleftrightarrow> (\<forall>k. (\<exists>f k'. sc_getfl sys k fd = (Inr f, k') \<and> f AND O_NONBLOCK \<noteq> 0) \<and>
     (\<forall>fl. fst (sc_setfl sys k fd fl) = 0))"

lemma is_non_block_true:
  assumes "non_blocking sys fd" and "0 \<le> fd"
  shows "\<exists>s'. is_non_block sys (new_Socket fd) err s = (True, Cleared, s')"
proof -
  obtain f k where f: "sc_getfl sys (kern s) fd = (Inr f, k)" "f AND O_NONBLOCK \<noteq> 0"
    using assms(1) unfolding non_blocking_def by blast
  then have g: "do_value (\<lambda>k. sc_getfl sys k fd) s = (Some f, s\<lparr>kern := k\<rparr>)" by (simp add: do_value_def)
  obtain s' where "do_call (\<lambda>k. sc_setfl sys k fd (f OR O_NONBLOCK)) (s\<lparr>kern := k\<rparr>) = (True, s')"
  proof -
    have "fst (sc_setfl sys k fd (f OR O_NONBLOCK)) = 0" using assms(1) by (simp add: non_blocking_def)
    then show ?thesis using that by (cases "sc_setfl sys k fd (f OR O_NONBLOCK)") (simp add: do_call_def)
  qed
  with g f(2) assms(2) show ?thesis by (simp add: is_non_block_def new_Socket_def)
qed

text \<open>The connection before and after its process has been attached.\<close>

definition attached_state :: "address \<Rightarrow> nat \<Rightarrow> int \<Rightarrow> 'u ConnectionState" where
  "attached_state addr n raw = \<lparr>cs_conn = \<lparr>storage = addr, state = Active\<rparr>, cs_proc = None, cs_io = Some n,
     cs_socket = new_Socket raw, events_handled = events_attached\<rparr>"

definition events_served :: Event where
  "events_served = event_or (event_and events_attached (event_not Event_Out)) Event_In"

definition served_state :: "address \<Rightarrow> nat \<Rightarrow> int \<Rightarrow> 'u process \<Rightarrow> 'u ConnectionState" where
  "served_state addr n raw pr = (attached_state addr n raw)\<lparr>cs_proc := Some pr, events_handled := events_served\<rparr>"

lemma attach_executes:
  assumes K: "kernel_ok sys interest" "kernel_reliable sys interest" and nb: "non_blocking sys raw"
    and m: "epollfd (mpx w) \<noteq> -1" "0 \<le> raw" "registered interest (mpx w) (w_os w) raw = None"
    and h: "connections w (conn_id h) = None" "is_valid_handler h"
  shows "\<exists>s. attachConnectionInternal sys h (new_Connection addr) n (new_Socket raw) Cleared w
      = (True, Cleared, w\<lparr>connections := (connections w)(conn_id h := Some (attached_state addr n raw)), w_os := s\<rparr>)
    \<and> registered interest (mpx w) s raw \<noteq> None"
proof -
  let ?ev = "handle_for sys (conn_id h) events_attached w"
  obtain r e s1 where a: "add_handle sys (mpx w) raw ?ev Cleared (w_os w) = (r, e, s1)" by (metis prod_cases3)
  have r: "r" by (rule add_handle_reliable[OF K(2) m a])
  have e: "e = Cleared" "registered interest (mpx w) s1 raw \<noteq> None" using add_handle_effect[OF K(1) a] r by auto
  obtain s2 where s2: "is_non_block sys (new_Socket raw) (Generic EBADF) s1 = (True, Cleared, s2)"
    using is_non_block_true[OF nb m(2)] by blast
  have "registered interest (mpx w) s2 raw \<noteq> None"
    using is_non_block_interest[OF K(1) s2] e(2) by (simp add: registered_def)
  moreover have "attachConnectionInternal sys h (new_Connection addr) n (new_Socket raw) Cleared w
      = (True, Cleared, w\<lparr>connections := (connections w)(conn_id h := Some (attached_state addr n raw)), w_os := s2\<rparr>)"
    using a e(1) s2 h m(2)
    by (simp add: attachConnectionInternal_def add_tracking_event_def on_os2_def insert_conn_def make_connectionIO_def
        native_def new_Socket_def sk_valid_def assert_that_def upd_conn_def set_connection_state_def attached_state_def
        new_Connection_def)
  ultimately show ?thesis by blast
qed

lemma process_executes:
  assumes K: "kernel_ok sys interest" "kernel_reliable sys interest"
    and m: "epollfd (mpx w) \<noteq> -1" "0 \<le> raw" "registered interest (mpx w) (w_os w) raw \<noteq> None" "\<not> stop_requested w"
    and h: "connections w (conn_id h) = Some (attached_state addr n raw)"
    and init: "\<And>p w. on_init_connection ops p w Cleared = (init p, w, Cleared)"
  shows "\<exists>s ev. addConnectionProcessInternal sys ops h pr Cleared w
      = (True, Cleared, w\<lparr>connections := (connections w)(conn_id h := Some (served_state addr n raw (init (pr\<lparr>io_set := True\<rparr>)))),
          w_os := s\<rparr>)
    \<and> registered interest (mpx w) s raw = Some ev \<and> ev_events ev = events_served \<and> get_as_32 ev = conn_id h"
proof -
  define ev where "ev = handle_for sys (conn_id h) events_served w"
  obtain r e s1 where a: "modify_handle sys (mpx w) raw ev Cleared (w_os w) = (r, e, s1)" by (metis prod_cases3)
  have r: "r" by (rule modify_handle_reliable[OF K m(1-3) a])
  have e: "registered interest (mpx w) s1 raw = Some ev" using modify_handle_effect[OF K(1) a] r by simp
  have "addConnectionProcessInternal sys ops h pr Cleared w
      = (True, Cleared, w\<lparr>connections := (connections w)(conn_id h := Some (served_state addr n raw (init (pr\<lparr>io_set := True\<rparr>)))),
          w_os := s1\<rparr>)"
    using a r h m(4) init
    by (simp add: addConnectionProcessInternal_def modify_tracking_event_def on_os2_def attached_state_def served_state_def
        events_served_def [symmetric] upd_conn_def with_proc_def native_def new_Socket_def handle_for_def ev_def)
  moreover have "ev_events ev = events_served" "get_as_32 ev = conn_id h"
    by (simp add: ev_def handle_for_def EventHandle_u32_def) (simp add: ev_def handle_for_def)
  ultimately show ?thesis using e by blast
qed

lemma extract_two:
  assumes "cmds w = []"
  shows "extract_all (with_connection sys h addr n raw pr w)
    = ([(next_cmd w, AttachConnection h (new_Connection addr) n (new_Socket raw)), (next_cmd w + 1, AttachProcess h pr)],
       (with_connection sys h addr n raw pr w)\<lparr>cmds := []\<rparr>)"
  using extract_all_frame[of "with_connection sys h addr n raw pr w"] assms
  by (cases "extract_all (with_connection sys h addr n raw pr w)") (simp add: with_connection_def)

lemma push_frame:
  "connections (push_command sys c w) = connections w" "mpx (push_command sys c w) = mpx w"
  "stop_requested (push_command sys c w) = stop_requested w" "results (push_command sys c w) = results w"
  "aborted (push_command sys c w) = aborted w"
  by (simp_all add: push_command_def wake_event_def enqueue_def)

lemma push_registered:
  "kernel_ok sys interest \<Longrightarrow> registered interest m (w_os (push_command sys c w)) = registered interest m (w_os w)"
  by (simp add: push_command_def wake_event_def enqueue_def registered_def interrupt_interest)

lemma pending_serves:
  assumes K: "kernel_ok sys interest" "kernel_reliable sys interest" and nb: "non_blocking sys raw" "0 \<le> raw"
    and w: "epollfd (mpx w) \<noteq> -1" "registered interest (mpx w) (w_os w) raw = None" "\<not> stop_requested w" "cmds w = []"
      "results w (next_cmd w) = None" "results w (next_cmd w + 1) = None"
    and h: "connections w (conn_id h) = None" "is_valid_handler h"
    and init: "\<And>p w. on_init_connection ops p w Cleared = (init p, w, Cleared)"
  shows "\<exists>w' ev. handle_pending sys ops (with_connection sys h addr n raw pr w) = w'
    \<and> connections w' = (connections w)(conn_id h := Some (served_state addr n raw (init (pr\<lparr>io_set := True\<rparr>))))
    \<and> registered interest (mpx w') (w_os w') raw = Some ev \<and> ev_events ev = events_served \<and> get_as_32 ev = conn_id h
    \<and> results w' (next_cmd w) = Some Cleared \<and> results w' (next_cmd w + 1) = Some Cleared \<and> aborted w' = aborted w"
proof -
  define w1 where "w1 = (with_connection sys h addr n raw pr w)\<lparr>cmds := []\<rparr>"
  have w1: "connections w1 = connections w" "mpx w1 = mpx w" "results w1 = results w" "\<not> stop_requested w1"
      "aborted w1 = aborted w" "registered interest (mpx w) (w_os w1) raw = None"
    using w by (simp_all add: w1_def with_connection_def push_frame push_registered[OF K(1)])
  obtain s1 where s1: "attachConnectionInternal sys h (new_Connection addr) n (new_Socket raw) Cleared w1
      = (True, Cleared, w1\<lparr>connections := (connections w1)(conn_id h := Some (attached_state addr n raw)), w_os := s1\<rparr>)"
    and r1: "registered interest (mpx w1) s1 raw \<noteq> None"
    using attach_executes[OF K nb(1), of w1 h addr n] w h w1 nb(2) by auto
  define w2 where "w2 = set_error (next_cmd w) Cleared
      (w1\<lparr>connections := (connections w1)(conn_id h := Some (attached_state addr n raw)), w_os := s1\<rparr>)"
  have w2: "w2 = w1\<lparr>connections := (connections w1)(conn_id h := Some (attached_state addr n raw)), w_os := s1,
      results := (results w)(next_cmd w := Some Cleared)\<rparr>"
    using w(5) w1(3) by (simp add: w2_def set_error_def)
  obtain s2 ev where s2: "addConnectionProcessInternal sys ops h pr Cleared w2
      = (True, Cleared, w2\<lparr>connections := (connections w2)(conn_id h := Some (served_state addr n raw (init (pr\<lparr>io_set := True\<rparr>)))),
          w_os := s2\<rparr>)"
    and r2: "registered interest (mpx w2) s2 raw = Some ev" "ev_events ev = events_served" "get_as_32 ev = conn_id h"
    using process_executes[OF K, of w2 raw h addr n ops init pr] w(1) nb(2) r1 w1 init by (auto simp: w2)
  define w3 where "w3 = w2\<lparr>connections := (connections w2)(conn_id h := Some (served_state addr n raw (init (pr\<lparr>io_set := True\<rparr>)))),
      w_os := s2, results := (results w2)(next_cmd w + 1 := Some Cleared)\<rparr>"
  have "results w2 (next_cmd w + 1) = None" using w(6) by (simp add: w2)
  then have second: "execute sys ops (next_cmd w + 1) (AttachProcess h pr) w2 = w3"
    using s2 by (simp add: report_def w3_def set_error_def)
  have "execute sys ops (next_cmd w) (AttachConnection h (new_Connection addr) n (new_Socket raw)) w1 = w2"
    using s1 by (simp add: report_def w2_def)
  with second have "handle_pending sys ops (with_connection sys h addr n raw pr w) = w3"
    by (simp add: handle_pending_def extract_two[OF w(4)] w1_def [symmetric] del: execute.simps)
  moreover have "connections w3 = (connections w)(conn_id h := Some (served_state addr n raw (init (pr\<lparr>io_set := True\<rparr>))))"
      "registered interest (mpx w3) (w_os w3) raw = Some ev" "results w3 (next_cmd w) = Some Cleared"
      "results w3 (next_cmd w + 1) = Some Cleared" "aborted w3 = aborted w"
    using r2(1) w1 by (simp_all add: w3_def w2)
  ultimately show ?thesis using r2(2,3) by blast
qed


definition demo_listen_calls :: "ref_kernel acceptor_calls" where
  "demo_listen_calls = \<lparr>sc_listen = (\<lambda>k fd n. (0, k)), sc_accept = (\<lambda>k fd. (Inr (7, sockaddr_in 80 [127, 0, 0, 1]), k))\<rparr>"

definition demo_process :: "unit process" where
  "demo_process = \<lparr>has_task = False, requestable = False, requests = [], active_request = None, io_set = False, user = ()\<rparr>"

definition demo_acceptor :: "(ref_kernel, unit) ConnectionAcceptor" where
  "demo_acceptor = \<lparr>ac_socket = Some (new_Socket 5), ac_mpx = some_multiplexor, acceptor_options = [], accepted_options = [],
     sock_type = 1, used_protocol = 6, ac_addr = [], number_listened = 0,
     process_fabrique = Some (\<lambda>h err. (demo_process, err)), ac_os = \<lparr>errno = 0, kern = ref_start\<rparr>\<rparr>"

lemma demo_pool_first:
  "workers demo_pool \<noteq> []" "\<forall>j < length (workers demo_pool). w_self (workers demo_pool ! j) = j"
  "next_worker demo_pool mod length (workers demo_pool) = 0" "next_handle 0 demo_pool = \<lparr>conn_id = 1, owner = Some 0\<rparr>"
  "epollfd (mpx (workers demo_pool ! 0)) = 3" "registered rk_interest (mpx (workers demo_pool ! 0)) (w_os (workers demo_pool ! 0)) 7 = None"
  "\<not> stop_requested (workers demo_pool ! 0)" "cmds (workers demo_pool ! 0) = []" "results (workers demo_pool ! 0) = Map.empty"
  "connections (workers demo_pool ! 0) = Map.empty"
  by (auto simp: demo_pool_def demo_defs registered_def next_handle_def nth_Cons' less_Suc_eq numeral_2_eq_2)


section \<open>Departures of the acceptor\<close>

text \<open>
  An accepted socket that could not be made non-blocking is queued all the same when its options can be set, since that
  clears the error.
\<close>

lemma blocking_socket_attached:
  assumes "workers p \<noteq> []" and "\<forall>j < length (workers p). w_self (workers p ! j) = j"
    and "do_value (\<lambda>k. sc_accept calls k (native sk)) (ac_os a) = (Some (raw, peer), s)"
    and "set_no_block sys (new_Socket raw) True (snd (Address peer err)) s = (False, e1, s1)" and "accepted_options a = []"
    and "process_fabrique a = Some mk"
  shows "\<exists>err' a' p' i. accept_connection sys calls sk n err a p = Some (err', a', p') \<and> i < length (workers p')
    \<and> cmds (workers p' ! i) \<noteq> cmds (workers p ! i)"
proof -
  define i where "i = next_worker p mod length (workers p)"
  have "i < length (workers p)" using assms(1) by (simp add: i_def)
  moreover have "sk_set_options sys (new_Socket raw) (accepted_options a) e1 s1 = (True, Cleared, s1)" using assms(5) by simp
  ultimately show ?thesis
    using accept_connection_queues[OF assms(1,2) i_def assms(3,4) _ assms(6), of Cleared s1 n]
    by (fastforce simp: with_connection_def)
qed

text \<open>A refused \<open>listen\<close> is not reported, and the thread goes on to accept.\<close>

lemma listen_failure_hidden:
  "ac_socket a = Some sk \<Longrightarrow> fst (acceptor_listen calls a err) = err"
  by (simp add: acceptor_listen_def split: prod.split)

text \<open>A refused registration makes the thread join itself.\<close>

lemma refused_registration_joins_itself:
  assumes "acceptor_make_socket sys a Cleared (ac_os a) = (Some sk, Cleared, s)" and "ac_socket a = None"
    and "add_event sys (ac_mpx a) (native sk) (event_or Event_In Event_EdgeTrigger) Cleared s = (False, err, s')"
  shows "\<exists>a'. acceptor_thread sys calls n stop_at a p = Some (Self_joined, err, a', p)"
  using assms by (simp add: acceptor_thread_def assign_socket_def)

text \<open>The error of a failing \<open>socket\<close> is lost, because \<open>errno\<close> is read after it has been reset.\<close>

lemma socket_error_lost:
  assumes "addr_valid (ac_addr a)" and "sc_socket sys (kern s) (int (ip_version (ac_addr a))) (sock_type a) (used_protocol a) = (Inl e, k)"
  shows "acceptor_make_socket sys a err s = (None, Generic 0, \<lparr>errno = 0, kern = k\<rparr>)"
  using assms by (simp add: acceptor_make_socket_def make_socket_def do_value_def take_errno_def new_Socket_def native_def)

text \<open>
  \<open>stop\<close> can wait for ever: it holds the mutex that the thread waits for. In the state below neither can move.
\<close>

lemma stop_deadlocks:
  defines "t \<equiv> \<lparr>thread = Has_connection, stopper = Joining, requested = True, mutex_free = False\<rparr>"
  shows "stopping_step\<^sup>*\<^sup>* stopping_start t" and "\<not> stopping_step t t'"
proof -
  let ?u = "\<lparr>thread = Has_connection, stopper = Not_called, requested = False, mutex_free = True\<rparr>"
  have "stopping_step stopping_start ?u"
    using check_goes_on[of stopping_start] by (simp add: stopping_start_def)
  moreover have "stopping_step ?u t" using stop_locks[of ?u] by (simp add: t_def)
  ultimately show "stopping_step\<^sup>*\<^sup>* stopping_start t" by (meson rtranclp.intros)
  show "\<not> stopping_step t t'" by (simp add: stopping_step_iff t_def)
qed

section \<open>Departures of the server and the client\<close>

text \<open>The number of events that a server is configured with is not copied; once configured it counts as launched.\<close>

lemma configured_events_ignored:
  "number_events (settings (snd (configure sys digits counter s err os srv))) = number_events (settings srv)"
  by (simp add: configure_def Let_def server_assign_def split: prod.split)

lemma configured_is_launched:
  assumes "configure sys digits counter s err os srv = (err', srv')" and "is_launched srv'"
  shows "fst (configure sys digits counter s2 err2 os2 srv') = Generic EALREADY"
  using assms(2) by (auto simp: configure_def is_launched_def Let_def)

text \<open>\<open>connect\<close> reports success when the command has been completed with an error.\<close>

lemma failed_connect_succeeds:
  assumes "results (meanwhile (push_command sys (AddConnection (fst (new_ConnectionHandle (Some (w_self w)) counter)) h pt ty pr) w))
    (next_cmd w) = Some e" and "failed e"
  shows "\<exists>client c. connect sys h pt ty pr meanwhile counter err (Some w)
    = (fst (new_ConnectionHandle (Some (w_self w)) counter), Cleared, c, client)"
  using assms by (auto simp: connect_def successed_def Let_def split: prod.split)

end
