(* ===== verification/Geometry.thy ===== *)
theory Geometry
  imports Double
begin

text \<open>
  Points and lines of the plane (\<open>geometry/Point.h\<close>, \<open>Line.h\<close>, \<open>algorithms.h\<close>, \<open>Intersection.h\<close>) with the default
  coordinate type \<open>long double\<close>. The square root and \<open>atan2l\<close> of the C library are parameters.
\<close>

section \<open>Long double\<close>

text \<open>
  As in \<open>Double\<close>, a finite \<open>long double\<close> is the rational number it stands for; an operation yields the exact result
  rounded to 64 significant bits, the format of x86. \<open>scale_up\<close> and \<open>scale_down\<close> find the place of the first 53 of
  them, 11 more follow. Overflow and underflow of the exponent are not represented.
\<close>

type_synonym ldbl = rat

definition round_ldbl :: "rat \<Rightarrow> ldbl" where
  "round_ldbl x =
     (if \<bar>x\<bar> < 2 ^ 53
      then let k = scale_up \<bar>x\<bar> 0 + 11 in of_int (round_even (x * 2 ^ k)) / 2 ^ k
      else let k = scale_down \<bar>x\<bar> 0 in of_int (round_even (x / 2 ^ k * 2 ^ 11)) * 2 ^ k / 2 ^ 11)"

definition ladd :: "ldbl \<Rightarrow> ldbl \<Rightarrow> ldbl" where "ladd x y = round_ldbl (x + y)"
definition lsub :: "ldbl \<Rightarrow> ldbl \<Rightarrow> ldbl" where "lsub x y = round_ldbl (x - y)"
definition lmul :: "ldbl \<Rightarrow> ldbl \<Rightarrow> ldbl" where "lmul x y = round_ldbl (x * y)"
definition ldiv :: "ldbl \<Rightarrow> ldbl \<Rightarrow> ldbl" where "ldiv x y = round_ldbl (x / y)"

definition ldbl_epsilon :: ldbl where "ldbl_epsilon = 1 / 2 ^ 63"

text \<open>Numbers with at most 11 bits behind the point, and integers of at most 64 bits, are exact.\<close>

lemma round_ldbl_fixed:
  assumes "x * 2 ^ 11 \<in> \<int>" and "\<bar>x\<bar> < 2 ^ 53"
  shows "round_ldbl x = x"
proof -
  let ?k = "scale_up \<bar>x\<bar> 0"
  obtain n where n: "x * 2 ^ 11 = of_int n" using assms(1) by (elim Ints_cases)
  have "x * 2 ^ (?k + 11) = (x * 2 ^ 11) * 2 ^ ?k" by (simp add: power_add)
  also have "\<dots> = of_int (n * 2 ^ ?k)" unfolding n by simp
  finally have "of_int (round_even (x * 2 ^ (?k + 11))) = x * 2 ^ (?k + 11)" by (simp only: round_even_of_int)
  with assms(2) show ?thesis by (simp only: round_ldbl_def Let_def if_True) simp
qed

lemma round_ldbl_int:
  assumes "x \<in> \<int>" and "\<bar>x\<bar> < 2 ^ 64"
  shows "round_ldbl x = x"
proof (cases "\<bar>x\<bar> < 2 ^ 53")
  case True
  then show ?thesis using assms(1) by (intro round_ldbl_fixed) simp_all
next
  case False
  let ?k = "scale_down \<bar>x\<bar> 0"
  obtain n where n: "x = of_int n" using assms(1) by (elim Ints_cases)
  have "2 ^ 52 \<le> \<bar>x\<bar> / 2 ^ ?k" using scale_down_range[of "\<bar>x\<bar>" 0] False by simp
  then have "2 ^ 52 * 2 ^ ?k \<le> \<bar>x\<bar>" by (simp add: field_simps)
  with assms(2) have "(2 :: rat) ^ (52 + ?k) < 2 ^ 64" by (simp add: power_add)
  then have "52 + ?k < 64" by (rule power_less_imp_less_exp[rotated]) simp
  then have k: "?k \<le> 11" by simp
  have "x / 2 ^ ?k * 2 ^ 11 = x * 2 ^ (11 - ?k)" using k by (simp add: power_diff)
  also have "\<dots> = of_int (n * 2 ^ (11 - ?k))" by (simp add: n)
  finally have "of_int (round_even (x / 2 ^ ?k * 2 ^ 11)) = x / 2 ^ ?k * 2 ^ 11" by (simp only: round_even_of_int)
  with False show ?thesis by (simp only: round_ldbl_def Let_def if_False) simp
qed

section \<open>Points\<close>

type_synonym point = "ldbl \<times> ldbl"

text \<open>Twice the signed area of the triangle.\<close>

definition cross :: "point \<Rightarrow> point \<Rightarrow> point \<Rightarrow> ldbl" where
  "cross a b c = lsub (lmul (lsub (fst b) (fst a)) (lsub (snd c) (snd a)))
                      (lmul (lsub (snd b) (snd a)) (lsub (fst c) (fst a)))"

definition on_segment :: "point \<Rightarrow> point \<Rightarrow> point \<Rightarrow> bool" where
  "on_segment a b p \<longleftrightarrow>
     (min (fst a) (fst b) \<le> fst p \<and> fst p \<le> max (fst a) (fst b)) \<and>
     (min (snd a) (snd b) \<le> snd p \<and> snd p \<le> max (snd a) (snd b))"

definition pythagoras2 :: "point \<Rightarrow> point \<Rightarrow> ldbl" where
  "pythagoras2 a b = ladd (let d = lsub (fst a) (fst b) in lmul d d)
     (ladd (let d = lsub (snd a) (snd b) in lmul d d) 0)"

definition pythagoras :: "(ldbl \<Rightarrow> ldbl) \<Rightarrow> point \<Rightarrow> point \<Rightarrow> ldbl" where
  "pythagoras sqrtl a b = sqrtl (pythagoras2 a b)"

definition distance :: "(ldbl \<Rightarrow> ldbl) \<Rightarrow> point \<Rightarrow> point \<Rightarrow> ldbl" where
  "distance sqrtl a b =
     (let dX = lsub (fst b) (fst a); dY = lsub (snd b) (snd a) in sqrtl (ladd (lmul dX dX) (lmul dY dY)))"

record intersection =
  crossing :: point
  id_1 :: nat
  id_2 :: nat

section \<open>Lines\<close>

record line =
  line_first :: point
  line_second :: point

text \<open>The slope is converted to \<open>double\<close>; \<open>None\<close> is infinity.\<close>

definition slope :: "ldbl \<Rightarrow> ldbl \<Rightarrow> ldbl \<Rightarrow> ldbl \<Rightarrow> dbl option" where
  "slope X1 Y1 X2 Y2 =
     (let dX = lsub X2 X1 in if \<bar>dX\<bar> < dbl_epsilon then None
      else let dY = lsub Y2 Y1 in Some (round_dbl (ldiv dY dX)))"

definition line_slope :: "line \<Rightarrow> dbl option" where
  "line_slope l = slope (fst (line_first l)) (snd (line_first l)) (fst (line_second l)) (snd (line_second l))"

definition angle :: "(ldbl \<Rightarrow> ldbl \<Rightarrow> ldbl) \<Rightarrow> line \<Rightarrow> dbl" where
  "angle atan2l l = round_dbl (atan2l (lsub (snd (line_second l)) (snd (line_first l)))
                                       (lsub (fst (line_second l)) (fst (line_first l))))"

definition is_vertical :: "line \<Rightarrow> bool" where
  "is_vertical l \<longleftrightarrow> line_slope l = None"

definition is_horizontal :: "line \<Rightarrow> bool" where
  "is_horizontal l \<longleftrightarrow> \<bar>lsub (snd (line_second l)) (snd (line_first l))\<bar> < dbl_epsilon"

text \<open>Where the straight through a line meets the axis, and its value at \<open>X\<close>.\<close>

definition straight_at_0 :: "line \<Rightarrow> dbl \<Rightarrow> ldbl" where
  "straight_at_0 l k = lsub (snd (line_first l)) (lmul k (fst (line_first l)))"

definition straight_above_the_point :: "line \<Rightarrow> ldbl \<Rightarrow> ldbl \<Rightarrow> bool" where
  "straight_above_the_point l X Y = (case line_slope l of None \<Rightarrow> False
     | Some k \<Rightarrow> let X0 = round_dbl (straight_at_0 l k) in Y < ladd (lmul k X) X0)"

definition straight_under_the_point :: "line \<Rightarrow> ldbl \<Rightarrow> ldbl \<Rightarrow> bool" where
  "straight_under_the_point l X Y = (case line_slope l of None \<Rightarrow> False
     | Some k \<Rightarrow> let X0 = straight_at_0 l k in ladd (lmul k X) X0 < Y)"

text \<open>The test of the next three functions: \<open>Y-k*X+X0\<close>.\<close>

definition near_straight :: "dbl \<Rightarrow> ldbl \<Rightarrow> ldbl \<Rightarrow> ldbl \<Rightarrow> bool" where
  "near_straight k X0 X Y \<longleftrightarrow> \<bar>ladd (lsub Y (lmul k X)) X0\<bar> < dbl_epsilon"

definition point_on_straight :: "line \<Rightarrow> ldbl \<Rightarrow> ldbl \<Rightarrow> bool" where
  "point_on_straight l X Y = (case line_slope l of None \<Rightarrow> False
     | Some k \<Rightarrow> near_straight k (straight_at_0 l k) X Y)"

definition straight_not_under_the_point :: "line \<Rightarrow> ldbl \<Rightarrow> ldbl \<Rightarrow> bool" where
  "straight_not_under_the_point l X Y = (case line_slope l of None \<Rightarrow> False
     | Some k \<Rightarrow> let X0 = straight_at_0 l k in Y < ladd (lmul k X) X0 \<or> near_straight k X0 X Y)"

definition straight_not_above_the_point :: "line \<Rightarrow> ldbl \<Rightarrow> ldbl \<Rightarrow> bool" where
  "straight_not_above_the_point l X Y = (case line_slope l of None \<Rightarrow> False
     | Some k \<Rightarrow> let X0 = straight_at_0 l k in ladd (lmul k X) X0 < Y \<or> near_straight k X0 X Y)"

text \<open>\<open>equivalent\<close> and \<open>intersections\<close> first ask whether both arguments are the same object, which here are equal lines.\<close>

definition lines_equivalent :: "line \<Rightarrow> line \<Rightarrow> bool" where
  "lines_equivalent a b \<longleftrightarrow>
     \<bar>lsub (fst (line_first a)) (fst (line_first b))\<bar> < ldbl_epsilon \<and>
     \<bar>lsub (fst (line_second a)) (fst (line_second b))\<bar> < ldbl_epsilon \<and>
     \<bar>lsub (snd (line_first a)) (snd (line_first b))\<bar> < ldbl_epsilon \<and>
     \<bar>lsub (snd (line_second a)) (snd (line_second b))\<bar> < ldbl_epsilon"

definition intersects :: "line \<Rightarrow> line \<Rightarrow> bool" where
  "intersects l1 l2 =
     (let d1 = cross (line_first l1) (line_second l1) (line_first l2);
          d2 = cross (line_first l1) (line_second l1) (line_second l2);
          d3 = cross (line_first l2) (line_second l2) (line_first l1);
          d4 = cross (line_first l2) (line_second l2) (line_second l1)
      in if (d1 > 0 \<and> d2 < 0 \<or> d1 < 0 \<and> d2 > 0) \<and> (d3 > 0 \<and> d4 < 0 \<or> d3 < 0 \<and> d4 > 0) then True
         else if d1 = 0 \<and> on_segment (line_first l1) (line_second l1) (line_first l2) then True
         else if d2 = 0 \<and> on_segment (line_first l1) (line_second l1) (line_second l2) then True
         else if d3 = 0 \<and> on_segment (line_first l2) (line_second l2) (line_first l1) then True
         else d4 = 0 \<and> on_segment (line_first l2) (line_second l2) (line_second l1))"

definition tolerance :: dbl where "tolerance = round_dbl (1 / 10 ^ 12)"

text \<open>The common point of the two straights.\<close>

definition line_intersections :: "line \<Rightarrow> line \<Rightarrow> intersection list" where
  "line_intersections l1 l2 =
     (let X11 = fst (line_first l1); X12 = fst (line_second l1);
          Y11 = snd (line_first l1); Y12 = snd (line_second l1);
          X21 = fst (line_first l2); X22 = fst (line_second l2);
          Y21 = snd (line_first l2); Y22 = snd (line_second l2);
          scale = lmul (max \<bar>lsub X12 X11\<bar> \<bar>lsub Y12 Y11\<bar>) (max \<bar>lsub X22 X21\<bar> \<bar>lsub Y22 Y21\<bar>);
          denominator = lsub (lmul (lsub Y22 Y21) (lsub X12 X11)) (lmul (lsub X22 X21) (lsub Y12 Y11))
      in if scale = 0 \<or> \<bar>denominator\<bar> < lmul tolerance scale then []
         else let u_a = ldiv (lsub (lmul (lsub X22 X21) (lsub Y11 Y21)) (lmul (lsub Y22 Y21) (lsub X11 X21))) denominator
              in [\<lparr>crossing = (ladd X11 (lmul u_a (lsub X12 X11)), ladd Y11 (lmul u_a (lsub Y12 Y11))),
                   id_1 = 0, id_2 = 0\<rparr>])"

definition cut_line :: "line \<Rightarrow> line \<Rightarrow> bool \<Rightarrow> line list" where
  "cut_line cutted cutting left_forward = (case line_intersections cutted cutting of
     [] \<Rightarrow> [cutted]
   | i # _ \<Rightarrow>
       if \<not> on_segment (line_first cutted) (line_second cutted) (crossing i) then [cutted]
       else let side = cross (line_first cutting) (line_second cutting) (line_first cutted);
                first_part = \<lparr>line_first = crossing i, line_second = line_first cutted\<rparr>;
                second_part = \<lparr>line_first = line_second cutted, line_second = crossing i\<rparr>
            in if left_forward then (if side > 0 then [first_part] else [second_part])
               else (if side > 0 then [second_part] else [first_part]))"

end
