(* ===== verification/Polylines.thy ===== *)
theory Polylines
  imports Geometry "HOL-Library.Product_Lexorder"
begin

text \<open>
  Polylines of the plane (\<open>geometry/Polyline.h\<close>): their vertices with the flag of the cached length, what they have in
  common with lines and other polylines, the pieces into which these cut them, and their comparison.
\<close>

section \<open>Vertices\<close>

record polyline =
  pvertices :: "point list"
  plength :: dbl
  length_defined :: bool

definition polyline_of :: "point list \<Rightarrow> polyline" where
  "polyline_of vs = \<lparr>pvertices = vs, plength = 0, length_defined = False\<rparr>"

definition append_vertex :: "point \<Rightarrow> polyline \<Rightarrow> polyline" where
  "append_vertex p pl =
     (let pl = (if pvertices pl \<noteq> []
                then if last (pvertices pl) \<noteq> p \<and> hd (pvertices pl) \<noteq> p then pl\<lparr>length_defined := False\<rparr> else pl
                else pl\<lparr>length_defined := False\<rparr>)
      in pl\<lparr>pvertices := pvertices pl @ [p]\<rparr>)"

text \<open>
  \<open>insert\<close> looks at the vertex behind the place before it inserts; at the last vertex there is none: \<open>None\<close>.
\<close>

definition insert_vertex :: "nat \<Rightarrow> point \<Rightarrow> polyline \<Rightarrow> polyline option" where
  "insert_vertex i p pl =
     (let vs = pvertices pl in
      if i \<ge> length vs then Some (append_vertex p pl)
      else if i + 1 \<ge> length vs then None
      else let pl = (if vs ! (i + 1) = p \<or> i > 0 \<and> vs ! (i - 1) = p then pl\<lparr>length_defined := False\<rparr> else pl)
           in Some (pl\<lparr>pvertices := take i vs @ p # drop i vs\<rparr>))"

definition erase_vertex :: "nat \<Rightarrow> polyline \<Rightarrow> polyline" where
  "erase_vertex i pl =
     (let vs = pvertices pl in
      if vs = [] then pl
      else let erased = (if i \<ge> length vs then length vs - 1 else i)
           in pl\<lparr>pvertices := take erased vs @ drop (erased + 1) vs, length_defined := False\<rparr>)"

definition number_vertices :: "polyline \<Rightarrow> nat" where
  "number_vertices pl = length (pvertices pl)"

definition number_segments :: "polyline \<Rightarrow> nat" where
  "number_segments pl = (if length (pvertices pl) < 2 then 0 else length (pvertices pl) - 1)"

definition polyline_length :: "(ldbl \<Rightarrow> ldbl) \<Rightarrow> polyline \<Rightarrow> dbl" where
  "polyline_length sqrtl pl = round_dbl (foldl (\<lambda>result i.
     ladd result (distance sqrtl (pvertices pl ! (i + 1)) (pvertices pl ! i))) 0 [0..<number_segments pl])"

definition segment_line :: "polyline \<Rightarrow> nat \<Rightarrow> line" where
  "segment_line pl i = \<lparr>line_first = pvertices pl ! i, line_second = pvertices pl ! (i + 1)\<rparr>"

section \<open>Crossings\<close>

text \<open>The body of the loops: the crossing of two segments, if there is one.\<close>

definition found_crossing :: "line \<Rightarrow> line \<Rightarrow> point option" where
  "found_crossing l1 l2 =
     (if intersects l1 l2
      then case line_intersections l1 l2 of [] \<Rightarrow> None | i # _ \<Rightarrow> Some (crossing i)
      else None)"

definition add_line_crossing :: "polyline \<Rightarrow> line \<Rightarrow> intersection list \<Rightarrow> nat \<Rightarrow> intersection list" where
  "add_line_crossing pl line result i = (case found_crossing (segment_line pl i) line of
     None \<Rightarrow> result
   | Some p \<Rightarrow> let entry = \<lparr>crossing = p, id_1 = i, id_2 = 0\<rparr>
               in if result \<noteq> [] then if crossing (last result) \<noteq> p then result @ [entry] else result
                  else result @ [entry])"

text \<open>The keys that the lists are sorted by are distinct, so that the order in which \<open>std::sort\<close> leaves equal ones plays no part.\<close>

definition polyline_line_intersections :: "polyline \<Rightarrow> line \<Rightarrow> intersection list" where
  "polyline_line_intersections pl line =
     (if line_first line = line_second line \<or> number_segments pl = 0 then []
      else sort_key id_1 (foldl (add_line_crossing pl line) [] [0..<number_segments pl]))"

definition add_crossing :: "polyline \<Rightarrow> polyline \<Rightarrow> intersection list \<Rightarrow> nat \<times> nat \<Rightarrow> intersection list" where
  "add_crossing pl1 pl2 result = (\<lambda>(i, j). case found_crossing (segment_line pl1 i) (segment_line pl2 j) of
     None \<Rightarrow> result
   | Some p \<Rightarrow> let entry = \<lparr>crossing = p, id_1 = i, id_2 = j\<rparr>
               in if result \<noteq> []
                  then if crossing (last result) \<noteq> p \<and> crossing (hd result) \<noteq> p then result @ [entry] else result
                  else result @ [entry])"

definition polyline_intersections :: "polyline \<Rightarrow> polyline \<Rightarrow> intersection list" where
  "polyline_intersections pl1 pl2 =
     (if pvertices pl2 = [] \<or> pvertices pl1 = [] then []
      else sort_key (\<lambda>i. (id_1 i, id_2 i))
        (foldl (add_crossing pl1 pl2) [] (List.product [0..<number_segments pl1] [0..<number_segments pl2])))"

section \<open>Cutting\<close>

definition append_all :: "point list \<Rightarrow> polyline \<Rightarrow> polyline" where
  "append_all ps pl = foldl (\<lambda>pl p. append_vertex p pl) pl ps"

definition map_last :: "('a \<Rightarrow> 'a) \<Rightarrow> 'a list \<Rightarrow> 'a list" where
  "map_last f xs = butlast xs @ [f (last xs)]"

definition opens_at_line :: "bool \<Rightarrow> polyline \<Rightarrow> line \<Rightarrow> intersection \<Rightarrow> bool" where
  "opens_at_line left_forward cutted cutting is' =
     (let side = cross (line_first cutting) (line_second cutting) (pvertices cutted ! id_1 is')
      in if side > 0 then \<not> left_forward else left_forward)"

text \<open>
  The loop goes over the crossings in steps of two. The vertices from \<open>begin\<close> to \<open>end\<close> are a span, which is not defined
  when \<open>begin\<close> is behind \<open>end\<close>: \<open>None\<close>. Its other branch appends the vertices behind the last crossing.
\<close>

fun append_new :: "point list \<Rightarrow> polyline \<Rightarrow> polyline" where
  "append_new [] pl = pl"
| "append_new (p # ps) pl = append_new ps (if p \<noteq> last (pvertices pl) then append_vertex p pl else pl)"

function cut_by_line_loop :: "intersection list \<Rightarrow> point list \<Rightarrow> nat \<Rightarrow> bool \<Rightarrow> polyline list \<Rightarrow> polyline list option" where
  "cut_by_line_loop turns vs i inside result =
     (if i < length turns
      then if inside
           then let result = (if result = [] then [polyline_of []] else result);
                    b = (if i = 0 then 0 else id_1 (turns ! i) + 1);
                    e = (if i = length turns - 1 then id_1 (turns ! i) + 1 else id_1 (turns ! (i + 1)));
                    p = (if i < length turns - 1 then crossing (turns ! (i + 1)) else crossing (turns ! i))
                in if b > e \<or> e > length vs then None
                   else cut_by_line_loop turns vs (i + 2) False
                          (map_last (\<lambda>pl. append_vertex p (append_all (take (e - b) (drop b vs)) pl)) result)
           else let pl = append_vertex (crossing (turns ! i)) (polyline_of []);
                    pl = (if i = length turns - 1 then append_new (drop (id_1 (turns ! i) + 1) vs) pl else pl)
                in cut_by_line_loop turns vs (i + 2) True (result @ [pl])
      else Some result)"
  by auto
termination by (relation "measure (\<lambda>(turns, vs, i, inside, result). length turns - i)") auto

declare cut_by_line_loop.simps [simp del]

definition cut_by_line :: "polyline \<Rightarrow> line \<Rightarrow> bool \<Rightarrow> polyline list option" where
  "cut_by_line cutted cutting left_forward =
     (let turns = polyline_line_intersections cutted cutting
      in if turns = [] then Some []
         else cut_by_line_loop turns (pvertices cutted) 0 (\<not> opens_at_line left_forward cutted cutting (hd turns)) [])"

definition opens_at :: "bool \<Rightarrow> polyline \<Rightarrow> polyline \<Rightarrow> intersection \<Rightarrow> bool" where
  "opens_at left_forward cutted cutting is' =
     (let side = cross (pvertices cutting ! id_2 is') (pvertices cutting ! (id_2 is' + 1)) (pvertices cutted ! id_1 is')
      in if side > 0 then \<not> left_forward else left_forward)"

text \<open>\<open>while(i+1<turns.size() && intersection_openning(turns[i+1])) ++i\<close>\<close>

function skip_openings :: "(intersection \<Rightarrow> bool) \<Rightarrow> intersection list \<Rightarrow> nat \<Rightarrow> nat" where
  "skip_openings open_at turns i =
     (if i + 1 < length turns \<and> open_at (turns ! (i + 1)) then skip_openings open_at turns (i + 1) else i)"
  by auto
termination by (relation "measure (\<lambda>(open_at, turns, i). length turns - i)") auto

declare skip_openings.simps [simp del]

lemma skip_openings_ge: "i \<le> skip_openings open_at turns i"
proof (induction open_at turns i rule: skip_openings.induct)
  case (1 open_at turns i)
  then show ?case by (subst skip_openings.simps) auto
qed

lemma skip_openings_bound: "i < length turns \<Longrightarrow> skip_openings open_at turns i < length turns"
proof (induction open_at turns i rule: skip_openings.induct)
  case (1 open_at turns i)
  then show ?case by (subst skip_openings.simps) auto
qed

function cut_loop :: "(intersection \<Rightarrow> bool) \<Rightarrow> intersection list \<Rightarrow> point list \<Rightarrow> nat \<Rightarrow> bool \<Rightarrow> polyline list \<Rightarrow> polyline list" where
  "cut_loop open_at turns vs i inside result =
     (if i < length turns
      then let i = skip_openings open_at turns i; p = crossing (turns ! i)
           in if inside
              then let result = (if result = [] then [polyline_of []] else result);
                       start_vertice = (if i = 0 then 0 else id_1 (turns ! (i - 1)) + 1);
                       last_vertice = id_1 (turns ! i) + 1
                   in cut_loop open_at turns vs (i + 1) False
                        (map_last (\<lambda>pl. append_vertex p
                          (append_all (map (\<lambda>j. vs ! j) [start_vertice..<last_vertice]) pl)) result)
              else cut_loop open_at turns vs (i + 1) True
                     (if result \<noteq> [] \<and> last (pvertices (last result)) = p then result
                      else result @ [append_vertex p (polyline_of [])])
      else result)"
  by auto
termination
  by (relation "measure (\<lambda>(open_at, turns, vs, i, inside, result). length turns - i)")
    (use skip_openings_ge in \<open>auto intro!: diff_less_mono2 le_imp_less_Suc\<close>)

declare cut_loop.simps [simp del]

text \<open>The crossings are sorted again, along each segment by the distance from its first vertex.\<close>

definition cut_by_polyline :: "polyline \<Rightarrow> polyline \<Rightarrow> bool \<Rightarrow> polyline list" where
  "cut_by_polyline cutted cutting left_forward =
     (let turns = polyline_intersections cutted cutting
      in if turns = [] then []
         else let inside = (\<not> opens_at left_forward cutted cutting (hd turns));
                  turns = sort_key (\<lambda>i. (id_1 i, pythagoras2 (pvertices cutted ! id_1 i) (crossing i), id_2 i)) turns
              in cut_loop (opens_at left_forward cutted cutting) turns (pvertices cutted) 0 inside [])"

section \<open>Comparison\<close>

text \<open>
  The inner loops of \<open>equivalent\<close>, which skip repeated vertices. \<open>at\<close> throws behind the last vertex, which ends the program
  because the function is \<open>noexcept\<close>: \<open>None\<close>.
\<close>

function skip_second :: "point list \<Rightarrow> nat \<Rightarrow> nat option" where
  "skip_second vs j =
     (if j + 1 < length vs then if vs ! j = vs ! (j + 1) then skip_second vs (j + 1) else Some j else None)"
  by auto
termination by (relation "measure (\<lambda>(vs, j). length vs - j)") auto

declare skip_second.simps [simp del]

function skip_first :: "point list \<Rightarrow> nat \<Rightarrow> nat \<Rightarrow> nat option" where
  "skip_first vs last' i =
     (if i + 1 < length vs
      then if vs ! i = vs ! (i + 1) \<and> i < last' then skip_first vs last' (i + 1) else Some i
      else None)"
  by auto
termination by (relation "measure (\<lambda>(vs, last', i). length vs - i)") auto

declare skip_first.simps [simp del]

lemma skip_first_ge: "skip_first vs last' i = Some k \<Longrightarrow> i \<le> k \<and> k + 1 < length vs"
proof (induction vs last' i rule: skip_first.induct)
  case (1 vs last' i)
  from 1(2) show ?case by (subst (asm) skip_first.simps) (use 1(1) in \<open>auto split: if_splits\<close>)
qed

function equivalent_loop :: "point list \<Rightarrow> point list \<Rightarrow> nat \<Rightarrow> nat \<Rightarrow> nat \<Rightarrow> bool option" where
  "equivalent_loop us vs last' i j =
     (if i \<le> last'
      then case skip_second vs j of None \<Rightarrow> None
           | Some j \<Rightarrow>
               (case skip_first us last' i of None \<Rightarrow> None
                | Some i \<Rightarrow> if us ! i \<noteq> vs ! j then Some False else equivalent_loop us vs last' (i + 1) (j + 1))
      else Some True)"
  by auto
termination
  by (relation "measure (\<lambda>(us, vs, last', i, j). Suc last' - i)")
    (use skip_first_ge in \<open>auto dest!: skip_first_ge\<close>)

declare equivalent_loop.simps [simp del]

definition polylines_equivalent :: "polyline \<Rightarrow> polyline \<Rightarrow> bool option" where
  "polylines_equivalent first second =
     (let us = pvertices first; vs = pvertices second
      in if us = [] then None
         else if hd us \<notin> set vs then Some False
         else equivalent_loop us vs (number_segments first) 0 (length (takeWhile (\<lambda>v. v \<noteq> hd us) vs)))"

end
