(* ===== verification/Geometry_Properties.thy ===== *)
theory Geometry_Properties
  imports Geometry
begin

text \<open>
  The segment test on coordinates for which the arithmetic is exact, against the sets of points that segments are.
\<close>

section \<open>Exact coordinates\<close>

text \<open>Integral coordinates of at most 30 bits: differences, products and their difference fit 64 bits.\<close>

definition grid_point :: "point \<Rightarrow> bool" where
  "grid_point p \<longleftrightarrow> fst p \<in> \<int> \<and> snd p \<in> \<int> \<and> \<bar>fst p\<bar> \<le> 2 ^ 30 \<and> \<bar>snd p\<bar> \<le> 2 ^ 30"

definition exact_cross :: "point \<Rightarrow> point \<Rightarrow> point \<Rightarrow> rat" where
  "exact_cross a b c = (fst b - fst a) * (snd c - snd a) - (snd b - snd a) * (fst c - fst a)"

lemma grid_product:
  fixes a b c d :: rat
  assumes "a \<in> \<int>" "b \<in> \<int>" "c \<in> \<int>" "d \<in> \<int>" "\<bar>a\<bar> \<le> 2 ^ 30" "\<bar>b\<bar> \<le> 2 ^ 30" "\<bar>c\<bar> \<le> 2 ^ 30" "\<bar>d\<bar> \<le> 2 ^ 30"
  shows "lmul (lsub a b) (lsub c d) = (a - b) * (c - d)" "(a - b) * (c - d) \<in> \<int>" "\<bar>(a - b) * (c - d)\<bar> \<le> 2 ^ 62"
proof -
  have "\<bar>a - b\<bar> \<le> 2 ^ 31" "\<bar>c - d\<bar> \<le> 2 ^ 31" using assms(5-8) by (auto simp: abs_le_iff)
  moreover from this have "\<bar>a - b\<bar> * \<bar>c - d\<bar> \<le> 2 ^ 31 * 2 ^ 31" by (intro mult_mono) simp_all
  ultimately show "lmul (lsub a b) (lsub c d) = (a - b) * (c - d)" "\<bar>(a - b) * (c - d)\<bar> \<le> 2 ^ 62"
    using assms by (simp_all add: lmul_def lsub_def round_ldbl_int abs_mult)
  show "(a - b) * (c - d) \<in> \<int>" using assms by simp
qed

lemma cross_exact:
  assumes "grid_point a" "grid_point b" "grid_point c"
  shows "cross a b c = exact_cross a b c"
proof -
  let ?x = "(fst b - fst a) * (snd c - snd a)" and ?y = "(snd b - snd a) * (fst c - fst a)"
  have x: "lmul (lsub (fst b) (fst a)) (lsub (snd c) (snd a)) = ?x" "?x \<in> \<int>" "\<bar>?x\<bar> \<le> 2 ^ 62"
    using assms by (intro grid_product; simp add: grid_point_def)+
  have y: "lmul (lsub (snd b) (snd a)) (lsub (fst c) (fst a)) = ?y" "?y \<in> \<int>" "\<bar>?y\<bar> \<le> 2 ^ 62"
    using assms by (intro grid_product; simp add: grid_point_def)+
  have "\<bar>?x - ?y\<bar> < 2 ^ 64" using x(3) y(3) abs_triangle_ineq4[of ?x ?y] by simp
  with x y show ?thesis by (simp add: cross_def exact_cross_def lsub_def round_ldbl_int)
qed

section \<open>Segments as sets of points\<close>

definition along :: "point \<Rightarrow> point \<Rightarrow> rat \<Rightarrow> point" where
  "along a b t = (fst a + t * (fst b - fst a), snd a + t * (snd b - snd a))"

definition segment :: "point \<Rightarrow> point \<Rightarrow> point set" where
  "segment a b = {along a b t | t. 0 \<le> t \<and> t \<le> 1}"

lemma along_ends [simp]: "along a b 0 = a" "along a b 1 = b"
  by (simp_all add: along_def)

lemma segment_ends [simp]: "a \<in> segment a b" "b \<in> segment a b"
  unfolding segment_def by (auto intro: exI[of _ 0] exI[of _ 1])

lemma convex_between:
  fixes x y t :: rat
  assumes "0 \<le> t" "t \<le> 1"
  shows "min x y \<le> x + t * (y - x) \<and> x + t * (y - x) \<le> max x y"
proof -
  have "0 \<le> y - x \<Longrightarrow> 0 \<le> t * (y - x) \<and> t * (y - x) \<le> 1 * (y - x)"
    using assms by (intro conjI mult_nonneg_nonneg mult_right_mono)
  moreover have "0 \<le> x - y \<Longrightarrow> 0 \<le> t * (x - y) \<and> t * (x - y) \<le> 1 * (x - y)"
    using assms by (intro conjI mult_nonneg_nonneg mult_right_mono)
  ultimately show ?thesis by (cases "x \<le> y") (auto simp: algebra_simps)
qed

lemma between_convex:
  fixes x y z :: rat
  assumes "min x y \<le> z" "z \<le> max x y" "x \<noteq> y"
  shows "0 \<le> (z - x) / (y - x)" "(z - x) / (y - x) \<le> 1"
  using assms by (cases "x < y"; simp add: zero_le_divide_iff divide_le_eq)+

text \<open>A point lies on a segment when it is on its straight and in its box.\<close>

lemma segment_iff: "p \<in> segment a b \<longleftrightarrow> exact_cross a b p = 0 \<and> on_segment a b p"
proof
  assume "p \<in> segment a b"
  then obtain t where t: "0 \<le> t" "t \<le> 1" "p = along a b t" by (auto simp: segment_def)
  then show "exact_cross a b p = 0 \<and> on_segment a b p"
    using convex_between[OF t(1,2)] by (simp add: exact_cross_def on_segment_def along_def)
next
  assume p: "exact_cross a b p = 0 \<and> on_segment a b p"
  show "p \<in> segment a b"
  proof (cases "fst a = fst b")
    case xs: True
    show ?thesis
    proof (cases "snd a = snd b")
      case True
      with xs p have "p = a" by (simp add: on_segment_def prod_eq_iff)
      then show ?thesis by simp
    next
      case False
      let ?t = "(snd p - snd a) / (snd b - snd a)"
      have "p = along a b ?t" using False xs p by (simp add: along_def on_segment_def prod_eq_iff)
      moreover have "0 \<le> ?t" "?t \<le> 1" using between_convex False p by (auto simp: on_segment_def)
      ultimately show ?thesis unfolding segment_def by blast
    qed
  next
    case False
    let ?t = "(fst p - fst a) / (fst b - fst a)"
    have "snd p - snd a = ?t * (snd b - snd a)" using False p by (simp add: exact_cross_def field_simps)
    then have "p = along a b ?t" using False by (simp add: along_def prod_eq_iff)
    moreover have "0 \<le> ?t" "?t \<le> 1" using between_convex False p by (auto simp: on_segment_def)
    ultimately show ?thesis unfolding segment_def by blast
  qed
qed

text \<open>Along a segment the side changes linearly.\<close>

lemma cross_along: "exact_cross a b (along c d u) = (1 - u) * exact_cross a b c + u * exact_cross a b d"
  by (simp add: exact_cross_def along_def algebra_simps)

lemma same_side:
  fixes x y u :: rat
  assumes "(1 - u) * x + u * y = 0" "0 \<le> u" "u \<le> 1" "\<not> (x > 0 \<and> y < 0 \<or> x < 0 \<and> y > 0)"
  shows "u = 0 \<or> u = 1 \<or> x = 0 \<and> y = 0"
proof (rule ccontr)
  assume n: "\<not> ?thesis"
  then have u: "0 < u" "0 < 1 - u" using assms by auto
  consider "0 \<le> x" "0 \<le> y" | "x \<le> 0" "y \<le> 0" using assms(4) by linarith
  then show False
  proof cases
    case 1
    then have "0 \<le> (1 - u) * x" "0 \<le> u * y" using u by simp_all
    then have "(1 - u) * x = 0" "u * y = 0" using assms(1) by linarith+
    then show False using u n by simp
  next
    case 2
    then have "(1 - u) * x \<le> 0" "u * y \<le> 0" using u by (simp_all add: mult_le_0_iff)
    then have "(1 - u) * x = 0" "u * y = 0" using assms(1) by linarith+
    then show False using u n by simp
  qed
qed

text \<open>Opposite sides on both: the common point is where the weights of the sides say.\<close>

lemma proper_crossing:
  assumes "exact_cross a b c > 0 \<and> exact_cross a b d < 0 \<or> exact_cross a b c < 0 \<and> exact_cross a b d > 0"
    and "exact_cross c d a > 0 \<and> exact_cross c d b < 0 \<or> exact_cross c d a < 0 \<and> exact_cross c d b > 0"
  shows "segment a b \<inter> segment c d \<noteq> {}"
proof -
  define D t u where "D = exact_cross a b d - exact_cross a b c" and "t = exact_cross c d a / D" and "u = - exact_cross a b c / D"
  have D: "exact_cross c d a - exact_cross c d b = D" by (simp add: D_def exact_cross_def algebra_simps)
  have "D \<noteq> 0" using assms(1) by (auto simp: D_def)
  then have scale: "D * (x + s / D * w) = D * x + s * w" for x s w by (simp add: distrib_left)
  have "D * fst (along a b t) = D * fst (along c d u)" "D * snd (along a b t) = D * snd (along c d u)"
    unfolding along_def t_def u_def fst_conv snd_conv scale unfolding D_def exact_cross_def by algebra+
  with \<open>D \<noteq> 0\<close> have "along a b t = along c d u" by (simp add: prod_eq_iff)
  moreover have "0 \<le> t \<and> t \<le> 1"
    using assms(2) D by (auto simp: t_def zero_le_divide_iff divide_le_eq)
  moreover have "0 \<le> u \<and> u \<le> 1"
    using assms(1) by (auto simp: u_def D_def zero_le_divide_iff divide_le_eq le_divide_eq)
  ultimately show ?thesis unfolding segment_def by auto
qed

text \<open>On one straight, two segments that meet have an end of one in the other.\<close>

lemma on_line:
  assumes "a \<noteq> b" "exact_cross a b c = 0"
  shows "\<exists>g. c = along a b g"
proof (cases "fst a = fst b")
  case True
  then have "snd a \<noteq> snd b" using assms(1) by (simp add: prod_eq_iff)
  then show ?thesis using True assms(2)
    by (intro exI[of _ "(snd c - snd a) / (snd b - snd a)"]) (simp add: along_def exact_cross_def prod_eq_iff)
next
  case False
  then have "snd c - snd a = (fst c - fst a) / (fst b - fst a) * (snd b - snd a)"
    using assms(2) by (simp add: exact_cross_def field_simps)
  then show ?thesis using False
    by (intro exI[of _ "(fst c - fst a) / (fst b - fst a)"]) (simp add: along_def prod_eq_iff)
qed

lemma collinear_meet:
  assumes "a \<noteq> b" "exact_cross a b c = 0" "exact_cross a b d = 0" "0 \<le> t" "t \<le> 1" "0 \<le> u" "u \<le> 1"
    and "along a b t = along c d u"
  shows "c \<in> segment a b \<or> d \<in> segment a b \<or> a \<in> segment c d"
proof -
  obtain g h where gh: "c = along a b g" "d = along a b h" using on_line assms(1-3) by metis
  have inj: "along a b x = along a b y \<longleftrightarrow> x = y" for x y
    using assms(1) by (auto simp: along_def prod_eq_iff)
  have nest: "along c d v = along a b (g + v * (h - g))" for v
    by (simp add: gh along_def algebra_simps)
  have t: "t = g + u * (h - g)" using assms(8) inj nest by simp
  show ?thesis
  proof (cases "(0 \<le> g \<and> g \<le> 1) \<or> (0 \<le> h \<and> h \<le> 1)")
    case True
    then show ?thesis using gh unfolding segment_def by blast
  next
    case False
    have b: "min g h \<le> t \<and> t \<le> max g h" using convex_between[OF assms(6,7)] t by simp
    with False assms(4,5) have lt: "min g h < 0" "0 < max g h" "g \<noteq> h" by (auto simp: min_def max_def split: if_splits)
    then have v: "0 \<le> (0 - g) / (h - g)" "(0 - g) / (h - g) \<le> 1" by (intro between_convex; simp)+
    have "along c d ((0 - g) / (h - g)) = along a b 0" using lt nest by simp
    then have "a = along c d ((0 - g) / (h - g))" by simp
    with v show ?thesis unfolding segment_def by blast
  qed
qed

lemma meeting_ends:
  assumes "p \<in> segment a b" "p \<in> segment c d"
    and "\<not> (exact_cross a b c > 0 \<and> exact_cross a b d < 0 \<or> exact_cross a b c < 0 \<and> exact_cross a b d > 0)"
  shows "c \<in> segment a b \<or> d \<in> segment a b \<or> a \<in> segment c d"
proof -
  obtain t u where t: "0 \<le> t" "t \<le> 1" "p = along a b t" and u: "0 \<le> u" "u \<le> 1" "p = along c d u"
    using assms(1,2) unfolding segment_def by auto
  have "exact_cross a b p = 0" using assms(1) by (simp add: segment_iff)
  then have "u = 0 \<or> u = 1 \<or> exact_cross a b c = 0 \<and> exact_cross a b d = 0"
    using same_side[OF _ u(1,2) assms(3)] cross_along[of a b c d u] u(3) by simp
  then consider "u = 0" | "u = 1" | "a = b" | "a \<noteq> b" "exact_cross a b c = 0" "exact_cross a b d = 0" by blast
  then show ?thesis
  proof cases
    case 3
    then show ?thesis using t(3) assms(2) by (simp add: along_def)
  next
    case 4
    then show ?thesis using collinear_meet[OF _ _ _ t(1,2) u(1,2)] t(3) u(3) by simp
  qed (use u(3) assms(1) in simp_all)
qed

lemma segments_meet:
  "segment a b \<inter> segment c d \<noteq> {} \<longleftrightarrow>
     (exact_cross a b c > 0 \<and> exact_cross a b d < 0 \<or> exact_cross a b c < 0 \<and> exact_cross a b d > 0) \<and>
     (exact_cross c d a > 0 \<and> exact_cross c d b < 0 \<or> exact_cross c d a < 0 \<and> exact_cross c d b > 0)
     \<or> c \<in> segment a b \<or> d \<in> segment a b \<or> a \<in> segment c d \<or> b \<in> segment c d" (is "?L \<longleftrightarrow> ?R" is "_ \<longleftrightarrow> ?C1 \<and> ?C2 \<or> _")
proof
  assume ?L
  then obtain p where p: "p \<in> segment a b" "p \<in> segment c d" by blast
  show ?R using meeting_ends[OF p] meeting_ends[OF p(2,1)] by argo
next
  assume ?R
  then consider "?C1 \<and> ?C2" | "c \<in> segment a b" | "d \<in> segment a b" | "a \<in> segment c d" | "b \<in> segment c d" by argo
  then show ?L
  proof cases
    case 1
    then show ?thesis using proper_crossing by simp
  next
    case 2
    then show ?thesis using segment_ends(1)[of c d] by blast
  next
    case 3
    then show ?thesis using segment_ends(2)[where a = c and b = d] by blast
  next
    case 4
    then show ?thesis using segment_ends(1)[of a b] by blast
  next
    case 5
    then show ?thesis using segment_ends(2)[where a = a and b = b] by blast
  qed
qed

lemma intersects_exact:
  assumes "grid_point (line_first l1)" "grid_point (line_second l1)" "grid_point (line_first l2)" "grid_point (line_second l2)"
  shows "intersects l1 l2 \<longleftrightarrow>
    segment (line_first l1) (line_second l1) \<inter> segment (line_first l2) (line_second l2) \<noteq> {}"
proof -
  have early: "(if P then True else Q) \<longleftrightarrow> P \<or> Q" for P Q :: bool by simp
  show ?thesis
    unfolding segments_meet intersects_def Let_def segment_iff early
      cross_exact[OF assms(1,2,3)] cross_exact[OF assms(1,2,4)] cross_exact[OF assms(3,4,1)] cross_exact[OF assms(3,4,2)]
    by (rule refl)
qed

text \<open>
  C25. On integral coordinates of at most 30 bits the test of two segments, computed in \<open>long double\<close> arithmetic, is exact:
  it says whether the segments have a point in common. Segments that touch, overlap or are single points included.
\<close>

theorem intersects_correct:
  assumes "grid_point (line_first l1)" "grid_point (line_second l1)" "grid_point (line_first l2)" "grid_point (line_second l2)"
  shows "intersects l1 l2 \<longleftrightarrow>
    segment (line_first l1) (line_second l1) \<inter> segment (line_first l2) (line_second l2) \<noteq> {}"
  using assms by (rule intersects_exact)

theorem intersects_correct_witness:
  "intersects \<lparr>line_first = (0, 0), line_second = (4, 2)\<rparr> \<lparr>line_first = (2, 1), line_second = (5, - 7)\<rparr> \<longleftrightarrow>
     segment (0, 0) (4, 2) \<inter> segment (2, 1) (5, - 7) \<noteq> {}"
  using intersects_correct[of "\<lparr>line_first = (0, 0), line_second = (4, 2)\<rparr>" "\<lparr>line_first = (2, 1), line_second = (5, - 7)\<rparr>"]
  by (simp add: grid_point_def)

end
