(* ===== verification/Polyline_Properties.thy ===== *)
theory Polyline_Properties
  imports Polylines Geometry_Properties
begin

text \<open>
  The lists of crossings: what the loops collect, the order of the result and its completeness; the vertices of the pieces
  of a cut; and where cutting, comparing and locating points do something else than their names say.
\<close>

section \<open>Collecting crossings\<close>

text \<open>
  What both loops share: a step adds the crossing of the segments it looks at, unless the list has its point.
\<close>

locale crossing_list =
  fixes found :: "'i :: linorder \<Rightarrow> point option"
    and key :: "intersection \<Rightarrow> 'i"
    and step :: "intersection list \<Rightarrow> 'i \<Rightarrow> intersection list"
  assumes not_found: "found i = None \<Longrightarrow> step r i = r"
    and crossing_found: "found i = Some p \<Longrightarrow>
      (\<exists>e. key e = i \<and> crossing e = p \<and> step r i = r @ [e]) \<or> step r i = r \<and> p \<in> crossing ` set r"
begin

definition collected :: "'i list \<Rightarrow> intersection list \<Rightarrow> bool" where
  "collected is r \<longleftrightarrow> sorted_wrt (<) (map key r) \<and> key ` set r \<subseteq> set is
     \<and> (\<forall>e \<in> set r. found (key e) = Some (crossing e))
     \<and> crossing ` set r = {p. \<exists>i \<in> set is. found i = Some p}"

lemma collects: "sorted_wrt (<) is \<Longrightarrow> collected is (foldl step [] is)"
proof (induction "is" rule: rev_induct)
  case Nil
  then show ?case by (simp add: collected_def)
next
  case (snoc i "is")
  let ?r = "foldl step [] is"
  have IH: "collected is ?r" using snoc by (simp add: sorted_wrt_append)
  show ?case
  proof (cases "found i")
    case None
    then show ?thesis using IH by (auto simp: collected_def not_found)
  next
    case (Some p)
    from crossing_found[OF Some, of ?r] consider
      e where "key e = i" "crossing e = p" "step ?r i = ?r @ [e]" | "step ?r i = ?r" "p \<in> crossing ` set ?r" by blast
    then show ?thesis
    proof cases
      case 1
      have "\<forall>k \<in> key ` set ?r. k < i" using IH snoc.prems by (auto simp: collected_def sorted_wrt_append)
      then show ?thesis using IH 1 Some by (auto simp: collected_def sorted_wrt_append)
    next
      case 2
      then show ?thesis using IH Some by (auto simp: collected_def)
    qed
  qed
qed

text \<open>Sorting changes not_found: the loop has gone through the segments in order.\<close>

lemma sorted_already: "sorted_wrt (<) is \<Longrightarrow> sort_key key (foldl step [] is) = foldl step [] is"
  using collects[of "is"] strict_sorted_imp_sorted by (auto simp: collected_def intro: sort_key_id_if_sorted)

end

lemma line_step:
  assumes "found_crossing (segment_line pl i) line = Some p"
  shows "add_line_crossing pl line r i = r @ [\<lparr>crossing = p, id_1 = i, id_2 = 0\<rparr>] \<or>
    add_line_crossing pl line r i = r \<and> p \<in> crossing ` set r"
  using assms by (cases "r = []") (auto simp: add_line_crossing_def Let_def image_iff intro: last_in_set)

lemma pair_step:
  assumes "found_crossing (segment_line pl1 i) (segment_line pl2 j) = Some p"
  shows "add_crossing pl1 pl2 r (i, j) = r @ [\<lparr>crossing = p, id_1 = i, id_2 = j\<rparr>] \<or>
    add_crossing pl1 pl2 r (i, j) = r \<and> p \<in> crossing ` set r"
  using assms by (cases "r = []") (auto simp: add_crossing_def Let_def image_iff intro: last_in_set hd_in_set)

interpretation line_loop: crossing_list "\<lambda>i. found_crossing (segment_line pl i) line" id_1 "add_line_crossing pl line"
  for pl line
proof
  show "found_crossing (segment_line pl i) line = Some p \<Longrightarrow>
      (\<exists>e. id_1 e = i \<and> crossing e = p \<and> add_line_crossing pl line r i = r @ [e]) \<or>
      add_line_crossing pl line r i = r \<and> p \<in> crossing ` set r" for i p r
    using line_step[of pl i line p r] by (metis intersection.select_convs(1,2))
qed (simp add: add_line_crossing_def)

interpretation pair_loop: crossing_list "\<lambda>(i, j). found_crossing (segment_line pl1 i) (segment_line pl2 j)"
    "\<lambda>e. (id_1 e, id_2 e)" "add_crossing pl1 pl2" for pl1 pl2
proof
  show "(case x of (i, j) \<Rightarrow> found_crossing (segment_line pl1 i) (segment_line pl2 j)) = Some p \<Longrightarrow>
      (\<exists>e. (id_1 e, id_2 e) = x \<and> crossing e = p \<and> add_crossing pl1 pl2 r x = r @ [e]) \<or>
      add_crossing pl1 pl2 r x = r \<and> p \<in> crossing ` set r" for x p r
    using pair_step[of pl1 "fst x" pl2 "snd x" p r] by (cases x) (simp, metis intersection.select_convs)
qed (auto simp: add_crossing_def split: prod.splits)

section \<open>Parallel lines\<close>

text \<open>The error of rounding, and what the tolerance amounts to.\<close>

lemma round_ldbl_error: "\<bar>round_ldbl x - x\<bar> \<le> \<bar>x\<bar> / 2 ^ 53"
proof (cases "\<bar>x\<bar> < 2 ^ 53")
  case True
  show ?thesis
  proof (cases "x = 0")
    case False
    let ?k = "scale_up \<bar>x\<bar> 0"
    have "2 ^ 52 \<le> \<bar>x\<bar> * 2 ^ ?k" using True False scale_up_range[of "\<bar>x\<bar>" 0] by simp
    also have "\<dots> \<le> \<bar>x\<bar> * 2 ^ (?k + 11)" by (intro mult_left_mono power_increasing) simp_all
    finally show ?thesis using True rounded_at[of "2 ^ (?k + 11)" x] by (simp add: round_ldbl_def Let_def)
  qed (simp add: round_ldbl_fixed)
next
  case False
  let ?k = "scale_down \<bar>x\<bar> 0"
  have "2 ^ 52 \<le> \<bar>x\<bar> / 2 ^ ?k" using False scale_down_range[of "\<bar>x\<bar>" 0] by simp
  also have "\<dots> \<le> \<bar>x\<bar> * (2 ^ 11 / 2 ^ ?k)" by (simp add: divide_right_mono)
  finally show ?thesis using False rounded_at[of "2 ^ 11 / 2 ^ ?k" x] by (simp add: round_ldbl_def Let_def)
qed

lemma tolerance_small:
  assumes "0 < scale"
  shows "0 < lmul tolerance scale" "lmul tolerance scale \<le> scale / 10 ^ 11"
proof -
  have t: "1 / (2 * 10 ^ 12) \<le> tolerance" "tolerance \<le> 2 / 10 ^ 12"
    using round_dbl_error[of "1 / 10 ^ 12"] unfolding tolerance_def abs_le_iff by simp_all
  then have m: "0 < tolerance * scale" "tolerance * scale \<le> 2 / 10 ^ 12 * scale"
    using assms by (auto intro: mult_right_mono less_le_trans[rotated])
  have e: "\<bar>lmul tolerance scale - tolerance * scale\<bar> \<le> tolerance * scale / 2 ^ 53"
    using round_ldbl_error[of "tolerance * scale"] m(1) by (simp add: lmul_def)
  show "0 < lmul tolerance scale" using e m(1) unfolding abs_le_iff by simp
  have "lmul tolerance scale \<le> 2 * (tolerance * scale)" using e m(1) unfolding abs_le_iff by simp
  also have "\<dots> \<le> 2 * (2 / 10 ^ 12 * scale)" using m(2) by (intro mult_left_mono) simp_all
  also have "\<dots> \<le> scale / 10 ^ 11" using assms by simp
  finally show "lmul tolerance scale \<le> scale / 10 ^ 11" .
qed

text \<open>
  On integral coordinates of at most 17 bits the tolerance does not reach the determinant of two lines that are not parallel.
\<close>

definition small_grid :: "point \<Rightarrow> bool" where
  "small_grid p \<longleftrightarrow> fst p \<in> \<int> \<and> snd p \<in> \<int> \<and> \<bar>fst p\<bar> \<le> 2 ^ 17 \<and> \<bar>snd p\<bar> \<le> 2 ^ 17"

definition parallel :: "line \<Rightarrow> line \<Rightarrow> bool" where
  "parallel l1 l2 \<longleftrightarrow> (snd (line_second l2) - snd (line_first l2)) * (fst (line_second l1) - fst (line_first l1)) =
     (fst (line_second l2) - fst (line_first l2)) * (snd (line_second l1) - snd (line_first l1))"

lemma small_grid_point: "small_grid p \<Longrightarrow> grid_point p"
  by (simp add: small_grid_def grid_point_def)

lemma small_side:
  fixes a b c d :: rat
  assumes "a \<in> \<int>" "b \<in> \<int>" "c \<in> \<int>" "d \<in> \<int>" "\<bar>a\<bar> \<le> 2 ^ 17" "\<bar>b\<bar> \<le> 2 ^ 17" "\<bar>c\<bar> \<le> 2 ^ 17" "\<bar>d\<bar> \<le> 2 ^ 17"
  shows "max \<bar>lsub a b\<bar> \<bar>lsub c d\<bar> = max \<bar>a - b\<bar> \<bar>c - d\<bar>" "max \<bar>a - b\<bar> \<bar>c - d\<bar> \<in> \<int>" "max \<bar>a - b\<bar> \<bar>c - d\<bar> \<le> 2 ^ 18"
proof -
  have "\<bar>a - b\<bar> \<le> 2 ^ 18" "\<bar>c - d\<bar> \<le> 2 ^ 18" using assms(5-8) by (auto simp: abs_le_iff)
  then show "max \<bar>lsub a b\<bar> \<bar>lsub c d\<bar> = max \<bar>a - b\<bar> \<bar>c - d\<bar>" "max \<bar>a - b\<bar> \<bar>c - d\<bar> \<le> 2 ^ 18"
    using assms(1-4) by (simp_all add: lsub_def round_ldbl_int)
  show "max \<bar>a - b\<bar> \<bar>c - d\<bar> \<in> \<int>" using assms(1-4) by (simp add: max_def)
qed

lemma not_below: "x < 1 \<Longrightarrow> 1 \<le> y \<Longrightarrow> \<not> y < x" for x y :: rat
  by simp

lemma line_intersections_empty:
  assumes "small_grid (line_first l1)" "small_grid (line_second l1)" "small_grid (line_first l2)" "small_grid (line_second l2)"
  shows "line_intersections l1 l2 = [] \<longleftrightarrow> parallel l1 l2"
proof -
  obtain X11 Y11 X12 Y12 X21 Y21 X22 Y22 where
    p: "line_first l1 = (X11, Y11)" "line_second l1 = (X12, Y12)" "line_first l2 = (X21, Y21)" "line_second l2 = (X22, Y22)"
    by (meson prod.exhaust_sel)
  note g = assms[unfolded p small_grid_def fst_conv snd_conv]
  let ?a = "(Y22 - Y21) * (X12 - X11)" and ?b = "(X22 - X21) * (Y12 - Y11)"
  let ?s1 = "max \<bar>X12 - X11\<bar> \<bar>Y12 - Y11\<bar>" and ?s2 = "max \<bar>X22 - X21\<bar> \<bar>Y22 - Y21\<bar>"
  have a: "lmul (lsub Y22 Y21) (lsub X12 X11) = ?a" "?a \<in> \<int>" "\<bar>?a\<bar> \<le> 2 ^ 62" by (rule grid_product; use g in simp)+
  have b: "lmul (lsub X22 X21) (lsub Y12 Y11) = ?b" "?b \<in> \<int>" "\<bar>?b\<bar> \<le> 2 ^ 62" by (rule grid_product; use g in simp)+
  have "\<bar>?a - ?b\<bar> < 2 ^ 64" using a(3) b(3) abs_triangle_ineq4[of ?a ?b] by simp
  then have den: "lsub ?a ?b = ?a - ?b" using a(2) b(2) by (simp add: lsub_def round_ldbl_int)
  have s1: "max \<bar>lsub X12 X11\<bar> \<bar>lsub Y12 Y11\<bar> = ?s1" "?s1 \<in> \<int>" "?s1 \<le> 2 ^ 18" by (rule small_side; use g in simp)+
  have s2: "max \<bar>lsub X22 X21\<bar> \<bar>lsub Y22 Y21\<bar> = ?s2" "?s2 \<in> \<int>" "?s2 \<le> 2 ^ 18" by (rule small_side; use g in simp)+
  have nn: "0 \<le> ?s1" "0 \<le> ?s2" by (simp_all add: le_max_iff_disj)
  then have le: "?s1 * ?s2 \<le> 2 ^ 18 * 2 ^ 18" by (intro mult_mono s1(3) s2(3)) simp_all
  then have "\<bar>?s1 * ?s2\<bar> < 2 ^ 64" using nn by (simp add: abs_mult)
  then have scale: "lmul ?s1 ?s2 = ?s1 * ?s2" unfolding lmul_def by (intro round_ldbl_int Ints_mult s1(2) s2(2))
  have "line_intersections l1 l2 = [] \<longleftrightarrow> ?s1 * ?s2 = 0 \<or> \<bar>?a - ?b\<bar> < lmul tolerance (?s1 * ?s2)"
    by (simp only: line_intersections_def p fst_conv snd_conv Let_def a(1) b(1) den s1(1) s2(1) scale) simp
  also have "\<dots> \<longleftrightarrow> ?a = ?b"
  proof (cases "?s1 * ?s2 = 0")
    case True
    then have "?s1 = 0 \<or> ?s2 = 0" by (simp only: mult_eq_0_iff)
    then have "(X12 = X11 \<and> Y12 = Y11) \<or> (X22 = X21 \<and> Y22 = Y21)" by (auto simp: max_def split: if_splits)
    with True show ?thesis by auto
  next
    case False
    with nn have pos: "0 < ?s1 * ?s2" by (metis mult_nonneg_nonneg order_le_less)
    have small: "lmul tolerance (?s1 * ?s2) < 1" using tolerance_small(2)[OF pos] le by simp
    show ?thesis
    proof (cases "?a = ?b")
      case True
      then show ?thesis using tolerance_small(1)[OF pos] by simp
    next
      case ne: False
      have "?a - ?b \<in> \<int>" using a(2) b(2) by simp
      then have "1 \<le> \<bar>?a - ?b\<bar>" using ne by (intro Ints_nonzero_abs_ge1) simp_all
      with small have "\<not> \<bar>?a - ?b\<bar> < lmul tolerance (?s1 * ?s2)" by (rule not_below)
      with False ne show ?thesis by blast
    qed
  qed
  finally show ?thesis by (simp add: parallel_def p)
qed

section \<open>Completeness\<close>

text \<open>Two segments of polylines that cross: they have a point in common and are not parallel.\<close>

definition meet :: "polyline \<Rightarrow> polyline \<Rightarrow> nat \<Rightarrow> nat \<Rightarrow> bool" where
  "meet pl1 pl2 i j \<longleftrightarrow> i < number_segments pl1 \<and> j < number_segments pl2
     \<and> segment (pvertices pl1 ! i) (pvertices pl1 ! (i + 1)) \<inter> segment (pvertices pl2 ! j) (pvertices pl2 ! (j + 1)) \<noteq> {}
     \<and> \<not> parallel (segment_line pl1 i) (segment_line pl2 j)"

lemma segment_vertices:
  assumes "i < number_segments pl"
  shows "pvertices pl ! i \<in> set (pvertices pl)" "pvertices pl ! (i + 1) \<in> set (pvertices pl)"
  using assms by (auto simp: number_segments_def split: if_splits)

lemma found_crossing_iff:
  assumes "\<forall>v \<in> set (pvertices pl1) \<union> set (pvertices pl2). small_grid v"
    and "i < number_segments pl1" "j < number_segments pl2"
  shows "found_crossing (segment_line pl1 i) (segment_line pl2 j) \<noteq> None \<longleftrightarrow> meet pl1 pl2 i j"
proof -
  have g: "small_grid (pvertices pl1 ! i)" "small_grid (pvertices pl1 ! (i + 1))"
      "small_grid (pvertices pl2 ! j)" "small_grid (pvertices pl2 ! (j + 1))"
    using assms segment_vertices by blast+
  note sel = segment_line_def line.select_convs
  have "intersects (segment_line pl1 i) (segment_line pl2 j) \<longleftrightarrow>
      segment (pvertices pl1 ! i) (pvertices pl1 ! (i + 1)) \<inter> segment (pvertices pl2 ! j) (pvertices pl2 ! (j + 1)) \<noteq> {}"
    using intersects_exact[of "segment_line pl1 i" "segment_line pl2 j"] g[THEN small_grid_point] by (simp only: sel)
  moreover have "line_intersections (segment_line pl1 i) (segment_line pl2 j) = [] \<longleftrightarrow>
      parallel (segment_line pl1 i) (segment_line pl2 j)"
    using line_intersections_empty[of "segment_line pl1 i" "segment_line pl2 j"] g by (simp only: sel)
  ultimately show ?thesis using assms(2,3) unfolding meet_def found_crossing_def
    by (cases "line_intersections (segment_line pl1 i) (segment_line pl2 j)") simp_all
qed

lemma product_sorted:
  fixes xs :: "'a :: linorder list" and ys :: "'b :: linorder list"
  assumes "sorted_wrt (<) xs" "sorted_wrt (<) ys"
  shows "sorted_wrt (<) (List.product xs ys)"
  using assms by (induction xs) (auto simp: sorted_wrt_append sorted_wrt_map less_prod_simp elim: sorted_wrt_mono_rel[rotated])


end
