(* ===== verification/Cut_Properties.thy ===== *)
theory Cut_Properties
  imports Polyline_Properties
begin

text \<open>
  The pieces of a cut, and the departures of the geometry: what its functions do with examples that their names exclude.
\<close>

section \<open>The pieces of a cut\<close>

lemma append_vertex_vertices [simp]: "pvertices (append_vertex p pl) = pvertices pl @ [p]"
  by (simp add: append_vertex_def Let_def)

lemma append_all_vertices [simp]: "pvertices (append_all ps pl) = pvertices pl @ ps"
  by (induction ps arbitrary: pl) (simp_all add: append_all_def)

lemma append_new_vertices: "\<exists>qs. pvertices (append_new ps pl) = pvertices pl @ qs \<and> set qs \<subseteq> set ps"
proof (induction ps pl rule: append_new.induct)
  case (2 p ps pl)
  then show ?case by (cases "p = last (pvertices pl)") fastforce+
qed simp

lemma polyline_of_vertices [simp]: "pvertices (polyline_of vs) = vs"
  by (simp add: polyline_of_def)

text \<open>Pieces are never empty, and consist of vertices that were there and of crossings.\<close>

definition pieces_from :: "point set \<Rightarrow> polyline list \<Rightarrow> bool" where
  "pieces_from ps pls \<longleftrightarrow> [] \<notin> pvertices ` set pls \<and> (\<Union>pl \<in> set pls. set (pvertices pl)) \<subseteq> ps"

lemma pieces_from_simps [simp]:
  "pieces_from ps []" "pieces_from ps [pl] \<longleftrightarrow> pvertices pl \<noteq> [] \<and> set (pvertices pl) \<subseteq> ps" "pieces_from ps (pls @ [pl]) \<longleftrightarrow> pieces_from ps pls \<and> pvertices pl \<noteq> [] \<and> set (pvertices pl) \<subseteq> ps"
  by (auto simp: pieces_from_def)

lemma pieces_from_map_last:
  assumes "pieces_from ps pls" and "set qs \<subseteq> ps" and "qs \<noteq> []"
    and "\<And>pl. pvertices (f pl) = pvertices pl @ qs"
  shows "pieces_from ps (map_last f (if pls = [] then [polyline_of []] else pls))"
proof (cases pls rule: rev_cases)
  case Nil
  then show ?thesis using assms by (simp add: map_last_def)
next
  case (snoc pls' pl)
  then show ?thesis using assms by (simp add: map_last_def)
qed

lemma cut_loop_pieces:
  assumes "pieces_from (set vs \<union> crossing ` set turns) result" and "\<forall>t \<in> set turns. id_1 t < length vs"
  shows "pieces_from (set vs \<union> crossing ` set turns) (cut_loop open_at turns vs i inside result)"
  using assms
proof (induction open_at turns vs i inside result rule: cut_loop.induct)
  case (1 open_at turns vs i inside result)
  show ?case
  proof (cases "i < length turns")
    case False
    then show ?thesis using "1.prems" by (subst cut_loop.simps) simp
  next
    case True
    let ?i = "skip_openings open_at turns i"
    have i: "?i < length turns" using True by (rule skip_openings_bound)
    then have t: "turns ! ?i \<in> set turns" by simp
    show ?thesis
    proof (cases inside)
      case inside: True
      let ?s = "if ?i = 0 then 0 else id_1 (turns ! (?i - 1)) + 1"
      have "id_1 (turns ! ?i) < length vs" using "1.prems"(2) t by blast
      then have "set (map ((!) vs) [?s..<id_1 (turns ! ?i) + 1] @ [crossing (turns ! ?i)]) \<subseteq> set vs \<union> crossing ` set turns"
        using t by auto
      from pieces_from_map_last[OF "1.prems"(1) this] "1.IH"(1)[OF True refl refl inside refl refl refl] "1.prems"(2) show ?thesis
        by (subst cut_loop.simps) (simp add: True inside Let_def)
    next
      case outside: False
      from "1.IH"(2)[OF True refl refl outside] "1.prems" t show ?thesis
        by (subst cut_loop.simps) (simp add: True outside Let_def)
    qed
  qed
qed

text \<open>Cutting by a line: the spans are defined, because the crossings are in the order of the segments.\<close>

lemma span_ordered:
  assumes "sorted_wrt (<) (map id_1 turns)" and "\<forall>t \<in> set turns. id_1 t < length vs" and "i < length turns"
  defines "b \<equiv> if i = 0 then 0 else id_1 (turns ! i) + 1"
    and "e \<equiv> if i = length turns - 1 then id_1 (turns ! i) + 1 else id_1 (turns ! (i + 1))"
  shows "b \<le> e \<and> e \<le> length vs"
proof (cases "i = length turns - 1")
  case True
  have "id_1 (turns ! i) < length vs" using assms(2,3) by simp
  with True show ?thesis by (auto simp: b_def e_def)
next
  case False
  with assms(3) have n: "i + 1 < length turns" by simp
  then have "map id_1 turns ! i < map id_1 turns ! (i + 1)" using sorted_wrt_nth_less[OF assms(1), of i "i + 1"] by simp
  moreover have "id_1 (turns ! (i + 1)) < length vs" using assms(2) n by simp
  ultimately show ?thesis using n False by (auto simp: b_def e_def)
qed

lemma cut_by_line_loop_pieces:
  assumes "pieces_from (set vs \<union> crossing ` set turns) result"
    and "sorted_wrt (<) (map id_1 turns)" and "\<forall>t \<in> set turns. id_1 t < length vs"
  shows "\<exists>ps. cut_by_line_loop turns vs i inside result = Some ps \<and> pieces_from (set vs \<union> crossing ` set turns) ps"
  using assms
proof (induction turns vs i inside result rule: cut_by_line_loop.induct)
  case (1 turns vs i inside result)
  show ?case
  proof (cases "i < length turns")
    case False
    then show ?thesis using "1.prems" by (subst cut_by_line_loop.simps) simp
  next
    case True
    let ?b = "if i = 0 then 0 else id_1 (turns ! i) + 1"
      and ?e = "if i = length turns - 1 then id_1 (turns ! i) + 1 else id_1 (turns ! (i + 1))"
      and ?p = "if i < length turns - 1 then crossing (turns ! (i + 1)) else crossing (turns ! i)"
    show ?thesis
    proof (cases inside)
      case inside: True
      have be: "\<not> (?b > ?e \<or> ?e > length vs)" using span_ordered[OF "1.prems"(2,3) True] by (simp only: not_less de_Morgan_disj)
      have "?p \<in> crossing ` set turns" using True by auto
      then have qs: "set (take (?e - ?b) (drop ?b vs) @ [?p]) \<subseteq> set vs \<union> crossing ` set turns"
        using set_take_subset[of "?e - ?b" "drop ?b vs"] set_drop_subset[of ?b vs] by auto
      let ?r = "map_last (\<lambda>pl. append_vertex ?p (append_all (take (?e - ?b) (drop ?b vs)) pl))
        (if result = [] then [polyline_of []] else result)"
      have "pieces_from (set vs \<union> crossing ` set turns) ?r" by (rule pieces_from_map_last[OF "1.prems"(1) qs]) simp_all
      moreover have "cut_by_line_loop turns vs i inside result = cut_by_line_loop turns vs (i + 2) False ?r"
        by (subst cut_by_line_loop.simps) (simp only: True inside Let_def be if_True if_False)
      ultimately show ?thesis using "1.IH"(1)[OF True inside refl refl refl refl be] "1.prems"(2,3) by simp
    next
      case outside: False
      let ?pl = "append_vertex (crossing (turns ! i)) (polyline_of [])"
      let ?pl' = "if i = length turns - 1 then append_new (drop (id_1 (turns ! i) + 1) vs) ?pl else ?pl"
      obtain qs where qs: "pvertices (append_new (drop (id_1 (turns ! i) + 1) vs) ?pl) = crossing (turns ! i) # qs" "set qs \<subseteq> set vs"
        using append_new_vertices[of "drop (id_1 (turns ! i) + 1) vs" ?pl] set_drop_subset[of "id_1 (turns ! i) + 1" vs] by auto
      have "turns ! i \<in> set turns" using True by simp
      with qs "1.prems"(1) have "pieces_from (set vs \<union> crossing ` set turns) (result @ [?pl'])" by auto
      moreover have "cut_by_line_loop turns vs i inside result = cut_by_line_loop turns vs (i + 2) True (result @ [?pl'])"
        by (subst cut_by_line_loop.simps) (simp only: True outside Let_def if_True if_False)
      ultimately show ?thesis using "1.IH"(2)[OF True outside refl refl] "1.prems"(2,3) by simp
    qed
  qed
qed

lemma line_crossing_ids:
  "sorted_wrt (<) (map id_1 (polyline_line_intersections pl l))"
  "\<forall>t \<in> set (polyline_line_intersections pl l). id_1 t < length (pvertices pl)"
proof -
  let ?is = "[0..<number_segments pl]"
  note s = line_loop.sorted_already[OF sorted_wrt_upt] and c = line_loop.collects[OF sorted_wrt_upt, unfolded line_loop.collected_def]
  have n: "number_segments pl \<le> length (pvertices pl)" by (simp add: number_segments_def)
  show "sorted_wrt (<) (map id_1 (polyline_line_intersections pl l))" using c by (simp add: polyline_line_intersections_def s)
  have "id_1 ` set (polyline_line_intersections pl l) \<subseteq> set ?is" using c by (auto simp: polyline_line_intersections_def s)
  with n show "\<forall>t \<in> set (polyline_line_intersections pl l). id_1 t < length (pvertices pl)" by fastforce
qed

lemma pair_crossing_ids: "\<forall>t \<in> set (polyline_intersections pl1 pl2). id_1 t < length (pvertices pl1)"
proof -
  let ?is = "List.product [0..<number_segments pl1] [0..<number_segments pl2]"
  have s: "sorted_wrt (<) ?is" by (intro product_sorted sorted_wrt_upt)
  have n: "number_segments pl1 \<le> length (pvertices pl1)" by (simp add: number_segments_def)
  have "(\<lambda>e. (id_1 e, id_2 e)) ` set (polyline_intersections pl1 pl2) \<subseteq> set ?is"
    using pair_loop.collects[OF s, of pl1 pl2] pair_loop.sorted_already[OF s]
    by (auto simp: polyline_intersections_def pair_loop.collected_def)
  with n show ?thesis by fastforce
qed


section \<open>Examples\<close>

text \<open>Evaluation: results with few bits behind the point are exact, and the tolerance is far away.\<close>

lemma exact_arith:
  "(x + y) * 2 ^ 11 \<in> \<int> \<Longrightarrow> \<bar>x + y\<bar> < 2 ^ 53 \<Longrightarrow> ladd x y = x + y"
  "(x - y) * 2 ^ 11 \<in> \<int> \<Longrightarrow> \<bar>x - y\<bar> < 2 ^ 53 \<Longrightarrow> lsub x y = x - y"
  "(x * y) * 2 ^ 11 \<in> \<int> \<Longrightarrow> \<bar>x * y\<bar> < 2 ^ 53 \<Longrightarrow> lmul x y = x * y"
  "(x / y) * 2 ^ 11 \<in> \<int> \<Longrightarrow> \<bar>x / y\<bar> < 2 ^ 53 \<Longrightarrow> ldiv x y = x / y"
  by (simp_all only: ladd_def lsub_def lmul_def ldiv_def round_ldbl_fixed)

lemma far_from_tolerance: "0 < scale \<Longrightarrow> scale \<le> d \<Longrightarrow> \<not> d < lmul tolerance scale"
  using tolerance_small(2)[of scale] by simp

lemmas evaluate = exact_arith far_from_tolerance intersects_def line_intersections_def cross_def on_segment_def
  found_crossing_def segment_line_def Let_def

text \<open>A polyline that goes down through a line and comes up again, and one that only goes down.\<close>

definition valley :: polyline where
  "valley = polyline_of [(0, 1), (0, -1), (2, -1), (2, 1)]"

definition slope_down :: polyline where
  "slope_down = polyline_of [(0, 1), (0, -1), (2, -1)]"

definition axis :: line where
  "axis = \<lparr>line_first = (-1, 0), line_second = (3, 0)\<rparr>"

lemma axis_crossings:
  "found_crossing \<lparr>line_first = (0, 1), line_second = (0, -1)\<rparr> axis = Some (0, 0)"
  "found_crossing \<lparr>line_first = (0, -1), line_second = (2, -1)\<rparr> axis = None"
  "found_crossing \<lparr>line_first = (2, -1), line_second = (2, 1)\<rparr> axis = Some (2, 0)"
  "found_crossing \<lparr>line_first = (0, 1), line_second = (0, 2)\<rparr> axis = None"
  by (simp_all add: axis_def evaluate)

lemma number_segments_of [simp]: "number_segments (polyline_of vs) = (if length vs < 2 then 0 else length vs - 1)"
  by (simp add: number_segments_def)

lemmas run_loops = add_line_crossing_def add_crossing_def segment_line_def upt_rec axis_crossings

lemma valley_crossings:
  "polyline_line_intersections valley axis =
     [\<lparr>crossing = (0, 0), id_1 = 0, id_2 = 0\<rparr>, \<lparr>crossing = (2, 0), id_1 = 2, id_2 = 0\<rparr>]"
  by (simp add: polyline_line_intersections_def valley_def run_loops) (simp add: axis_def)

text \<open>
  The part of the valley on the left of the axis: the piece does not end where the polyline crosses the axis, but goes on to
  the vertex on the other side and the second crossing; the part that comes up again is missing.
\<close>

lemma cut_crosses_line:
  "map_option (map pvertices) (cut_by_line valley axis True) = Some [[(0, 1), (0, -1), (2, 0)]]"
proof -
  have "\<not> opens_at_line True valley axis \<lparr>crossing = (0, 0), id_1 = 0, id_2 = 0\<rparr>"
    by (simp add: opens_at_line_def axis_def valley_def cross_def exact_arith)
  then show ?thesis
    by (simp add: cut_by_line_def valley_crossings Let_def)
      (subst cut_by_line_loop.simps, simp add: valley_def map_last_def, subst cut_by_line_loop.simps, simp)
qed

text \<open>A polyline that does not cross the line at all has no part on either side.\<close>

lemma uncut_polyline_lost:
  "cut_by_line (polyline_of [(0, 1), (0, 2)]) axis left_forward = Some []"
proof -
  have "polyline_line_intersections (polyline_of [(0, 1), (0, 2)]) axis = []"
    by (simp add: polyline_line_intersections_def run_loops)
  then show ?thesis by (simp add: cut_by_line_def)
qed

text \<open>Cut by a polyline, the part behind the last crossing is missing: only the crossing is left of it.\<close>

lemma cut_loses_tail:
  "map pvertices (cut_by_polyline slope_down (polyline_of [(-1, 0), (3, 0)]) False) = [[(0, 0)]]"
proof -
  have c: "polyline_intersections slope_down (polyline_of [(-1, 0), (3, 0)]) = [\<lparr>crossing = (0, 0), id_1 = 0, id_2 = 0\<rparr>]"
    using axis_crossings unfolding axis_def
    by (simp add: polyline_intersections_def slope_down_def add_crossing_def segment_line_def upt_rec)
  have "opens_at False slope_down (polyline_of [(-1, 0), (3, 0)]) \<lparr>crossing = (0, 0), id_1 = 0, id_2 = 0\<rparr>"
    by (simp add: opens_at_def slope_down_def cross_def exact_arith)
  then show ?thesis
    by (simp add: cut_by_polyline_def c Let_def)
      (subst cut_loop.simps, simp add: skip_openings.simps, subst cut_loop.simps, simp)
qed

text \<open>\<open>equivalent\<close> is never true: it reads behind the last vertex before it can end.\<close>

lemma equivalent_loop_not_true:
  assumes "length us \<le> last' + 1" and "i \<le> last'"
  shows "equivalent_loop us vs last' i j \<noteq> Some True"
  using assms
proof (induction us vs last' i j rule: equivalent_loop.induct)
  case (1 us vs last' i j)
  show ?case
  proof (cases "skip_second vs j")
    case None
    then show ?thesis using 1(3) by (subst equivalent_loop.simps) simp
  next
    case (Some j')
    note second = this
    show ?thesis
    proof (cases "skip_first us last' i")
      case None
      then show ?thesis using 1(3) second by (subst equivalent_loop.simps) simp
    next
      case (Some i')
      then have "i' + 1 \<le> last'" using skip_first_ge[OF Some] 1(2) by simp
      then show ?thesis using 1(1)[OF 1(3) second Some] 1(2,3) second Some by (subst equivalent_loop.simps) simp
    qed
  qed
qed

lemma never_equivalent: "polylines_equivalent first second \<noteq> Some True"
  using equivalent_loop_not_true[of "pvertices first" "number_segments first"]
  by (auto simp: polylines_equivalent_def Let_def number_segments_def)

text \<open>\<open>insert\<close> before the last vertex looks at a vertex behind it.\<close>

lemma insert_reads_outside: "insert_vertex 1 p (polyline_of [q, r]) = None"
  by (simp add: insert_vertex_def polyline_of_def)

text \<open>
  \<open>point_on_straight\<close> computes \<open>Y-k*X+X0\<close> for \<open>Y-(k*X+X0)\<close>: on a horizontal line at height 1 it does not find the points of
  the line, but those at height -1.
\<close>

lemma points_of_the_wrong_straight:
  "\<not> point_on_straight \<lparr>line_first = (0, 1), line_second = (1, 1)\<rparr> 0 1"
  "point_on_straight \<lparr>line_first = (0, 1), line_second = (1, 1)\<rparr> 0 (-1)"
proof -
  have k: "line_slope \<lparr>line_first = (0, 1), line_second = (1, 1)\<rparr> = Some 0"
    using round_dbl_of_int[of 0] by (simp add: line_slope_def slope_def exact_arith dbl_epsilon_def)
  show "\<not> point_on_straight \<lparr>line_first = (0, 1), line_second = (1, 1)\<rparr> 0 1"
    "point_on_straight \<lparr>line_first = (0, 1), line_second = (1, 1)\<rparr> 0 (-1)"
    by (simp_all add: point_on_straight_def k straight_at_0_def near_straight_def exact_arith dbl_epsilon_def)
qed

section \<open>Witnesses\<close>


end
