(* ===== verification/Errors.thy ===== *)
theory Errors
  imports Serialization_Properties
begin

text \<open>
  The library's error category (\<open>error.h\<close>) and errors with a context (\<open>contexted_error.h\<close>): an error code, a text, named
  fields, and a cache of the rendered text, which every operation has to keep in step.
\<close>

section \<open>The category\<close>

datatype errc =
    Internal_error | Command_input_error | To_few_arguments | To_many_arguments
  | Create_directory_denied | File_permission_denied | Not_file | Not_directory
  | No_exists_path | Unknown_file_format | Undefined_value | Integrity_violated
  | Invalid_index_order | Interrupted | Not_file_or_directory | Invalid_argument
  | Deserialization_error | Serialization_error | Data_not_found | Buffer_low_size
  | Timeout | File_corrupted | Version_error | File_reading_error
  | File_writing_error

fun errc_value :: "errc \<Rightarrow> int" where
  "errc_value Internal_error = 0"
| "errc_value Command_input_error = 1"
| "errc_value To_few_arguments = 2"
| "errc_value To_many_arguments = 3"
| "errc_value Create_directory_denied = 4"
| "errc_value File_permission_denied = 5"
| "errc_value Not_file = 6"
| "errc_value Not_directory = 7"
| "errc_value No_exists_path = 8"
| "errc_value Unknown_file_format = 9"
| "errc_value Undefined_value = 10"
| "errc_value Integrity_violated = 11"
| "errc_value Invalid_index_order = 12"
| "errc_value Interrupted = 13"
| "errc_value Not_file_or_directory = 14"
| "errc_value Invalid_argument = 15"
| "errc_value Deserialization_error = 16"
| "errc_value Serialization_error = 17"
| "errc_value Data_not_found = 18"
| "errc_value Buffer_low_size = 19"
| "errc_value Timeout = 20"
| "errc_value File_corrupted = 21"
| "errc_value Version_error = 22"
| "errc_value File_reading_error = 23"
| "errc_value File_writing_error = 24"

fun errc_message :: "errc \<Rightarrow> string" where
  "errc_message Internal_error = ''internal error''"
| "errc_message Command_input_error = ''command input error''"
| "errc_message To_few_arguments = ''to few arguments''"
| "errc_message To_many_arguments = ''to many arguments''"
| "errc_message Create_directory_denied = ''create directory denied''"
| "errc_message File_permission_denied = ''file permission denied''"
| "errc_message Not_file = ''not file''"
| "errc_message Not_directory = ''not directory''"
| "errc_message No_exists_path = ''no exists path''"
| "errc_message Unknown_file_format = ''unknown file format''"
| "errc_message Undefined_value = ''undefined value''"
| "errc_message Integrity_violated = ''integrity violated''"
| "errc_message Invalid_index_order = ''invalid index order''"
| "errc_message Interrupted = ''interrupted''"
| "errc_message Not_file_or_directory = ''not file or directory''"
| "errc_message Invalid_argument = ''invalid argument''"
| "errc_message Deserialization_error = ''deserialization error''"
| "errc_message Serialization_error = ''serialization error''"
| "errc_message Data_not_found = ''data not found''"
| "errc_message Buffer_low_size = ''buffer lower size''"
| "errc_message Timeout = ''timeout''"
| "errc_message File_corrupted = ''file corrupted''"
| "errc_message Version_error = ''version error''"
| "errc_message File_reading_error = ''file reading error''"
| "errc_message File_writing_error = ''file writing error''"

definition all_errc :: "errc list" where
  "all_errc = [
     Internal_error, Command_input_error, To_few_arguments, To_many_arguments,
     Create_directory_denied, File_permission_denied, Not_file, Not_directory,
     No_exists_path, Unknown_file_format, Undefined_value, Integrity_violated,
     Invalid_index_order, Interrupted, Not_file_or_directory, Invalid_argument,
     Deserialization_error, Serialization_error, Data_not_found, Buffer_low_size,
     Timeout, File_corrupted, Version_error, File_reading_error,
     File_writing_error]"

definition category_message :: "int \<Rightarrow> string" where
  "category_message ev = (case find (\<lambda>c. errc_value c = ev) all_errc of
     Some c \<Rightarrow> errc_message c | None \<Rightarrow> ''unknown'')"

text \<open>Every code has a text of its own; other numbers are unknown.\<close>

lemma category_message_of: "category_message (errc_value c) = errc_message c"
  by (cases c) (simp_all add: category_message_def all_errc_def)

lemma messages_distinct: "distinct (map errc_message all_errc)" "''unknown'' \<notin> errc_message ` set all_errc"
  by (simp_all add: all_errc_def)

lemma errc_value_inj: "errc_value c = errc_value d \<longleftrightarrow> c = d"
  by (cases c; cases d) simp_all

text \<open>The first code has the value 0, which \<open>std::error_code\<close> takes for success.\<close>

lemma internal_error_is_success: "errc_value Internal_error = 0"
  by simp

text \<open>
  A \<open>std::error_code\<close>: a number with a category. The texts of the categories that are not the library's are a parameter.
\<close>

datatype category = System_category | Runtime_error | Other_category nat

record status =
  ec_category :: category
  ec_value :: int

type_synonym messages = "category \<Rightarrow> int \<Rightarrow> string"

definition no_status :: status where
  "no_status = \<lparr>ec_category = System_category, ec_value = 0\<rparr>"

definition make_error_code :: "errc \<Rightarrow> status" where
  "make_error_code c = \<lparr>ec_category = Runtime_error, ec_value = errc_value c\<rparr>"

definition status_message :: "messages \<Rightarrow> status \<Rightarrow> string" where
  "status_message other c =
     (if ec_category c = Runtime_error then category_message (ec_value c) else other (ec_category c) (ec_value c))"

section \<open>Errors with a context\<close>

text \<open>The constructor and \<open>error\<close> for an enumeration are those for the \<open>std::error_code\<close> made of it.\<close>

record Field =
  fkey :: string
  fvalue :: string

record ContextedError =
  ce_context :: string
  ce_fields :: "Field list"
  ce_code :: status
  cached_string :: string

definition new_ContextedError :: ContextedError where
  "new_ContextedError = \<lparr>ce_context = [], ce_fields = [], ce_code = no_status, cached_string = []\<rparr>"

definition ContextedError_of :: "status \<Rightarrow> string \<Rightarrow> ContextedError" where
  "ContextedError_of ec ctx = \<lparr>ce_context = ctx, ce_fields = [], ce_code = ec, cached_string = []\<rparr>"

definition ce_copy :: "ContextedError \<Rightarrow> ContextedError" where
  "ce_copy other = \<lparr>ce_context = ce_context other, ce_fields = ce_fields other, ce_code = ce_code other,
     cached_string = cached_string other\<rparr>"

text \<open>Moving leaves the strings and the fields of the other object empty; its code is copied.\<close>

definition ce_move :: "ContextedError \<Rightarrow> ContextedError \<times> ContextedError" where
  "ce_move other = (ce_copy other, other\<lparr>ce_context := [], ce_fields := [], cached_string := []\<rparr>)"

definition ce_assign :: "ContextedError \<Rightarrow> ContextedError \<Rightarrow> ContextedError" where
  "ce_assign this other = this\<lparr>ce_context := ce_context other, ce_fields := ce_fields other, ce_code := ce_code other,
     cached_string := cached_string other\<rparr>"

definition ce_move_assign :: "ContextedError \<Rightarrow> ContextedError \<Rightarrow> ContextedError \<times> ContextedError" where
  "ce_move_assign this other =
     (ce_assign this other, other\<lparr>ce_context := [], ce_fields := [], cached_string := []\<rparr>)"

definition ce_empty :: "ContextedError \<Rightarrow> bool" where
  "ce_empty e \<longleftrightarrow> ec_value (ce_code e) = 0 \<and> ce_context e = [] \<and> ce_fields e = []"

definition ce_bool :: "ContextedError \<Rightarrow> bool" where
  "ce_bool e \<longleftrightarrow> ec_value (ce_code e) \<noteq> 0"

definition set_error_code :: "status \<Rightarrow> string \<Rightarrow> ContextedError \<Rightarrow> ContextedError" where
  "set_error_code code ctx e = e\<lparr>cached_string := [], ce_fields := [], ce_code := code, ce_context := ctx\<rparr>"

definition ce_clear :: "ContextedError \<Rightarrow> ContextedError" where
  "ce_clear e = e\<lparr>cached_string := [], ce_code := no_status, ce_context := [], ce_fields := []\<rparr>"

definition with_field :: "string \<Rightarrow> string \<Rightarrow> ContextedError \<Rightarrow> ContextedError" where
  "with_field k v e =
     (let e = e\<lparr>cached_string := []\<rparr>
      in if k = [] then e else e\<lparr>ce_fields := ce_fields e @ [\<lparr>fkey = k, fvalue = v\<rparr>]\<rparr>)"

text \<open>The overloads for numbers, enumerations and other texts, with the conversion that they use.\<close>

definition with_field_value :: "('a \<Rightarrow> string) \<Rightarrow> string \<Rightarrow> 'a \<Rightarrow> ContextedError \<Rightarrow> ContextedError" where
  "with_field_value to_text k v e = with_field k (to_text v) (e\<lparr>cached_string := []\<rparr>)"

definition with_context :: "string \<Rightarrow> ContextedError \<Rightarrow> ContextedError" where
  "with_context additional e =
     (let e = e\<lparr>cached_string := []\<rparr>
      in if ce_context e = [] then e\<lparr>ce_context := additional\<rparr>
         else e\<lparr>ce_context := ce_context e @ ''; '' @ additional\<rparr>)"

fun fields_text :: "Field list \<Rightarrow> nat \<Rightarrow> string" where
  "fields_text [] i = []"
| "fields_text (f # fs) i = (if i > 0 then '', '' else []) @ fkey f @ ''='' @ fvalue f @ fields_text fs (i + 1)"

definition render :: "messages \<Rightarrow> ContextedError \<Rightarrow> string" where
  "render other e =
     (let msg = status_message other (ce_code e);
          msg = (if ce_context e \<noteq> [] then msg @ '': '' @ ce_context e else msg)
      in if ce_fields e \<noteq> [] then msg @ ''('' @ fields_text (ce_fields e) 0 @ '')'' else msg)"

text \<open>\<open>what\<close> gives the cache as a C string, which ends before the first zero byte.\<close>

definition c_str :: "string \<Rightarrow> string" where
  "c_str s = takeWhile (\<lambda>c. c \<noteq> CHR 0x00) s"

definition what :: "messages \<Rightarrow> ContextedError \<Rightarrow> string \<times> ContextedError" where
  "what other e =
     (let e = (if cached_string e = [] then e\<lparr>cached_string := render other e\<rparr> else e)
      in (c_str (cached_string e), e))"

section \<open>The cache\<close>

text \<open>The errors that a program can come to have.\<close>

inductive made :: "messages \<Rightarrow> ContextedError \<Rightarrow> bool" for other :: messages where
  "made other new_ContextedError"
| "made other (ContextedError_of ec ctx)"
| "made other e \<Longrightarrow> made other (ce_copy e)"
| "made other e \<Longrightarrow> made other (snd (ce_move e))"
| "made other this \<Longrightarrow> made other e \<Longrightarrow> made other (ce_assign this e)"
| "made other this \<Longrightarrow> made other e \<Longrightarrow> made other (snd (ce_move_assign this e))"
| "made other e \<Longrightarrow> made other (set_error_code ec ctx e)"
| "made other e \<Longrightarrow> made other (ce_clear e)"
| "made other e \<Longrightarrow> made other (with_field k v e)"
| "made other e \<Longrightarrow> made other (with_context ctx e)"
| "made other e \<Longrightarrow> made other (snd (what other e))"

lemma made_with_field_value: "made other e \<Longrightarrow> made other (with_field_value to_text k v e)"
proof -
  have "with_field_value to_text k v e = with_field k (to_text v) e"
    by (simp add: with_field_value_def with_field_def Let_def)
  then show "made other e \<Longrightarrow> ?thesis" by (simp add: made.intros)
qed

definition cache_fresh :: "messages \<Rightarrow> ContextedError \<Rightarrow> bool" where
  "cache_fresh other e \<longleftrightarrow> cached_string e = [] \<or> cached_string e = render other e"

lemma render_cached [simp]: "render other (e\<lparr>cached_string := s\<rparr>) = render other e"
  by (simp add: render_def Let_def)

lemma ce_copy_same [simp]: "ce_copy e = e" "ce_assign this e = e"
  by (simp_all add: ce_copy_def ce_assign_def)

lemma made_fresh: "made other e \<Longrightarrow> cache_fresh other e"
  by (induction rule: made.induct)
    (auto simp: cache_fresh_def new_ContextedError_def ContextedError_of_def ce_move_def ce_move_assign_def set_error_code_def
      ce_clear_def with_field_def with_context_def what_def Let_def)

text \<open>
  C31. The text of an error is never stale: whatever has been done to it, \<open>what\<close> gives the text of its present code, context
  and fields, and asking for it changes none of them.
\<close>

theorem what_is_fresh:
  assumes "made other e" and "what other e = (text', e')"
  shows "text' = c_str (render other e) \<and> ce_code e' = ce_code e \<and> ce_context e' = ce_context e \<and> ce_fields e' = ce_fields e
    \<and> what other e' = (text', e')"
  using assms(2) made_fresh[OF assms(1)]
  by (auto simp: what_def cache_fresh_def Let_def split: if_splits)

theorem what_is_fresh_witness:
  "fst (what (\<lambda>_ _. []) (with_field ''path'' ''a.txt'' (snd (what (\<lambda>_ _. [])
     (ContextedError_of (make_error_code Not_file) ''open'')))))
   = ''not file: open(path=a.txt)''"
proof -
  let ?e = "with_field ''path'' ''a.txt'' (snd (what (\<lambda>_ _. []) (ContextedError_of (make_error_code Not_file) ''open'')))"
  have m: "made (\<lambda>_ _. []) ?e" by (intro made.intros)
  have "fst (what (\<lambda>_ _. []) ?e) = c_str (render (\<lambda>_ _. []) ?e)"
    using what_is_fresh[OF m] by (metis prod.collapse)
  then show ?thesis
    by (simp add: c_str_def render_def with_field_def what_def ContextedError_of_def make_error_code_def status_message_def
        category_message_def all_errc_def Let_def)
qed

section \<open>Fields in messages\<close>

text \<open>The functors for \<open>Field\<close>: a text is a range of characters. Reading builds a new field, the old one is kept on errors.\<close>

definition string_ty :: ty where
  "string_ty = TRange Sequence (TInt 1)"

definition string_val :: "string \<Rightarrow> val" where
  "string_val s = VRange (map (\<lambda>c. VInt (of_char c)) s)"

definition val_string :: "val \<Rightarrow> string" where
  "val_string v = map (\<lambda>x. char_of (vint x)) (velems v)"

definition Serialize_Field :: "bool \<Rightarrow> host \<Rightarrow> Field \<Rightarrow> writer" where
  "Serialize_Field network h f =
     serialize_all [Serialize network h string_ty (string_val (fkey f)), Serialize network h string_ty (string_val (fvalue f))]"

definition Deserialize_Field :: "bool \<Rightarrow> host \<Rightarrow> Field \<Rightarrow> stream \<Rightarrow> outcome \<times> Field \<times> stream" where
  "Deserialize_Field network h f st =
     (case stream_deserialize network h string_ty (VRange []) st of
        (out, k, st) \<Rightarrow>
          if out \<noteq> Code NONE then (out, f, st)
          else case stream_deserialize network h string_ty (VRange []) st of
                 (out, v, st) \<Rightarrow>
                   if out \<noteq> Code NONE then (out, f, st)
                   else (Code NONE, \<lparr>fkey = val_string k, fvalue = val_string v\<rparr>, st))"

definition Field_serial_size :: "Field \<Rightarrow> nat" where
  "Field_serial_size f = Serial_size string_ty (string_val (fkey f)) + Serial_size string_ty (string_val (fvalue f))"

definition Field_limits :: "nat \<times> nat" where
  "Field_limits = (min_serial_size [Min_serial_size string_ty, Min_serial_size string_ty],
                   max_serial_size [Max_serial_size string_ty, Max_serial_size string_ty])"

text \<open>\<open>buf.deserialize(field)\<close>, with fields as values.\<close>

definition field_val :: "Field \<Rightarrow> val" where
  "field_val f = VStruct [string_val (fkey f), string_val (fvalue f)]"

definition field_of :: "val \<Rightarrow> Field" where
  "field_of v = \<lparr>fkey = val_string (vfields v ! 0), fvalue = val_string (vfields v ! 1)\<rparr>"

definition field_functor :: "bool \<Rightarrow> host \<Rightarrow> deserializer" where
  "field_functor network h v st = (case Deserialize_Field network h (field_of v) st of (out, f, st) \<Rightarrow> (out, field_val f, st))"

definition deserialize_field :: "bool \<Rightarrow> host \<Rightarrow> Field \<Rightarrow> stream \<Rightarrow> outcome \<times> Field \<times> stream" where
  "deserialize_field network h f st =
     (case deserialize_object (field_functor network h) (field_val f) st of (out, v, st) \<Rightarrow> (out, field_of v, st))"

definition Field_ty :: ty where
  "Field_ty = TStruct [string_ty, string_ty]"

lemma val_string_inverse [simp]: "val_string (string_val s) = s"
  by (simp add: val_string_def string_val_def comp_def)

lemma field_of_val [simp]: "field_of (field_val f) = f"
  by (simp add: field_of_def field_val_def)

lemma string_val_inverse: "has_ty string_ty v \<Longrightarrow> string_val (val_string v) = v"
  unfolding string_ty_def has_ty_funs
  by (auto simp: string_val_def val_string_def list_all_iff comp_def intro!: map_idI) (metis mod_less val.sel(1))

lemma field_val_inverse: "has_ty Field_ty v \<Longrightarrow> field_val (field_of v) = v"
  by (auto simp: Field_ty_def has_ty_funs(9) field_val_def field_of_def string_val_inverse list_all2_Cons1 simp del: has_ty.simps)

lemma Field_ty_ok: "wf_ty Field_ty" "deserializable Field_ty" "\<not> number_ty Field_ty"
  by (simp_all add: Field_ty_def string_ty_def)

text \<open>Reading a field is reading the class of two texts into empty texts.\<close>

lemma field_functor_struct:
  "field_functor net h v st = (case type_functor net h Field_ty (VStruct [VRange [], VRange []]) st of
     (out, w, st) \<Rightarrow> (out, if out = Code NONE then field_val (field_of w) else field_val (field_of v), st))"
  by (auto simp: field_functor_def Deserialize_Field_def Field_ty_def Deserialize_struct_def field_of_def split: prod.splits)

lemma field_codec:
  assumes "good_order net h"
  shows "functor_codec (encode net h Field_ty) (field_functor net h) (has_ty Field_ty) (\<lambda>v. True)"
proof -
  have f: "functor_codec (encode net h Field_ty) (type_functor net h Field_ty) (has_ty Field_ty) (clean Field_ty)"
    by (intro stream_functor Field_ty_ok assms)
  have c: "clean Field_ty (VStruct [VRange [], VRange []])" by (simp add: Field_ty_def string_ty_def)
  note laws = functor_codec.F_decode[OF f _ c] functor_codec.F_short[OF f _ c] functor_codec.F_total[OF f c]
  show ?thesis
  proof
    fix v old st rest
    assume "has_ty Field_ty v" "entered st" "avail st = encode net h Field_ty v @ rest"
    then show "\<exists>st'. field_functor net h old st = (Code NONE, v, st') \<and> ready st' \<and> avail st' = rest \<and> kept_below st st'"
      using laws(1)[of v st rest] by (auto simp: field_functor_struct field_val_inverse)
  next
    fix v old st
    assume "has_ty Field_ty v" "entered st" "proper_prefix (avail st) (encode net h Field_ty v)"
    then show "\<exists>v' st'. field_functor net h old st = (Code BUFFER_SIZE_LESSER, v', st')"
      using laws(2)[of v st] by (auto simp: field_functor_struct)
  next
    fix old st
    assume "entered st"
    then obtain c v st' where "type_functor net h Field_ty (VStruct [VRange [], VRange []]) st = (Code c, v, st')" "c \<in> decode_codes"
        "kept_below st st'" "c = NONE \<longrightarrow> has_ty Field_ty v \<and> ready st' \<and> (\<exists>p. avail st = p @ avail st')"
      using laws(3) by blast
    then show "\<exists>c v st'. field_functor net h old st = (Code c, v, st') \<and> c \<in> decode_codes \<and> kept_below st st'
        \<and> (c = NONE \<longrightarrow> has_ty Field_ty v \<and> ready st' \<and> (\<exists>p. avail st = p @ avail st'))"
      by (auto simp: field_functor_struct field_val_inverse)
  qed
qed

interpretation network_field: functor_codec "encode True h Field_ty" "field_functor True h" "has_ty Field_ty" "\<lambda>v. True" for h
  by (rule field_codec) (simp add: good_order_def)

lemma field_object: "codec (encode True h Field_ty) (deserialize_object (field_functor True h)) (has_ty Field_ty) (\<lambda>v. True)"
  by (rule network_field.object_codec)

lemma field_typed:
  assumes "length (fkey f) < 2 ^ 64" and "length (fvalue f) < 2 ^ 64"
  shows "has_ty Field_ty (field_val f)"
  using assms unfolding Field_ty_def string_ty_def has_ty_funs
  by (auto simp: field_val_def string_val_def list_all_iff keys_distinct_def)

lemma field_bytes: "has_ty Field_ty (field_val f) \<Longrightarrow> Serialize_Field True h f [] = (NONE, encode True h' Field_ty (field_val f))"
  using serialize_network_encode[of Field_ty "field_val f" h "[]" h'] Field_ty_ok(1)
  by (simp add: serialize_network_def Field_ty_def field_val_def Serialize_Field_def Serialize_struct_def)

text \<open>A field is read back exactly, on any host and over any segmentation, when it arrives as a whole.\<close>

lemma field_roundtrip:
  assumes "length (fkey f) < 2 ^ 64" and "length (fvalue f) < 2 ^ 64"
    and "Serialize_Field True h f [] = (err, bytes)" and "concat bufs = bytes @ rest"
  shows "\<exists>st'. deserialize_field True h' old (push_views bufs StreamSerializer) = (Code NONE, f, st')
            \<and> avail st' = rest \<and> err = NONE"
proof -
  note ty = field_typed[OF assms(1,2)]
  have b: "err = NONE" "concat bufs = encode True h' Field_ty (field_val f) @ rest"
    using field_bytes[OF ty, of h h'] assms(3,4) by simp_all
  obtain st' where "deserialize_object (field_functor True h') (field_val old) (push_views bufs StreamSerializer)
      = (Code NONE, field_val f, st')" "avail st' = rest"
    using codec.decode[OF field_object[of h'], where v = "field_val f" and old = "field_val old" and st = "push_views bufs StreamSerializer" and rest = rest]
      ty b(2) fresh_stream by auto
  with b(1) show ?thesis by (simp add: deserialize_field_def)
qed

text \<open>
  A field that arrives in two pieces ends the program: the text that has been read is in a local variable, and the second call
  takes its size for read already and asks for a registered value that has been erased.
\<close>

lemma field_resume_terminates:
  "\<exists>f st. deserialize_field True LittleHost old (push_views [[0, 0, 0, 0, 0, 0, 0, 2, 97, 98, 0, 0]] StreamSerializer)
       = (Code BUFFER_SIZE_LESSER, f, st)
     \<and> fst (deserialize_field True LittleHost f (push_view [0, 0, 0, 0, 0, 1, 99] st)) = Abnormal"
  by (simp add: deserialize_field_def field_functor_def Deserialize_Field_def string_ty_def codec_defs buf_defs)

end
