(* ===== verification/Json.thy ===== *)
theory Json
  imports Complex_Main Prelude
begin

text \<open>
  The conversions between values and JSON (\<open>boost_functional/json.h\<close>, \<open>json.cpp\<close>). \<open>boost::json\<close> itself is an
  argument of every definition: a record of the functions that the source calls, about which \<open>json_laws\<close> states
  what the library documents. A finite \<open>double\<close> is the rational number it stands for.
\<close>

section \<open>The library\<close>

datatype json_kind = Null_kind | Bool_kind | Int64_kind | Uint64_kind | Double_kind | String_kind | Array_kind | Object_kind

text \<open>
  \<open>to_number_int j lo hi\<close> is \<open>j.to_number<T>()\<close> for an integer type whose range is \<open>lo\<close> to \<open>hi\<close>, \<open>None\<close> where
  it throws. \<open>object_at\<close> yields \<open>None\<close> where \<open>contains\<close> is false, and \<open>make_object\<close> is the object that
  the assignments \<open>result[key] = value\<close> make, in this order.
\<close>

record 'j json_lib =
  kind :: "'j \<Rightarrow> json_kind"
  as_bool :: "'j \<Rightarrow> bool"
  as_int64 :: "'j \<Rightarrow> int"
  as_uint64 :: "'j \<Rightarrow> int"
  to_number_int :: "'j \<Rightarrow> int \<Rightarrow> int \<Rightarrow> int option"
  to_number_double :: "'j \<Rightarrow> rat"
  as_string :: "'j \<Rightarrow> string"
  as_array :: "'j \<Rightarrow> 'j list"
  object_at :: "'j \<Rightarrow> string \<Rightarrow> 'j option"
  make_null :: 'j
  make_bool :: "bool \<Rightarrow> 'j"
  make_int64 :: "int \<Rightarrow> 'j"
  make_uint64 :: "int \<Rightarrow> 'j"
  make_double :: "rat \<Rightarrow> 'j"
  make_string :: "string \<Rightarrow> 'j"
  make_array :: "'j list \<Rightarrow> 'j"
  make_object :: "(string \<times> 'j) list \<Rightarrow> 'j"

definition is_int64_value :: "int \<Rightarrow> bool" where
  "is_int64_value i \<longleftrightarrow> - (2 ^ 63) \<le> i \<and> i < 2 ^ 63"

definition is_uint64_value :: "int \<Rightarrow> bool" where
  "is_uint64_value i \<longleftrightarrow> 0 \<le> i \<and> i < 2 ^ 64"

text \<open>A value that is made of something is of that kind and gives it back.\<close>

definition json_laws :: "'j json_lib \<Rightarrow> bool" where
  "json_laws J \<longleftrightarrow>
     kind J (make_null J) = Null_kind \<and>
     (\<forall>b. kind J (make_bool J b) = Bool_kind \<and> as_bool J (make_bool J b) = b) \<and>
     (\<forall>i. is_int64_value i \<longrightarrow> kind J (make_int64 J i) = Int64_kind \<and> as_int64 J (make_int64 J i) = i \<and>
        (\<forall>lo hi. to_number_int J (make_int64 J i) lo hi = (if lo \<le> i \<and> i \<le> hi then Some i else None))) \<and>
     (\<forall>i. is_uint64_value i \<longrightarrow> kind J (make_uint64 J i) = Uint64_kind \<and> as_uint64 J (make_uint64 J i) = i \<and>
        (\<forall>lo hi. to_number_int J (make_uint64 J i) lo hi = (if lo \<le> i \<and> i \<le> hi then Some i else None))) \<and>
     (\<forall>d. kind J (make_double J d) = Double_kind \<and> to_number_double J (make_double J d) = d) \<and>
     (\<forall>s. kind J (make_string J s) = String_kind \<and> as_string J (make_string J s) = s) \<and>
     (\<forall>js. kind J (make_array J js) = Array_kind \<and> as_array J (make_array J js) = js) \<and>
     (\<forall>kvs. kind J (make_object J kvs) = Object_kind \<and> (\<forall>k. object_at J (make_object J kvs) k = map_of (rev kvs) k))"

text \<open>The laws as rewrite rules.\<close>

lemma json_rules:
  assumes "json_laws J"
  shows "kind J (make_null J) = Null_kind"
    "kind J (make_bool J b) = Bool_kind" "as_bool J (make_bool J b) = b"
    "is_int64_value i \<Longrightarrow> kind J (make_int64 J i) = Int64_kind" "is_int64_value i \<Longrightarrow> as_int64 J (make_int64 J i) = i"
    "is_int64_value i \<Longrightarrow> to_number_int J (make_int64 J i) lo hi = (if lo \<le> i \<and> i \<le> hi then Some i else None)"
    "is_uint64_value i \<Longrightarrow> kind J (make_uint64 J i) = Uint64_kind" "is_uint64_value i \<Longrightarrow> as_uint64 J (make_uint64 J i) = i"
    "is_uint64_value i \<Longrightarrow> to_number_int J (make_uint64 J i) lo hi = (if lo \<le> i \<and> i \<le> hi then Some i else None)"
    "kind J (make_double J d) = Double_kind" "to_number_double J (make_double J d) = d"
    "kind J (make_string J s) = String_kind" "as_string J (make_string J s) = s"
    "kind J (make_array J js) = Array_kind" "as_array J (make_array J js) = js"
    "kind J (make_object J kvs) = Object_kind" "object_at J (make_object J kvs) k = map_of (rev kvs) k"
  using assms unfolding json_laws_def by simp_all

section \<open>Reading\<close>

text \<open>
  A conversion from JSON returns a value or \<open>std::unexpected\<close>; an exception of the library may pass through it,
  and an index outside an array is undefined behaviour.
\<close>

datatype 'a reading = Got 'a | Unexpected | Thrown | Undefined

primrec then_from :: "'a reading \<Rightarrow> ('a \<Rightarrow> 'b reading) \<Rightarrow> 'b reading" where
  "then_from (Got a) f = f a"
| "then_from Unexpected f = Unexpected"
| "then_from Thrown f = Thrown"
| "then_from Undefined f = Undefined"

definition to_number :: "'j json_lib \<Rightarrow> int \<Rightarrow> int \<Rightarrow> 'j \<Rightarrow> int reading" where
  "to_number J lo hi j = (case to_number_int J j lo hi of Some i \<Rightarrow> Got i | None \<Rightarrow> Thrown)"

definition from_json_double :: "'j json_lib \<Rightarrow> 'j \<Rightarrow> rat reading" where
  "from_json_double J j = (if kind J j = Double_kind then Got (to_number_double J j) else Unexpected)"

definition from_json_bool :: "'j json_lib \<Rightarrow> 'j \<Rightarrow> bool reading" where
  "from_json_bool J j = (if kind J j = Bool_kind then Got (as_bool J j) else Unexpected)"

text \<open>Integer types of \<open>n\<close> bits; the bound of the signed case excludes the greatest number.\<close>

definition from_json_unsigned :: "'j json_lib \<Rightarrow> nat \<Rightarrow> 'j \<Rightarrow> int reading" where
  "from_json_unsigned J n j =
     (if kind J j = Uint64_kind \<or> (kind J j = Int64_kind \<and> 0 \<le> as_int64 J j)
      then to_number J 0 (2 ^ n - 1) j else Unexpected)"

definition from_json_signed :: "'j json_lib \<Rightarrow> nat \<Rightarrow> 'j \<Rightarrow> int reading" where
  "from_json_signed J n j =
     (if kind J j = Int64_kind \<or> (kind J j = Uint64_kind \<and> as_uint64 J j < 2 ^ 63 - 1)
      then to_number J (- (2 ^ (n - 1))) (2 ^ (n - 1) - 1) j else Unexpected)"

text \<open>An enumeration is read as its underlying type; its constants are the numbers.\<close>

definition from_json_enum :: "'j json_lib \<Rightarrow> nat \<Rightarrow> (int \<Rightarrow> 'e) \<Rightarrow> 'j \<Rightarrow> 'e reading" where
  "from_json_enum J n of_number j = then_from (from_json_signed J n j) (\<lambda>i. Got (of_number i))"

definition from_json_string :: "'j json_lib \<Rightarrow> 'j \<Rightarrow> string reading" where
  "from_json_string J j = (if kind J j = String_kind then Got (as_string J j) else Unexpected)"

definition from_json_optional :: "'j json_lib \<Rightarrow> ('j \<Rightarrow> 'a reading) \<Rightarrow> 'j \<Rightarrow> 'a option reading" where
  "from_json_optional J f j = (if kind J j = Null_kind then Unexpected else then_from (f j) (\<lambda>a. Got (Some a)))"

definition array_index :: "'j json_lib \<Rightarrow> 'j \<Rightarrow> nat \<Rightarrow> 'j reading" where
  "array_index J j i = (if i < length (as_array J j) then Got (as_array J j ! i) else Undefined)"

definition from_json_pair :: "'j json_lib \<Rightarrow> ('j \<Rightarrow> 'a reading) \<Rightarrow> ('j \<Rightarrow> 'b reading) \<Rightarrow> 'j \<Rightarrow> ('a \<times> 'b) reading" where
  "from_json_pair J f g j =
     (if kind J j = Array_kind \<and> length (as_array J j) < 3
      then then_from (array_index J j 0) (\<lambda>j0. then_from (f j0) (\<lambda>a.
           then_from (array_index J j 1) (\<lambda>j1. then_from (g j1) (\<lambda>b. Got (a, b)))))
      else Unexpected)"

fun from_elements :: "('j \<Rightarrow> 'a reading) \<Rightarrow> 'j list \<Rightarrow> 'a list \<Rightarrow> 'a list reading" where
  "from_elements f [] result = Got result"
| "from_elements f (j # js) result = then_from (f j) (\<lambda>a. from_elements f js (result @ [a]))"

definition from_json_range :: "'j json_lib \<Rightarrow> ('j \<Rightarrow> 'a reading) \<Rightarrow> 'j \<Rightarrow> 'a list reading" where
  "from_json_range J f j = (if kind J j = Array_kind then from_elements f (as_array J j) [] else Unexpected)"

section \<open>Writing\<close>

definition to_json_string :: "'j json_lib \<Rightarrow> string \<Rightarrow> 'j" where
  "to_json_string J s = make_string J s"

definition to_json_bool :: "'j json_lib \<Rightarrow> bool \<Rightarrow> 'j" where
  "to_json_bool J b = make_bool J b"

definition to_json_double :: "'j json_lib \<Rightarrow> rat \<Rightarrow> 'j" where
  "to_json_double J d = make_double J d"

definition to_json_signed :: "'j json_lib \<Rightarrow> int \<Rightarrow> 'j" where
  "to_json_signed J i = make_int64 J i"

definition to_json_unsigned :: "'j json_lib \<Rightarrow> int \<Rightarrow> 'j" where
  "to_json_unsigned J i = make_uint64 J i"

definition to_json_enum :: "'j json_lib \<Rightarrow> ('e \<Rightarrow> int) \<Rightarrow> 'e \<Rightarrow> 'j" where
  "to_json_enum J number_of e = to_json_signed J (number_of e)"

definition to_json_pair :: "'j json_lib \<Rightarrow> ('a \<Rightarrow> 'j) \<Rightarrow> ('b \<Rightarrow> 'j) \<Rightarrow> 'a \<times> 'b \<Rightarrow> 'j" where
  "to_json_pair J f g ab = make_array J [f (fst ab), g (snd ab)]"

definition to_json_optional :: "'j json_lib \<Rightarrow> ('a \<Rightarrow> 'j) \<Rightarrow> 'a option \<Rightarrow> 'j" where
  "to_json_optional J f o' = (case o' of Some a \<Rightarrow> f a | None \<Rightarrow> make_null J)"

definition to_json_range :: "'j json_lib \<Rightarrow> ('a \<Rightarrow> 'j) \<Rightarrow> 'a list \<Rightarrow> 'j" where
  "to_json_range J f xs = make_array J (map f xs)"

section \<open>The templates as one function\<close>

text \<open>
  A type to which the templates apply, and the values of such types. \<open>from_json\<close> and \<open>to_json\<close> choose the
  template by the type. Numbers of an enumeration are those of its underlying type.
\<close>

datatype json_type =
    Json_bool | Json_signed nat | Json_unsigned nat | Json_double | Json_string
  | Json_optional json_type | Json_pair json_type json_type | Json_range json_type

datatype json_val =
    Bool_val bool | Int_val int | Double_val rat | String_val string
  | Optional_val "json_val option" | Pair_val json_val json_val | Range_val "json_val list"

fun from_json :: "'j json_lib \<Rightarrow> json_type \<Rightarrow> 'j \<Rightarrow> json_val reading" where
  "from_json J Json_bool j = then_from (from_json_bool J j) (\<lambda>b. Got (Bool_val b))"
| "from_json J (Json_signed n) j = then_from (from_json_signed J n j) (\<lambda>i. Got (Int_val i))"
| "from_json J (Json_unsigned n) j = then_from (from_json_unsigned J n j) (\<lambda>i. Got (Int_val i))"
| "from_json J Json_double j = then_from (from_json_double J j) (\<lambda>d. Got (Double_val d))"
| "from_json J Json_string j = then_from (from_json_string J j) (\<lambda>s. Got (String_val s))"
| "from_json J (Json_optional T) j = then_from (from_json_optional J (from_json J T) j) (\<lambda>v. Got (Optional_val v))"
| "from_json J (Json_pair T U) j =
     then_from (from_json_pair J (from_json J T) (from_json J U) j) (\<lambda>(a, b). Got (Pair_val a b))"
| "from_json J (Json_range T) j = then_from (from_json_range J (from_json J T) j) (\<lambda>vs. Got (Range_val vs))"

fun to_json :: "'j json_lib \<Rightarrow> json_type \<Rightarrow> json_val \<Rightarrow> 'j" where
  "to_json J Json_bool (Bool_val b) = to_json_bool J b"
| "to_json J (Json_signed n) (Int_val i) = to_json_signed J i"
| "to_json J (Json_unsigned n) (Int_val i) = to_json_unsigned J i"
| "to_json J Json_double (Double_val d) = to_json_double J d"
| "to_json J Json_string (String_val s) = to_json_string J s"
| "to_json J (Json_optional T) (Optional_val v) = to_json_optional J (to_json J T) v"
| "to_json J (Json_pair T U) (Pair_val a b) = to_json_pair J (to_json J T) (to_json J U) (a, b)"
| "to_json J (Json_range T) (Range_val vs) = to_json_range J (to_json J T) vs"
| "to_json J T v = make_null J"

definition int_width :: "nat \<Rightarrow> bool" where
  "int_width n \<longleftrightarrow> n \<in> {8, 16, 32, 64}"

text \<open>The values of a type, and those that hold no empty optional.\<close>

fun of_json_type :: "json_type \<Rightarrow> json_val \<Rightarrow> bool" where
  "of_json_type Json_bool (Bool_val b) = True"
| "of_json_type (Json_signed n) (Int_val i) = (int_width n \<and> - (2 ^ (n - 1)) \<le> i \<and> i < 2 ^ (n - 1))"
| "of_json_type (Json_unsigned n) (Int_val i) = (int_width n \<and> 0 \<le> i \<and> i < 2 ^ n)"
| "of_json_type Json_double (Double_val d) = True"
| "of_json_type Json_string (String_val s) = True"
| "of_json_type (Json_optional T) (Optional_val v) = (case v of Some v \<Rightarrow> of_json_type T v | None \<Rightarrow> True)"
| "of_json_type (Json_pair T U) (Pair_val a b) = (of_json_type T a \<and> of_json_type U b)"
| "of_json_type (Json_range T) (Range_val vs) = list_all (of_json_type T) vs"
| "of_json_type T v = False"

fun all_engaged :: "json_val \<Rightarrow> bool" where
  "all_engaged (Optional_val v) = (case v of Some v \<Rightarrow> all_engaged v | None \<Rightarrow> False)"
| "all_engaged (Pair_val a b) = (all_engaged a \<and> all_engaged b)"
| "all_engaged (Range_val vs) = list_all all_engaged vs"
| "all_engaged v = True"

lemmas from_json_defs = from_json_double_def from_json_bool_def from_json_unsigned_def from_json_signed_def
  from_json_string_def from_json_optional_def from_json_pair_def from_json_range_def array_index_def to_number_def

lemmas to_json_defs = to_json_string_def to_json_bool_def to_json_double_def to_json_signed_def to_json_unsigned_def
  to_json_pair_def to_json_optional_def to_json_range_def

section \<open>What is written is read back\<close>

lemma int_ranges:
  "int_width n \<Longrightarrow> - (2 ^ (n - 1)) \<le> i \<Longrightarrow> i < 2 ^ (n - 1) \<Longrightarrow> is_int64_value i"
  "int_width n \<Longrightarrow> 0 \<le> i \<Longrightarrow> i < 2 ^ n \<Longrightarrow> is_uint64_value i"
  unfolding int_width_def is_int64_value_def is_uint64_value_def by auto

lemma signed_back:
  assumes "json_laws J" "int_width n" "- (2 ^ (n - 1)) \<le> i" "i < 2 ^ (n - 1)"
  shows "from_json_signed J n (to_json_signed J i) = Got i" "kind J (to_json_signed J i) = Int64_kind"
  using assms(3,4) by (simp_all add: from_json_defs to_json_signed_def json_rules[OF assms(1)] int_ranges(1)[OF assms(2-4)])

lemma unsigned_back:
  assumes "json_laws J" "int_width n" "0 \<le> i" "i < 2 ^ n"
  shows "from_json_unsigned J n (to_json_unsigned J i) = Got i" "kind J (to_json_unsigned J i) = Uint64_kind"
  using assms(3,4) by (simp_all add: from_json_defs to_json_unsigned_def json_rules[OF assms(1)] int_ranges(2)[OF assms(2-4)])

lemma others_back:
  assumes "json_laws J"
  shows "from_json_bool J (to_json_bool J b) = Got b" "from_json_double J (to_json_double J d) = Got d"
    "from_json_string J (to_json_string J s) = Got s"
    "kind J (to_json_bool J b) = Bool_kind" "kind J (to_json_double J d) = Double_kind"
    "kind J (to_json_string J s) = String_kind" "kind J (to_json_pair J f g ab) = Array_kind"
    "kind J (to_json_range J f xs) = Array_kind"
  by (simp_all add: from_json_defs to_json_bool_def to_json_double_def to_json_string_def to_json_pair_def
      to_json_range_def json_rules[OF assms])

lemma elements_back:
  assumes "\<And>v. v \<in> set vs \<Longrightarrow> f (g v) = (if ok v then Got v else Unexpected)"
  shows "from_elements f (map g vs) result = (if list_all ok vs then Got (result @ vs) else Unexpected)"
  using assms by (induction vs arbitrary: result) auto

text \<open>An empty optional is written as null, any other value as something else.\<close>

lemma to_json_not_null:
  assumes "json_laws J" "of_json_type T v" "all_engaged v"
  shows "kind J (to_json J T v) \<noteq> Null_kind"
  using assms(2,3)
  by (induction T v rule: of_json_type.induct)
     (auto simp: to_json_optional_def signed_back[OF assms(1)] unsigned_back[OF assms(1)] others_back[OF assms(1)]
       split: option.splits)

text \<open>
  C32. A value of any type that the templates convert (numbers of every width, booleans, enumerations, strings, optionals, pairs,
  ranges, nested in any way) is read back from its JSON as it was, exactly when no empty optional occurs in it; a value with an
  empty optional, which is written as null, is refused.
\<close>

theorem json_roundtrip:
  assumes "json_laws J" "of_json_type T v"
  shows "from_json J T (to_json J T v) = (if all_engaged v then Got v else Unexpected)"
  using assms(2)
proof (induction T v rule: of_json_type.induct)
  case (6 T v)
  show ?case
  proof (cases v)
    case None
    then show ?thesis by (simp add: to_json_optional_def from_json_optional_def json_rules[OF assms(1)])
  next
    case (Some a)
    with 6 have inner: "from_json J T (to_json J T a) = (if all_engaged a then Got a else Unexpected)" by simp
    show ?thesis
    proof (cases "all_engaged a")
      case True
      then show ?thesis using inner Some 6 to_json_not_null[OF assms(1), of T a]
        by (simp add: to_json_optional_def from_json_optional_def)
    next
      case False
      then show ?thesis using inner Some by (simp add: to_json_optional_def from_json_optional_def)
    qed
  qed
next
  case (7 T U a b)
  then show ?case
    by (simp add: from_json_pair_def to_json_pair_def array_index_def json_rules[OF assms(1)])
next
  case (8 T vs)
  then have "from_elements (from_json J T) (map (to_json J T) vs) [] = (if list_all all_engaged vs then Got vs else Unexpected)"
    by (subst elements_back[where ok = all_engaged]) (auto simp: list_all_iff)
  then show ?case by (simp add: from_json_range_def to_json_range_def json_rules[OF assms(1)])
qed (simp_all add: signed_back[OF assms(1)] unsigned_back[OF assms(1)] others_back[OF assms(1)])

section \<open>A library that keeps the laws\<close>

text \<open>The laws can hold: a value is what it has been made of, and an object its assignments, the last one first.\<close>

datatype json_tree =
    Null_tree | Bool_tree bool | Int64_tree int | Uint64_tree int | Double_tree rat | String_tree string
  | Array_tree "json_tree list" | Object_tree "(string \<times> json_tree) list"

fun tree_kind :: "json_tree \<Rightarrow> json_kind" where
  "tree_kind Null_tree = Null_kind"
| "tree_kind (Bool_tree b) = Bool_kind"
| "tree_kind (Int64_tree i) = Int64_kind"
| "tree_kind (Uint64_tree i) = Uint64_kind"
| "tree_kind (Double_tree d) = Double_kind"
| "tree_kind (String_tree s) = String_kind"
| "tree_kind (Array_tree js) = Array_kind"
| "tree_kind (Object_tree kvs) = Object_kind"

fun tree_int :: "json_tree \<Rightarrow> int" where
  "tree_int (Int64_tree i) = i"
| "tree_int (Uint64_tree i) = i"
| "tree_int j = 0"

definition tree_lib :: "json_tree json_lib" where
  "tree_lib = \<lparr>kind = tree_kind, as_bool = (\<lambda>j. j = Bool_tree True), as_int64 = tree_int, as_uint64 = tree_int,
     to_number_int = (\<lambda>j lo hi. if lo \<le> tree_int j \<and> tree_int j \<le> hi then Some (tree_int j) else None),
     to_number_double = (\<lambda>j. case j of Double_tree d \<Rightarrow> d | _ \<Rightarrow> 0),
     as_string = (\<lambda>j. case j of String_tree s \<Rightarrow> s | _ \<Rightarrow> []),
     as_array = (\<lambda>j. case j of Array_tree js \<Rightarrow> js | _ \<Rightarrow> []),
     object_at = (\<lambda>j k. case j of Object_tree kvs \<Rightarrow> map_of kvs k | _ \<Rightarrow> None),
     make_null = Null_tree, make_bool = Bool_tree, make_int64 = Int64_tree, make_uint64 = Uint64_tree,
     make_double = Double_tree, make_string = String_tree, make_array = Array_tree,
     make_object = (\<lambda>kvs. Object_tree (rev kvs))\<rparr>"

lemma tree_lib_laws: "json_laws tree_lib"
  by (simp add: json_laws_def tree_lib_def)

theorem json_roundtrip_witness:
  "from_json tree_lib (Json_range (Json_pair Json_string (Json_optional (Json_signed 16))))
     (to_json tree_lib (Json_range (Json_pair Json_string (Json_optional (Json_signed 16))))
       (Range_val [Pair_val (String_val ''a'') (Optional_val (Some (Int_val (- 5))))])) =
   Got (Range_val [Pair_val (String_val ''a'') (Optional_val (Some (Int_val (- 5))))])"
  by (subst json_roundtrip[OF tree_lib_laws]) (simp_all add: int_width_def)

section \<open>What the conversions do not do\<close>

text \<open>One empty optional makes the whole range unreadable.\<close>

lemma empty_optional_refuses_range:
  "from_json tree_lib (Json_range (Json_optional Json_bool))
     (to_json tree_lib (Json_range (Json_optional Json_bool)) (Range_val [Optional_val (Some (Bool_val True)), Optional_val None])) =
   Unexpected"
  by (subst json_roundtrip[OF tree_lib_laws]) simp_all

text \<open>
  An array that is too short is read past its end; a number that does not fit throws, although the result
  type has a place for errors; the greatest 64-bit number is refused when it is stored without a sign.
\<close>

lemma short_pair_undefined:
  assumes "json_laws J"
  shows "from_json_pair J f g (make_array J []) = Undefined"
  by (simp add: from_json_pair_def array_index_def json_rules[OF assms])

lemma large_number_throws:
  assumes "json_laws J"
  shows "from_json_signed J 32 (make_int64 J (2 ^ 31)) = Thrown"
  by (simp add: from_json_signed_def to_number_def json_rules[OF assms] is_int64_value_def)

lemma greatest_unsigned_refused:
  assumes "json_laws J"
  shows "from_json_signed J 64 (make_uint64 J (2 ^ 63 - 1)) = Unexpected"
    "from_json_signed J 64 (make_uint64 J (2 ^ 63 - 2)) = Got (2 ^ 63 - 2)"
  by (simp_all add: from_json_signed_def to_number_def json_rules[OF assms] is_uint64_value_def)

text \<open>A whole number is not read as a \<open>double\<close>.\<close>

lemma whole_number_refused:
  assumes "json_laws J" "is_int64_value i"
  shows "from_json_double J (make_int64 J i) = Unexpected"
  by (simp add: from_json_double_def json_rules[OF assms(1)] assms(2))

section \<open>Parsing a file or a buffer\<close>

text \<open>
  The parser of the library is an argument as well: \<open>feed\<close> (its \<open>write\<close>) returns whether it reported an error, \<open>finish\<close>
  may throw, which ends the program because the functions are \<open>noexcept\<close>.
\<close>

record ('p, 'j) stream_parser =
  new_parser :: 'p
  feed :: "'p \<Rightarrow> string \<Rightarrow> bool \<times> 'p"
  parser_done :: "'p \<Rightarrow> bool"
  finish :: "'p \<Rightarrow> 'p option"
  release :: "'p \<Rightarrow> 'j"

datatype 'j parsed_json = Parsed 'j | Refused errc | Terminated

definition EBADMSG_errc :: errc where "EBADMSG_errc = errno_value 74"
definition EEXIST_errc :: errc where "EEXIST_errc = errno_value 17"
definition ENOENT_errc :: errc where "ENOENT_errc = errno_value 2"

definition finish_parsing :: "('p, 'j) stream_parser \<Rightarrow> 'p \<Rightarrow> 'j parsed_json" where
  "finish_parsing P p =
     (if \<not> parser_done P p then Refused EBADMSG_errc
      else case finish P p of None \<Rightarrow> Terminated | Some p \<Rightarrow> Parsed (release P p))"

definition parse_json_from_buffer :: "('p, 'j) stream_parser \<Rightarrow> string \<Rightarrow> 'j parsed_json" where
  "parse_json_from_buffer P input =
     (let (err, p) = feed P (new_parser P) input in if err then Refused EBADMSG_errc else finish_parsing P p)"

text \<open>
  A file as the function finds it. The stream is good until a read takes fewer characters than the buffer
  has; \<open>None\<close> is a loop that does not end.
\<close>

record text_file =
  file_exists :: bool
  is_open :: bool
  file_size :: "errc + nat"
  contents :: string

partial_function (option) read_chunks :: "('p, 'j) stream_parser \<Rightarrow> nat \<Rightarrow> string \<Rightarrow> 'p \<Rightarrow> 'j parsed_json option" where
  "read_chunks sp buf_sz rest p =
     (let chunk = take buf_sz rest; (err, p) = feed sp p chunk
      in if err then Some (Refused EBADMSG_errc)
         else if length chunk < buf_sz then Some (finish_parsing sp p)
         else read_chunks sp buf_sz (drop buf_sz rest) p)"

definition parse_json_from_file :: "('p, 'j) stream_parser \<Rightarrow> text_file \<Rightarrow> 'j parsed_json option" where
  "parse_json_from_file P f =
     (if \<not> file_exists f then Some (Refused ENOENT_errc)
      else if \<not> is_open f then Some (Refused EEXIST_errc)
      else case file_size f of Inl err \<Rightarrow> Some (Refused err)
         | Inr buf_sz \<Rightarrow> read_chunks P buf_sz (contents f) (new_parser P))"

declare read_chunks.simps [simp del]

lemma read_chunks_nonempty:
  assumes "read_chunks Q n rest p = Some r"
  shows "(\<forall>p. feed Q p [] = (False, p)) \<longrightarrow> n \<noteq> 0 \<or> rest \<noteq> []"
  by (rule read_chunks.raw_induct[OF _ assms]) (auto simp: Let_def split: prod.splits if_splits)

lemma read_chunks_empty:
  assumes "\<And>p. feed P p [] = (False, p)"
  shows "read_chunks P 0 [] p = None"
  using read_chunks_nonempty[of P 0 "[]" p] assms by (cases "read_chunks P 0 [] p") auto


text \<open>A parser that keeps the text, and is done when it has some.\<close>

definition text_parser :: "(string, string) stream_parser" where
  "text_parser = \<lparr>new_parser = [], feed = (\<lambda>p piece. (False, p @ piece)), parser_done = (\<lambda>p. p \<noteq> []), finish = Some,
     release = (\<lambda>p. p)\<rparr>"


end
