(* ===== verification/Json_Settings.thy ===== *)
theory Json_Settings
  imports Json Settings Time_Text
begin

text \<open>
  How the options of a connection, addresses and the settings of servers and clients are written to JSON and
  read back (\<open>boost_functional/json.cpp\<close>, \<open>network/connection_options.cpp\<close>, \<open>address.cpp\<close>, \<open>serversettings.cpp\<close>,
  \<open>clientsettings.cpp\<close>).
\<close>

section \<open>Members of an object\<close>

text \<open>
  \<open>if(c.contains(k)) if(auto res = from_json(c.at(k)); res.has_value()) member = res.value();\<close> without and
  with \<open>else return std::unexpected(res.error());\<close>.
\<close>

definition loose_member :: "'j json_lib \<Rightarrow> string \<Rightarrow> ('j \<Rightarrow> 'a reading) \<Rightarrow> 'a \<Rightarrow> 'j \<Rightarrow> 'a reading" where
  "loose_member J k f old j = (case object_at J j k of None \<Rightarrow> Got old
     | Some v \<Rightarrow> (case f v of Unexpected \<Rightarrow> Got old | r \<Rightarrow> r))"

definition strict_member :: "'j json_lib \<Rightarrow> string \<Rightarrow> ('j \<Rightarrow> 'a reading) \<Rightarrow> 'a \<Rightarrow> 'j \<Rightarrow> 'a reading" where
  "strict_member J k f old j = (case object_at J j k of None \<Rightarrow> Got old | Some v \<Rightarrow> f v)"

definition map_reading :: "('a \<Rightarrow> 'b) \<Rightarrow> 'a reading \<Rightarrow> 'b reading" where
  "map_reading g r = then_from r (\<lambda>a. Got (g a))"

section \<open>Options\<close>

definition int_of_bool :: "bool \<Rightarrow> int" where
  "int_of_bool b = (if b then 1 else 0)"

definition to_json_linger :: "'j json_lib \<Rightarrow> Linger \<Rightarrow> 'j" where
  "to_json_linger J x = make_object J [(''active'', make_bool J (l_onoff x \<noteq> 0)),
     (''duration(sec)'', make_int64 J (l_linger x))]"

text \<open>
  The result is not initialised: \<open>any\<close> is what it holds. A null passes the check of the kind, and then
  \<open>as_object\<close> throws.
\<close>

definition from_json_linger :: "'j json_lib \<Rightarrow> Linger \<Rightarrow> 'j \<Rightarrow> Linger reading" where
  "from_json_linger J any j =
     (if kind J j \<noteq> Object_kind \<and> kind J j \<noteq> Null_kind then Unexpected
      else if kind J j = Null_kind then Thrown
      else then_from (loose_member J ''active'' (\<lambda>v. map_reading int_of_bool (from_json_bool J v)) (l_onoff any) j) (\<lambda>onoff.
           then_from (loose_member J ''duration(sec)'' (from_json_signed J 32) (l_linger any) j) (\<lambda>secs.
           Got \<lparr>l_onoff = onoff, l_linger = secs\<rparr>)))"

definition to_json_timeval :: "'j json_lib \<Rightarrow> Timeval \<Rightarrow> 'j" where
  "to_json_timeval J x = make_object J [(''duration(sec)'', make_int64 J (tv_sec x)),
     (''duration(usec)'', make_int64 J (tv_usec x))]"

definition from_json_timeval :: "'j json_lib \<Rightarrow> Timeval \<Rightarrow> 'j \<Rightarrow> Timeval reading" where
  "from_json_timeval J any j =
     (if kind J j \<noteq> Object_kind \<and> kind J j \<noteq> Null_kind then Unexpected
      else if kind J j = Null_kind then Thrown
      else then_from (loose_member J ''duration(sec)'' (from_json_signed J 64) (tv_sec any) j) (\<lambda>secs.
           then_from (loose_member J ''duration(usec)'' (from_json_signed J 64) (tv_usec any) j) (\<lambda>usecs.
           Got \<lparr>tv_sec = secs, tv_usec = usecs\<rparr>)))"

definition to_json_options :: "'j json_lib \<Rightarrow> ConnectionOptions \<Rightarrow> 'j" where
  "to_json_options J o' = make_object J [
     (''reuse address'', make_bool J (reuse_address o' \<noteq> 0)),
     (''reuse port'', make_bool J (reuse_port o' \<noteq> 0)),
     (''broadcast'', make_bool J (broadcast_socket o' \<noteq> 0)),
     (''don't route'', make_bool J (dont_route o' \<noteq> 0)),
     (''keep alive'', make_bool J (keep_alive o' \<noteq> 0)),
     (''linger'', to_json_linger J (lingering o')),
     (''timeout sending'', to_json_timeval J (timeout_send o')),
     (''timeout receive'', to_json_timeval J (timeout_input o')),
     (''min bytes input'', make_int64 J (expect_min_bytes_available o')),
     (''input buffer'', make_int64 J (buffer_size_in o')),
     (''output buffer'', make_int64 J (buffer_size_out o'))]"

text \<open>\<open>L\<close> and \<open>V\<close> are the uninitialised results of the two conversions above.\<close>

definition from_json_options :: "'j json_lib \<Rightarrow> Linger \<Rightarrow> Timeval \<Rightarrow> 'j \<Rightarrow> ConnectionOptions reading" where
  "from_json_options J L V j =
     (let o' = new_ConnectionOptions; int32 = from_json_signed J 32
      in if kind J j \<noteq> Object_kind then Unexpected
      else then_from (loose_member J ''reuse address'' int32 (reuse_address o') j) (\<lambda>a.
           then_from (loose_member J ''reuse port'' int32 (reuse_port o') j) (\<lambda>p.
           then_from (loose_member J ''broadcast'' int32 (broadcast_socket o') j) (\<lambda>b.
           then_from (loose_member J ''don't route'' int32 (dont_route o') j) (\<lambda>r.
           then_from (loose_member J ''keep alive'' int32 (keep_alive o') j) (\<lambda>k.
           then_from (loose_member J ''linger'' (from_json_linger J L) (lingering o') j) (\<lambda>l.
           then_from (loose_member J ''timeout sending'' (from_json_timeval J V) (timeout_send o') j) (\<lambda>ts.
           then_from (loose_member J ''timeout receive'' (from_json_timeval J V) (timeout_input o') j) (\<lambda>ti.
           then_from (loose_member J ''min bytes input'' int32 (expect_min_bytes_available o') j) (\<lambda>m.
           then_from (loose_member J ''input buffer'' int32 (buffer_size_in o') j) (\<lambda>bi.
           then_from (loose_member J ''output buffer'' int32 (buffer_size_out o') j) (\<lambda>bo.
           Got \<lparr>reuse_address = a, reuse_port = p, broadcast_socket = b, dont_route = r, keep_alive = k,
                lingering = l, timeout_send = ts, timeout_input = ti, expect_min_bytes_available = m,
                buffer_size_in = bi, buffer_size_out = bo\<rparr>))))))))))))"

section \<open>What becomes of options\<close>

text \<open>The values that fit the types of the members, and what is left of them.\<close>

definition is_int32 :: "int \<Rightarrow> bool" where
  "is_int32 i \<longleftrightarrow> - (2 ^ 31) \<le> i \<and> i < 2 ^ 31"

definition options_fit :: "ConnectionOptions \<Rightarrow> bool" where
  "options_fit o' \<longleftrightarrow> is_int32 (l_linger (lingering o')) \<and>
     is_int64_value (tv_sec (timeout_send o')) \<and> is_int64_value (tv_usec (timeout_send o')) \<and>
     is_int64_value (tv_sec (timeout_input o')) \<and> is_int64_value (tv_usec (timeout_input o')) \<and>
     is_int32 (expect_min_bytes_available o') \<and> is_int32 (buffer_size_in o') \<and> is_int32 (buffer_size_out o')"

definition without_flags :: "ConnectionOptions \<Rightarrow> ConnectionOptions" where
  "without_flags o' = o'\<lparr>reuse_address := 0, reuse_port := 0, broadcast_socket := 0, dont_route := 0, keep_alive := 0,
     lingering := (lingering o')\<lparr>l_onoff := int_of_bool (l_onoff (lingering o') \<noteq> 0)\<rparr>\<rparr>"

lemma int32_back:
  assumes "json_laws J" "is_int32 i"
  shows "from_json_signed J 32 (make_int64 J i) = Got i"
  using assms signed_back(1)[of J 32 i] by (simp add: is_int32_def int_width_def to_json_signed_def)

lemma int64_back:
  assumes "json_laws J" "is_int64_value i"
  shows "from_json_signed J 64 (make_int64 J i) = Got i"
  using assms signed_back(1)[of J 64 i] by (simp add: is_int64_value_def int_width_def to_json_signed_def)

lemma bool_is_no_int:
  assumes "json_laws J"
  shows "from_json_signed J 32 (make_bool J b) = Unexpected" "from_json_bool J (make_bool J b) = Got b"
  by (simp_all add: from_json_signed_def from_json_bool_def json_rules[OF assms])

lemma linger_back:
  assumes "json_laws J" "is_int32 (l_linger x)"
  shows "from_json_linger J any (to_json_linger J x) = Got (x\<lparr>l_onoff := int_of_bool (l_onoff x \<noteq> 0)\<rparr>)"
  by (simp add: from_json_linger_def to_json_linger_def loose_member_def map_reading_def json_rules[OF assms(1)]
      bool_is_no_int[OF assms(1)] int32_back[OF assms])

lemma timeval_back:
  assumes "json_laws J" "is_int64_value (tv_sec x)" "is_int64_value (tv_usec x)"
  shows "from_json_timeval J any (to_json_timeval J x) = Got x"
  by (simp add: from_json_timeval_def to_json_timeval_def loose_member_def json_rules[OF assms(1)]
      int64_back[OF assms(1,2)] int64_back[OF assms(1,3)])

lemma options_back:
  assumes "json_laws J" "options_fit o'"
  shows "from_json_options J L V (to_json_options J o') = Got (without_flags o')"
  using assms(2)
  by (simp add: from_json_options_def to_json_options_def options_fit_def Let_def loose_member_def
      json_rules[OF assms(1)] bool_is_no_int[OF assms(1)] int32_back[OF assms(1)] linger_back[OF assms(1)]
      timeval_back[OF assms(1)] without_flags_def new_ConnectionOptions_def)

section \<open>Addresses\<close>

text \<open>
  \<open>ntop\<close> is \<open>inet_ntop\<close> with the family and the address bytes. The texts carry a prefix, and the port is
  written as text.
\<close>

type_synonym inet_ntop = "nat \<Rightarrow> byte list \<Rightarrow> string"

definition ip_to_text :: "inet_ntop \<Rightarrow> address \<Rightarrow> string" where
  "ip_to_text ntop a =
     (if ip_version a = AF_INET then ''IPv4:'' @ ntop AF_INET (take 4 (drop 4 a))
      else if ip_version a = AF_INET6 then ''IPv6:'' @ ntop AF_INET6 (take 16 (drop 8 a))
      else ''NaN'')"

definition port_to_text :: "address \<Rightarrow> string" where
  "port_to_text a = (case port_of a of Some p \<Rightarrow> ''port:'' @ to_string (int (unat p)) | None \<Rightarrow> ''NaN'')"

definition protocol_to_text :: "address \<Rightarrow> string" where
  "protocol_to_text a =
     (if ip_version a = AF_INET then ''IPv4'' else if ip_version a = AF_INET6 then ''IPv6'' else ''NaN'')"

definition to_json_address :: "'j json_lib \<Rightarrow> inet_ntop \<Rightarrow> address \<Rightarrow> 'j" where
  "to_json_address J ntop a = make_object J [(''host'', to_json_string J (ip_to_text ntop a)),
     (''port'', to_json_string J (port_to_text a))]"

definition from_json_address :: "'j json_lib \<Rightarrow> 'k syscalls \<Rightarrow> 'j \<Rightarrow> address reading" where
  "from_json_address J sys j =
     (if kind J j = Object_kind
      then then_from (loose_member J ''host'' (from_json_string J) [] j) (\<lambda>host.
           then_from (loose_member J ''port'' (from_json_unsigned J 16) 0 j) (\<lambda>port.
           if port \<noteq> 0 \<or> host \<noteq> []
           then case make_address sys host (word_of_int port) Cleared of (addr, err) \<Rightarrow>
                if failed err then Unexpected else Got addr
           else Got []))
      else Unexpected)"

section \<open>Settings\<close>

definition to_json_server :: "'j json_lib \<Rightarrow> server_Settings \<Rightarrow> 'j" where
  "to_json_server J s = make_object J [
     (''host'', make_string J (host s)),
     (''jobs'', make_uint64 J (int (num_threads_pool s))),
     (''events handled'', make_uint64 J (int (number_events s))),
     (''service'', make_string J (service s)),
     (''port'', make_uint64 J (uint (port s))),
     (''protocol'', make_string J (proto_to_text (protocol s))),
     (''timeout'', make_int64 J (timeout_seconds_processes s)),
     (''options'', to_json_options J (options s))]"

definition read_protocol :: "'j json_lib \<Rightarrow> 'j \<Rightarrow> int reading" where
  "read_protocol J j = map_reading (\<lambda>text. case proto_to_number text of Some p \<Rightarrow> p | None \<Rightarrow> 6) (from_json_string J j)"

text \<open>A value that is not an object yields the default settings.\<close>

definition from_json_server :: "'j json_lib \<Rightarrow> Linger \<Rightarrow> Timeval \<Rightarrow> nat \<Rightarrow> 'j \<Rightarrow> server_Settings reading" where
  "from_json_server J L V hardware j =
     (let s = new_server_Settings hardware
      in if kind J j \<noteq> Object_kind then Got s
      else then_from (strict_member J ''host'' (from_json_string J) (host s) j) (\<lambda>h.
           then_from (strict_member J ''jobs'' (\<lambda>v. map_reading nat (from_json_unsigned J 32 v)) (num_threads_pool s) j) (\<lambda>n.
           then_from (strict_member J ''service'' (from_json_string J) (service s) j) (\<lambda>sv.
           then_from (strict_member J ''port'' (\<lambda>v. map_reading word_of_int (from_json_unsigned J 16 v)) (port s) j) (\<lambda>p.
           then_from (strict_member J ''protocol'' (read_protocol J) (protocol s) j) (\<lambda>pr.
           then_from (strict_member J ''timeout'' (from_json_signed J 32) (timeout_seconds_processes s) j) (\<lambda>t.
           then_from (strict_member J ''options'' (from_json_options J L V) (options s) j) (\<lambda>o'.
           Got (s\<lparr>host := h, num_threads_pool := n, service := sv, port := p, protocol := pr,
                  timeout_seconds_processes := t, options := o'\<rparr>)))))))))"

definition to_json_client :: "'j json_lib \<Rightarrow> inet_ntop \<Rightarrow> client_Settings \<Rightarrow> 'j" where
  "to_json_client J ntop s = make_object J ([
     (''jobs'', make_uint64 J (int (c_num_threads_pool s))),
     (''events handled'', make_uint64 J (int (c_number_events s))),
     (''protocol'', make_string J (proto_to_text (c_protocol s))),
     (''timeout'', make_int64 J (c_timeout_seconds_processes s))] @
     (case binded_addr s of Some a \<Rightarrow> [(''address bind'', to_json_address J ntop a)] | None \<Rightarrow> []) @
     [(''options'', to_json_options J (c_options s))])"

definition from_json_client :: "'j json_lib \<Rightarrow> 'k syscalls \<Rightarrow> Linger \<Rightarrow> Timeval \<Rightarrow> nat \<Rightarrow> 'j \<Rightarrow> client_Settings reading" where
  "from_json_client J sys L V hardware j =
     (let s = new_client_Settings hardware
      in if kind J j \<noteq> Object_kind then Got s
      else then_from (strict_member J ''jobs'' (\<lambda>v. map_reading nat (from_json_unsigned J 32 v)) (c_num_threads_pool s) j) (\<lambda>n.
           then_from (strict_member J ''protocol'' (read_protocol J) (c_protocol s) j) (\<lambda>pr.
           then_from (strict_member J ''timeout'' (from_json_signed J 32) (c_timeout_seconds_processes s) j) (\<lambda>t.
           then_from (strict_member J ''options'' (from_json_options J L V) (c_options s) j) (\<lambda>o'.
           then_from (loose_member J ''address bind'' (\<lambda>v. map_reading Some (from_json_address J sys v)) (binded_addr s) j) (\<lambda>a.
           Got (s\<lparr>c_num_threads_pool := n, c_protocol := pr, c_timeout_seconds_processes := t, c_options := o',
                  binded_addr := a\<rparr>)))))))"

section \<open>What becomes of settings\<close>

definition settings_numbers_fit :: "nat \<Rightarrow> nat \<Rightarrow> int \<Rightarrow> bool" where
  "settings_numbers_fit threads events timeout \<longleftrightarrow> threads < 2 ^ 32 \<and> events < 2 ^ 32 \<and> is_int32 timeout"

definition known_protocol :: "int \<Rightarrow> int" where
  "known_protocol p = (if proto_to_text p = [] then 6 else p)"

lemma string_back:
  assumes "json_laws J"
  shows "from_json_string J (make_string J s) = Got s"
  using others_back(3)[OF assms] by (simp add: to_json_string_def)

lemma nat_back:
  assumes "json_laws J" "n < 2 ^ 32"
  shows "from_json_unsigned J 32 (make_uint64 J (int n)) = Got (int n)"
proof -
  have "int n < 2 ^ 32" using assms(2) by (metis of_nat_less_iff of_nat_numeral of_nat_power)
  then show ?thesis using assms(1) unsigned_back(1)[of J 32 "int n"] by (simp add: int_width_def to_json_unsigned_def)
qed

lemma port_back:
  assumes "json_laws J"
  shows "from_json_unsigned J 16 (make_uint64 J (uint (p :: 16 word))) = Got (uint p)"
  using assms unsigned_back(1)[of J 16 "uint p"] unsigned_less[of p, where 'a = int] by (simp add: int_width_def to_json_unsigned_def)

lemma protocol_back:
  assumes "json_laws J"
  shows "read_protocol J (make_string J (proto_to_text p)) = Got (known_protocol p)"
proof (cases "proto_to_text p = []")
  case True
  moreover have "proto_to_number [] = None"
    using proto_tables(3) by (auto simp: proto_to_number_def proto_to_num_def map_of_eq_None_iff image_iff split_beta)
  ultimately show ?thesis by (simp add: read_protocol_def map_reading_def string_back[OF assms] known_protocol_def)
next
  case False
  then show ?thesis
    by (simp add: read_protocol_def map_reading_def string_back[OF assms] known_protocol_def proto_number_text(1))
qed

text \<open>
  C33. Settings of a server that are written to JSON and read again keep everything but the number of events,
  which is read as its default, the five flags of the options, which are written as booleans and looked for
  as numbers, and a protocol without a name, which is read as TCP. The flag of linger becomes 0 or 1.
\<close>

theorem server_settings_json:
  assumes "json_laws J" "options_fit (options s)"
    and "settings_numbers_fit (num_threads_pool s) (number_events s) (timeout_seconds_processes s)"
  shows "from_json_server J L V hardware (to_json_server J s) =
    Got (s\<lparr>number_events := 10, options := without_flags (options s), protocol := known_protocol (protocol s)\<rparr>)"
  using assms(2,3)
  by (simp add: from_json_server_def to_json_server_def Let_def strict_member_def map_reading_def
      settings_numbers_fit_def json_rules[OF assms(1)] string_back[OF assms(1)] nat_back[OF assms(1)]
      port_back[OF assms(1)] protocol_back[OF assms(1)] int32_back[OF assms(1)] options_back[OF assms(1)]
      new_server_Settings_def)

text \<open>\<open>inet_pton\<close> accepts no text with characters that an address cannot have.\<close>

definition pton_plain :: "'k syscalls \<Rightarrow> bool" where
  "pton_plain sys \<longleftrightarrow> (\<forall>family text'. (\<exists>c \<in> set text'. c \<notin> set ''0123456789abcdefABCDEF.:'') \<longrightarrow>
     sc_inet_pton sys family text' = None)"

lemma address_refused:
  assumes "json_laws J" "pton_plain sys"
  shows "from_json_address J sys (to_json_address J ntop a) = Unexpected"
proof -
  have "\<exists>c \<in> set (ip_to_text ntop a). c \<notin> set ''0123456789abcdefABCDEF.:''"
    by (simp add: ip_to_text_def)
  then have none: "sc_inet_pton sys family (ip_to_text ntop a) = None" for family
    using assms(2) unfolding pton_plain_def by blast
  have "ip_to_text ntop a \<noteq> []" by (simp add: ip_to_text_def)
  moreover have "from_json_unsigned J 16 (make_string J t) = Unexpected" for t
    by (simp add: from_json_unsigned_def json_rules[OF assms(1)])
  ultimately show ?thesis
    by (simp add: from_json_address_def to_json_address_def loose_member_def json_rules[OF assms(1)] to_json_string_def
        string_back[OF assms(1)] make_address_def none failed_def)
qed

text \<open>
  Settings of a client that are written to JSON and read again keep neither the number of events nor the
  address that the client is to be bound to, whose text form is not one that addresses are made from, nor the
  five flags of the options.
\<close>

lemma client_settings_json:
  assumes "json_laws J" "pton_plain sys" "options_fit (c_options s)"
    and "settings_numbers_fit (c_num_threads_pool s) (c_number_events s) (c_timeout_seconds_processes s)"
  shows "from_json_client J sys L V hardware (to_json_client J ntop s) =
    Got (s\<lparr>binded_addr := None, c_number_events := 10, c_options := without_flags (c_options s),
           c_protocol := known_protocol (c_protocol s)\<rparr>)"
  using assms(3,4)
  by (simp add: from_json_client_def to_json_client_def Let_def strict_member_def loose_member_def map_reading_def
      settings_numbers_fit_def json_rules[OF assms(1)] nat_back[OF assms(1)] protocol_back[OF assms(1)]
      int32_back[OF assms(1)] options_back[OF assms(1)] address_refused[OF assms(1,2)] new_client_Settings_def
      split: option.splits)

section \<open>Witnesses\<close>

definition flagged_options :: ConnectionOptions where
  "flagged_options = new_ConnectionOptions\<lparr>reuse_address := 1, buffer_size_in := 4096\<rparr>"

theorem server_settings_json_witness:
  "from_json_server tree_lib \<lparr>l_onoff = 0, l_linger = 0\<rparr> \<lparr>tv_sec = 0, tv_usec = 0\<rparr> 4
     (to_json_server tree_lib ((new_server_Settings 8)\<lparr>port := 80, number_events := 20, options := flagged_options\<rparr>)) =
   Got ((new_server_Settings 8)\<lparr>port := 80, options := flagged_options\<lparr>reuse_address := 0\<rparr>\<rparr>)"
  by (subst server_settings_json[OF tree_lib_laws])
     (simp_all add: options_fit_def flagged_options_def new_ConnectionOptions_def new_server_Settings_def is_int32_def
      is_int64_value_def settings_numbers_fit_def known_protocol_def proto_to_text_def num_to_proto_def without_flags_def
      int_of_bool_def)

text \<open>A system that knows one address.\<close>

definition local_sys :: "unit syscalls" where
  "local_sys = \<lparr>sc_epoll_ctl = (\<lambda>k _ _ _ _. (0, k)), sc_epoll_wait = (\<lambda>k _ _ _. (Inr [], k)),
     sc_epoll_create = (\<lambda>k _. (Inr 3, k)), sc_getfd = (\<lambda>k _. (0, k)), sc_eventfd = (\<lambda>k. (Inr 4, k)),
     sc_read = (\<lambda>k _. (0, k)), sc_write = (\<lambda>k _. (0, k)), sc_close = (\<lambda>k _. (0, k)), sc_shutdown = (\<lambda>k _ _. (0, k)),
     sc_connect = (\<lambda>k _ _. (0, k)), sc_bind = (\<lambda>k _ _. (0, k)), sc_socket = (\<lambda>k _ _ _. (Inr 5, k)),
     sc_so_error = (\<lambda>k _. (Inr 0, k)), sc_getsockopt = (\<lambda>k _ _. (Inr [], k)), sc_setsockopt = (\<lambda>k _ _. (0, k)),
     sc_getfl = (\<lambda>k _. (Inr 0, k)), sc_setfl = (\<lambda>k _ _. (0, k)),
     sc_inet_pton = (\<lambda>family t. if family = 2 \<and> t = ''127.0.0.1'' then Some [127, 0, 0, 1] else None),
     sc_stack = (\<lambda>_. 0)\<rparr>"

definition bound_settings :: client_Settings where
  "bound_settings = snd (set_bind_address (fst (make_address local_sys ''127.0.0.1'' 80 Cleared)) (new_client_Settings 8))"

lemma bound_settings_address: "binded_addr bound_settings \<noteq> None"
  by (simp add: bound_settings_def set_bind_address_def make_address_def local_sys_def Address_def sockaddr_in_def
      addr_valid_def family_of_def le16_def)

end
