(* ===== verification/Positions.thy ===== *)
theory Positions
  imports Json Time_Period
begin

text \<open>
  Geographic coordinates and positions (\<open>types/coord.h\<close>, \<open>coord.cpp\<close>, \<open>position.h\<close>, \<open>position.cpp\<close>): their tests,
  their JSON form, their serialization and hash; and the JSON form of periods (\<open>types/time_period.cpp\<close>). A record
  holds numbers where the code computes with them and the 64 bits of each \<open>double\<close> where it copies them.
\<close>

section \<open>Coordinates\<close>

record 'd Coord =
  lat :: 'd
  lon :: 'd

record 'd Position =
  pos_y :: 'd
  pos_x :: 'd

text \<open>The members \<open>is_correct_pos\<close>, and the free function of the same name.\<close>

definition Coord_is_correct_pos :: "rat Coord \<Rightarrow> bool" where
  "Coord_is_correct_pos c \<longleftrightarrow> lon c \<ge> 0 \<and> lon c \<le> 180 \<and> lat c \<le> 90 \<and> lat c \<ge> -90"

definition Position_is_correct_pos :: "rat Position \<Rightarrow> bool" where
  "Position_is_correct_pos p \<longleftrightarrow> pos_x p \<ge> 0 \<and> pos_x p \<le> 180 \<and> pos_y p \<le> 90 \<and> pos_y p \<ge> -90"

definition is_correct_pos :: "rat Coord \<Rightarrow> bool" where
  "is_correct_pos c \<longleftrightarrow> \<bar>lon c\<bar> \<le> 180 \<and> \<bar>lat c\<bar> \<le> 90"

text \<open>The free function accepts the western hemisphere, which the member refuses.\<close>

lemma western_longitudes:
  "Coord_is_correct_pos c \<longleftrightarrow> is_correct_pos c \<and> 0 \<le> lon c"
  by (auto simp: Coord_is_correct_pos_def is_correct_pos_def abs_le_iff)

section \<open>JSON\<close>

definition to_json_coord :: "'j json_lib \<Rightarrow> rat Coord \<Rightarrow> 'j" where
  "to_json_coord J c = make_object J [(''lat'', to_json_double J (lat c)), (''lon'', to_json_double J (lon c))]"

definition from_json_coord :: "'j json_lib \<Rightarrow> 'j \<Rightarrow> rat Coord reading" where
  "from_json_coord J j =
     (if kind J j \<noteq> Object_kind then Unexpected
      else case (object_at J j ''lat'', object_at J j ''lon'') of
        (Some jlat, Some jlon) \<Rightarrow>
          then_from (from_json_double J jlat) (\<lambda>lt. if lt \<ge> -90 \<and> lt \<le> 90
            then then_from (from_json_double J jlon) (\<lambda>ln. if ln \<ge> -180 \<and> ln \<le> 180
              then Got \<lparr>lat = lt, lon = ln\<rparr> else Unexpected)
            else Unexpected)
      | _ \<Rightarrow> Unexpected)"

definition to_json_position :: "'j json_lib \<Rightarrow> rat Position \<Rightarrow> 'j" where
  "to_json_position J p = make_object J [(''y'', to_json_double J (pos_y p)), (''x'', to_json_double J (pos_x p))]"

definition from_json_position :: "'j json_lib \<Rightarrow> 'j \<Rightarrow> rat Position reading" where
  "from_json_position J j =
     (if kind J j \<noteq> Object_kind then Unexpected
      else case (object_at J j ''y'', object_at J j ''x'') of
        (Some jy, Some jx) \<Rightarrow>
          then_from (from_json_double J jy) (\<lambda>y. then_from (from_json_double J jx) (\<lambda>x. Got \<lparr>pos_y = y, pos_x = x\<rparr>))
      | _ \<Rightarrow> Unexpected)"

lemma position_json:
  assumes "json_laws J"
  shows "from_json_position J (to_json_position J p) = Got p"
  by (simp add: from_json_position_def to_json_position_def json_rules[OF assms] others_back[OF assms])

lemma coord_json:
  assumes "json_laws J"
  shows "from_json_coord J (to_json_coord J c) = (if is_correct_pos c then Got c else Unexpected)"
  by (simp add: from_json_coord_def to_json_coord_def json_rules[OF assms] others_back[OF assms] is_correct_pos_def abs_le_iff)

text \<open>Coordinates that are whole numbers without a fraction in the JSON text are refused.\<close>

lemma whole_coordinates_refused:
  assumes "json_laws J"
  shows "from_json_coord J (make_object J [(''lat'', make_int64 J 45), (''lon'', make_int64 J 51)]) = Unexpected"
  by (simp add: from_json_coord_def json_rules[OF assms] whole_number_refused[OF assms] is_int64_value_def)

section \<open>Serialization and hash\<close>

text \<open>Both types are written as two \<open>double\<close>s.\<close>

definition coord_types :: "ty list" where
  "coord_types = [TFloat 8, TFloat 8]"

definition coord_vals :: "nat Coord \<Rightarrow> val list" where
  "coord_vals c = [VInt (lat c), VInt (lon c)]"

definition position_vals :: "nat Position \<Rightarrow> val list" where
  "position_vals p = [VInt (pos_y p), VInt (pos_x p)]"

definition Serialize_Coord :: "bool \<Rightarrow> host \<Rightarrow> nat Coord \<Rightarrow> writer" where
  "Serialize_Coord net h c = serialize_all (map2 (Serialize net h) coord_types (coord_vals c))"

definition Serialize_Position :: "bool \<Rightarrow> host \<Rightarrow> nat Position \<Rightarrow> writer" where
  "Serialize_Position net h p = serialize_all (map2 (Serialize net h) coord_types (position_vals p))"

definition Deserialize_Coord :: "bool \<Rightarrow> host \<Rightarrow> deserializer" where
  "Deserialize_Coord net h = Deserialize_struct (map (stream_deserialize net h) coord_types)"

definition Deserialize_Position :: "bool \<Rightarrow> host \<Rightarrow> deserializer" where
  "Deserialize_Position net h = Deserialize_struct (map (stream_deserialize net h) coord_types)"

definition coord_serial_size :: "nat Coord \<Rightarrow> nat" where
  "coord_serial_size c = sum_list (map2 Serial_size coord_types (coord_vals c))"

definition position_serial_size :: "nat Position \<Rightarrow> nat" where
  "position_serial_size p = sum_list (map2 Serial_size coord_types (position_vals p))"

definition coord_limits :: "nat \<times> nat" where "coord_limits = (8 + 8, 8 + 8)"
definition position_limits :: "nat \<times> nat" where "position_limits = (8 + 8, 8 + 8)"

definition coord_of_val :: "val \<Rightarrow> nat Coord" where
  "coord_of_val v = \<lparr>lat = vint (vfields v ! 0), lon = vint (vfields v ! 1)\<rparr>"

definition position_of_val :: "val \<Rightarrow> nat Position" where
  "position_of_val v = \<lparr>pos_y = vint (vfields v ! 0), pos_x = vint (vfields v ! 1)\<rparr>"

text \<open>\<open>std::hash\<close>: the shift is by \<open>sizeof(double)\<close>, and binds tighter than the disjunction.\<close>

definition coord_hash :: "nat Coord \<Rightarrow> 64 word" where
  "coord_hash c = or (push_bit 8 (word_of_nat (lat c))) (word_of_nat (lon c))"

definition position_hash :: "nat Position \<Rightarrow> 64 word" where
  "position_hash p = or (push_bit 8 (word_of_nat (pos_y p))) (word_of_nat (pos_x p))"

lemma two_doubles_roundtrip:
  assumes "a < 2 ^ 64" "b < 2 ^ 64"
    and "serialize_all (map2 (Serialize True h) coord_types [VInt a, VInt b]) [] = (err, bytes)"
    and "concat pieces = bytes @ rest"
  shows "\<exists>st. deserialize_object (Deserialize_struct (map (stream_deserialize True h') coord_types))
      (VStruct [VInt a', VInt b']) (push_views pieces StreamSerializer)
      = (Code NONE, VStruct [VInt a, VInt b], st) \<and> avail st = rest \<and> err = NONE \<and> length bytes = 16"
proof -
  let ?t = "TStruct coord_types" and ?v = "VStruct [VInt a, VInt b]"
  have t: "wf_ty ?t" "deserializable ?t" "has_ty ?t ?v" "clean ?t (VStruct [VInt a', VInt b'])"
    using assms(1,2) by (simp_all add: coord_types_def)
  have "Serialize True h ?t ?v [] = (err, bytes)"
    using assms(3) by (simp add: Serialize_struct_def map_zip_map)
  then have b: "err = NONE" "bytes = encode True h' ?t ?v"
    using serialize_network_encode [OF t(1,3), of h "[]" h'] by (simp_all add: serialize_network_def)
  moreover have "length bytes = 16" using b by (simp add: coord_types_def)
  ultimately show ?thesis
    using network.decode [of ?t ?v "VStruct [VInt a', VInt b']" "push_views pieces StreamSerializer" h' rest] t
      assms(4) fresh_stream by auto
qed

text \<open>
  Coordinates that the free function \<open>is_correct_pos\<close> accepts come back from their JSON form, all others are
  refused; and coordinates sent as 16 bytes are read back on any host with the same bits.
\<close>

lemma coord_roundtrips:
  assumes "json_laws J" and "lat b < 2 ^ 64" "lon b < 2 ^ 64"
    and "Serialize_Coord True h b [] = (err, bytes)" and "concat pieces = bytes @ rest"
  shows "from_json_coord J (to_json_coord J c) = (if is_correct_pos c then Got c else Unexpected) \<and>
    (\<exists>v st. deserialize_object (Deserialize_Coord True h') (VStruct (coord_vals old)) (push_views pieces StreamSerializer)
      = (Code NONE, v, st) \<and> coord_of_val v = b \<and> avail st = rest \<and> err = NONE \<and> length bytes = 16)"
proof
  show "from_json_coord J (to_json_coord J c) = (if is_correct_pos c then Got c else Unexpected)"
    by (rule coord_json[OF assms(1)])
  have "serialize_all (map2 (Serialize True h) coord_types [VInt (lat b), VInt (lon b)]) [] = (err, bytes)"
    using assms(4) by (simp add: Serialize_Coord_def coord_vals_def)
  from two_doubles_roundtrip[OF assms(2,3) this assms(5), of h' "lat old" "lon old"]
  show "\<exists>v st. deserialize_object (Deserialize_Coord True h') (VStruct (coord_vals old)) (push_views pieces StreamSerializer)
      = (Code NONE, v, st) \<and> coord_of_val v = b \<and> avail st = rest \<and> err = NONE \<and> length bytes = 16"
    by (auto simp: Deserialize_Coord_def coord_vals_def coord_of_val_def)
qed

lemma position_roundtrip:
  assumes "pos_y b < 2 ^ 64" "pos_x b < 2 ^ 64"
    and "Serialize_Position True h b [] = (err, bytes)" and "concat pieces = bytes @ rest"
  shows "\<exists>v st. deserialize_object (Deserialize_Position True h') (VStruct (position_vals old)) (push_views pieces StreamSerializer)
      = (Code NONE, v, st) \<and> position_of_val v = b \<and> avail st = rest \<and> err = NONE"
proof -
  have "serialize_all (map2 (Serialize True h) coord_types [VInt (pos_y b), VInt (pos_x b)]) [] = (err, bytes)"
    using assms(3) by (simp add: Serialize_Position_def position_vals_def)
  from two_doubles_roundtrip[OF assms(1,2) this assms(4), of h' "pos_y old" "pos_x old"]
  show ?thesis by (auto simp: Deserialize_Position_def position_vals_def position_of_val_def)
qed

lemma coord_sizes: "coord_serial_size c = 16" "position_serial_size p = 16" "coord_limits = (16, 16)" "position_limits = (16, 16)"
  by (simp_all add: coord_serial_size_def position_serial_size_def coord_types_def coord_vals_def position_vals_def
      coord_limits_def position_limits_def)

section \<open>Periods as JSON\<close>

text \<open>\<open>val.at(k).as_int64()\<close> throws when there is no such member or when it is of another kind.\<close>

definition int64_at :: "'j json_lib \<Rightarrow> string \<Rightarrow> 'j \<Rightarrow> int reading" where
  "int64_at J k j =
     (if kind J j \<noteq> Object_kind then Thrown
      else case object_at J j k of None \<Rightarrow> Thrown
         | Some v \<Rightarrow> if kind J v = Int64_kind then Got (as_int64 J v) else Thrown)"

definition to_json_period :: "'j json_lib \<Rightarrow> TimePeriod \<Rightarrow> 'j" where
  "to_json_period J p = make_object J [
     (''years'', make_int64 J (p_years p)), (''months'', make_int64 J (p_months p)), (''days'', make_int64 J (p_days p)),
     (''hours'', make_int64 J (p_hours p)), (''minutes'', make_int64 J (p_minutes p)), (''seconds'', make_int64 J (p_seconds p))]"

text \<open>The handler catches \<open>std::invalid_argument\<close>, which none of these calls throws.\<close>

definition from_json_period :: "'j json_lib \<Rightarrow> 'j \<Rightarrow> TimePeriod reading" where
  "from_json_period J j =
     then_from (int64_at J ''years'' j) (\<lambda>y. then_from (int64_at J ''months'' j) (\<lambda>mo.
     then_from (int64_at J ''days'' j) (\<lambda>d. then_from (int64_at J ''hours'' j) (\<lambda>h.
     then_from (int64_at J ''minutes'' j) (\<lambda>m. then_from (int64_at J ''seconds'' j) (\<lambda>s.
     Got \<lparr>p_years = y, p_months = mo, p_days = d, p_hours = h, p_minutes = m, p_seconds = s\<rparr>))))))"

lemma period_fits_int64:
  assumes "period_fits p"
  shows "is_int64_value (p_years p)" "is_int64_value (p_months p)" "is_int64_value (p_days p)"
    "is_int64_value (p_hours p)" "is_int64_value (p_minutes p)" "is_int64_value (p_seconds p)"
  using assms by (simp_all add: period_fits_def period_types_def period_vals_def is_tick_def fits_int64_def is_int64_value_def)

lemma period_json:
  assumes "json_laws J" "period_fits p"
  shows "from_json_period J (to_json_period J p) = Got p"
  by (simp add: from_json_period_def to_json_period_def int64_at_def json_rules[OF assms(1)] period_fits_int64[OF assms(2)])

text \<open>The conversion returns a period or lets an exception through; it never reports an error.\<close>

lemma int64_at_throws: "int64_at J k j \<noteq> Unexpected" "int64_at J k j \<noteq> Undefined"
  by (auto simp: int64_at_def split: option.splits)

lemma then_from_not:
  "r \<noteq> Unexpected \<Longrightarrow> (\<And>a. f a \<noteq> Unexpected) \<Longrightarrow> then_from r f \<noteq> Unexpected"
  by (cases r) auto

lemma period_json_throws: "from_json_period J j \<noteq> Unexpected"
  unfolding from_json_period_def by (intro then_from_not int64_at_throws reading.distinct)

section \<open>Witness\<close>

end
