(* ===== verification/Requests.thy ===== *)
theory Requests
  imports Frames
begin

text \<open>
  The request command (\<open>Command<CommandType::RequestData>\<close> and \<open>RequestCommandSpec\<close> in \<open>network/worker/command.h\<close>):
  the frame that is to be sent, the frame that the answer is read into, and the counts of the bytes that have been
  sent and received. Its execution by the worker is in \<open>Thread_Pool\<close>; \<open>next_request\<close> and the queue of a process are
  in \<open>Abstract_Worker\<close>.
\<close>

section \<open>The command\<close>

text \<open>A frame behind a pointer to \<open>AbstractFrame\<close> has the type it was made with. A pointer may be null.\<close>

record 'h RequestData =
  request_hconn :: 'h
  to_send :: "(frame_ty \<times> frame) option"
  to_receive :: "(frame_ty \<times> frame) option"
  sent_count :: nat
  recv_count :: nat

definition new_request :: "'h \<Rightarrow> 'h RequestData" where
  "new_request h = \<lparr>request_hconn = h, to_send = None, to_receive = None, sent_count = 0, recv_count = 0\<rparr>"

text \<open>\<open>std::dynamic_pointer_cast<Frame<START_t,DATA_t,END_t>>\<close>.\<close>

definition dynamic_frame_cast :: "frame_ty \<Rightarrow> (frame_ty \<times> frame) option \<Rightarrow> frame option" where
  "dynamic_frame_cast T p = (case p of Some (T', f) \<Rightarrow> if T' = T then Some f else None | None \<Rightarrow> None)"

definition received_as :: "frame_ty \<Rightarrow> 'h RequestData \<Rightarrow> frame option" where
  "received_as T r = dynamic_frame_cast T (to_receive r)"

definition sent_as :: "frame_ty \<Rightarrow> 'h RequestData \<Rightarrow> frame option" where
  "sent_as T r = dynamic_frame_cast T (to_send r)"

text \<open>Neither function resets the count, whatever its argument.\<close>

definition reset_sent :: "bool \<Rightarrow> 'h RequestData \<Rightarrow> nat \<times> 'h RequestData" where
  "reset_sent reset r = (if reset then (sent_count r, r) else (sent_count r, r))"

definition reset_received :: "bool \<Rightarrow> 'h RequestData \<Rightarrow> nat \<times> 'h RequestData" where
  "reset_received reset r = (if reset then (recv_count r, r) else (recv_count r, r))"

definition bytes_sent :: "nat \<Rightarrow> 'h RequestData \<Rightarrow> nat \<times> 'h RequestData" where
  "bytes_sent sent r = (let n = uadd64 (sent_count r) sent in (n, r\<lparr>sent_count := n\<rparr>))"

definition bytes_received :: "nat \<Rightarrow> 'h RequestData \<Rightarrow> nat \<times> 'h RequestData" where
  "bytes_received received r = (let n = uadd64 (recv_count r) received in (n, r\<lparr>recv_count := n\<rparr>))"

text \<open>The frame is dereferenced: without one the behaviour is undefined, \<open>None\<close>.\<close>

definition all_sent :: "bool \<Rightarrow> 'h RequestData \<Rightarrow> (bool \<times> 'h RequestData) option" where
  "all_sent reset r = (case to_send r of None \<Rightarrow> None
     | Some (T, f) \<Rightarrow> if Frame_serial_size T f \<le> sent_count r
         then Some (True, if reset then r\<lparr>sent_count := 0\<rparr> else r) else Some (False, r))"

text \<open>Both sizes are those of the frame to send; the minimal size of an \<open>AbstractFrame\<close> is 0.\<close>

definition AbstractFrame_min_serial_size :: nat where
  "AbstractFrame_min_serial_size = 0"

definition AbstractFrame_max_serial_size :: nat where
  "AbstractFrame_max_serial_size = SIZE_MAX"

definition all_received :: "bool \<Rightarrow> 'h RequestData \<Rightarrow> (bool \<times> 'h RequestData) option" where
  "all_received reset r = (case to_send r of None \<Rightarrow> None
     | Some (T, f) \<Rightarrow> if AbstractFrame_min_serial_size \<le> recv_count r \<and> recv_count r = Frame_serial_size T f
         then Some (True, if reset then r\<lparr>recv_count := 0\<rparr> else r) else Some (False, r))"

section \<open>The command for given types\<close>

text \<open>\<open>T\<close> is the type of the request; the answer has the same start and end parts around data of type \<open>R\<close>.\<close>

fun reply_ty :: "frame_ty \<Rightarrow> ty \<Rightarrow> frame_ty" where
  "reply_ty (s, d, e) R = (s, R, e)"

fun default_frame :: "frame_ty \<Rightarrow> frame" where
  "default_frame (s, d, e) =
     \<lparr>frame_val = \<lparr>start_part = default_val s, data_part = default_val d, end_part = default_val e\<rparr>\<rparr>"

definition RequestCommandSpec :: "frame_ty \<Rightarrow> ty \<Rightarrow> 'h \<Rightarrow> val \<Rightarrow> val \<Rightarrow> val \<Rightarrow> 'h RequestData" where
  "RequestCommandSpec T R h start data_v end_v =
     (new_request h)\<lparr>to_send := Some (T, Frame T start data_v end_v),
                     to_receive := Some (reply_ty T R, default_frame (reply_ty T R))\<rparr>"

text \<open>Once the command is ready both frames can be asked for.\<close>

definition spec_received :: "frame_ty \<Rightarrow> ty \<Rightarrow> bool \<Rightarrow> 'h RequestData \<Rightarrow> frame option" where
  "spec_received T R finished r = (if finished then dynamic_frame_cast (reply_ty T R) (to_receive r) else None)"

definition spec_sent :: "frame_ty \<Rightarrow> bool \<Rightarrow> 'h RequestData \<Rightarrow> frame option" where
  "spec_sent T finished r = (if finished then dynamic_frame_cast T (to_send r) else None)"

text \<open>The overloads with a pointer of the asked type compare it with the type of the request, both of them, and
  both call \<open>Command::received\<close>.\<close>

definition spec_received_typed :: "frame_ty \<Rightarrow> frame_ty \<Rightarrow> 'h RequestData \<Rightarrow> frame option" where
  "spec_received_typed T U r = (if U = T then received_as U r else None)"

definition spec_sent_typed :: "frame_ty \<Rightarrow> frame_ty \<Rightarrow> 'h RequestData \<Rightarrow> frame option" where
  "spec_sent_typed T U r = (if U = T then received_as U r else None)"

lemmas request_defs = new_request_def RequestCommandSpec_def dynamic_frame_cast_def received_as_def sent_as_def
  spec_received_def spec_sent_def spec_received_typed_def spec_sent_typed_def

section \<open>Counting what is sent\<close>

lemma counts_add:
  assumes "sent_count r + sum_list ns < 2 ^ 64"
  shows "fold (\<lambda>n r. snd (bytes_sent n r)) ns r = r\<lparr>sent_count := sent_count r + sum_list ns\<rparr>"
  using assms by (induction ns arbitrary: r) (simp_all add: bytes_sent_def uadd64_def Let_def)

text \<open>
  C34. However the bytes of a request's frame are taken in pieces, when each piece has been reported the request
  counts as sent exactly when all bytes of the frame's encoding have been taken; the count then starts anew when
  that is asked for.
\<close>

theorem request_sent_complete:
  assumes "wf_ty (DataFrame_ty T)" "size_ok (DataFrame_ty T)" "frame_typed T (Frame T start data_v end_v)"
    and "Serialize_AbstractFrame h T (Frame T start data_v end_v) [] = (err, bytes)" "length bytes \<le> SIZE_MAX"
    and "concat pieces = take k bytes"
  shows "let r = fold (\<lambda>n r. snd (bytes_sent n r)) (map length pieces) (RequestCommandSpec T R hconn start data_v end_v);
             total = length (concat pieces)
         in all_sent reset r = Some (total = length bytes,
              r\<lparr>sent_count := if total = length bytes \<and> reset then 0 else total\<rparr>)"
proof -
  let ?r = "RequestCommandSpec T R hconn start data_v end_v"
  let ?n = "length (concat pieces)"
  have n: "sum_list (map length pieces) = ?n" by (simp add: length_concat)
  have le: "?n \<le> length bytes" using assms(6) by simp
  then have "?n < 2 ^ 64" using assms(5) unfolding SIZE_MAX_def by simp
  then have r: "fold (\<lambda>n r. snd (bytes_sent n r)) (map length pieces) ?r = ?r\<lparr>sent_count := ?n\<rparr>"
    using counts_add[of ?r "map length pieces"] n by (simp add: request_defs)
  have "Frame_serial_size T (Frame T start data_v end_v) = length bytes"
    using frame_sizes[OF assms(1-5)] by blast
  then show ?thesis using le unfolding Let_def r by (simp add: all_sent_def request_defs)
qed

theorem request_sent_complete_witness:
  "let r = fold (\<lambda>n r. snd (bytes_sent n r)) (map length [[0, 0, 0, 0, 0], [0, 0, 2, 1 :: byte]])
             (RequestCommandSpec (SizeFramedData (TInt 2)) (TInt 4) () (VInt 2) (VInt 258) VEmpty);
       total = length (concat [[0, 0, 0, 0, 0], [0, 0, 2, 1 :: byte]])
   in all_sent True r = Some (total = length [0, 0, 0, 0, 0, 0, 0, 2, 1, 2 :: byte],
        r\<lparr>sent_count := if total = length [0, 0, 0, 0, 0, 0, 0, 2, 1, 2 :: byte] \<and> True then 0 else total\<rparr>)"
  by (rule request_sent_complete [where h = BigHost and k = 9])
    (simp_all add: SizeFramedData_def dataframe_val_def Serialize_AbstractFrame_def Frame_serialize_def
      Serialize_DataFrame_def buf_defs codec_defs SIZE_MAX_def)

section \<open>What the command does not do\<close>

lemma reset_keeps_counts: "snd (reset_sent True r) = r" "snd (reset_received True r) = r"
  by (simp_all add: reset_sent_def reset_received_def)

text \<open>An answer counts as received when its size is that of the request.\<close>

lemma answer_measured_by_request:
  assumes "to_send r = Some (T, f)"
  shows "map_option fst (all_received reset (r\<lparr>recv_count := n\<rparr>)) = Some (n = Frame_serial_size T f)"
  using assms by (simp add: all_received_def AbstractFrame_min_serial_size_def)

text \<open>
  The sent frame cannot be asked for by its type: the overload yields the answer, or nothing when the answer has
  another type; and the answer can be asked for by its type only if that is the type of the request.
\<close>

lemma typed_overloads:
  assumes "r = RequestCommandSpec T R h s d e" "T \<noteq> reply_ty T R"
  shows "spec_sent_typed T U r = None" "spec_received_typed T U r = None"
    "spec_sent T True r = Some (Frame T s d e)" "spec_received T R True r = Some (default_frame (reply_ty T R))"
  using assms by (simp_all add: request_defs)

lemma typed_sent_is_answer:
  assumes "r = RequestCommandSpec T R h s d e" "T = reply_ty T R"
  shows "spec_sent_typed T T r = Some (default_frame T)"
  using assms by (cases T) (simp add: request_defs)

end
