(* ===== verification/Polygons.thy ===== *)
theory Polygons
  imports Geometry Prelude
begin

text \<open>
  Polygons (\<open>geometry/Polygon.h\<close>): the vertices, the positions of the extreme ones, and the caches of derived values.
  The header names the coordinates of a point \<open>lon_\<close> and \<open>lat_\<close> where \<open>Point.h\<close> no longer has such members; they
  are read as the coordinates 0 and 1, which the same functions also get by number. The functions that cut and
  intersect polygons are commented out in \<open>Polygon.cpp\<close>.
\<close>

section \<open>State\<close>

record polygon =
  vertices :: "point list"
  minX :: "nat list"
  maxX :: "nat list"
  minY :: "nat list"
  maxY :: "nat list"
  area_value :: dbl
  perimeter_value :: dbl
  area_defined :: bool
  perimeter_defined :: bool
  wise_defined :: bool
  valid_defined :: bool
  clockwise :: bool
  valid :: bool

definition Polygon :: polygon where
  "Polygon = \<lparr>vertices = [], minX = [], maxX = [], minY = [], maxY = [], area_value = 0, perimeter_value = 0,
     area_defined = False, perimeter_defined = False, wise_defined = False, valid_defined = False,
     clockwise = False, valid = False\<rparr>"

text \<open>The copy constructor leaves the perimeter at its default; the assignment leaves it as it is.\<close>

definition polygon_copy :: "polygon \<Rightarrow> polygon" where
  "polygon_copy other = other\<lparr>perimeter_value := 0, perimeter_defined := False\<rparr>"

definition polygon_assign :: "polygon \<Rightarrow> polygon \<Rightarrow> polygon" where
  "polygon_assign this other = other\<lparr>perimeter_value := perimeter_value this, perimeter_defined := perimeter_defined this\<rparr>"

text \<open>
  The four updates: a coordinate, converted to \<open>double\<close>, is compared with that of the first listed vertex.
\<close>

definition update_minX :: "point list \<Rightarrow> dbl \<Rightarrow> nat \<Rightarrow> nat list \<Rightarrow> nat list" where
  "update_minX vs X new_pos ids = (case ids of [] \<Rightarrow> [new_pos]
     | i # _ \<Rightarrow> if fst (vs ! i) > X then [new_pos] else if fst (vs ! i) = X then ids @ [new_pos] else ids)"

definition update_minY :: "point list \<Rightarrow> dbl \<Rightarrow> nat \<Rightarrow> nat list \<Rightarrow> nat list" where
  "update_minY vs Y new_pos ids = (case ids of [] \<Rightarrow> [new_pos]
     | i # _ \<Rightarrow> if snd (vs ! i) > Y then [new_pos] else if snd (vs ! i) = Y then ids @ [new_pos] else ids)"

definition update_maxX :: "point list \<Rightarrow> dbl \<Rightarrow> nat \<Rightarrow> nat list \<Rightarrow> nat list" where
  "update_maxX vs X new_pos ids = (case ids of [] \<Rightarrow> [new_pos]
     | i # _ \<Rightarrow> if fst (vs ! i) < X then [new_pos] else if fst (vs ! i) = X then ids @ [new_pos] else ids)"

definition update_maxY :: "point list \<Rightarrow> dbl \<Rightarrow> nat \<Rightarrow> nat list \<Rightarrow> nat list" where
  "update_maxY vs Y new_pos ids = (case ids of [] \<Rightarrow> [new_pos]
     | i # _ \<Rightarrow> if snd (vs ! i) < Y then [new_pos] else if snd (vs ! i) = Y then ids @ [new_pos] else ids)"

definition update_extremes :: "point list \<Rightarrow> point \<Rightarrow> nat \<Rightarrow> polygon \<Rightarrow> polygon" where
  "update_extremes vs coord pos p =
     p\<lparr>minX := update_minX vs (round_dbl (fst coord)) pos (minX p), minY := update_minY vs (round_dbl (snd coord)) pos (minY p),
       maxX := update_maxX vs (round_dbl (fst coord)) pos (maxX p), maxY := update_maxY vs (round_dbl (snd coord)) pos (maxY p)\<rparr>"

definition map_extremes :: "(nat \<Rightarrow> nat) \<Rightarrow> polygon \<Rightarrow> polygon" where
  "map_extremes f p = p\<lparr>minX := map f (minX p), maxX := map f (maxX p), minY := map f (minY p), maxY := map f (maxY p)\<rparr>"

section \<open>Changing the vertices\<close>

definition forget_caches :: "polygon \<Rightarrow> polygon" where
  "forget_caches p = p\<lparr>area_defined := False, valid_defined := False, wise_defined := False\<rparr>"

definition polygon_append :: "point \<Rightarrow> polygon \<Rightarrow> polygon" where
  "polygon_append coord p =
     (let p = (if vertices p \<noteq> []
               then if last (vertices p) \<noteq> coord \<and> hd (vertices p) \<noteq> coord then forget_caches p else p
               else forget_caches p);
          p = update_extremes (vertices p) coord (length (vertices p)) p
      in p\<lparr>vertices := vertices p @ [coord]\<rparr>)"

definition polygon_insert :: "nat \<Rightarrow> point \<Rightarrow> polygon \<Rightarrow> polygon" where
  "polygon_insert coord_id coord p =
     (let vs = vertices p; n = length vs
      in if coord_id \<ge> n then polygon_append coord p
         else let p = (if vs ! ((coord_id + n - 1) mod n) \<noteq> coord \<and> vs ! ((coord_id + 1) mod n) \<noteq> coord
                       then forget_caches p else p);
                  vs = take coord_id vs @ coord # drop coord_id vs;
                  p = map_extremes (\<lambda>i. if i \<ge> coord_id then i + 1 else i) (p\<lparr>vertices := vs\<rparr>)
              in update_extremes vs coord coord_id p)"

text \<open>When an extreme vertex is erased the positions are determined anew.\<close>

definition all_extremes :: "polygon \<Rightarrow> polygon" where
  "all_extremes p = fold (\<lambda>i p. update_extremes (vertices p) (vertices p ! i) i p) [0..<length (vertices p)]
     (p\<lparr>minX := [], maxX := [], minY := [], maxY := []\<rparr>)"

definition polygon_erase :: "nat \<Rightarrow> polygon \<Rightarrow> polygon" where
  "polygon_erase coord_id p =
     (let vs = vertices p
      in if vs = [] then p
         else let erased_id = (if coord_id \<ge> length vs then length vs - 1 else coord_id);
                  coord = vs ! erased_id;
                  extreme = (fst coord = fst (vs ! hd (maxX p)) \<or> fst coord = fst (vs ! hd (minX p)) \<or>
                             snd coord = snd (vs ! hd (maxY p)) \<or> snd coord = snd (vs ! hd (minY p)));
                  p = forget_caches (p\<lparr>vertices := take erased_id vs @ drop (erased_id + 1) vs\<rparr>)
              in if extreme then all_extremes p
                 else map_extremes (\<lambda>i. if i > erased_id then i - 1 else i) p)"

definition polygon_number_vertices :: "polygon \<Rightarrow> nat" where
  "polygon_number_vertices p = length (vertices p)"

section \<open>Orientation\<close>

text \<open>The sum is kept in a \<open>double\<close>, its terms are \<open>long double\<close>.\<close>

definition twice_area_step :: "point list \<Rightarrow> dbl \<Rightarrow> nat \<Rightarrow> dbl" where
  "twice_area_step vs result i =
     (let first = vs ! i; second = vs ! ((i + 1) mod length vs)
      in round_dbl (ladd result (lsub (lmul (snd second) (fst first)) (lmul (snd first) (fst second)))))"

definition coordinate_scale :: "polygon \<Rightarrow> dbl" where
  "coordinate_scale p = (let vs = vertices p in
     round_dbl (lmul (max \<bar>snd (vs ! hd (maxY p))\<bar> \<bar>snd (vs ! hd (minY p))\<bar>)
                     (max \<bar>fst (vs ! hd (maxX p))\<bar> \<bar>fst (vs ! hd (minX p))\<bar>)))"

definition is_clockwise :: "polygon \<Rightarrow> bool \<times> polygon" where
  "is_clockwise p =
     (if wise_defined p then (clockwise p, p)
      else if length (vertices p) < 3 then (False, p)
      else let result = foldl (twice_area_step (vertices p)) 0 [0..<length (vertices p)]
           in if \<bar>result\<bar> < fmul (fmul dbl_epsilon (coordinate_scale p)) (dbl_of (int (length (vertices p)))) then (False, p)
              else if result > 0 then (False, p\<lparr>wise_defined := True, clockwise := False\<rparr>)
              else (True, p\<lparr>wise_defined := True, clockwise := True\<rparr>))"

section \<open>Validity\<close>

text \<open>The last vertex that differs from its predecessor and from the first one, and the first that differs from its successor.\<close>

fun last_segment :: "point list \<Rightarrow> nat \<Rightarrow> nat" where
  "last_segment vs k =
     (if k > 1 \<and> (vs ! k = vs ! ((k - 1 + length vs) mod length vs) \<or> vs ! k = vs ! 0) then last_segment vs (k - 1) else k)"

function first_segment :: "point list \<Rightarrow> nat \<Rightarrow> nat \<Rightarrow> nat" where
  "first_segment vs l k = (if k < l \<and> vs ! k = vs ! (k + 1) then first_segment vs l (k + 1) else k)"
  by auto
termination by (relation "measure (\<lambda>(vs, l, k). l - k)") auto

text \<open>The test of a vertex and its successor, whose position may be past the end.\<close>

function skip_equal :: "point list \<Rightarrow> nat \<Rightarrow> nat \<Rightarrow> nat access" where
  "skip_equal vs l i =
     (if i \<le> l
      then if i + 1 < length vs then if vs ! i = vs ! (i + 1) then skip_equal vs l (i + 1) else Defined i
           else OutOfBounds
      else Defined i)"
  by auto
termination by (relation "measure (\<lambda>(vs, l, i). l + 1 - i)") auto

function skip_adjacent :: "point list \<Rightarrow> nat \<Rightarrow> nat \<Rightarrow> nat \<Rightarrow> nat" where
  "skip_adjacent vs i l j = (if j \<le> l \<and> vs ! (i + 1) = vs ! j then skip_adjacent vs i l (j + 1) else j)"
  by auto
termination by (relation "measure (\<lambda>(vs, i, l, j). l + 1 - j)") auto

function skip_repeated :: "point list \<Rightarrow> nat \<Rightarrow> nat \<Rightarrow> nat" where
  "skip_repeated vs l j = (if j \<le> l \<and> vs ! j = vs ! ((j + 1) mod length vs) then skip_repeated vs l (j + 1) else j)"
  by auto
termination by (relation "measure (\<lambda>(vs, l, j). l + 1 - j)") auto

declare last_segment.simps [simp del] first_segment.simps [simp del] skip_equal.simps [simp del]
  skip_adjacent.simps [simp del] skip_repeated.simps [simp del]

lemma skip_repeated_ge: "j \<le> skip_repeated vs l j"
  by (induction vs l j rule: skip_repeated.induct) (subst skip_repeated.simps, auto)

lemma skip_equal_ge: "skip_equal vs l i = Defined k \<Longrightarrow> i \<le> k"
  by (induction vs l i rule: skip_equal.induct) (force simp: skip_equal.simps split: if_splits)

lemma nearer_end: "j \<le> s \<Longrightarrow> j \<le> l \<Longrightarrow> l - s < Suc l - (j :: nat)"
  by linarith

definition edge :: "point list \<Rightarrow> nat \<Rightarrow> line" where
  "edge vs j = \<lparr>line_first = vs ! j, line_second = vs ! ((j + 1) mod length vs)\<rparr>"

text \<open>Whether the line meets an edge from \<open>j\<close> to \<open>j_last\<close>.\<close>

function meets_edge :: "point list \<Rightarrow> line \<Rightarrow> nat \<Rightarrow> nat \<Rightarrow> nat \<Rightarrow> bool" where
  "meets_edge vs init_line l j_last j =
     (if j \<le> j_last
      then let j' = skip_repeated vs l j
           in if j' > l then False
              else if intersects init_line (edge vs j') then True else meets_edge vs init_line l j_last (j' + 1)
      else False)"
  by auto
termination
  by (relation "measure (\<lambda>(vs, x, l, j_last, j). j_last + 1 - j)") (simp_all add: nearer_end skip_repeated_ge)

function no_crossing :: "point list \<Rightarrow> nat \<Rightarrow> nat \<Rightarrow> nat \<Rightarrow> bool access" where
  "no_crossing vs f l i =
     (if i \<le> l
      then case skip_equal vs l i of OutOfBounds \<Rightarrow> OutOfBounds
         | Defined i' \<Rightarrow>
             if i' > l then Defined True
             else let j_last = (if i' = f then l - 1 else l); j = skip_adjacent vs i' j_last (i' + 2)
                  in if j > j_last then Defined True
                     else if meets_edge vs \<lparr>line_first = vs ! i', line_second = vs ! (i' + 1)\<rparr> l j_last j then Defined False
                     else no_crossing vs f l (i' + 1)
      else Defined True)"
  by auto
termination
  by (relation "measure (\<lambda>(vs, f, l, i). l + 1 - i)") (simp_all add: nearer_end skip_equal_ge)

declare meets_edge.simps [simp del] no_crossing.simps [simp del]

definition check_valid :: "point list \<Rightarrow> bool access" where
  "check_valid vs =
     (if length vs < 3 then Defined False
      else let l = last_segment vs (length vs - 1)
           in if l < 2 then Defined False
              else let f = first_segment vs l 0 in no_crossing vs f l f)"

definition is_valid :: "polygon \<Rightarrow> (bool \<times> polygon) access" where
  "is_valid p =
     (if valid_defined p then Defined (valid p, p)
      else map_access (\<lambda>b. (b, p\<lparr>valid_defined := True, valid := b\<rparr>)) (check_valid (vertices p)))"

section \<open>Area and perimeter\<close>

text \<open>
  Both are refused for valid polygons. The second index begins with 1, which is past the end when there is one
  vertex.
\<close>

definition area_step :: "point list \<Rightarrow> ldbl \<Rightarrow> nat \<Rightarrow> ldbl" where
  "area_step vs result i =
     (let a = vs ! i; b = vs ! ((i + 1) mod length vs)
      in ladd result (lsub (lmul (snd b) (fst a)) (lmul (fst b) (snd a))))"

definition area :: "polygon \<Rightarrow> (dbl option \<times> polygon) access" where
  "area p =
     (if area_defined p then Defined (Some (area_value p), p)
      else case is_valid p of OutOfBounds \<Rightarrow> OutOfBounds
         | Defined (ok, p) \<Rightarrow>
             if ok then Defined (None, p\<lparr>area_defined := False\<rparr>)
             else if length (vertices p) = 1 then OutOfBounds
             else let result = foldl (area_step (vertices p)) 0 [0..<length (vertices p)];
                      a = round_dbl (ldiv result 2)
                  in Defined (Some a, p\<lparr>area_value := a, area_defined := True\<rparr>))"

definition perimeter_step :: "(ldbl \<Rightarrow> ldbl) \<Rightarrow> point list \<Rightarrow> ldbl \<Rightarrow> nat \<Rightarrow> ldbl" where
  "perimeter_step sqrtl vs result i =
     (let a = vs ! i; b = vs ! ((i + 1) mod length vs); dX = lsub (fst b) (fst a); dY = lsub (snd b) (snd a)
      in ladd result (sqrtl (ladd (lmul dX dX) (lmul dY dY))))"

definition perimeter :: "(ldbl \<Rightarrow> ldbl) \<Rightarrow> polygon \<Rightarrow> (dbl option \<times> polygon) access" where
  "perimeter sqrtl p =
     (if perimeter_defined p then Defined (Some (perimeter_value p), p)
      else case is_valid p of OutOfBounds \<Rightarrow> OutOfBounds
         | Defined (ok, p) \<Rightarrow>
             if ok then Defined (None, p\<lparr>perimeter_defined := False\<rparr>)
             else if length (vertices p) = 1 then OutOfBounds
             else let result = foldl (perimeter_step sqrtl (vertices p)) 0 [0..<length (vertices p)]
                  in Defined (Some (round_dbl result), p\<lparr>perimeter_value := round_dbl result, perimeter_defined := True\<rparr>))"

section \<open>Comparing polygons\<close>

text \<open>
  \<open>operator==\<close> of two objects that are not the same: the operands of \<open>&&\<close> from left to right, each of which fills
  caches. \<open>both f p q\<close> compares what \<open>f\<close> yields for the two.
\<close>

definition both :: "(polygon \<Rightarrow> ('a \<times> polygon) access) \<Rightarrow> (polygon \<times> polygon \<Rightarrow> (bool \<times> polygon \<times> polygon) access) \<Rightarrow>
    polygon \<times> polygon \<Rightarrow> (bool \<times> polygon \<times> polygon) access" where
  "both f continue pq = (case f (fst pq) of OutOfBounds \<Rightarrow> OutOfBounds
     | Defined (a, p) \<Rightarrow> (case f (snd pq) of OutOfBounds \<Rightarrow> OutOfBounds
         | Defined (b, q) \<Rightarrow> if a = b then continue (p, q) else Defined (False, p, q)))"

definition polygon_eq :: "(ldbl \<Rightarrow> ldbl) \<Rightarrow> polygon \<Rightarrow> polygon \<Rightarrow> (bool \<times> polygon \<times> polygon) access" where
  "polygon_eq sqrtl p q =
     (if length (vertices p) \<noteq> length (vertices q) then Defined (False, p, q)
      else both is_valid (both (\<lambda>p. Defined (is_clockwise p)) (both area (both (perimeter sqrtl)
        (\<lambda>(p, q). Defined (minX p = minX q \<and> minY p = minY q \<and> maxX p = maxX q \<and> maxY p = maxY q, p, q))))) (p, q))"

text \<open>
  \<open>equivalent\<close>: from the first vertex of the other polygon that equals the first of this one, both are followed, the
  other one backwards when the orientations differ. \<open>None\<close> is a loop that does not end.
\<close>

definition next_index :: "nat \<Rightarrow> int \<Rightarrow> nat \<Rightarrow> nat" where
  "next_index n inc j = nat ((int j + inc + int n) mod int n)"

partial_function (option) skip_other :: "point list \<Rightarrow> int \<Rightarrow> nat \<Rightarrow> nat option" where
  "skip_other os inc j =
     (if os ! j = os ! next_index (length os) inc j then skip_other os inc (next_index (length os) inc j) else Some j)"

function skip_this :: "point list \<Rightarrow> nat \<Rightarrow> nat \<Rightarrow> nat \<Rightarrow> nat" where
  "skip_this vs l i i_loc = (if vs ! i = vs ! i_loc \<and> i < l then skip_this vs l (i + 1) (i_loc + 1) else i)"
  by auto
termination by (relation "measure (\<lambda>(vs, l, i, i_loc). l - i)") auto

declare skip_this.simps [simp del]

partial_function (option) follow :: "point list \<Rightarrow> point list \<Rightarrow> int \<Rightarrow> nat \<Rightarrow> nat \<Rightarrow> bool option" where
  "follow vs os inc i j =
     (if i < length vs
      then case skip_other os inc j of None \<Rightarrow> None
         | Some j \<Rightarrow>
             let i = skip_this vs (length vs - 1) i ((i + 1 + length vs) mod length vs)
             in if vs ! i \<noteq> os ! j then Some False else follow vs os inc (i + 1) (next_index (length os) inc j)
      else Some True)"

definition find_index :: "'a \<Rightarrow> 'a list \<Rightarrow> nat" where
  "find_index x xs = length (takeWhile (\<lambda>y. y \<noteq> x) xs)"

definition equivalent :: "polygon \<Rightarrow> polygon \<Rightarrow> bool option" where
  "equivalent p q =
     (let vs = vertices p; os = vertices q;
          other_inc = (if fst (is_clockwise p) = fst (is_clockwise q) then 1 else -1)
      in if (maxX p \<noteq> [] \<and> fst (vs ! hd (maxX p)) \<noteq> fst (os ! hd (maxX q))) \<or>
            (maxY p \<noteq> [] \<and> snd (vs ! hd (maxY p)) \<noteq> snd (os ! hd (maxY q))) \<or>
            (minX p \<noteq> [] \<and> fst (vs ! hd (minX p)) \<noteq> fst (os ! hd (minX q))) \<or>
            (minY p \<noteq> [] \<and> snd (vs ! hd (minY p)) \<noteq> snd (os ! hd (minY q)))
         then Some False
         else if find_index (hd vs) os = length os then Some False
         else follow vs os other_inc 0 (find_index (hd vs) os))"

end
