(* ===== verification/Polygon_Extremes.thy ===== *)
theory Polygon_Extremes
  imports Polygons
begin

text \<open>
  The positions of the extreme vertices of a polygon: however vertices are appended, inserted and erased, each of
  the four lists holds the positions of all vertices with the extreme coordinate, each once.
\<close>

section \<open>Tracking a minimum\<close>

text \<open>Coordinates that a \<open>double\<close> can hold, to which they are converted when they are compared.\<close>

definition exact_point :: "point \<Rightarrow> bool" where
  "exact_point c \<longleftrightarrow> round_dbl (fst c) = fst c \<and> round_dbl (snd c) = snd c"

text \<open>
  What the four updates share: the list is kept with respect to the first listed vertex. A maximum is the minimum
  of the negated coordinate.
\<close>

locale extreme_positions =
  fixes coord :: "point \<Rightarrow> rat"
    and upd :: "point list \<Rightarrow> point \<Rightarrow> nat \<Rightarrow> nat list \<Rightarrow> nat list"
  assumes upd_none: "upd vs c pos [] = [pos]"
    and upd_some: "exact_point c \<Longrightarrow> upd vs c pos (i # ids) =
      (if coord c < coord (vs ! i) then [pos] else if coord (vs ! i) = coord c then i # ids @ [pos] else i # ids)"
begin

definition tracked :: "nat set \<Rightarrow> point list \<Rightarrow> nat list \<Rightarrow> bool" where
  "tracked A vs ids \<longleftrightarrow> distinct ids \<and> set ids = {i \<in> A. \<forall>j \<in> A. coord (vs ! i) \<le> coord (vs ! j)}"

lemma tracked_empty: "finite A \<Longrightarrow> tracked A vs [] \<longleftrightarrow> A = {}"
proof
  assume "finite A" "tracked A vs []"
  show "A = {}"
  proof (rule ccontr)
    assume "A \<noteq> {}"
    then obtain i where "i \<in> A" "coord (vs ! i) = Min ((\<lambda>j. coord (vs ! j)) ` A)"
      using Min_in[of "(\<lambda>j. coord (vs ! j)) ` A"] \<open>finite A\<close> by (metis (no_types, lifting) finite_imageI imageE image_is_empty)
    then have "i \<in> {i \<in> A. \<forall>j \<in> A. coord (vs ! i) \<le> coord (vs ! j)}" using \<open>finite A\<close> by simp
    moreover have "set [] = {i \<in> A. \<forall>j \<in> A. coord (vs ! i) \<le> coord (vs ! j)}"
      using \<open>tracked A vs []\<close> unfolding tracked_def by (rule conjunct2)
    ultimately have "i \<in> set []" by (simp only:)
    then show False by simp
  qed
qed (simp add: tracked_def)

lemma tracked_hd: "finite A \<Longrightarrow> A \<noteq> {} \<Longrightarrow> tracked A vs ids \<Longrightarrow> \<exists>i is. ids = i # is \<and> i \<in> A"
  using tracked_empty[of A vs] by (cases ids) (auto simp: tracked_def)

lemma tracked_cong:
  assumes "\<And>i. i \<in> A \<Longrightarrow> vs ! i = vs' ! i"
  shows "tracked A vs ids \<longleftrightarrow> tracked A vs' ids"
proof -
  have "{i \<in> A. \<forall>j \<in> A. coord (vs ! i) \<le> coord (vs ! j)} = {i \<in> A. \<forall>j \<in> A. coord (vs' ! i) \<le> coord (vs' ! j)}"
    using assms by auto
  then show ?thesis by (simp only: tracked_def)
qed

lemma tracked_image:
  assumes "tracked A vs ids" "inj_on f A" "\<And>i. i \<in> A \<Longrightarrow> vs' ! f i = vs ! i"
  shows "tracked (f ` A) vs' (map f ids)"
proof -
  have sub: "set ids \<subseteq> A" using assms(1) by (auto simp: tracked_def)
  then have "distinct (map f ids)"
    using assms(1,2) by (auto simp: tracked_def distinct_map intro: inj_on_subset)
  moreover have "f ` set ids = {i \<in> f ` A. \<forall>j \<in> f ` A. coord (vs' ! i) \<le> coord (vs' ! j)}"
    using assms(1,3) by (auto simp: tracked_def image_iff)
  ultimately show ?thesis by (simp add: tracked_def)
qed

text \<open>One more vertex.\<close>

lemma tracked_insert:
  assumes "finite A" "tracked A vs ids" "k \<notin> A" "exact_point c" "vs' ! k = c" "\<And>i. i \<in> A \<Longrightarrow> vs' ! i = vs ! i"
  shows "tracked (insert k A) vs' (upd vs c k ids)"
proof (cases ids)
  case Nil
  then have "A = {}" using assms(1,2) tracked_empty by simp
  then show ?thesis using Nil by (auto simp: upd_none tracked_def)
next
  case (Cons i "is")
  then have i: "i \<in> A" "\<And>j. j \<in> A \<Longrightarrow> coord (vs ! i) \<le> coord (vs ! j)" using assms(2) by (auto simp: tracked_def)
  have ids: "distinct ids" "set ids = {j \<in> A. coord (vs ! j) \<le> coord (vs ! i)}"
    using assms(2) i by (auto simp: tracked_def intro: order_trans)
  have all: "(\<forall>l \<in> insert k A. x \<le> coord (vs' ! l)) \<longleftrightarrow> x \<le> coord c \<and> x \<le> coord (vs ! i)" for x
  proof -
    have "(\<forall>l \<in> A. x \<le> coord (vs' ! l)) \<longleftrightarrow> (\<forall>l \<in> A. x \<le> coord (vs ! l))" using assms(6) by simp
    also have "\<dots> \<longleftrightarrow> x \<le> coord (vs ! i)" using i by (meson order_trans)
    finally show ?thesis using assms(5) by simp
  qed
  have new: "{j \<in> insert k A. \<forall>l \<in> insert k A. coord (vs' ! j) \<le> coord (vs' ! l)} =
      (if coord c \<le> coord (vs ! i) then {k} else {}) \<union> {j \<in> set ids. coord (vs ! j) \<le> coord c}"
    unfolding all ids(2) using assms(3,5,6) by auto
  have old: "coord (vs ! j) = coord (vs ! i)" if "j \<in> set ids" for j
    using that ids(2) i(2)[of j] by auto
  have kept: "{j \<in> set ids. coord (vs ! j) \<le> coord c} = (if coord (vs ! i) \<le> coord c then set ids else {})"
    by (simp add: old cong: conj_cong) 
  have "k \<notin> set ids" using ids(2) assms(3) by simp
  then have "set (upd vs c k ids) = (if coord c \<le> coord (vs ! i) then {k} else {}) \<union> (if coord (vs ! i) \<le> coord c then set ids else {})
      \<and> distinct (upd vs c k ids)"
    using ids(1) unfolding Cons upd_some[OF assms(4)] by simp
  then show ?thesis unfolding tracked_def new kept by blast
qed

text \<open>One vertex less, which is not extreme.\<close>

lemma tracked_remove:
  assumes "finite A" "A \<noteq> {}" "tracked A vs ids" "coord (vs ! e) \<noteq> coord (vs ! hd ids)"
  shows "tracked (A - {e}) vs ids"
proof -
  obtain i "is" where i: "ids = i # is" "i \<in> A" using tracked_hd[OF assms(1-3)] by blast
  have min: "\<And>j. j \<in> A \<Longrightarrow> coord (vs ! i) \<le> coord (vs ! j)" using assms(3) i by (auto simp: tracked_def)
  have "i \<noteq> e" using assms(4) i by auto
  have all: "(\<forall>l \<in> B. x \<le> coord (vs ! l)) \<longleftrightarrow> x \<le> coord (vs ! i)" if "i \<in> B" "B \<subseteq> A" for x B
    using min that by (meson order_trans subsetD)
  have "{j \<in> A - {e}. \<forall>l \<in> A - {e}. coord (vs ! j) \<le> coord (vs ! l)} = {j \<in> A - {e}. coord (vs ! j) \<le> coord (vs ! i)}"
    using all[of "A - {e}"] i(2) \<open>i \<noteq> e\<close> by simp
  also have "\<dots> = {j \<in> A. coord (vs ! j) \<le> coord (vs ! i)}" using min[of e] assms(4) i(1) by auto
  also have "\<dots> = {j \<in> A. \<forall>l \<in> A. coord (vs ! j) \<le> coord (vs ! l)}" using all[of A] i(2) by simp
  finally have "{j \<in> A - {e}. \<forall>l \<in> A - {e}. coord (vs ! j) \<le> coord (vs ! l)} = {j \<in> A. \<forall>l \<in> A. coord (vs ! j) \<le> coord (vs ! l)}" .
  then show ?thesis using assms(3) by (simp add: tracked_def)
qed

lemma tracked_all:
  assumes "list_all exact_point vs" "n \<le> length vs"
  shows "tracked {..<n} vs (fold (\<lambda>i. upd vs (vs ! i) i) [0..<n] [])"
  using assms(2)
proof (induction n)
  case 0
  then show ?case by (simp add: tracked_def)
next
  case (Suc n)
  then have "exact_point (vs ! n)" using assms(1) by (simp add: list_all_length)
  then have "tracked (insert n {..<n}) vs (upd vs (vs ! n) n (fold (\<lambda>i. upd vs (vs ! i) i) [0..<n] []))"
    using Suc by (intro tracked_insert) auto
  moreover have "insert n {..<n} = {..<Suc n}" by auto
  ultimately show ?case by simp
qed

end

interpretation least_x: extreme_positions fst "\<lambda>vs c. update_minX vs (round_dbl (fst c))"
  by unfold_locales (auto simp: update_minX_def exact_point_def)

interpretation least_y: extreme_positions snd "\<lambda>vs c. update_minY vs (round_dbl (snd c))"
  by unfold_locales (auto simp: update_minY_def exact_point_def)

interpretation greatest_x: extreme_positions "\<lambda>v. - fst v" "\<lambda>vs c. update_maxX vs (round_dbl (fst c))"
  by unfold_locales (auto simp: update_maxX_def exact_point_def)

interpretation greatest_y: extreme_positions "\<lambda>v. - snd v" "\<lambda>vs c. update_maxY vs (round_dbl (snd c))"
  by unfold_locales (auto simp: update_maxY_def exact_point_def)

section \<open>The operations\<close>

text \<open>The four lists hold the extreme positions among \<open>A\<close>.\<close>

definition tracks :: "nat set \<Rightarrow> point list \<Rightarrow> polygon \<Rightarrow> bool" where
  "tracks A vs p \<longleftrightarrow> least_x.tracked A vs (minX p) \<and> least_y.tracked A vs (minY p) \<and>
     greatest_x.tracked A vs (maxX p) \<and> greatest_y.tracked A vs (maxY p)"

definition well_tracked :: "polygon \<Rightarrow> bool" where
  "well_tracked p \<longleftrightarrow> list_all exact_point (vertices p) \<and> tracks {..<length (vertices p)} (vertices p) p"

lemma update_extremes_fields [simp]:
  "vertices (update_extremes vs c k p) = vertices p"
  "minX (update_extremes vs c k p) = update_minX vs (round_dbl (fst c)) k (minX p)"
  "minY (update_extremes vs c k p) = update_minY vs (round_dbl (snd c)) k (minY p)"
  "maxX (update_extremes vs c k p) = update_maxX vs (round_dbl (fst c)) k (maxX p)"
  "maxY (update_extremes vs c k p) = update_maxY vs (round_dbl (snd c)) k (maxY p)"
  by (simp_all add: update_extremes_def)

lemma map_extremes_fields [simp]:
  "vertices (map_extremes f p) = vertices p"
  "minX (map_extremes f p) = map f (minX p)" "minY (map_extremes f p) = map f (minY p)"
  "maxX (map_extremes f p) = map f (maxX p)" "maxY (map_extremes f p) = map f (maxY p)"
  by (simp_all add: map_extremes_def)

lemma forget_caches_fields [simp]:
  "vertices (forget_caches p) = vertices p" "minX (forget_caches p) = minX p" "minY (forget_caches p) = minY p"
  "maxX (forget_caches p) = maxX p" "maxY (forget_caches p) = maxY p"
  by (simp_all add: forget_caches_def)

lemma tracks_forget [simp]: "tracks A vs (forget_caches p) = tracks A vs p"
  by (simp add: tracks_def)

lemma tracks_vertices [simp]: "tracks A vs (p\<lparr>vertices := ws\<rparr>) = tracks A vs p"
  by (simp add: tracks_def)

lemma tracks_insert:
  assumes "finite A" "tracks A vs p" "k \<notin> A" "exact_point c" "vs' ! k = c" "\<And>i. i \<in> A \<Longrightarrow> vs' ! i = vs ! i"
  shows "tracks (insert k A) vs' (update_extremes vs c k p)"
  using assms by (auto simp: tracks_def intro!: least_x.tracked_insert least_y.tracked_insert
      greatest_x.tracked_insert greatest_y.tracked_insert)

lemma tracks_image:
  assumes "tracks A vs p" "inj_on f A" "\<And>i. i \<in> A \<Longrightarrow> vs' ! f i = vs ! i"
  shows "tracks (f ` A) vs' (map_extremes f p)"
  using assms by (auto simp: tracks_def intro!: least_x.tracked_image least_y.tracked_image
      greatest_x.tracked_image greatest_y.tracked_image)

lemma tracks_append:
  assumes "well_tracked p" "exact_point c"
  shows "well_tracked (polygon_append c p)"
proof -
  let ?n = "length (vertices p)"
  have "tracks (insert ?n {..<?n}) (vertices p @ [c]) (update_extremes (vertices p) c ?n q)"
    if "tracks {..<?n} (vertices p) q" for q
    using that assms by (intro tracks_insert) (auto simp: nth_append)
  moreover have "insert ?n {..<?n} = {..<Suc ?n}" by auto
  moreover obtain q where "polygon_append c p = (update_extremes (vertices p) c ?n q)\<lparr>vertices := vertices p @ [c]\<rparr>"
      "q = p \<or> q = forget_caches p"
    by (rule that[of "if vertices p \<noteq> [] \<and> (last (vertices p) = c \<or> hd (vertices p) = c) then p else forget_caches p"])
      (simp_all add: polygon_append_def Let_def)
  ultimately show ?thesis
    using assms by (auto simp: well_tracked_def)
qed

lemma tracks_insert_vertex:
  assumes "well_tracked p" "exact_point c"
  shows "well_tracked (polygon_insert k c p)"
proof (cases "k < length (vertices p)")
  case False
  then show ?thesis using tracks_append[OF assms] by (simp add: polygon_insert_def Let_def)
next
  case True
  let ?n = "length (vertices p)" and ?vs = "take k (vertices p) @ c # drop k (vertices p)"
  let ?f = "\<lambda>i. if i \<ge> k then i + 1 else i"
  have nth: "?vs ! ?f i = vertices p ! i" if "i \<in> {..<?n}" for i
    using that True by (auto simp: nth_append nth_Cons' min_def)
  have image: "?f ` {..<?n} = {..<Suc ?n} - {k}"
  proof
    show "{..<Suc ?n} - {k} \<subseteq> ?f ` {..<?n}"
    proof
      fix i assume "i \<in> {..<Suc ?n} - {k}"
      then show "i \<in> ?f ` {..<?n}" using True by (intro image_eqI[where x = "if i > k then i - 1 else i"]) auto
    qed
  qed auto
  have "tracks (insert k ({..<Suc ?n} - {k})) ?vs (update_extremes ?vs c k (map_extremes ?f q))"
    if "tracks {..<?n} (vertices p) q" for q
    using tracks_image[OF that _ nth] True assms(2) image
    by (intro tracks_insert) (auto simp: inj_on_def nth_append min_def split: if_splits)
  moreover have "insert k ({..<Suc ?n} - {k}) = {..<Suc ?n}" using True by auto
  ultimately have "tracks {..<Suc ?n} ?vs (update_extremes ?vs c k (map_extremes ?f q))"
    if "tracks {..<?n} (vertices p) q" for q
    using that by simp
  moreover have "list_all exact_point ?vs"
    using assms by (auto simp: well_tracked_def list_all_iff dest: in_set_takeD in_set_dropD)
  moreover obtain q where "polygon_insert k c p = update_extremes ?vs c k (map_extremes ?f (q\<lparr>vertices := ?vs\<rparr>))"
      "q = p \<or> q = forget_caches p"
    by (rule that[of "if vertices p ! ((k + ?n - 1) mod ?n) \<noteq> c \<and> vertices p ! ((k + 1) mod ?n) \<noteq> c then forget_caches p else p"])
      (use True in \<open>simp_all add: polygon_insert_def Let_def\<close>)
  ultimately show ?thesis using assms True by (auto simp: well_tracked_def)
qed

lemma all_extremes_tracks:
  assumes "list_all exact_point (vertices p)"
  shows "well_tracked (all_extremes p)"
proof -
  let ?vs = "vertices p" and ?p = "p\<lparr>minX := [], maxX := [], minY := [], maxY := []\<rparr>"
  let ?f = "\<lambda>n. fold (\<lambda>i p. update_extremes (vertices p) (vertices p ! i) i p) [0..<n] ?p"
  have "vertices (?f n) = ?vs \<and> minX (?f n) = fold (\<lambda>i. update_minX ?vs (round_dbl (fst (?vs ! i))) i) [0..<n] [] \<and>
      minY (?f n) = fold (\<lambda>i. update_minY ?vs (round_dbl (snd (?vs ! i))) i) [0..<n] [] \<and>
      maxX (?f n) = fold (\<lambda>i. update_maxX ?vs (round_dbl (fst (?vs ! i))) i) [0..<n] [] \<and>
      maxY (?f n) = fold (\<lambda>i. update_maxY ?vs (round_dbl (snd (?vs ! i))) i) [0..<n] []" for n
    by (induction n) simp_all
  from this[of "length ?vs"] show ?thesis
    using assms least_x.tracked_all[OF assms order_refl] least_y.tracked_all[OF assms order_refl]
      greatest_x.tracked_all[OF assms order_refl] greatest_y.tracked_all[OF assms order_refl]
    by (simp add: well_tracked_def tracks_def all_extremes_def)
qed

lemma erased_nth:
  "e < length vs \<Longrightarrow> i < length vs \<Longrightarrow> i \<noteq> e \<Longrightarrow>
     (take e vs @ drop (e + 1) vs) ! (if i > e then i - 1 else i) = vs ! i"
  by (auto simp: nth_append min_def)

lemma tracks_remove:
  assumes "finite A" "A \<noteq> {}" "tracks A vs p" "e \<in> A"
    and "fst (vs ! e) \<noteq> fst (vs ! hd (minX p))" "fst (vs ! e) \<noteq> fst (vs ! hd (maxX p))"
    and "snd (vs ! e) \<noteq> snd (vs ! hd (minY p))" "snd (vs ! e) \<noteq> snd (vs ! hd (maxY p))"
  shows "tracks (A - {e}) vs p"
  using assms by (auto simp: tracks_def intro!: least_x.tracked_remove least_y.tracked_remove
      greatest_x.tracked_remove greatest_y.tracked_remove)

lemma tracks_erase:
  assumes "well_tracked p"
  shows "well_tracked (polygon_erase k p)"
proof (cases "vertices p = []")
  case True
  then show ?thesis using assms by (simp add: polygon_erase_def)
next
  case False
  let ?vs = "vertices p"
  let ?e = "if k \<ge> length ?vs then length ?vs - 1 else k"
  let ?f = "\<lambda>i. if i > ?e then i - 1 else i"
  define ws where "ws = take ?e ?vs @ drop (?e + 1) ?vs"
  define q where "q = forget_caches (p\<lparr>vertices := ws\<rparr>)"
  define extreme where "extreme \<longleftrightarrow> fst (?vs ! ?e) = fst (?vs ! hd (maxX p)) \<or> fst (?vs ! ?e) = fst (?vs ! hd (minX p)) \<or>
     snd (?vs ! ?e) = snd (?vs ! hd (maxY p)) \<or> snd (?vs ! ?e) = snd (?vs ! hd (minY p))"
  have e: "?e < length ?vs" using False by auto
  have ws: "list_all exact_point ws"
    using assms by (auto simp: ws_def well_tracked_def list_all_iff dest: in_set_takeD in_set_dropD)
  have len: "length ws = length ?vs - 1" unfolding ws_def using e by simp
  have erase: "polygon_erase k p = (if extreme then all_extremes q else map_extremes ?f q)"
    using False by (simp add: polygon_erase_def Let_def q_def ws_def extreme_def)
  show ?thesis
  proof (cases extreme)
    case True
    then show ?thesis using all_extremes_tracks[of q] ws by (simp add: erase q_def)
  next
    case inner: False
    have "tracks {..<length ?vs} ?vs p" using assms by (simp add: well_tracked_def)
    then have "tracks ({..<length ?vs} - {?e}) ?vs p"
      by (rule tracks_remove[rotated 2]) (use False e inner in \<open>auto simp: extreme_def\<close>)
    then have "tracks (?f ` ({..<length ?vs} - {?e})) ws (map_extremes ?f q)"
      unfolding q_def ws_def
      by (intro tracks_image) (use e erased_nth[OF e] in \<open>auto simp: inj_on_def split: if_splits\<close>)
    moreover have "?f ` ({..<length ?vs} - {?e}) = {..<length ws}"
    proof
      show "?f ` ({..<length ?vs} - {?e}) \<subseteq> {..<length ws}" using e unfolding len by auto
      show "{..<length ws} \<subseteq> ?f ` ({..<length ?vs} - {?e})"
      proof
        fix i assume "i \<in> {..<length ws}"
        then show "i \<in> ?f ` ({..<length ?vs} - {?e})" unfolding len
          by (intro image_eqI[where x = "if i \<ge> ?e then i + 1 else i"]) auto
      qed
    qed
    ultimately show ?thesis using inner ws by (simp add: well_tracked_def erase q_def)
  qed
qed

text \<open>The operations that change the vertices, and any sequence of them on a new polygon.\<close>

datatype vertex_op = Append point | Insert nat point | Erase nat

fun apply_op :: "vertex_op \<Rightarrow> polygon \<Rightarrow> polygon" where
  "apply_op (Append c) p = polygon_append c p"
| "apply_op (Insert k c) p = polygon_insert k c p"
| "apply_op (Erase k) p = polygon_erase k p"

fun op_exact :: "vertex_op \<Rightarrow> bool" where
  "op_exact (Append c) = exact_point c"
| "op_exact (Insert k c) = exact_point c"
| "op_exact (Erase k) = True"

lemma reachable_well_tracked: "list_all op_exact ops \<Longrightarrow> well_tracked (fold apply_op ops Polygon)"
proof (induction ops rule: rev_induct)
  case Nil
  then show ?case
    by (simp add: Polygon_def well_tracked_def tracks_def least_x.tracked_def least_y.tracked_def
        greatest_x.tracked_def greatest_y.tracked_def)
next
  case (snoc x ops)
  then show ?case
    by (cases x) (simp_all add: tracks_append tracks_insert_vertex tracks_erase)
qed


lemma exact_grid: "exact_point (of_int x, of_int y)" if "\<bar>x\<bar> < 2 ^ 53" "\<bar>y\<bar> < 2 ^ 53"
  using that by (simp add: exact_point_def)


end
