(* ===== verification/Polygon_Properties.thy ===== *)
theory Polygon_Properties
  imports Polygon_Extremes Geometry_Properties
begin

text \<open>
  What the validity test and the orientation of a polygon say, that the test reads no vertex outside the polygon,
  and where areas, comparisons and caches do something else than their names say.
\<close>

section \<open>The validity test\<close>

text \<open>The scan never reads past the last vertex: the last one differs from its predecessor, and the loop ends before it.\<close>

lemma last_segment_le: "last_segment vs k \<le> k"
  by (induction vs k rule: last_segment.induct) (subst last_segment.simps, auto)

lemma last_segment_differs:
  "1 < last_segment vs k \<Longrightarrow>
     vs ! last_segment vs k \<noteq> vs ! ((last_segment vs k - 1 + length vs) mod length vs) \<and> vs ! last_segment vs k \<noteq> vs ! 0"
proof (induction vs k rule: last_segment.induct)
  case (1 vs k)
  show ?case
  proof (cases "k > 1 \<and> (vs ! k = vs ! ((k - 1 + length vs) mod length vs) \<or> vs ! k = vs ! 0)")
    case True
    then have eq: "last_segment vs k = last_segment vs (k - 1)" by (subst last_segment.simps) (simp only: if_True simp_thms)
    show ?thesis using 1(1)[OF True] 1(2) unfolding eq by blast
  next
    case False
    then have "last_segment vs k = k" by (subst last_segment.simps) (simp only: if_False)
    then show ?thesis using 1(2) False by (simp only: de_Morgan_conj de_Morgan_disj) blast
  qed
qed

lemma first_segment_before:
  "vs ! (l - 1) \<noteq> vs ! l \<Longrightarrow> 0 < l \<Longrightarrow> k < l \<Longrightarrow> first_segment vs l k < l"
proof (induction vs l k rule: first_segment.induct)
  case (1 vs l k)
  show ?case
  proof (cases "vs ! k = vs ! (k + 1)")
    case True
    then have "k + 1 \<noteq> l" using 1(2) by auto
    then show ?thesis using 1 True by (subst first_segment.simps) simp
  qed (use 1 in \<open>subst first_segment.simps; simp\<close>)
qed

lemma skip_equal_before:
  assumes "l < length vs" "vs ! (l - 1) \<noteq> vs ! l" "i < l"
  shows "\<exists>k. skip_equal vs l i = Defined k \<and> i \<le> k \<and> k < l"
  using assms
proof (induction vs l i rule: skip_equal.induct)
  case (1 vs l i)
  show ?case
  proof (cases "vs ! i = vs ! (i + 1)")
    case True
    then have "i + 1 \<noteq> l" using 1(3) by auto
    then have "\<exists>k. skip_equal vs l (i + 1) = Defined k \<and> i + 1 \<le> k \<and> k < l" using 1 True by simp
    then show ?thesis using True 1(2,4) by (subst skip_equal.simps) auto
  next
    case False
    then show ?thesis using 1(2,4) by (subst skip_equal.simps) auto
  qed
qed

lemma skip_adjacent_ge: "j \<le> skip_adjacent vs i l j"
  by (induction vs i l j rule: skip_adjacent.induct) (subst skip_adjacent.simps, auto)

lemma no_crossing_defined:
  assumes "l < length vs" "vs ! (l - 1) \<noteq> vs ! l" "i < l"
  shows "no_crossing vs f l i \<noteq> OutOfBounds"
  using assms
proof (induction vs f l i rule: no_crossing.induct)
  case (1 vs f l i)
  obtain k where k: "skip_equal vs l i = Defined k" "i \<le> k" "k < l" using skip_equal_before 1(2-4) by blast
  define jl j where "jl = (if k = f then l - 1 else l)" and "j = skip_adjacent vs k jl (k + 2)"
  have "k + 2 \<le> j" unfolding j_def by (rule skip_adjacent_ge)
  show ?case
  proof (cases "j > jl \<or> meets_edge vs \<lparr>line_first = vs ! k, line_second = vs ! (k + 1)\<rparr> l jl j")
    case True
    then show ?thesis using k 1(4) by (subst no_crossing.simps) (auto simp: Let_def jl_def j_def)
  next
    case False
    then have "k + 1 < l" using \<open>k + 2 \<le> j\<close> by (auto simp: jl_def split: if_splits)
    then have "no_crossing vs f l (k + 1) \<noteq> OutOfBounds"
      using 1(1)[OF _ k(1) _ jl_def j_def] False k 1(2-4) by simp
    then show ?thesis using False k 1(4) by (subst no_crossing.simps) (auto simp: Let_def jl_def j_def)
  qed
qed

lemma check_valid_defined: "check_valid vs \<noteq> OutOfBounds"
proof -
  define l where "l = last_segment vs (length vs - 1)"
  have "no_crossing vs f l (first_segment vs l 0) \<noteq> OutOfBounds" if "3 \<le> length vs" "2 \<le> l" for f
  proof -
    have l: "l < length vs" using last_segment_le[of vs "length vs - 1"] that by (simp add: l_def)
    have "vs ! l \<noteq> vs ! ((l - 1 + length vs) mod length vs)"
      unfolding l_def by (rule conjunct1[OF last_segment_differs]) (use that(2) l_def in simp)
    moreover have "(l - 1 + length vs) mod length vs = l - 1" using l by simp
    ultimately have "vs ! (l - 1) \<noteq> vs ! l" by metis
    then show ?thesis using l that first_segment_before[of vs l 0] by (intro no_crossing_defined) auto
  qed
  then show ?thesis by (auto simp: check_valid_def Let_def l_def)
qed

text \<open>Polygons without equal neighbours, and their edges that are not adjacent.\<close>

definition proper_vertices :: "point list \<Rightarrow> bool" where
  "proper_vertices vs \<longleftrightarrow> 3 \<le> length vs \<and> list_all grid_point vs \<and>
     (\<forall>i < length vs. vs ! i \<noteq> vs ! ((i + 1) mod length vs))"

definition simple_polygon :: "point list \<Rightarrow> bool" where
  "simple_polygon vs \<longleftrightarrow> (\<forall>j < length vs. \<forall>i < j. i + 1 \<noteq> j \<and> \<not> (i = 0 \<and> j = length vs - 1) \<longrightarrow>
     segment (vs ! i) (vs ! (i + 1)) \<inter> segment (vs ! j) (vs ! ((j + 1) mod length vs)) = {})"

lemma neighbours_differ:
  assumes "proper_vertices vs"
  shows "i < length vs \<Longrightarrow> vs ! i \<noteq> vs ! ((i + 1) mod length vs)"
    "i + 1 < length vs \<Longrightarrow> vs ! i \<noteq> vs ! (i + 1)" "vs ! (length vs - 1) \<noteq> vs ! 0"
proof -
  show differ: "i < length vs \<Longrightarrow> vs ! i \<noteq> vs ! ((i + 1) mod length vs)" for i
    using assms unfolding proper_vertices_def by blast
  show "i + 1 < length vs \<Longrightarrow> vs ! i \<noteq> vs ! (i + 1)" using differ[of i] by simp
  show "vs ! (length vs - 1) \<noteq> vs ! 0"
    using differ[of "length vs - 1"] assms by (cases vs) (auto simp: proper_vertices_def)
qed

lemma no_skips:
  assumes "proper_vertices vs"
  shows "last_segment vs (length vs - 1) = length vs - 1" "first_segment vs (length vs - 1) 0 = 0"
    "i + 1 < length vs \<Longrightarrow> skip_equal vs (length vs - 1) i = Defined i"
    "i + 2 < length vs \<Longrightarrow> skip_adjacent vs i jl (i + 2) = i + 2"
    "j < length vs \<Longrightarrow> skip_repeated vs (length vs - 1) j = j"
proof -
  have n: "3 \<le> length vs" using assms by (simp add: proper_vertices_def)
  have "length vs - 1 - 1 + length vs = length vs - 2 + length vs" by simp
  then have "(length vs - 1 - 1 + length vs) mod length vs = length vs - 2"
    using n by (simp only: mod_add_self2) simp
  moreover have "vs ! (length vs - 1) \<noteq> vs ! (length vs - 2)"
    using neighbours_differ(2)[OF assms, of "length vs - 2"] n by (fastforce simp: Suc_diff_Suc numeral_2_eq_2)
  ultimately show "last_segment vs (length vs - 1) = length vs - 1"
    using neighbours_differ(3)[OF assms] by (subst last_segment.simps) presburger
  show "first_segment vs (length vs - 1) 0 = 0"
    using neighbours_differ(2)[OF assms, of 0] n by (subst first_segment.simps) simp
  show "i + 1 < length vs \<Longrightarrow> skip_equal vs (length vs - 1) i = Defined i"
    using neighbours_differ(2)[OF assms, of i] by (subst skip_equal.simps) simp
  show "i + 2 < length vs \<Longrightarrow> skip_adjacent vs i jl (i + 2) = i + 2"
    using neighbours_differ(2)[OF assms, of "i + 1"] by (subst skip_adjacent.simps) simp
  show "j < length vs \<Longrightarrow> skip_repeated vs (length vs - 1) j = j"
    using neighbours_differ(1)[OF assms, of j] by (subst skip_repeated.simps) simp
qed

lemma meets_edge_iff:
  assumes "proper_vertices vs" "jl < length vs"
  shows "meets_edge vs x (length vs - 1) jl j \<longleftrightarrow> (\<exists>k \<in> {j..jl}. intersects x (edge vs k))"
proof (induction "jl + 1 - j" arbitrary: j)
  case 0
  then show ?case by (subst meets_edge.simps) auto
next
  case (Suc m)
  then have j: "j \<le> jl" by simp
  have "{j..jl} = insert j {j + 1..jl}" using j by auto
  then show ?case
    using j no_skips(5)[OF assms(1), of j] assms(2) Suc(1)[of "j + 1"] Suc(2)
    by (subst meets_edge.simps) (auto simp: Let_def)
qed

text \<open>The pairs of edges that the scan compares from \<open>i\<close> on.\<close>

definition apart_from :: "point list \<Rightarrow> nat \<Rightarrow> bool" where
  "apart_from vs i \<longleftrightarrow> (\<forall>k \<ge> i. \<forall>j < length vs. k + 2 \<le> j \<and> \<not> (k = 0 \<and> j = length vs - 1) \<longrightarrow>
     \<not> intersects \<lparr>line_first = vs ! k, line_second = vs ! (k + 1)\<rparr> (edge vs j))"

lemma from_next: "(\<forall>k \<ge> i. Q k) \<longleftrightarrow> Q i \<and> (\<forall>k \<ge> i + 1. Q (k :: nat))"
  using le_eq_less_or_eq[of i] Suc_le_eq[of i] by auto

lemma no_crossing_iff:
  assumes "proper_vertices vs" "i + 1 < length vs"
  shows "no_crossing vs 0 (length vs - 1) i = Defined (apart_from vs i)"
  using assms(2)
proof (induction "length vs - i" arbitrary: i)
  case 0
  then show ?case by simp
next
  case (Suc m)
  let ?n = "length vs" and ?x = "\<lparr>line_first = vs ! i, line_second = vs ! (i + 1)\<rparr>"
  define jl where "jl = (if i = 0 then ?n - 1 - 1 else ?n - 1)"
  have n: "3 \<le> ?n" using assms(1) by (simp add: proper_vertices_def)
  have j: "skip_adjacent vs i jl (i + 2) = i + 2 \<or> i + 2 = ?n"
    using no_skips(4)[OF assms(1), of i jl] Suc(3) by linarith
  show ?case
  proof (cases "i + 2 \<le> jl")
    case False
    then have "skip_adjacent vs i jl (i + 2) = i + 2" by (subst skip_adjacent.simps) simp
    moreover have "apart_from vs i"
      using False Suc(3) n unfolding apart_from_def jl_def by (auto split: if_splits)
    ultimately show ?thesis
      using False Suc(3) no_skips(3)[OF assms(1) Suc(3)] by (subst no_crossing.simps) (simp add: jl_def Let_def)
  next
    case True
    then have lt: "i + 2 < ?n" "jl < ?n" by (auto simp: jl_def split: if_splits)
    have range: "(\<forall>j < ?n. i + 2 \<le> j \<and> \<not> (i = 0 \<and> j = ?n - 1) \<longrightarrow> P j) \<longleftrightarrow> (\<forall>j \<in> {i + 2..jl}. P j)" for P
      using n by (auto simp: jl_def)
    have "apart_from vs i \<longleftrightarrow> (\<forall>j \<in> {i + 2..jl}. \<not> intersects ?x (edge vs j)) \<and> apart_from vs (i + 1)"
      unfolding range[symmetric] apart_from_def by (subst from_next) simp
    moreover have "no_crossing vs 0 (?n - 1) (i + 1) = Defined (apart_from vs (i + 1))"
      using Suc(1)[of "i + 1"] Suc(2) lt by simp
    ultimately show ?thesis
      using True Suc(3) j lt no_skips(3)[OF assms(1) Suc(3)] meets_edge_iff[OF assms(1) lt(2), of ?x "i + 2"]
      by (subst no_crossing.simps) (auto simp: jl_def[symmetric] Let_def)
  qed
qed

lemma apart_simple:
  assumes "proper_vertices vs"
  shows "apart_from vs 0 \<longleftrightarrow> simple_polygon vs"
proof -
  have grid: "grid_point (vs ! i)" if "i < length vs" for i
    using assms that by (auto simp: proper_vertices_def list_all_length)
  have meet: "intersects \<lparr>line_first = vs ! k, line_second = vs ! (k + 1)\<rparr> (edge vs j) \<longleftrightarrow>
      segment (vs ! k) (vs ! (k + 1)) \<inter> segment (vs ! j) (vs ! ((j + 1) mod length vs)) \<noteq> {}"
    if "k + 1 < length vs" "j < length vs" for k j
  proof -
    have "(j + 1) mod length vs < length vs" by (rule mod_less_divisor) (use that in linarith)
    then show ?thesis
      using intersects_exact[of "\<lparr>line_first = vs ! k, line_second = vs ! (k + 1)\<rparr>" "edge vs j"] that grid
      by (simp add: edge_def)
  qed
  have "apart_from vs 0 \<longleftrightarrow> (\<forall>j < length vs. \<forall>k < j. k + 1 \<noteq> j \<and> \<not> (k = 0 \<and> j = length vs - 1) \<longrightarrow>
      \<not> intersects \<lparr>line_first = vs ! k, line_second = vs ! (k + 1)\<rparr> (edge vs j))"
  proof -
    have "k + 2 \<le> j \<longleftrightarrow> k < j \<and> k + 1 \<noteq> j" for k j :: nat by linarith
    then show ?thesis unfolding apart_from_def by auto
  qed
  also have "\<dots> \<longleftrightarrow> simple_polygon vs"
    unfolding simple_polygon_def
  proof (intro all_cong imp_cong refl)
    fix j k assume "j < length vs" "k < j"
    then show "\<not> intersects \<lparr>line_first = vs ! k, line_second = vs ! (k + 1)\<rparr> (edge vs j) \<longleftrightarrow>
        segment (vs ! k) (vs ! (k + 1)) \<inter> segment (vs ! j) (vs ! ((j + 1) mod length vs)) = {}"
      using meet[of k j] by simp
  qed
  finally show ?thesis .
qed


definition triangle :: "point list" where
  "triangle = [(0, 0), (4, 0), (4, 3)]"

lemma triangle_proper: "proper_vertices triangle"
  by (auto simp: proper_vertices_def triangle_def grid_point_def less_Suc_eq nth_Cons')


section \<open>Orientation\<close>

text \<open>Twice the signed area; for small integral coordinates the sums are exact.\<close>

definition twice_area :: "point list \<Rightarrow> rat" where
  "twice_area vs = (\<Sum>i < length vs. snd (vs ! ((i + 1) mod length vs)) * fst (vs ! i) - snd (vs ! i) * fst (vs ! ((i + 1) mod length vs)))"

definition small_vertex :: "point \<Rightarrow> bool" where
  "small_vertex p \<longleftrightarrow> fst p \<in> \<int> \<and> snd p \<in> \<int> \<and> \<bar>fst p\<bar> \<le> 2 ^ 20 \<and> \<bar>snd p\<bar> \<le> 2 ^ 20"

lemma round_dbl_integral: "x \<in> \<int> \<Longrightarrow> \<bar>x\<bar> < 2 ^ 53 \<Longrightarrow> round_dbl x = x"
  using round_dbl_of_int of_int_less_iff[of "\<bar>_\<bar>" "2 ^ 53", where 'a = rat] by (auto elim!: Ints_cases)

lemma small_products:
  assumes "small_vertex a" "small_vertex b"
  shows "lmul (snd b) (fst a) = snd b * fst a" "snd b * fst a \<in> \<int>" "\<bar>snd b * fst a\<bar> \<le> 2 ^ 40"
proof -
  show int: "snd b * fst a \<in> \<int>" using assms by (simp add: small_vertex_def)
  have "\<bar>snd b\<bar> * \<bar>fst a\<bar> \<le> 2 ^ 20 * 2 ^ 20" using assms by (intro mult_mono) (auto simp: small_vertex_def)
  then show le: "\<bar>snd b * fst a\<bar> \<le> 2 ^ 40" by (simp add: abs_mult)
  show "lmul (snd b) (fst a) = snd b * fst a" unfolding lmul_def using int le by (intro round_ldbl_int) auto
qed

lemma twice_area_prefix:
  assumes "list_all small_vertex vs" "length vs \<le> 2 ^ 10" "k \<le> length vs"
  defines "S \<equiv> \<lambda>k. \<Sum>i < k. snd (vs ! ((i + 1) mod length vs)) * fst (vs ! i) - snd (vs ! i) * fst (vs ! ((i + 1) mod length vs))"
  shows "foldl (twice_area_step vs) 0 [0..<k] = S k \<and> S k \<in> \<int> \<and> \<bar>S k\<bar> \<le> of_nat k * 2 ^ 41"
  using assms(3)
proof (induction k)
  case 0
  then show ?case by (simp add: S_def)
next
  case (Suc k)
  let ?a = "vs ! k" and ?b = "vs ! ((k + 1) mod length vs)"
  have "(k + 1) mod length vs < length vs" by (rule mod_less_divisor) (use Suc(2) in linarith)
  then have ab: "small_vertex ?a" "small_vertex ?b" using assms(1) Suc(2) by (auto simp: list_all_length)
  let ?t = "snd ?b * fst ?a - snd ?a * fst ?b"
  have t: "?t \<in> \<int>" "\<bar>?t\<bar> \<le> 2 ^ 41"
    using small_products(2,3)[OF ab] small_products(2,3)[OF ab(2,1)] by (auto simp: abs_le_iff)
  have lt: "lsub (lmul (snd ?b) (fst ?a)) (lmul (snd ?a) (fst ?b)) = ?t"
    unfolding small_products(1)[OF ab] small_products(1)[OF ab(2,1)] lsub_def using t by (intro round_ldbl_int) auto
  have IH: "foldl (twice_area_step vs) 0 [0..<k] = S k" "S k \<in> \<int>" "\<bar>S k\<bar> \<le> of_nat k * 2 ^ 41" using Suc by simp_all
  have S: "S (Suc k) = S k + ?t" by (simp add: S_def)
  have le: "\<bar>S k + ?t\<bar> \<le> of_nat (Suc k) * 2 ^ 41" using IH(3) t(2) by (auto simp: abs_le_iff algebra_simps)
  have "of_nat (Suc k) \<le> (of_nat (2 ^ 10) :: rat)" using assms(2) Suc(2) by (intro of_nat_mono) linarith
  then have "of_nat (Suc k) * 2 ^ 41 \<le> (2 ^ 51 :: rat)" by simp
  then have le2: "\<bar>S k + ?t\<bar> \<le> 2 ^ 51" using le by linarith
  have int: "S k + ?t \<in> \<int>" using IH(2) t(1) by simp
  have "round_dbl (ladd (S k) ?t) = S k + ?t"
    unfolding ladd_def using int le2 by (simp add: round_ldbl_int round_dbl_integral)
  then have "twice_area_step vs (S k) k = S k + ?t" by (simp only: twice_area_step_def Let_def lt)
  then show ?case using IH(1) int le by (simp add: S)
qed

lemma round_dbl_le: "\<bar>round_dbl x\<bar> \<le> 5 / 4 * \<bar>x\<bar>"
proof -
  have "\<bar>round_dbl x\<bar> \<le> \<bar>x\<bar> + \<bar>x\<bar> / 2 ^ 53" using round_dbl_error[of x] by linarith
  also have "\<dots> \<le> 5 / 4 * \<bar>x\<bar>" by simp
  finally show ?thesis .
qed

lemma tolerance_product:
  assumes "\<bar>scale\<bar> \<le> 2 ^ 40" "n \<le> 2 ^ 10"
  shows "fmul (fmul dbl_epsilon scale) (dbl_of (int n)) < 1"
proof -
  have n: "dbl_of (int n) = of_nat n" using assms(2) by simp
  have "\<bar>fmul dbl_epsilon scale\<bar> \<le> 5 / 4 * \<bar>dbl_epsilon * scale\<bar>" unfolding fmul_def by (rule round_dbl_le)
  also have "\<dots> \<le> 5 / 4 * (1 / 2 ^ 52 * 2 ^ 40)" using assms(1) by (simp add: dbl_epsilon_def abs_mult)
  finally have e: "\<bar>fmul dbl_epsilon scale\<bar> \<le> 5 / 2 ^ 14" by simp
  have "of_nat n \<le> (of_nat (2 ^ 10) :: rat)" using assms(2) by (intro of_nat_mono)
  then have "\<bar>fmul dbl_epsilon scale\<bar> * of_nat n \<le> 5 / 2 ^ 14 * 2 ^ 10" using e by (intro mult_mono) auto
  then have "\<bar>fmul dbl_epsilon scale * of_nat n\<bar> \<le> 5 / 16" by (simp add: abs_mult)
  then have "\<bar>fmul (fmul dbl_epsilon scale) (of_nat n)\<bar> \<le> 5 / 4 * (5 / 16)"
    unfolding fmul_def[of "fmul dbl_epsilon scale"] using round_dbl_le[of "fmul dbl_epsilon scale * of_nat n"] by linarith
  then show ?thesis unfolding n by linarith
qed

lemma scale_small:
  assumes "well_tracked p" "list_all small_vertex (vertices p)" "vertices p \<noteq> []"
  shows "\<bar>coordinate_scale p\<bar> \<le> 2 ^ 40"
proof -
  let ?A = "{..<length (vertices p)}"
  have A: "finite ?A" "?A \<noteq> {}" using assms(3) by auto
  have hd: "hd (minX p) < length (vertices p)" "hd (maxX p) < length (vertices p)"
    "hd (minY p) < length (vertices p)" "hd (maxY p) < length (vertices p)"
    using assms(1) least_x.tracked_hd[OF A] greatest_x.tracked_hd[OF A] least_y.tracked_hd[OF A] greatest_y.tracked_hd[OF A]
    by (fastforce simp: well_tracked_def tracks_def)+
  define a b where "a = max \<bar>snd (vertices p ! hd (maxY p))\<bar> \<bar>snd (vertices p ! hd (minY p))\<bar>"
    and "b = max \<bar>fst (vertices p ! hd (maxX p))\<bar> \<bar>fst (vertices p ! hd (minX p))\<bar>"
  have "small_vertex (b, a)"
    using assms(2) hd by (auto simp: a_def b_def small_vertex_def list_all_length max_def)
  then have ab: "lmul a b = a * b" "a * b \<in> \<int>" "\<bar>a * b\<bar> \<le> 2 ^ 40" using small_products[of "(b, a)" "(b, a)"] by simp_all
  have "coordinate_scale p = round_dbl (lmul a b)" by (simp add: coordinate_scale_def a_def b_def Let_def)
  also have "\<dots> = a * b" unfolding ab(1) using ab(2,3) by (intro round_dbl_integral) auto
  finally show ?thesis using ab(3) by simp
qed

lemma wise_defined_kept [simp]:
  "wise_defined (update_extremes vs c k p) = wise_defined p" "wise_defined (map_extremes f p) = wise_defined p"
  "wise_defined (forget_caches p) = False"
  by (simp_all add: update_extremes_def map_extremes_def forget_caches_def)

lemma wise_undefined_all: "\<not> wise_defined p \<Longrightarrow> \<not> wise_defined (all_extremes p)"
proof -
  have "\<not> wise_defined q \<Longrightarrow> \<not> wise_defined (fold (\<lambda>i p. update_extremes (vertices p) (vertices p ! i) i p) is q)" for q "is"
    by (induction "is" arbitrary: q) simp_all
  then show "\<not> wise_defined p \<Longrightarrow> \<not> wise_defined (all_extremes p)" by (simp add: all_extremes_def)
qed

lemma wise_undefined: "\<not> wise_defined p \<Longrightarrow> \<not> wise_defined (fold apply_op ops p)"
proof (induction ops arbitrary: p)
  case (Cons x ops)
  have "\<not> wise_defined (apply_op x p)"
    using Cons.prems by (cases x) (simp_all add: polygon_append_def polygon_insert_def polygon_erase_def Let_def wise_undefined_all)
  then show ?case using Cons.IH by simp
qed simp



section \<open>Where the functions do something else\<close>

text \<open>A degenerate polygon on an axis counts as clockwise: its tolerance is zero.\<close>

lemma flat_polygon_clockwise:
  "fst (is_clockwise (fold apply_op (map Append [(0, 0), (1, 0), (2, 0)]) Polygon))"
proof -
  let ?p = "fold apply_op (map Append [(0, 0), (1, 0), (2, 0)]) Polygon"
  have [simp]: "round_dbl 0 = 0" "round_dbl 1 = 1" "round_dbl 2 = 2" "round_ldbl 0 = 0"
    using round_dbl_integral[of 0] round_dbl_integral[of 1] round_dbl_integral[of 2] round_ldbl_int[of 0] by simp_all
  have "?p = Polygon\<lparr>vertices := [(0, 0), (1, 0), (2, 0)], minX := [0], maxX := [2], minY := [0, 1, 2], maxY := [0, 1, 2]\<rparr>"
    by (simp add: polygon_append_def Let_def Polygon_def update_extremes_def forget_caches_def update_minX_def
        update_maxX_def update_minY_def update_maxY_def)
  then show ?thesis
    by (simp add: is_clockwise_def Let_def Polygon_def coordinate_scale_def twice_area_step_def lmul_def lsub_def
        ladd_def fmul_def upt_rec)
qed

text \<open>The area and the perimeter are refused for valid polygons, and computed for those that are not.\<close>

lemma area_of_valid:
  assumes "is_valid p = Defined (True, q)" "\<not> area_defined p" "\<not> perimeter_defined q"
  shows "area p = Defined (None, q\<lparr>area_defined := False\<rparr>)" "perimeter sqrtl q = Defined (None, q\<lparr>perimeter_defined := False\<rparr>)"
proof -
  show "area p = Defined (None, q\<lparr>area_defined := False\<rparr>)" using assms by (simp add: area_def)
  have "is_valid q = Defined (True, q)"
    using assms(1) by (auto simp: is_valid_def split: if_splits)
  then show "perimeter sqrtl q = Defined (None, q\<lparr>perimeter_defined := False\<rparr>)" using assms(3) by (simp add: perimeter_def)
qed

text \<open>With one vertex the functions read the second.\<close>

lemma area_of_one_vertex:
  "area (polygon_append c Polygon) = OutOfBounds" "perimeter sqrtl (polygon_append c Polygon) = OutOfBounds"
  by (simp_all add: area_def perimeter_def polygon_append_def Let_def Polygon_def update_extremes_def forget_caches_def
      is_valid_def check_valid_def)

text \<open>A perimeter that has been computed is kept whatever becomes of the vertices.\<close>

lemma perimeter_kept_by_append:
  "perimeter_defined (polygon_append c p) = perimeter_defined p" "perimeter_value (polygon_append c p) = perimeter_value p"
  by (simp_all add: polygon_append_def Let_def update_extremes_def forget_caches_def)

lemma stale_perimeter:
  assumes "perimeter_defined p"
  shows "perimeter sqrtl (polygon_append c p) = Defined (Some (perimeter_value p), polygon_append c p)"
  using assms by (simp add: perimeter_def perimeter_kept_by_append)

text \<open>Inserting a vertex that equals the one after the next keeps the area, although the new edges enclose another one.\<close>

lemma stale_area:
  assumes "area_defined p" "k + 1 < length (vertices p)" "c = vertices p ! (k + 1)"
  shows "area (polygon_insert k c p) = Defined (Some (area_value p), polygon_insert k c p)"
  using assms by (simp add: area_def polygon_insert_def Let_def update_extremes_def map_extremes_def)

text \<open>
  Two valid polygons with as many vertices compare equal when their orientations and the positions of their extreme
  vertices agree; the coordinates are not compared.
\<close>

lemma equality_ignores_coordinates:
  assumes "valid_defined p" "valid p" "valid_defined q" "valid q" "wise_defined p" "wise_defined q"
    and "\<not> area_defined p" "\<not> area_defined q" "\<not> perimeter_defined p" "\<not> perimeter_defined q"
    and "length (vertices p) = length (vertices q)"
  shows "\<exists>p' q'. polygon_eq sqrtl p q = Defined (clockwise p = clockwise q \<and>
    minX p = minX q \<and> minY p = minY q \<and> maxX p = maxX q \<and> maxY p = maxY q, p', q')"
  using assms by (simp add: polygon_eq_def both_def is_valid_def is_clockwise_def area_def perimeter_def)

text \<open>A polygon is equivalent to another one whose first vertices it has; comparing with a single vertex does not end.\<close>

lemma skip_other_single:
  assumes "skip_other os inc j = Some k"
  shows "length os = 1 \<and> inc = 1 \<and> j = 0 \<longrightarrow> False"
  by (rule skip_other.raw_induct[OF _ assms]) (fastforce simp: next_index_def intro!: gr0I split: if_splits)

lemma single_vertex_never_ends: "skip_other [v] 1 0 = None"
  using skip_other_single[of "[v]" 1 0] by (cases "skip_other [v] 1 0") auto

lemma prefix_is_followed:
  assumes "distinct [a, b, c, d]"
  shows "follow [a, b, c] [a, b, c, d] 1 0 0 = Some True"
  using assms by (simp add: follow.simps skip_other.simps skip_this.simps next_index_def)

end
