(* ===== verification/Linear_Objects.thy ===== *)
theory Linear_Objects
  imports Main
begin

text \<open>
  Objects of linear algebra (\<open>linalgebra/LinearObject.h\<close>, \<open>RankDissolve.h\<close>, \<open>Matrix.h\<close>): arrays of several ranks that own
  their elements or view those of another object. The products, which the header leaves unfinished, are not here.
\<close>

section \<open>Objects and their memory\<close>

text \<open>
  The elements are in named arrays of a memory. An object that owns its elements has an array of its own and
  begins at its first element; a view is a pointer into an array, null at first. The template arguments are fields.
\<close>

type_synonym 'a memory = "nat \<Rightarrow> 'a list"

record LinearObject =
  view :: bool
  ranks :: "nat list"
  pointer :: "(nat \<times> nat) option"

definition total :: "LinearObject \<Rightarrow> nat" where
  "total x = foldr (*) (ranks x) 1"

definition order :: "LinearObject \<Rightarrow> nat" where
  "order x = length (ranks x)"

text \<open>The default constructor; an owner's elements are value-initialised in a new array \<open>b\<close>.\<close>

definition new_owner :: "'a \<Rightarrow> nat \<Rightarrow> nat list \<Rightarrow> 'a memory \<Rightarrow> LinearObject \<times> 'a memory" where
  "new_owner zero b rs M = (\<lparr>view = False, ranks = rs, pointer = Some (b, 0)\<rparr>, M(b := replicate (foldr (*) rs 1) zero))"

definition new_view :: "nat list \<Rightarrow> LinearObject" where
  "new_view rs = \<lparr>view = True, ranks = rs, pointer = None\<rparr>"

definition take_view :: "LinearObject \<Rightarrow> LinearObject" where
  "take_view x = (new_view (ranks x))\<lparr>pointer := pointer x\<rparr>"

text \<open>The elements that \<open>std::copy_n(data, total_, ...)\<close> reads.\<close>

definition elements :: "'a memory \<Rightarrow> LinearObject \<Rightarrow> 'a list option" where
  "elements M x = (case pointer x of None \<Rightarrow> None
     | Some (b, k) \<Rightarrow> if k + total x \<le> length (M b) then Some (take (total x) (drop k (M b))) else None)"

text \<open>Row-major position; missing indices count as 0.\<close>

fun offset_from :: "nat \<Rightarrow> nat list \<Rightarrow> nat list \<Rightarrow> nat" where
  "offset_from idx [] ids = idx"
| "offset_from idx (r # rs) [] = offset_from (idx * r) rs []"
| "offset_from idx (r # rs) (i # ids) = offset_from (idx * r + i) rs ids"

definition compute_offset :: "nat list \<Rightarrow> nat list \<Rightarrow> nat" where
  "compute_offset rs ids = offset_from 0 rs ids"

definition bounds_ok :: "nat list \<Rightarrow> nat list \<Rightarrow> bool" where
  "bounds_ok rs ids \<longleftrightarrow> (\<forall>k < min (length ids) (length rs). ids ! k < rs ! k)"

text \<open>
  \<open>element<IDS...>\<close> is refused by the compiler when there are too many indices or one is out of bounds: \<open>None\<close>.
  With all indices it is the element's place, otherwise a view without the first ranks.
\<close>

datatype element_ref = Place nat nat | Sub_object LinearObject

definition element :: "nat list \<Rightarrow> LinearObject \<Rightarrow> element_ref option" where
  "element ids x =
     (if length ids \<le> order x \<and> bounds_ok (ranks x) ids
      then case pointer x of None \<Rightarrow> None
         | Some (b, k) \<Rightarrow>
             if length ids = order x then Some (Place b (k + compute_offset (ranks x) ids))
             else Some (Sub_object \<lparr>view = True, ranks = drop (length ids) (ranks x),
                                     pointer = Some (b, k + compute_offset (ranks x) ids)\<rparr>)
      else None)"

text \<open>
  Assignment between objects of the same ranks. A view takes the place of the other object, which must not be
  constant unless it is a view; an owner copies the elements unless they are its own.
\<close>

definition assign :: "LinearObject \<Rightarrow> LinearObject \<Rightarrow> 'a memory \<Rightarrow> (LinearObject \<times> 'a memory) option" where
  "assign this other M =
     (if ranks this \<noteq> ranks other then None
      else if view this then Some (this\<lparr>pointer := pointer other\<rparr>, M)
      else if view other \<and> pointer other = pointer this then Some (this, M)
      else case (pointer this, elements M other) of
        (Some (b, 0), Some xs) \<Rightarrow> Some (this, M(b := xs @ drop (length xs) (M b)))
      | _ \<Rightarrow> None)"

definition assign_const :: "LinearObject \<Rightarrow> LinearObject \<Rightarrow> 'a memory \<Rightarrow> (LinearObject \<times> 'a memory) option" where
  "assign_const this other M = (if view this \<and> \<not> view other then None else assign this other M)"

text \<open>Construction from another object, in a new array \<open>b\<close> when the new object owns its elements.\<close>

definition construct :: "bool \<Rightarrow> nat \<Rightarrow> LinearObject \<Rightarrow> 'a memory \<Rightarrow> (LinearObject \<times> 'a memory) option" where
  "construct as_view b other M =
     (if as_view then if view other then Some (other, M) else None
      else case elements M other of None \<Rightarrow> None
         | Some xs \<Rightarrow> Some (\<lparr>view = False, ranks = ranks other, pointer = Some (b, 0)\<rparr>, M(b := xs)))"

definition linear_eq :: "'a memory \<Rightarrow> LinearObject \<Rightarrow> LinearObject \<Rightarrow> bool option" where
  "linear_eq M x y = (case (elements M x, elements M y) of (Some xs, Some ys) \<Rightarrow> Some (xs = ys) | _ \<Rightarrow> None)"

text \<open>The constructor of \<open>Matrix\<close> from an array of rows.\<close>

definition Matrix :: "nat \<Rightarrow> nat \<Rightarrow> nat \<Rightarrow> 'a list list \<Rightarrow> 'a memory \<Rightarrow> LinearObject \<times> 'a memory" where
  "Matrix b h v rows M = (\<lparr>view = False, ranks = [h, v], pointer = Some (b, 0)\<rparr>,
     M(b := map (\<lambda>k. rows ! (k div v) ! (k mod v)) [0..<h * v]))"

section \<open>Offsets\<close>

text \<open>The number of cells behind the first ranks.\<close>

abbreviation cells :: "nat list \<Rightarrow> nat" where
  "cells rs \<equiv> foldr (*) rs 1"

lemma offset_from_shift: "offset_from idx rs ids = idx * cells rs + offset_from 0 rs ids"
proof (induction rs arbitrary: idx ids)
  case (Cons r rs)
  show ?case
  proof (cases ids)
    case Nil
    then show ?thesis using Cons[of "idx * r" "[]"] by simp
  next
    case (Cons i ks)
    then show ?thesis using Cons.IH[of "idx * r + i" ks] Cons.IH[of i ks] by (simp add: algebra_simps)
  qed
qed simp

lemma compute_offset_simps [simp]:
  "compute_offset rs [] = 0" "compute_offset [] ids = 0"
  "compute_offset (r # rs) (i # ids) = i * cells rs + compute_offset rs ids"
proof -
  show "compute_offset rs [] = 0" unfolding compute_offset_def by (induction rs) simp_all
  show "compute_offset (r # rs) (i # ids) = i * cells rs + compute_offset rs ids"
    using offset_from_shift[of i rs ids] by (simp add: compute_offset_def)
qed (simp add: compute_offset_def)

lemma bounds_ok_simps [simp]:
  "bounds_ok rs []" "bounds_ok [] ids" "bounds_ok (r # rs) (i # ids) \<longleftrightarrow> i < r \<and> bounds_ok rs ids"
  by (auto simp: bounds_ok_def All_less_Suc2 nth_Cons')

lemma bounds_ok_append:
  "length ids \<le> length rs \<Longrightarrow> bounds_ok rs (ids @ js) \<longleftrightarrow> bounds_ok rs ids \<and> bounds_ok (drop (length ids) rs) js"
  by (induction rs ids rule: list_induct2') auto

lemma compute_offset_append:
  "length ids \<le> length rs \<Longrightarrow>
     compute_offset rs (ids @ js) = compute_offset rs ids + compute_offset (drop (length ids) rs) js"
  by (induction rs ids rule: list_induct2') auto

text \<open>A view that is cut out of an object lies within it.\<close>

lemma offset_within:
  "length ids \<le> length rs \<Longrightarrow> bounds_ok rs ids \<Longrightarrow> compute_offset rs ids + cells (drop (length ids) rs) \<le> cells rs"
proof (induction rs ids rule: list_induct2')
  case (4 r rs i ids)
  then have "compute_offset rs ids + cells (drop (length ids) rs) \<le> cells rs" "i < r" by simp_all
  moreover have "i * cells rs + cells rs \<le> r * cells rs"
    using \<open>i < r\<close> mult_le_mono1[of "Suc i" r "cells rs"] by simp
  ultimately show ?case by simp
qed simp_all

definition full_index :: "nat list \<Rightarrow> nat list \<Rightarrow> bool" where
  "full_index rs ids \<longleftrightarrow> length ids = length rs \<and> bounds_ok rs ids"

lemma full_offset_less: "full_index rs ids \<Longrightarrow> compute_offset rs ids < cells rs"
  using offset_within[of ids rs] by (simp add: full_index_def)

lemma full_offset_inj:
  "full_index rs ids \<Longrightarrow> full_index rs js \<Longrightarrow> compute_offset rs ids = compute_offset rs js \<Longrightarrow> ids = js"
proof (induction rs arbitrary: ids js)
  case (Cons r rs)
  obtain i ks j js' where eq: "ids = i # ks" "js = j # js'"
    using Cons.prems(1,2) by (auto simp: full_index_def length_Suc_conv)
  then have f: "full_index rs ks" "full_index rs js'" using Cons.prems by (auto simp: full_index_def)
  have c: "compute_offset rs ks < cells rs" "compute_offset rs js' < cells rs" using f[THEN full_offset_less] by blast+
  have "i * cells rs + compute_offset rs ks = j * cells rs + compute_offset rs js'" using Cons.prems(3) eq by simp
  then have "(i * cells rs + compute_offset rs ks) div cells rs = (j * cells rs + compute_offset rs js') div cells rs"
    "(i * cells rs + compute_offset rs ks) mod cells rs = (j * cells rs + compute_offset rs js') mod cells rs" by simp_all
  then have "i = j" "compute_offset rs ks = compute_offset rs js'" using c by simp_all
  then show ?case using Cons.IH[OF f] eq by simp
qed (simp add: full_index_def)

lemma full_offset_onto: "k < cells rs \<Longrightarrow> \<exists>ids. full_index rs ids \<and> compute_offset rs ids = k"
proof (induction rs arbitrary: k)
  case Nil
  then show ?case by (intro exI[of _ "[]"]) (simp add: full_index_def)
next
  case (Cons r rs)
  then have "0 < cells rs" by (cases "cells rs") auto
  then have "k mod cells rs < cells rs" by simp
  then obtain ids where "full_index rs ids" "compute_offset rs ids = k mod cells rs" using Cons.IH by blast
  moreover have "k div cells rs < r" using Cons.prems by (simp add: less_mult_imp_div_less)
  ultimately show ?case by (intro exI[of _ "k div cells rs # ids"]) (simp add: full_index_def)
qed

section \<open>Elements\<close>



text \<open>What is written through a view of a matrix is written to the matrix.\<close>

lemma view_aliases_owner:
  assumes "pointer x = Some (b, 0)" "length (M b) = total x" "full_index (ranks x) ids" "element ids (take_view x) = Some (Place c k)"
  shows "c = b" "k < length (M b)" "element ids x = Some (Place c k)"
  using assms full_offset_less[OF assms(3)]
  by (auto simp: element_def take_view_def new_view_def order_def total_def full_index_def split: if_splits)

text \<open>An owner that is assigned another object of the same ranks has its elements, and the other object keeps its own.\<close>

lemma assign_copies:
  assumes "\<not> view this" "pointer this = Some (b, 0)" "length (M b) = total this"
    and "pointer other = Some (c, k)" "c \<noteq> b" "elements M other = Some xs" "ranks this = ranks other"
  shows "\<exists>M'. assign this other M = Some (this, M') \<and> elements M' this = Some xs \<and> elements M' other = Some xs
     \<and> (\<forall>d. d \<noteq> b \<longrightarrow> M' d = M d)"
  using assms by (auto simp: assign_def elements_def total_def split: if_splits)

end
