(* ===== verification/Legacy_Floats.thy ===== *)
theory Legacy_Floats
  imports Double Byte_Order
begin

text \<open>
  Conversions of numbers from old formats (\<open>ibmtofloat.cpp\<close>, \<open>floattoieee.cpp\<close>), integer powers (\<open>int_pow.cpp\<close>) and
  the reading of integers from bytes (\<open>byte_read.h\<close>). The arithmetic is that of \<open>double\<close>, rounded as in \<open>Double\<close>.
\<close>

section \<open>Exact numbers\<close>

text \<open>An integer of 53 bits times a power of two is a \<open>double\<close>.\<close>

lemma dyadic_at:
  fixes x :: rat
  assumes "x = of_int n * 2 ^ a / 2 ^ b" "\<bar>n\<bar> < 2 ^ 53" "2 ^ 52 \<le> \<bar>x\<bar>"
  shows "x \<in> \<int>"
proof (cases "b \<le> a")
  case True
  then have "(2 :: rat) ^ a = 2 ^ (a - b) * 2 ^ b" by (simp flip: power_add)
  then have "x = of_int (n * 2 ^ (a - b))" unfolding assms(1) by simp
  then show ?thesis by simp
next
  case False
  then have "(2 :: rat) * 2 ^ a \<le> 2 ^ b" by (metis not_le one_le_numeral power_Suc power_increasing Suc_leI)
  then have "(2 :: rat) ^ a / 2 ^ b \<le> 1 / 2" by (simp add: field_simps)
  then have "of_int \<bar>n\<bar> * ((2 :: rat) ^ a / 2 ^ b) \<le> of_int \<bar>n\<bar> * (1 / 2)" by (intro mult_left_mono) simp_all
  then have "\<bar>x\<bar> \<le> of_int \<bar>n\<bar> / 2" unfolding assms(1) by (simp add: abs_mult abs_divide)
  moreover have "of_int \<bar>n\<bar> < (2 ^ 53 :: rat)" using assms(2) of_int_less_iff[of "\<bar>n\<bar>" "2 ^ 53", where 'a = rat] by simp
  ultimately show ?thesis using assms(3) by simp
qed

lemma round_dbl_dyadic:
  assumes "x = of_int n * 2 ^ a / 2 ^ b" "\<bar>n\<bar> < 2 ^ 53"
  shows "round_dbl x = x"
proof (cases "x = 0")
  case True
  then show ?thesis by (simp add: round_dbl_def scale_up.simps round_even_def)
next
  case x: False
  show ?thesis
  proof (cases "\<bar>x\<bar> < 2 ^ 53")
    case True
    define k where "k = scale_up \<bar>x\<bar> 0"
    have "2 ^ 52 \<le> \<bar>x * 2 ^ k\<bar>" using scale_up_range[of "\<bar>x\<bar>" 0] x True by (simp add: k_def abs_mult)
    moreover have "x * 2 ^ k = of_int n * 2 ^ (a + k) / 2 ^ b" by (simp add: assms(1) power_add)
    ultimately have "x * 2 ^ k \<in> \<int>" using assms(2) by (intro dyadic_at) auto
    then obtain m where "x * 2 ^ k = of_int m" by (elim Ints_cases)
    then have "of_int (round_even (x * 2 ^ k)) = x * 2 ^ k" by (simp only: round_even_of_int)
    then show ?thesis using True by (simp add: round_dbl_def Let_def k_def[symmetric])
  next
    case False
    define k where "k = scale_down \<bar>x\<bar> 0"
    have "2 ^ 52 \<le> \<bar>x / 2 ^ k\<bar>" using scale_down_range[of "\<bar>x\<bar>" 0] False by (simp add: k_def abs_divide)
    moreover have "x / 2 ^ k = of_int n * 2 ^ a / 2 ^ (b + k)" by (simp add: assms(1) power_add)
    ultimately have "x / 2 ^ k \<in> \<int>" using assms(2) by (intro dyadic_at) auto
    then obtain m where "x / 2 ^ k = of_int m" by (elim Ints_cases)
    then have "of_int (round_even (x / 2 ^ k)) = x / 2 ^ k" by (simp only: round_even_of_int)
    then show ?thesis using False by (simp add: round_dbl_def Let_def k_def[symmetric])
  qed
qed

section \<open>Powers\<close>

text \<open>The loop that both powers use: squaring and multiplying.\<close>

fun power_loop :: "nat \<Rightarrow> dbl \<Rightarrow> dbl \<Rightarrow> dbl" where
  "power_loop y x value =
     (if y = 0 then value
      else power_loop (y div 2) (fmul x x) (if odd y then fmul value x else value))"

declare power_loop.simps [simp del]

text \<open>\<open>int_power\<close>; the negation of the smallest \<open>int\<close> overflows, \<open>None\<close>.\<close>

definition int_power :: "dbl \<Rightarrow> int \<Rightarrow> dbl option" where
  "int_power x y =
     (if y = - (2 ^ 31) then None
      else if y < 0 then Some (power_loop (nat (- y)) (fdiv 1 x) 1) else Some (power_loop (nat y) x 1))"

lemma fmul_powers: "fmul (2 ^ a) (2 ^ b) = 2 ^ (a + b)" "fmul (1 / 2 ^ a) (1 / 2 ^ b) = 1 / 2 ^ (a + b)"
  "fdiv 1 (2 ^ a) = 1 / 2 ^ a"
proof -
  show "fmul (2 ^ a) (2 ^ b) = 2 ^ (a + b)"
    using round_dbl_dyadic[of "2 ^ (a + b)" 1 "a + b" 0] by (simp add: fmul_def power_add)
  show "fmul (1 / 2 ^ a) (1 / 2 ^ b) = 1 / 2 ^ (a + b)"
    using round_dbl_dyadic[of "1 / 2 ^ (a + b)" 1 0 "a + b"] by (simp add: fmul_def power_add)
  show "fdiv 1 (2 ^ a) = 1 / 2 ^ a"
    using round_dbl_dyadic[of "1 / 2 ^ a" 1 0 a] by (simp add: fdiv_def)
qed

lemma halves: "(a + a) * (y div 2) + (if odd y then b + a else b) = a * y + (b :: nat)"
  by (cases "odd y") (auto elim!: oddE evenE simp: algebra_simps)

lemma power_loop_powers:
  "power_loop y (2 ^ a) (2 ^ b) = 2 ^ (a * y + b) \<and> power_loop y (1 / 2 ^ a) (1 / 2 ^ b) = 1 / 2 ^ (a * y + b)"
proof (induction y arbitrary: a b rule: less_induct)
  case (less y a b)
  let ?b = "if odd y then b + a else b"
  show ?case
  proof (cases "y = 0")
    case False
    then have step: "power_loop y (2 ^ a) (2 ^ b) = power_loop (y div 2) (2 ^ (a + a)) (2 ^ ?b)"
      "power_loop y (1 / 2 ^ a) (1 / 2 ^ b) = power_loop (y div 2) (1 / 2 ^ (a + a)) (1 / 2 ^ ?b)"
      by (subst power_loop.simps, simp add: fmul_powers)+
    have "y div 2 < y" using False by simp
    from less[OF this, of "a + a" ?b] show ?thesis by (simp only: step halves)
  qed (simp add: power_loop.simps)
qed

lemma int_power_of_two:
  "0 \<le> y \<Longrightarrow> int_power (2 ^ a) y = Some (2 ^ (a * nat y))"
  "- (2 ^ 31) < y \<Longrightarrow> y < 0 \<Longrightarrow> int_power (2 ^ a) y = Some (1 / 2 ^ (a * nat (- y)))"
  using power_loop_powers[of "nat y" a 0] power_loop_powers[of "nat (- y)" a 0]
  by (simp_all add: int_power_def fmul_powers)

section \<open>Numbers in the format of IBM\<close>

text \<open>Four bytes: the sign and the exponent, and 24 bits of mantissa.\<close>

definition ibm2flt :: "byte list \<Rightarrow> dbl" where
  "ibm2flt ibm =
     (let mant = push_bit 16 (unat (ibm ! 1)) + push_bit 8 (unat (ibm ! 2)) + unat (ibm ! 3)
      in if mant = 0 then 0
         else let positive = (and (unat (ibm ! 0)) 0x80 = 0);
                  power = int (and (unat (ibm ! 0)) 0x7f) - 64;
                  abspower = (if power > 0 then nat power else nat (- power));
                  result = power_loop abspower 16 1;
                  result = (if power < 0 then fdiv 1 result else result);
                  result = fdiv (fmul result (of_int (int mant))) 16777216
              in if positive then result else - result)"

definition ibm_mantissa :: "byte list \<Rightarrow> nat" where
  "ibm_mantissa ibm = of_le_bytes [ibm ! 3, ibm ! 2, ibm ! 1]"

lemma ibm_mantissa_bound: "ibm_mantissa ibm < 2 ^ 24"
  using of_le_bytes_bound[of "[ibm ! 3, ibm ! 2, ibm ! 1]"] by (simp add: ibm_mantissa_def)

lemma ibm_first_byte:
  fixes b :: byte
  shows "and (unat b) 0x80 = 0 \<longleftrightarrow> unat b < 128" "and (unat b) 0x7f = unat b mod 128"
proof -
  have "and (unat b) (2 ^ 7) = 0 \<longleftrightarrow> \<not> bit (unat b) 7" by (rule and_exp_eq_0_iff_not_bit)
  moreover have "\<not> bit (unat b) 7 \<longleftrightarrow> unat b < 128"
  proof (cases "unat b < 128")
    case False
    then have "unat b div 128 = 1" using unat_byte_bound[of b] by simp
    then show ?thesis using False by (simp add: bit_iff_odd)
  qed (simp add: bit_iff_odd)
  ultimately show "and (unat b) 0x80 = 0 \<longleftrightarrow> unat b < 128" by simp
  have "and (unat b) (mask 7) = take_bit 7 (unat b)" by (rule take_bit_eq_mask[symmetric])
  then show "and (unat b) 0x7f = unat b mod 128" by (simp add: mask_eq_exp_minus_1 take_bit_eq_mod)
qed

lemma power_16: "power_loop n 16 1 = 2 ^ (4 * n)"
  using power_loop_powers[of n 4 0] by simp

lemma ibm2flt_exact:
  "ibm2flt ibm = (if unat (ibm ! 0) < 128 then 1 else - 1) * (of_nat (ibm_mantissa ibm) / 2 ^ 24) *
     16 powi (int (unat (ibm ! 0) mod 128) - 64)"
proof -
  define b q where "b = unat (ibm ! 0)" and "q = unat (ibm ! 0) mod 128"
  let ?m = "int (ibm_mantissa ibm)" and ?p = "int q - 64"
  have mant: "push_bit 16 (unat (ibm ! 1)) + push_bit 8 (unat (ibm ! 2)) + unat (ibm ! 3) = ibm_mantissa ibm"
    by (simp add: ibm_mantissa_def push_bit_eq_mult)
  have m: "\<bar>?m\<bar> < 2 ^ 53" using ibm_mantissa_bound[of ibm] by simp
  have up: "fdiv (fmul (2 ^ n) (of_int ?m)) 16777216 = of_int ?m / 2 ^ 24 * 2 ^ n" for n
    using round_dbl_dyadic[of "of_int ?m * 2 ^ n" ?m n 0] round_dbl_dyadic[of "of_int ?m * 2 ^ n / 2 ^ 24" ?m n 24] m
    by (simp add: fmul_def fdiv_def mult.commute)
  have down: "fdiv (fmul (1 / 2 ^ n) (of_int ?m)) 16777216 = of_int ?m / 2 ^ 24 / 2 ^ n" for n
    using round_dbl_dyadic[of "of_int ?m / 2 ^ n" ?m 0 n] round_dbl_dyadic[of "of_int ?m / (2 ^ n * 2 ^ 24)" ?m 0 "n + 24"] m
    by (simp add: fmul_def fdiv_def mult.commute power_add)
  have pow: "(16 :: rat) powi q = (if q < 0 then 1 / 2 ^ (4 * nat (- q)) else 2 ^ (4 * nat q))" for q
    by (simp add: power_int_def power_mult inverse_eq_divide power_divide)
  show ?thesis
  proof (cases "?p < 0")
    case True
    then have "(if 0 < ?p then nat ?p else nat (- ?p)) = nat (- ?p)" by simp
    with True show ?thesis unfolding ibm2flt_def mant ibm_first_byte unfolding q_def[symmetric] unfolding b_def[symmetric] Let_def power_16 pow
      using down[of "4 * nat (- ?p)"] by (simp add: fmul_powers)
  next
    case False
    then have "(if 0 < ?p then nat ?p else nat (- ?p)) = nat ?p" by simp
    with False show ?thesis unfolding ibm2flt_def mant ibm_first_byte unfolding q_def[symmetric] unfolding b_def[symmetric] Let_def power_16 pow
      using up[of "4 * nat ?p"] by simp
  qed
qed

section \<open>Numbers in the format of IEEE\<close>

text \<open>\<open>frexp\<close> of the standard library: a number from 1/2 up to 1 and a power of two.\<close>

definition frexp :: "rat \<Rightarrow> rat \<times> int" where
  "frexp x = (if x = 0 then (0, 0)
     else let e = (if \<bar>x\<bar> < 2 ^ 53 then 53 - int (scale_up \<bar>x\<bar> 0) else 53 + int (scale_down \<bar>x\<bar> 0)) in (x / 2 powi e, e))"

text \<open>The four bytes that \<open>flt2ieee\<close> stores for a \<open>float\<close>.\<close>

definition flt2ieee :: "rat \<Rightarrow> byte list" where
  "flt2ieee x =
     (if x = 0 then [0, 0, 0, 0]
      else let sign = (if x < 0 then 128 else 0); x = \<bar>x\<bar>;
               (mant, exp) = frexp x;
               umant = trunc (round_dbl (fmul mant 16777216 + 1 / 2));
               (umant, exp) = (if umant \<ge> 16777216 then (umant div 2, exp + 1) else (umant, exp));
               exp = exp - 1 + 127
           in if exp < 0 then [word_of_int sign, 0, 0, 0]
              else if exp > 255 then [word_of_int (sign + 127), 128, 0, 0]
              else [word_of_int (sign + drop_bit 1 exp),
                    word_of_int (push_bit 7 (and exp 1) + and (drop_bit 16 umant) 127),
                    word_of_int (and (drop_bit 8 umant) 255), word_of_int (and umant 255)])"

lemma frexp_range:
  assumes "0 < x"
  shows "1 / 2 \<le> fst (frexp x)" "fst (frexp x) < 1" "x = fst (frexp x) * 2 powi snd (frexp x)"
proof -
  have up: "1 / 2 \<le> x / 2 powi (53 - int k)" "x / 2 powi (53 - int k) < 1" if "2 ^ 52 \<le> x * 2 ^ k" "x * 2 ^ k < 2 ^ 53" for k
    using that by (simp_all add: power_int_diff divide_simps)
  have down: "1 / 2 \<le> x / 2 powi (53 + int k)" "x / 2 powi (53 + int k) < 1" if "2 ^ 52 \<le> x / 2 ^ k" "x / 2 ^ k < 2 ^ 53" for k
    using that by (simp_all add: power_int_add divide_simps)
  show "1 / 2 \<le> fst (frexp x)" "fst (frexp x) < 1"
    using assms up scale_up_range[of x 0] down scale_down_range[of x 0] by (auto simp: frexp_def Let_def)
  show "x = fst (frexp x) * 2 powi snd (frexp x)" using assms by (simp add: frexp_def Let_def)
qed

lemma frexp_unique:
  assumes "1 / 2 \<le> f" "f < 1"
  shows "frexp (f * 2 powi e) = (f, e)"
proof -
  let ?x = "f * 2 powi e" and ?g = "fst (frexp (f * 2 powi e))" and ?h = "snd (frexp (f * 2 powi e))"
  have "0 < ?x" using assms by simp
  note r = frexp_range[OF this]
  have halves: "(2 :: rat) powi (q - 1) = 2 powi q / 2" for q by (simp add: power_int_diff)
  have le: "p \<le> q" if "2 powi p / 2 \<le> y" "y < 2 powi q" for p q and y :: rat
  proof -
    have "(2 :: rat) powi (p - 1) < 2 powi q" using that by (simp add: halves)
    then have "\<not> q \<le> p - 1" using power_int_increasing[of q "p - 1" "2 :: rat"] by auto
    then show ?thesis by simp
  qed
  have between: "2 powi q / 2 \<le> g * 2 powi q" "g * 2 powi q < 2 powi q" if "1 / 2 \<le> g" "g < 1" for g :: rat and q
    using that by (simp_all add: field_simps)
  note between[OF assms, of e]
  moreover have "2 powi ?h / 2 \<le> ?x" "?x < 2 powi ?h"
    using between[OF r(1,2), of ?h] unfolding r(3)[symmetric] by blast+
  ultimately have "?h = e" using le by (meson order_antisym)
  with r(3) show ?thesis by (cases "frexp ?x") simp
qed

lemma unat_word_of_int_byte:
  assumes "0 \<le> k" "k < 256"
  shows "unat (word_of_int k :: byte) = nat k"
  using assms by (simp add: unat_eq_nat_uint uint_word_of_int)

lemma umant_normal:
  assumes "2 ^ 23 \<le> m" "m < 2 ^ 24"
  shows "trunc (round_dbl (fmul (of_int m / 2 ^ 24) 16777216 + 1 / 2)) = m"
proof -
  have "fmul (of_int m / 2 ^ 24) 16777216 = of_int m"
    using assms round_dbl_dyadic[of "of_int m" m 0 0] by (simp add: fmul_def)
  moreover have "round_dbl (of_int m + 1 / 2) = of_int m + 1 / 2"
    using assms by (intro round_dbl_dyadic[of _ "2 * m + 1" 0 1]) simp_all
  moreover have "\<lfloor>of_int m + 1 / 2 :: rat\<rfloor> = m" by (rule floor_unique) simp_all
  ultimately show ?thesis using assms by (simp add: trunc_def)
qed

lemma ieee_parts:
  fixes m E :: int
  assumes "2 ^ 23 \<le> m" "m < 2 ^ 24"
  shows "(E div 2) * 2 ^ 24 + (E mod 2 * 128 + m div 65536 mod 128) * 65536 + (m div 256 mod 256) * 256 + m mod 256 = E * 2 ^ 23 + (m - 2 ^ 23)"
proof -
  define q where "q = m div 65536"
  have "128 \<le> q" "q < 256" using assms by (simp_all add: q_def)
  then have "q mod 128 = q - 128" by presburger
  moreover have "q = m div 256 div 256" by (simp add: q_def zdiv_zmult2_eq[symmetric])
  then have "m = q * 65536 + (m div 256 mod 256) * 256 + m mod 256"
    using div_mult_mod_eq[of m 256] div_mult_mod_eq[of "m div 256" 256] by linarith
  moreover have "E = 2 * (E div 2) + E mod 2" by simp
  moreover have "n * 2 ^ 24 + (r * 128 + q') * 65536 + c * 256 + d = E * 2 ^ 23 + (m - 2 ^ 23)"
    if "q' = q - 128" "m = q * 65536 + c * 256 + d" "E = 2 * n + r" for n r c d q' :: int
    using that by simp
  ultimately show ?thesis by (simp only: q_def[symmetric])
qed

lemma of_bytes_of_ints:
  assumes "0 \<le> a" "a < 256" "0 \<le> b" "b < 256" "0 \<le> c" "c < 256" "0 \<le> d" "d < 256"
  shows "int (of_le_bytes (rev [word_of_int a, word_of_int b, word_of_int c, word_of_int d])) = d + 256 * (c + 256 * (b + 256 * a))"
  using assms by (simp add: unat_word_of_int_byte)

text \<open>A normal \<open>float\<close> is written as its bit pattern, the most significant byte first.\<close>

lemma flt2ieee_normal:
  assumes "2 ^ 23 \<le> m" "m < 2 ^ 24" "- 149 \<le> e" "e \<le> 104"
  shows "flt2ieee ((if negative then - 1 else 1) * of_int m * 2 powi e) =
    rev (le_bytes 4 (nat ((if negative then 2 ^ 31 else 0) + (e + 150) * 2 ^ 23 + (m - 2 ^ 23))))"
proof -
  let ?x = "(if negative then - 1 else 1) * of_int m * 2 powi e :: rat"
  let ?E = "e + 150" and ?s = "if negative then 128 else 0 :: int"
  let ?a = "?s + ?E div 2" and ?b = "?E mod 2 * 128 + m div 65536 mod 128" and ?c = "m div 256 mod 256" and ?d = "m mod 256"
  have "\<bar>?x\<bar> = of_int m / 2 ^ 24 * 2 powi (e + 24)"
    using assms(1) by (simp add: abs_mult power_int_add)
  moreover have "1 / 2 \<le> of_int m / (2 ^ 24 :: rat)" "of_int m / (2 ^ 24 :: rat) < 1"
    using assms(1,2) of_int_le_iff[of "2 ^ 23" m, where 'a = rat] of_int_less_iff[of m "2 ^ 24", where 'a = rat] by simp_all
  ultimately have fr: "frexp \<bar>?x\<bar> = (of_int m / 2 ^ 24, e + 24)" by (simp only: frexp_unique)
  have neg: "?x \<noteq> 0" "?x < 0 \<longleftrightarrow> negative"
    using assms(1) zero_less_power_int[of "2 :: rat" e] by (auto simp: mult_less_0_iff not_less)
  have masks: "and (drop_bit 16 m) 127 = m div 65536 mod 128" "and (drop_bit 8 m) 255 = m div 256 mod 256" "and m 255 = m mod 256"
    "and ?E 1 = ?E mod 2" "drop_bit 1 ?E = ?E div 2" "push_bit 7 (?E mod 2) = ?E mod 2 * 128"
    using take_bit_eq_mask[of 7 "drop_bit 16 m"] take_bit_eq_mask[of 8 "drop_bit 8 m"] take_bit_eq_mask[of 8 m]
    by (simp_all add: take_bit_eq_mod drop_bit_eq_div mask_eq_exp_minus_1 and_one_eq push_bit_eq_mult)
  have "flt2ieee ?x = [word_of_int ?a, word_of_int ?b, word_of_int ?c, word_of_int ?d]"
    unfolding flt2ieee_def Let_def fr case_prod_conv umant_normal[OF assms(1,2)] neg(2)
    using neg(1) assms masks(5) by (simp add: masks add.commute)
  moreover have "of_le_bytes (rev [word_of_int ?a, word_of_int ?b, word_of_int ?c, word_of_int ?d]) =
      nat ((if negative then 2 ^ 31 else 0) + ?E * 2 ^ 23 + (m - 2 ^ 23))"
  proof -
    have r: "0 \<le> ?a" "?a < 256" "0 \<le> ?b" "?b < 256" "0 \<le> ?c" "?c < 256" "0 \<le> ?d" "?d < 256"
      using assms(3,4) by auto
    have "int (of_le_bytes (rev [word_of_int ?a, word_of_int ?b, word_of_int ?c, word_of_int ?d])) = ?d + 256 * (?c + 256 * (?b + 256 * ?a))"
      by (rule of_bytes_of_ints[OF r])
    also have "\<dots> = (if negative then 2 ^ 31 else 0) + ?E * 2 ^ 23 + (m - 2 ^ 23)"
    proof -
      have "d + 256 * (c + 256 * (b + 256 * (k + n))) = k * 2 ^ 24 + (n * 2 ^ 24 + b * 65536 + c * 256 + d)" for b c d k n :: int
        by simp
      note this[of ?d ?c ?b ?s "?E div 2", unfolded ieee_parts[OF assms(1,2), of ?E]]
      moreover have "?s * 2 ^ 24 = (if negative then 2 ^ 31 else 0)" by simp
      ultimately show ?thesis by (simp only: add.assoc)
    qed
    finally show ?thesis by (metis nat_int)
  qed
  moreover have bytes: "xs = rev (le_bytes 4 v)" if "xs = ws" "of_le_bytes (rev ws) = v" "length ws = 4" for xs ws v
    using le_bytes_of_le_bytes[of "rev ws"] that by simp
  moreover have "length [word_of_int ?a :: byte, word_of_int ?b, word_of_int ?c, word_of_int ?d] = 4" by (simp only: list.size)
  ultimately show ?thesis by blast
qed

section \<open>Integers from bytes\<close>

text \<open>\<open>read_bytes<sz>(ptr)\<close> for an unsigned type of at least \<open>sz\<close> bytes.\<close>

definition read_bytes :: "host \<Rightarrow> nat \<Rightarrow> byte list \<Rightarrow> nat" where
  "read_bytes h sz ptr =
     (if is_little_endian h then foldl (\<lambda>result i. or result (push_bit (8 * (sz - 1 - i)) (unat (ptr ! i)))) 0 [0..<sz]
      else foldl (\<lambda>result i. or result (push_bit (8 * i) (unat (ptr ! i)))) 0 [0..<sz])"

lemma or_push_bit: "a < 2 ^ k \<Longrightarrow> or a (push_bit k b) = a + b * 2 ^ k" for a b :: nat
proof -
  assume "a < 2 ^ k"
  then have a: "take_bit k a = a" by (rule take_bit_nat_eq_self)
  have "and (take_bit k a) (push_bit k b) = 0" by (auto simp: bit_eq_iff bit_simps)
  then show ?thesis unfolding a by (simp only: disjunctive_add_eq_or[symmetric] push_bit_eq_mult)
qed

lemma of_le_bytes_snoc: "of_le_bytes (bs @ [b]) = of_le_bytes bs + 256 ^ length bs * unat b"
  by (induction bs) (simp_all add: algebra_simps)

lemma pow_256: "(256 :: nat) ^ n = 2 ^ (8 * n)"
  by (simp add: power_mult)

lemma read_little:
  assumes "n \<le> length bs"
  shows "foldl (\<lambda>result i. or result (push_bit (8 * i) (unat (bs ! i)))) 0 [0..<n] = of_le_bytes (take n bs)"
  using assms
proof (induction n)
  case (Suc n)
  then have "of_le_bytes (take n bs) < 2 ^ (8 * n)" using of_le_bytes_bound[of "take n bs"] by (simp add: pow_256)
  from or_push_bit[OF this, of "unat (bs ! n)"] Suc show ?case
    by (simp add: take_Suc_conv_app_nth of_le_bytes_snoc pow_256 mult.commute del: push_bit_of_nat)
qed simp

lemma read_big:
  assumes "n \<le> length bs" "n \<le> sz"
  shows "foldl (\<lambda>result i. or result (push_bit (8 * (sz - 1 - i)) (unat (bs ! i)))) 0 [0..<n] =
    push_bit (8 * (sz - n)) (of_le_bytes (rev (take n bs)))"
  using assms
proof (induction n)
  case (Suc n)
  let ?v = "of_le_bytes (rev (take n bs))" and ?b = "unat (bs ! n)"
  have e: "8 * (sz - n) = 8 * (sz - Suc n) + 8" "sz - 1 - n = sz - Suc n" using Suc.prems by simp_all
  have "push_bit (8 * (sz - n)) ?v = push_bit (8 * (sz - Suc n)) (push_bit 8 ?v)" unfolding e by (simp add: add.commute)
  moreover have "or (push_bit 8 ?v) ?b = ?b + 256 * ?v"
    using or_push_bit[of ?b 8 ?v] unat_byte_bound[of "bs ! n"] by (simp add: or.commute)
  ultimately have "or (push_bit (8 * (sz - n)) ?v) (push_bit (8 * (sz - 1 - n)) ?b) = push_bit (8 * (sz - Suc n)) (?b + 256 * ?v)"
    unfolding e(2) by (simp only: flip: push_bit_or)
  moreover have "of_le_bytes (rev (take (Suc n) bs)) = ?b + 256 * ?v" using Suc.prems by (simp add: take_Suc_conv_app_nth)
  ultimately show ?case using Suc by simp
qed simp

text \<open>
  On a little-endian host the bytes are read with the most significant first, on a big-endian host with the
  least significant first: the shifts are the same on every host, so that only the first is what is meant.
\<close>

lemma read_bytes_value:
  assumes "length ptr = sz"
  shows "read_bytes h sz ptr = (case h of LittleHost \<Rightarrow> of_le_bytes (rev ptr) | BigHost \<Rightarrow> of_le_bytes ptr)"
  using assms read_little[of sz ptr] read_big[of sz ptr sz] by (simp add: read_bytes_def split: host.split)

end
