(* ===== verification/Spec2Isabelle.thy ===== *)
theory Spec2Isabelle
  imports Serialization_Properties Ring_Properties Socket_Transfer File_Io Frames Time_Findings Time_Period Connection_Findings Task_Properties Pool_Properties Server_Properties Cut_Properties Errors
    Json_Settings Positions Requests Polygon_Properties Linear_Objects Legacy_Floats
begin

text \<open>
  OsterLib is a C++ library with a serialization component, a network component built on \<open>epoll\<close>
  worker threads, time intervals, geometry, conversions to and from JSON, arrays of several dimensions, and separate parts
  for images and the command line. This development models all but the last two. A message takes the following way through
  the program:

  \<^item> a user's process asks the connection's \<open>ConnectionIO\<close> to send values; they are serialized into a
    vector of a \<open>VectorizedBuffer\<close> and handed to \<open>writev\<close> (\<open>send.cpp\<close>);
  \<^item> on the other host \<open>epoll_wait\<close> reports the descriptor (\<open>Multiplexor\<close>), the worker looks up the
    connection that the event names (\<open>Worker\<close>, \<open>AbstractWorker\<close>) and calls its process;
  \<^item> the process receives into a \<open>RingBuffer\<close> (\<open>receive.cpp\<close>), whose segments are given to a
    \<open>StreamSerializer\<close>, which reads the values through a \<open>MultiBufferView\<close>.

  Other threads change the set of connections and processes through commands with promises that the
  worker's thread executes; a \<open>ThreadPool\<close> distributes connections over workers. The connections of a server come
  from its \<open>ConnectionAcceptor\<close>, which accepts them in a thread of its own and queues them for the pool's workers.

  The paths below are relative to \<open>src/include/OsterLib\<close> and \<open>src/src\<close>.

  \<^bold>\<open>Foundations.\<close> \<open>Prelude\<close>: bytes, \<open>size_t\<close> arithmetic that wraps at 64 bits, \<open>access\<close> for code that
  may index outside an object, and generic list facts. \<open>Byte_Order\<close>: \<open>byte_order.h\<close>,
  \<open>float_conv.h\<close>; the host's byte order is an argument, a floating-point number is its bit pattern. \<open>Legacy_Floats\<close>: numbers
  in the formats of IBM and IEEE (\<open>ibmtofloat.cpp\<close>, \<open>floattoieee.cpp\<close>), whose conversions are exact, integer powers
  (\<open>int_pow.cpp\<close>) and integers from bytes (\<open>byte_read.h\<close>).

  \<^bold>\<open>Serialization\<close> (\<open>serialization.h\<close>, \<open>serialization/\<close>). \<open>Multi_Buffer\<close> is \<open>multi_buffer.h\<close>: a cursor
  over spans, with checkpoints. \<open>Serial_Types\<close> turns the types that the templates dispatch on into
  the datatype \<open>ty\<close> with values \<open>val\<close> and models \<open>serial_size\<close>, \<open>min_serial_size\<close> and
  \<open>max_serial_size\<close>. \<open>Serializer\<close> has one definition per partial specialisation of \<open>Serialize\<close>,
  \<open>Stream_Serializer\<close> the state of \<open>StreamSerializer\<close> and one per \<open>Deserialize\<close>. The locales
  \<open>codec\<close> and \<open>functor_codec\<close> (\<open>Codec\<close>) state what a deserializer promises about an encoding:
  round trip, proper prefixes, arbitrary input. \<open>Codec_Containers\<close>, \<open>Codec_Functors\<close> and
  \<open>Serialization_Correct\<close> prove the promise of every functor and, by induction, of every type;
  \<open>Serialization_Resume\<close> treats input that arrives in pieces; \<open>Serialization_Properties\<close> holds the
  properties and the departures from them. \<open>File_Io\<close> is the functions on streams of files.

  \<^bold>\<open>Buffers\<close> (\<open>network/buffers/\<close>, \<open>network/send.cpp\<close>, \<open>network/receive.cpp\<close>). The locales of \<open>Fifo\<close>
  state what an outgoing buffer promises: over any history of writes and sends it is a queue.
  \<open>Ring_Buffer\<close> and \<open>Vectorized_Buffer\<close> interpret them; \<open>Ring_Properties\<close> has the properties of the
  ring, \<open>Socket_Transfer\<close> those of the other and of the transfer functions, with \<open>readv\<close> and
  \<open>writev\<close> as parameters. \<open>Frames\<close> is \<open>network/frame/\<close>, \<open>Requests\<close> the request command of \<open>network/worker/command.h\<close>
  with its two frames and its counts of bytes.

  \<^bold>\<open>Workers\<close> (\<open>network/\<close>). \<open>Events\<close>: masks, event handles, error codes. \<open>Syscalls\<close>: the calls of the
  operating system as a record of functions on a system state, which are a parameter of everything
  that follows; \<open>kernel_ok\<close> states what their documentation says, \<open>kernel_reliable\<close> that none of
  them refuses, and \<open>ref_sys\<close> is a system for which both hold. \<open>Multiplexor\<close>: \<open>multiplexor.cpp\<close>.
  \<open>Sockets\<close>: \<open>commonsocket.cpp\<close>, \<open>address.cpp\<close>. \<open>Worker_State\<close>: the data of a worker, connections,
  handles, commands, processes. \<open>Abstract_Worker\<close>: \<open>abstractworker.cpp\<close>, \<open>connectionhandle.cpp\<close>,
  \<open>abstractprocess.cpp\<close>. \<open>Thread_Pool\<close>: \<open>threadpool.cpp\<close>, the execution of the commands
  (\<open>worker/\<close>), the turns of the thread and the pool. A member function is a function from the
  worker's record to its result and the new record.
  \<open>Worker_Registration\<close> is an abstract machine over the view of a worker: what it records of every
  connection, and what the system has registered. \<open>Worker_Refinement\<close> and \<open>Worker_Steps\<close> show that
  every operation is a sequence of its steps, \<open>Worker_Properties\<close> defines the \<open>reachable\<close> states of a
  worker under its operations in any order and proves the invariants by rule induction,
  \<open>Worker_Completion\<close> follows the promises, \<open>Worker_Findings\<close> and \<open>Pool_Properties\<close> state the
  properties and the departures. \<open>Tasks\<close> is the tasks of \<open>abstractprocess.h\<close>: futures, handlers and
  threads, whose actions are an interleaved step relation; \<open>Task_Properties\<close> shows what holds of the result and
  the callback under every interleaving, and the departures of synchronous tasks.

  \<^bold>\<open>Connections.\<close> \<open>Connection_IO\<close> is \<open>network/connectionIO.h\<close> with the error handling of
  \<open>abstractprocess.h\<close>: the two buffers and the stream of a connection, and the events it switches in
  its worker. The stream's views are pointers into the ring's array and show what it holds when they are
  read. \<open>Connection_Properties\<close> proves that messages sent by one end are received by the other
  (\<open>io_ready\<close>, \<open>sent_out\<close>: what holds between two messages), that the event \<open>Out\<close> follows the unsent
  bytes, and that both ends use the worker only as \<open>ops_ok\<close> allows; \<open>Connection_Findings\<close> shows what happens
  when messages arrive in pieces or together, and on the error paths. The worker itself never looks
  into the object: in its state only the presence of it is recorded.

  \<^bold>\<open>Servers and clients.\<close> \<open>Settings\<close>: the options of connections as the bytes that \<open>setsockopt\<close> gets, the settings
  with their hand-written copies, protocol names. \<open>Acceptor\<close> is the \<open>ConnectionAcceptor\<close> of \<open>network/connection.cpp\<close>:
  the listening socket, the loops of the thread, closing. It works on the server's pool and on its own view of the
  system; what the workers do meanwhile is not interleaved with its loop, since the acceptor only adds to their queues. The
  mutex that \<open>stop\<close> holds while it joins the thread is treated apart, as the step relation \<open>stopping_step\<close>.
  \<open>Acceptor_Properties\<close> shows that the loop returns when it is stopped, and that every descriptor it opens is closed or
  queued once (\<open>handed_over\<close>, over any system with \<open>descriptor_laws\<close>). \<open>Server_Client\<close> is \<open>abstractserver.h\<close> and
  \<open>abstractclient.h\<close>; \<open>Server_Properties\<close> follows a connection from \<open>accept\<close> through the worker's queue to its
  process, and has the departures.

  \<^bold>\<open>Time\<close> (\<open>types/time_interval.h\<close>). \<open>Calendar\<close> is the calendar part of \<open>std::chrono\<close>, \<open>Double\<close> the
  rounding of \<open>double\<close> arithmetic over the rationals. \<open>Date_Time_Diff\<close>, \<open>Time_Interval\<close> and
  \<open>Time_Sequence\<close> are the classes, \<open>Time_Serialization\<close> their functors; \<open>Time_Properties\<close> and
  \<open>Time_Findings\<close> hold the properties and the departures. \<open>Time_Text\<close> is \<open>parsing.h\<close> and the text forms of
  differences, \<open>Time_Period\<close> is \<open>types/time_period.h\<close> with the text of periods and their serialization.

  \<^bold>\<open>Errors\<close> (\<open>error.h\<close>, \<open>contexted_error.h\<close>). \<open>Errors\<close>: the error category, errors with context and their cached text, whose
  invariant is proved over all ways to make an error (\<open>made\<close>), and the functors for fields.

  \<^bold>\<open>Geometry\<close> (\<open>geometry/\<close>). \<open>Geometry\<close>: points and lines of the plane over \<open>long double\<close>, which is a rational number
  rounded to 64 bits after every operation. \<open>Geometry_Properties\<close> proves the segment test exact on integral coordinates of
  at most 30 bits, against segments as sets of points. \<open>Polylines\<close> is \<open>Polyline.h\<close>; the locale \<open>crossing_list\<close> of
  \<open>Polyline_Properties\<close> states what both loops that collect crossings do, and is interpreted on each of them.
  \<open>Cut_Properties\<close> treats the pieces of a cut and has the departures. \<open>Polygons\<close> is \<open>Polygon.h\<close>; the locale
  \<open>extreme_positions\<close> of \<open>Polygon_Extremes\<close> states what an update of a list of extreme positions promises, is interpreted on
  each of the four updates, and gives the invariant of all polygons that the operations build (\<open>well_tracked\<close>);
  \<open>Polygon_Properties\<close> proves the validity test and the orientation exact for small integral coordinates and has the departures.

  \<^bold>\<open>JSON\<close> (\<open>boost_functional/\<close>). \<open>Json\<close>: the library is a record of functions with the laws \<open>json_laws\<close>, which \<open>tree_lib\<close>
  satisfies; the templates are one definition per constraint, put together by recursion over the convertible types, and reading
  a file is a \<open>partial_function\<close>. \<open>Json_Settings\<close> has the conversions of options, addresses and settings and what they
  lose, \<open>Positions\<close> coordinates and positions (\<open>types/coord.h\<close>, \<open>types/position.h\<close>) and the JSON of periods.

  \<^bold>\<open>Linear objects\<close> (\<open>linalgebra/\<close>). \<open>Linear_Objects\<close>: arrays with ranks, their elements and the views into them, over named
  arrays of a memory, so that a view shows what its owner holds.

  \<^bold>\<open>Bounds.\<close> Loops are structural recursion where their bound is known in advance. The iteration over a
  ring has its size as fuel, \<open>consume\<close> one round more than there are \<open>iovec\<close>s; both are
  shown to be enough. The two waiting loops of the multiplexor and the loop of the acceptor are
  \<open>partial_function\<close>s: not returning is \<open>None\<close>. Integers have the width of the source where they can leave it: \<open>size_t\<close> differences wrap,
  connection identifiers and masks are 32-bit words.

  \<^bold>\<open>Hypotheses.\<close> Besides typing and invariants the properties assume, where they say so, that system
  calls behave as documented (\<open>kernel_ok\<close>, \<open>readv_spec\<close>, \<open>writev_spec\<close>), that the
  library for JSON gives back what a value has been made of (\<open>json_laws\<close>), that the
  virtual functions a user implements act on the worker only through its interface (\<open>ops_ok\<close>), that \<open>accept\<close> yields
  new descriptors and \<open>close\<close> gives them back (\<open>descriptor_laws\<close>), that \<open>fcntl\<close> shows a socket as non-blocking
  (\<open>non_blocking\<close>), and that a command is queued with a new handle (\<open>fresh_command\<close>). One worker has one thread; the public
  operations of other threads are interleaved with its turns, each under the worker's mutex.

  \<^bold>\<open>Not modelled.\<close> The moves of task handlers, which leave the old handler in the thread; the text of time points and the JSON
  of intervals, and what is printed; associative containers in JSON and the products of linear objects, which do not compile;
  cutting and intersecting polygons, which is commented out; overflow of the exponent and the special values of floating-point
  numbers; interpolation, images and colours; the vendored line editor \<open>linenoise\<close> and the command line; and \<open>arch/\<close>, which holds
  older copies of files.
\<close>

end
